(* ===== verification/Py_Prelude.thy ===== *)
theory Py_Prelude
  imports Complex_Main "HOL-Library.Char_ord" "HOL-Library.List_Lexorder" "HOL-Library.Sublist"
begin

text \<open>
  The prelude of the development: what the components share of Python itself.
  It holds exceptions as values and the error-passing combinators, the string operations the
  scripts use (decimal formatting, splitting, stripping, reading of integers), JSON values with
  Python's equality, and Python numbers (unbounded integers and binary64 floats).
  Characters are the code points below 256, compared by code point.
\<close>

named_theorems res_simps \<open>rewriting of the error-passing combinators\<close>
named_theorems str_simps \<open>rewriting of the string operations\<close>
named_theorems valid_intros \<open>introduction rules of well-formedness predicates\<close>

section \<open>Exceptions as values\<close>

datatype exn_class =
    ValueError | KeyError | TypeError | IndexError | AttributeError | ZeroDivisionError
  | OSError | FileExistsError | URLError | RuntimeError | DatasetError | RunError
  | ResetGuardError | JSONDecodeError | StopIteration | OtherException
  | TimeoutExpired | CalledProcessError | UnicodeDecodeError | OverflowError | AssertionError
  | KeyboardInterrupt | SystemExit

datatype exn = Exn (exn_cls: exn_class) (exn_msg: string)

text \<open>
  The class hierarchy the \<open>except\<close> clauses of the scripts rely on:
  \<open>exn_isa c d\<close> when \<open>c\<close> is \<open>d\<close> or derives from it.
\<close>

fun exn_parent :: "exn_class \<Rightarrow> exn_class option" where
  "exn_parent JSONDecodeError = Some ValueError"
| "exn_parent DatasetError = Some RuntimeError"
| "exn_parent RunError = Some RuntimeError"
| "exn_parent ResetGuardError = Some RuntimeError"
| "exn_parent URLError = Some OSError"
| "exn_parent FileExistsError = Some OSError"
| "exn_parent UnicodeDecodeError = Some ValueError"
| "exn_parent _ = None"

definition exn_isa :: "exn_class \<Rightarrow> exn_class \<Rightarrow> bool" where
  "exn_isa c d = (c = d \<or> exn_parent c = Some d)"

definition caught_by :: "exn_class list \<Rightarrow> exn \<Rightarrow> bool" where
  "caught_by ds e = list_ex (exn_isa (exn_cls e)) ds"

text \<open>\<open>except Exception\<close> catches everything but the two exceptions outside that class.\<close>

definition is_exception :: "exn \<Rightarrow> bool" where
  "is_exception e = (exn_cls e \<noteq> KeyboardInterrupt \<and> exn_cls e \<noteq> SystemExit)"

type_synonym 'a res = "exn + 'a"

fun rbind :: "'a res \<Rightarrow> ('a \<Rightarrow> 'b res) \<Rightarrow> 'b res" where
  "rbind (Inl e) f = Inl e"
| "rbind (Inr x) f = f x"

definition require :: "bool \<Rightarrow> exn_class \<Rightarrow> string \<Rightarrow> unit res" where
  "require b c m = (if b then Inr () else Inl (Exn c m))"

fun fold_res :: "('s \<Rightarrow> 'x \<Rightarrow> 's res) \<Rightarrow> 's \<Rightarrow> 'x list \<Rightarrow> 's res" where
  "fold_res f s [] = Inr s"
| "fold_res f s (x # xs) = rbind (f s x) (\<lambda>s'. fold_res f s' xs)"

fun map_res :: "('x \<Rightarrow> 'y res) \<Rightarrow> 'x list \<Rightarrow> 'y list res" where
  "map_res f [] = Inr []"
| "map_res f (x # xs) = rbind (f x) (\<lambda>y. rbind (map_res f xs) (\<lambda>ys. Inr (y # ys)))"

lemma rbind_Inr_iff [res_simps]: "rbind m f = Inr y \<longleftrightarrow> (\<exists>x. m = Inr x \<and> f x = Inr y)"
  by (cases m) auto

lemma rbind_Inl_iff:
  "rbind m f = Inl e \<longleftrightarrow> m = Inl e \<or> (\<exists>x. m = Inr x \<and> f x = Inl e)"
  by (cases m) auto

lemma rbind_assoc: "rbind (rbind m f) g = rbind m (\<lambda>x. rbind (f x) g)"
  by (cases m) auto

lemma require_Inr_iff [res_simps]: "require b c m = Inr u \<longleftrightarrow> b"
  by (simp add: require_def)

lemma require_Inl_iff [res_simps]: "require b c m = Inl e \<longleftrightarrow> \<not> b \<and> e = Exn c m"
  by (auto simp: require_def)

lemma fold_res_append:
  "fold_res f s (xs @ ys) = rbind (fold_res f s xs) (\<lambda>s'. fold_res f s' ys)"
  by (induction xs arbitrary: s) (auto simp: rbind_assoc)

lemma fold_res_invariant:
  assumes "fold_res f s xs = Inr s'" and "I s"
    and "\<And>s x s'. x \<in> set xs \<Longrightarrow> I s \<Longrightarrow> f s x = Inr s' \<Longrightarrow> I s'"
  shows "I s'"
  using assms
proof (induction xs arbitrary: s)
  case (Cons x xs)
  then obtain t where t: "f s x = Inr t" "fold_res f t xs = Inr s'"
    by (auto simp: res_simps)
  have "I t" using Cons.prems t by auto
  with t Cons show ?case by (meson list.set_intros(2))
qed simp

lemma map_res_Inr_length: "map_res f xs = Inr ys \<Longrightarrow> length ys = length xs"
  by (induction xs arbitrary: ys) (auto simp: res_simps)

lemma map_res_Inr_nth:
  "map_res f xs = Inr ys \<Longrightarrow> i < length xs \<Longrightarrow> f (xs ! i) = Inr (ys ! i)"
  by (induction xs arbitrary: ys i) (auto simp: res_simps nth_Cons split: nat.splits)

section \<open>Integer division\<close>

lemma int_div_less: "0 < b \<Longrightarrow> a < b * c \<Longrightarrow> a div b < (c::int)"
proof -
  assume b: "0 < b" and a: "a < b * c"
  have "b * (a div b) \<le> a" using b by (simp add: minus_mod_eq_mult_div [symmetric])
  with a have "b * (a div b) < b * c" by linarith
  with b show ?thesis by simp
qed

section \<open>Characters and strings\<close>

definition char_between :: "char \<Rightarrow> char \<Rightarrow> char \<Rightarrow> bool" where
  "char_between lo hi c = (of_char lo \<le> (of_char c :: nat) \<and> of_char c \<le> (of_char hi :: nat))"

definition is_digit :: "char \<Rightarrow> bool" where
  "is_digit c = char_between CHR ''0'' CHR ''9'' c"

definition is_lower :: "char \<Rightarrow> bool" where
  "is_lower c = char_between CHR ''a'' CHR ''z'' c"

definition is_upper :: "char \<Rightarrow> bool" where
  "is_upper c = char_between CHR ''A'' CHR ''Z'' c"

text \<open>\<open>str.lower\<close> on the letters of ASCII; other characters are kept.\<close>

definition to_lower :: "char \<Rightarrow> char" where
  "to_lower c = (if is_upper c then char_of ((of_char c :: nat) + 32) else c)"

definition py_lower :: "string \<Rightarrow> string" where
  "py_lower s = map to_lower s"

text \<open>The white space of \<open>str.strip\<close> and the line boundaries of \<open>str.splitlines\<close>.\<close>

definition is_space :: "char \<Rightarrow> bool" where
  "is_space c = (let n = (of_char c :: nat)
     in (9 \<le> n \<and> n \<le> 13) \<or> (28 \<le> n \<and> n \<le> 32) \<or> n = 133 \<or> n = 160)"

definition is_line_break :: "char \<Rightarrow> bool" where
  "is_line_break c = (let n = (of_char c :: nat)
     in (10 \<le> n \<and> n \<le> 13) \<or> (28 \<le> n \<and> n \<le> 30) \<or> n = 133)"

abbreviation nl :: char where "nl \<equiv> CHR 0x0A"
abbreviation cr :: char where "cr \<equiv> CHR 0x0D"
abbreviation tab :: char where "tab \<equiv> CHR 0x09"
abbreviation quot :: char where "quot \<equiv> CHR 0x27"
abbreviation dquot :: char where "dquot \<equiv> CHR 0x22"

definition py_strip :: "string \<Rightarrow> string" where
  "py_strip s = rev (dropWhile is_space (rev (dropWhile is_space s)))"

fun splitlines_from :: "string \<Rightarrow> string \<Rightarrow> string list" where
  "splitlines_from acc [] = (if acc = [] then [] else [rev acc])"
| "splitlines_from acc (c # cs) =
     (if c = cr then rev acc # (case cs of
          [] \<Rightarrow> splitlines_from [] cs
        | d # ds \<Rightarrow> if d = nl then splitlines_from [] ds else splitlines_from [] cs)
      else if is_line_break c then rev acc # splitlines_from [] cs
      else splitlines_from (c # acc) cs)"

definition splitlines :: "string \<Rightarrow> string list" where
  "splitlines s = splitlines_from [] s"

text \<open>\<open>s.split(c)\<close> for a separator of one character: empty pieces are kept.\<close>

fun split_on :: "char \<Rightarrow> string \<Rightarrow> string list" where
  "split_on d [] = [[]]"
| "split_on d (c # cs) =
     (if c = d then [] # split_on d cs
      else (case split_on d cs of [] \<Rightarrow> [[c]] | p # ps \<Rightarrow> (c # p) # ps))"

text \<open>\<open>s.split(c, k)\<close>: at most \<open>k\<close> splits, the rest of the text is the last piece.\<close>

fun split_max :: "nat \<Rightarrow> char \<Rightarrow> string \<Rightarrow> string list" where
  "split_max k d [] = [[]]"
| "split_max k d (c # cs) =
     (if k = 0 then [c # cs]
      else if c = d then [] # split_max (k - 1) d cs
      else (case split_max k d cs of [] \<Rightarrow> [[c]] | p # ps \<Rightarrow> (c # p) # ps))"

fun join_with :: "string \<Rightarrow> string list \<Rightarrow> string" where
  "join_with sep [] = []"
| "join_with sep [s] = s"
| "join_with sep (s # t # ss) = s @ sep @ join_with sep (t # ss)"

text \<open>\<open>s.split()\<close>: the pieces between white space.\<close>

fun words_from :: "string \<Rightarrow> string \<Rightarrow> string list" where
  "words_from acc [] = (if acc = [] then [] else [rev acc])"
| "words_from acc (c # cs) =
     (if is_space c then (if acc = [] then [] else [rev acc]) @ words_from [] cs
      else words_from (c # acc) cs)"

definition py_words :: "string \<Rightarrow> string list" where
  "py_words s = words_from [] s"

text \<open>Everything before the last slash.\<close>

definition path_parent :: "string \<Rightarrow> string" where
  "path_parent p = rev (drop 1 (dropWhile (\<lambda>c. c \<noteq> CHR ''/'') (rev p)))"

definition path_name :: "string \<Rightarrow> string" where
  "path_name p = rev (takeWhile (\<lambda>c. c \<noteq> CHR ''/'') (rev p))"

definition startswith :: "string \<Rightarrow> string \<Rightarrow> bool" where
  "startswith s p = (take (length p) s = p)"

text \<open>\<open>p in s\<close> for strings: \<open>p\<close> occurs in \<open>s\<close>.\<close>

fun contains :: "string \<Rightarrow> string \<Rightarrow> bool" where
  "contains [] p = (p = [])"
| "contains (c # cs) p = (startswith (c # cs) p \<or> contains cs p)"

text \<open>
  \<open>s.split(p, 1)\<close> for a separator of any length: the text before and after its first occurrence.
\<close>

fun split_once :: "string \<Rightarrow> string \<Rightarrow> (string \<times> string) option" where
  "split_once p [] = (if p = [] then Some ([], []) else None)"
| "split_once p (c # cs) =
     (if startswith (c # cs) p then Some ([], drop (length p) (c # cs))
      else map_option (\<lambda>(a, b). (c # a, b)) (split_once p cs))"

text \<open>\<open>s.replace(p, q)\<close> for a non-empty \<open>p\<close>; the number bounds the occurrences.\<close>

fun replace_from :: "nat \<Rightarrow> string \<Rightarrow> string \<Rightarrow> string \<Rightarrow> string" where
  "replace_from 0 p q s = s"
| "replace_from (Suc n) p q s = (case split_once p s of
      None \<Rightarrow> s
    | Some (a, b) \<Rightarrow> a @ q @ replace_from n p q b)"

definition py_replace :: "string \<Rightarrow> string \<Rightarrow> string \<Rightarrow> string" where
  "py_replace p q s = replace_from (length s) p q s"

definition py_rstrip :: "char \<Rightarrow> string \<Rightarrow> string" where
  "py_rstrip c s = rev (dropWhile (\<lambda>d. d = c) (rev s))"

definition endswith :: "string \<Rightarrow> string \<Rightarrow> bool" where
  "endswith s p = startswith (rev s) (rev p)"

text \<open>\<open>x or y\<close> on strings.\<close>

definition str_or :: "string \<Rightarrow> string \<Rightarrow> string" where
  "str_or s t = (if s = [] then t else s)"

lemma split_once_Some: "split_once p s = Some (a, b) \<Longrightarrow> s = a @ p @ b"
proof (induction s arbitrary: a)
  case (Cons c s)
  show ?case
  proof (cases "startswith (c # s) p")
    case True
    with Cons.prems show ?thesis
      by (auto simp: startswith_def) (metis append_take_drop_id)
  next
    case False
    with Cons show ?thesis by auto
  qed
qed (auto split: if_splits)

lemma split_once_None_iff: "split_once p s = None \<longleftrightarrow> \<not> contains s p"
  by (induction s) auto

text \<open>Equations that evaluate as little as the code does.\<close>

lemma startswith_code [code]:
  "startswith s [] = True"
  "startswith [] (c # p) = False"
  "startswith (a # s) (c # p) = (if a = c then startswith s p else False)"
  by (auto simp: startswith_def)

lemma contains_code [code]:
  "contains [] p = (p = [])"
  "contains (c # cs) p = (if startswith (c # cs) p then True else contains cs p)"
  by auto

lemma startswith_append [str_simps, simp]: "startswith (p @ s) p"
  by (simp add: startswith_def)

lemma startswith_prefix: "startswith s p \<longleftrightarrow> prefix p s"
  by (metis append_take_drop_id prefix_def startswith_append startswith_def)

lemma contains_sublist: "contains s p \<longleftrightarrow> sublist p s"
  by (induction s) (auto simp: startswith_prefix sublist_Cons_right)

lemma split_on_not_Nil [simp]: "split_on d s \<noteq> []"
  by (induction s) (auto split: list.splits)

lemma split_on_no_sep [str_simps]: "d \<notin> set s \<Longrightarrow> split_on d s = [s]"
  by (induction s) auto

lemma split_on_append [str_simps]:
  "d \<notin> set s \<Longrightarrow> split_on d (s @ d # t) = s # split_on d t"
  by (induction s) auto

lemma split_max_append [str_simps]:
  "d \<notin> set s \<Longrightarrow> split_max (Suc 0) d (s @ d # t) = [s, t]"
  by (induction s) (cases t; auto)+

lemma splitlines_from_plain:
  "(\<forall>c \<in> set s. \<not> is_line_break c) \<Longrightarrow>
     splitlines_from acc (s @ t) = splitlines_from (rev s @ acc) t"
  by (induction s arbitrary: acc) (auto simp: is_line_break_def)

lemma nl_line_break [simp]: "is_line_break nl"
  by (simp add: is_line_break_def)

lemma splitlines_line [str_simps]:
  assumes "\<forall>c \<in> set s. \<not> is_line_break c"
  shows "splitlines (s @ nl # t) = s # splitlines t"
  using splitlines_from_plain [OF assms, of "[]" "nl # t"]
  by (simp add: splitlines_def)

lemma splitlines_last [str_simps]:
  assumes "\<forall>c \<in> set s. \<not> is_line_break c" and "s \<noteq> []"
  shows "splitlines s = [s]"
  using splitlines_from_plain [OF assms(1), of "[]" "[]"] assms(2)
  by (simp add: splitlines_def)

lemma splitlines_Nil [simp]: "splitlines [] = []"
  by (simp add: splitlines_def)

section \<open>Decimal numbers\<close>

definition digit_char :: "nat \<Rightarrow> char" where
  "digit_char d = char_of (48 + d)"

definition digit_val :: "char \<Rightarrow> nat" where
  "digit_val c = of_char c - 48"

fun nat_str :: "nat \<Rightarrow> string" where
  "nat_str n = (if n < 10 then [digit_char n] else nat_str (n div 10) @ [digit_char (n mod 10)])"

declare nat_str.simps [simp del]

lemma nat_str_code [code]:
  "nat_str n = (if n < 10 then [digit_char n] else nat_str (n div 10) @ [digit_char (n mod 10)])"
  by (rule nat_str.simps)

definition int_str :: "int \<Rightarrow> string" where
  "int_str i = (if i < 0 then CHR ''-'' # nat_str (nat (- i)) else nat_str (nat i))"

text \<open>\<open>f"{i:0wd}"\<close>: zeros after the sign up to the width, never cut.\<close>

definition zpad :: "nat \<Rightarrow> string \<Rightarrow> string" where
  "zpad w s = replicate (w - length s) CHR ''0'' @ s"

definition fmt_d :: "nat \<Rightarrow> int \<Rightarrow> string" where
  "fmt_d w i = (if i < 0 then CHR ''-'' # zpad (w - 1) (nat_str (nat (- i)))
                else zpad w (nat_str (nat i)))"

text \<open>Value of a digit string, most significant digit first.\<close>

definition digits_val :: "string \<Rightarrow> nat" where
  "digits_val s = foldl (\<lambda>a c. 10 * a + digit_val c) 0 s"

lemma digit_val_char [simp]: "d < 10 \<Longrightarrow> digit_val (digit_char d) = d"
  by (simp add: digit_val_def digit_char_def)

lemma is_digit_char [simp]: "d < 10 \<Longrightarrow> is_digit (digit_char d)"
  by (simp add: is_digit_def digit_char_def char_between_def)

lemma digits_val_snoc [simp]: "digits_val (s @ [c]) = 10 * digits_val s + digit_val c"
  by (simp add: digits_val_def)

lemma digits_val_nat_str [simp]: "digits_val (nat_str n) = n"
proof (induction n rule: nat_str.induct)
  case (1 n)
  show ?case
  proof (cases "n < 10")
    case True
    then show ?thesis by (simp add: nat_str.simps [of n] digits_val_def)
  next
    case False
    with 1 show ?thesis by (simp add: nat_str.simps [of n])
  qed
qed

lemma nat_str_inj [simp]: "nat_str m = nat_str n \<longleftrightarrow> m = n"
  by (metis digits_val_nat_str)

lemma nat_str_digits: "c \<in> set (nat_str n) \<Longrightarrow> is_digit c"
proof (induction n rule: nat_str.induct)
  case (1 n)
  then show ?case by (cases "n < 10") (auto simp: nat_str.simps [of n])
qed

lemma nat_str_not_Nil [simp]: "nat_str n \<noteq> []"
  by (simp add: nat_str.simps [of n])

lemma length_nat_str_le: "n < 10 ^ Suc k \<Longrightarrow> length (nat_str n) \<le> Suc k"
proof (induction k arbitrary: n)
  case 0
  then show ?case by (simp add: nat_str.simps [of n])
next
  case (Suc k)
  show ?case
  proof (cases "n < 10")
    case True
    then show ?thesis by (simp add: nat_str.simps [of n])
  next
    case False
    have "n div 10 < 10 ^ Suc k"
      using Suc.prems by (simp add: less_mult_imp_div_less mult.commute)
    from Suc.IH [OF this] False show ?thesis by (simp add: nat_str.simps [of n])
  qed
qed

lemma digits_val_replicate0 [simp]: "digits_val (replicate k CHR ''0'' @ s) = digits_val s"
proof -
  have "foldl (\<lambda>a c. 10 * a + digit_val c) 0 (replicate k CHR ''0'') = 0"
    by (induction k) (auto simp: digit_val_def)
  then show ?thesis by (simp add: digits_val_def)
qed

lemma digits_val_zpad [simp]: "digits_val (zpad w s) = digits_val s"
  by (simp add: zpad_def)

lemma zpad_inj [simp]: "zpad w (nat_str m) = zpad w (nat_str n) \<longleftrightarrow> m = n"
  by (metis digits_val_nat_str digits_val_zpad)

lemma length_zpad [simp]: "length (zpad w s) = max w (length s)"
  by (simp add: zpad_def)

lemma set_zpad: "c \<in> set (zpad w (nat_str n)) \<Longrightarrow> is_digit c"
  by (auto simp: zpad_def is_digit_def char_between_def dest: nat_str_digits [unfolded is_digit_def]
        split: if_splits)

lemma fmt_d_nonneg: "0 \<le> i \<Longrightarrow> fmt_d w i = zpad w (nat_str (nat i))"
  by (simp add: fmt_d_def)

lemma fmt_d_inj: "0 \<le> i \<Longrightarrow> 0 \<le> j \<Longrightarrow> fmt_d w i = fmt_d w j \<longleftrightarrow> i = j"
  by (simp add: fmt_d_nonneg eq_nat_nat_iff)

text \<open>
  \<open>int(s)\<close>: white space around, an optional sign, digits that single underscores may
  separate; anything else raises ValueError.
\<close>

fun parse_digits :: "nat \<Rightarrow> string \<Rightarrow> nat option" where
  "parse_digits a [] = Some a"
| "parse_digits a (c # cs) =
     (if is_digit c then parse_digits (10 * a + digit_val c) cs
      else if c = CHR ''_'' then (case cs of
          [] \<Rightarrow> None
        | d # ds \<Rightarrow> if is_digit d then parse_digits (10 * a + digit_val d) ds else None)
      else None)"

definition parse_nat :: "string \<Rightarrow> nat option" where
  "parse_nat s = (case s of [] \<Rightarrow> None | c # cs \<Rightarrow>
     if is_digit c then parse_digits 0 s else None)"

definition py_int :: "string \<Rightarrow> int res" where
  "py_int s =
     (let t = py_strip s;
          r = (case t of
                 [] \<Rightarrow> None
               | c # cs \<Rightarrow>
                   if c = CHR ''-'' then map_option (\<lambda>n. - int n) (parse_nat cs)
                   else if c = CHR ''+'' then map_option int (parse_nat cs)
                   else map_option int (parse_nat t))
      in case r of
           None \<Rightarrow> Inl (Exn ValueError (''invalid literal for int() with base 10: '' @ s))
         | Some i \<Rightarrow> Inr i)"

lemma parse_digits_all:
  "(\<forall>c \<in> set s. is_digit c) \<Longrightarrow>
     parse_digits a s = Some (foldl (\<lambda>a c. 10 * a + digit_val c) a s)"
  by (induction s arbitrary: a) auto

lemma parse_nat_nat_str [simp]: "parse_nat (nat_str n) = Some n"
proof -
  have "\<forall>c \<in> set (nat_str n). is_digit c" by (auto dest: nat_str_digits)
  then show ?thesis
    using digits_val_nat_str [of n]
    by (auto simp: parse_nat_def parse_digits_all digits_val_def split: list.splits)
qed

lemma is_digit_not_space: "is_digit c \<Longrightarrow> \<not> is_space c"
  by (auto simp: is_digit_def is_space_def char_between_def Let_def)

lemma py_strip_id: "s \<noteq> [] \<Longrightarrow> \<not> is_space (hd s) \<Longrightarrow> \<not> is_space (last s) \<Longrightarrow> py_strip s = s"
proof -
  assume s: "s \<noteq> []" "\<not> is_space (hd s)" "\<not> is_space (last s)"
  have front: "dropWhile is_space t = t" if "t \<noteq> []" "\<not> is_space (hd t)" for t
    using that by (cases t) auto
  show ?thesis
    using s by (simp add: py_strip_def front hd_rev)
qed

lemma nat_str_hd: "\<not> is_space (hd (nat_str n))"
  using nat_str_digits [of "hd (nat_str n)" n] by (simp add: is_digit_not_space)

lemma nat_str_last: "\<not> is_space (last (nat_str n))"
  using nat_str_digits [of "last (nat_str n)" n] by (simp add: is_digit_not_space)

text \<open>Round trip: \<open>int(str(i))\<close> is \<open>i\<close> for every integer.\<close>

lemma py_int_int_str [simp]: "py_int (int_str i) = Inr i"
proof (cases "i < 0")
  case True
  have "py_strip (CHR ''-'' # nat_str (nat (- i))) = CHR ''-'' # nat_str (nat (- i))"
    by (rule py_strip_id) (simp_all add: nat_str_last, simp add: is_space_def)
  with True show ?thesis by (simp add: py_int_def int_str_def)
next
  case False
  have strip: "py_strip (nat_str (nat i)) = nat_str (nat i)"
    by (rule py_strip_id) (auto simp: nat_str_hd nat_str_last)
  obtain c cs where c: "nat_str (nat i) = c # cs"
    by (metis nat_str_not_Nil neq_Nil_conv)
  then have "is_digit c" by (metis list.set_intros(1) nat_str_digits)
  then have "c \<noteq> CHR ''-''" and "c \<noteq> CHR ''+''"
    by (auto simp: is_digit_def char_between_def)
  moreover have "parse_nat (c # cs) = Some (nat i)" by (metis c parse_nat_nat_str)
  ultimately show ?thesis using False strip c by (simp add: py_int_def int_str_def)
qed

section \<open>Query strings\<close>

text \<open>\<open>urlencode\<close>: blanks become plus signs, other reserved bytes are percent-encoded.\<close>

definition upper_hex :: "nat \<Rightarrow> char" where
  "upper_hex d = (if d < 10 then char_of (48 + d) else char_of (55 + d))"

definition quote_plus :: "string \<Rightarrow> string" where
  "quote_plus s = concat (map (\<lambda>c. let n = (of_char c :: nat) in
     if is_lower c \<or> is_upper c \<or> is_digit c \<or> c \<in> set ''_.-~'' then [c]
     else if n = 32 then ''+''
     else if n < 128 then [CHR ''%'', upper_hex (n div 16), upper_hex (n mod 16)]
     else (let a = 192 + n div 64; b = 128 + n mod 64 in
       [CHR ''%'', upper_hex (a div 16), upper_hex (a mod 16),
        CHR ''%'', upper_hex (b div 16), upper_hex (b mod 16)])) s)"

definition urlencode :: "(string \<times> string) list \<Rightarrow> string" where
  "urlencode kvs = join_with ''&'' (map (\<lambda>(k, v). quote_plus k @ ''='' @ quote_plus v) kvs)"

text \<open>\<open>s.count(p)\<close> for a non-empty \<open>p\<close>: occurrences that do not overlap.\<close>

fun count_from :: "nat \<Rightarrow> string \<Rightarrow> string \<Rightarrow> nat" where
  "count_from 0 p s = 0"
| "count_from (Suc n) p s = (case split_once p s of None \<Rightarrow> 0 | Some (a, b) \<Rightarrow> Suc (count_from n p b))"

definition count_sub :: "string \<Rightarrow> string \<Rightarrow> nat" where
  "count_sub s p = count_from (length s) p s"

text \<open>\<open>subprocess.list2cmdline\<close>: the arguments joined by blanks, quoted where they need it.\<close>

fun quote_arg :: "string \<Rightarrow> string \<Rightarrow> bool \<Rightarrow> string" where
  "quote_arg bs [] q = bs @ (if q then bs @ [dquot] else [])"
| "quote_arg bs (c # cs) q =
     (if c = CHR 0x5C then quote_arg (c # bs) cs q
      else if c = dquot then bs @ bs @ [CHR 0x5C, dquot] @ quote_arg [] cs q
      else bs @ [c] @ quote_arg [] cs q)"

definition needs_quote :: "string \<Rightarrow> bool" where
  "needs_quote a = (CHR '' '' \<in> set a \<or> tab \<in> set a \<or> a = [])"

definition list2cmdline :: "string list \<Rightarrow> string" where
  "list2cmdline xs = join_with '' '' (map (\<lambda>a. (if needs_quote a then [dquot] else [])
     @ quote_arg [] a (needs_quote a)) xs)"

end
