(* ===== verification/Py_Json.thy ===== *)
theory Py_Json
  imports Py_Prelude "HOL-Library.AList" "HOL-Library.Multiset"
begin

text \<open>
  Python numbers and JSON values. A number is an unbounded integer or a binary64 float, the
  float being the rational it denotes; float operations round to nearest, ties to even
  (subnormal and overflowing results are outside the model). A JSON object is an association
  list in insertion order, as a Python dictionary is.
\<close>

section \<open>Binary64 rounding\<close>

fun bit_len :: "nat \<Rightarrow> nat" where
  "bit_len n = (if n = 0 then 0 else Suc (bit_len (n div 2)))"

declare bit_len.simps [simp del]

lemma bit_len_code [code]: "bit_len n = (if n = 0 then 0 else Suc (bit_len (n div 2)))"
  by (rule bit_len.simps)

definition round_even :: "rat \<Rightarrow> int" where
  "round_even x = (let f = \<lfloor>x\<rfloor>; d = x - of_int f
     in if d < 1/2 then f else if d > 1/2 then f + 1 else if even f then f else f + 1)"

definition pow2 :: "int \<Rightarrow> rat" where
  "pow2 e = (if 0 \<le> e then of_int (2 ^ nat e) else 1 / of_int (2 ^ nat (- e)))"

text \<open>The exponent that brings a positive rational between \<open>2 ^ 52\<close> and \<open>2 ^ 53\<close>.\<close>

definition fl_exp :: "rat \<Rightarrow> int" where
  "fl_exp x = (let (p, q) = quotient_of x;
                   k = int (bit_len (nat p)) - int (bit_len (nat q)) - 53
     in if x / pow2 k < 2 ^ 53 then k else k + 1)"

definition fl_pos :: "rat \<Rightarrow> rat" where
  "fl_pos x = (let e = fl_exp x in of_int (round_even (x / pow2 e)) * pow2 e)"

definition fl64 :: "rat \<Rightarrow> rat" where
  "fl64 x = (if x = 0 then 0 else if 0 < x then fl_pos x else - fl_pos (- x))"

lemma round_even_close: "\<bar>of_int (round_even x) - x\<bar> \<le> 1/2"
proof -
  have "of_int \<lfloor>x\<rfloor> \<le> x" and "x < of_int \<lfloor>x\<rfloor> + 1" by linarith+
  moreover have "round_even x = \<lfloor>x\<rfloor> \<and> x - of_int \<lfloor>x\<rfloor> \<le> 1/2 \<or>
      round_even x = \<lfloor>x\<rfloor> + 1 \<and> 1/2 \<le> x - of_int \<lfloor>x\<rfloor>"
    by (auto simp: round_even_def Let_def)
  ultimately show ?thesis by (elim disjE) (simp_all add: abs_le_iff)
qed

lemma round_even_of_int [simp]: "round_even (of_int i) = i"
  by (simp add: round_even_def)

lemma pow2_pos [simp]: "0 < pow2 e"
  by (simp add: pow2_def)

lemma fl64_0 [simp]: "fl64 0 = 0"
  by (simp add: fl64_def)

lemma fl64_minus: "fl64 (- x) = - fl64 x"
  by (simp add: fl64_def)

lemma fl64_nonneg: "0 \<le> x \<Longrightarrow> 0 \<le> fl64 x"
proof -
  assume "0 \<le> x"
  moreover have "0 \<le> round_even y" if "0 \<le> y" for y
  proof -
    have "0 \<le> \<lfloor>y\<rfloor>" using that by simp
    then show ?thesis by (auto simp: round_even_def Let_def)
  qed
  ultimately show ?thesis
    by (auto simp: fl64_def fl_pos_def Let_def less_imp_le intro!: mult_nonneg_nonneg)
qed

section \<open>Numbers\<close>

datatype num = PInt int | PFloat rat

fun num_rat :: "num \<Rightarrow> rat" where
  "num_rat (PInt i) = of_int i"
| "num_rat (PFloat r) = r"

fun num_float :: "num \<Rightarrow> rat" where
  "num_float (PInt i) = fl64 (of_int i)"
| "num_float (PFloat r) = r"

fun num_mul :: "num \<Rightarrow> num \<Rightarrow> num" where
  "num_mul (PInt a) (PInt b) = PInt (a * b)"
| "num_mul a b = PFloat (fl64 (num_float a * num_float b))"

fun num_add :: "num \<Rightarrow> num \<Rightarrow> num" where
  "num_add (PInt a) (PInt b) = PInt (a + b)"
| "num_add a b = PFloat (fl64 (num_float a + num_float b))"

fun num_ceil :: "num \<Rightarrow> int" where
  "num_ceil (PInt i) = i"
| "num_ceil (PFloat r) = \<lceil>r\<rceil>"

text \<open>\<open>round(x, n)\<close> of a float.\<close>

definition py_round :: "nat \<Rightarrow> rat \<Rightarrow> rat" where
  "py_round n x = fl64 (of_int (round_even (x * 10 ^ n)) / 10 ^ n)"

definition num_sum :: "num list \<Rightarrow> num" where
  "num_sum xs = foldl num_add (PInt 0) xs"

fun is_pint :: "num \<Rightarrow> bool" where
  "is_pint (PInt i) = True"
| "is_pint (PFloat r) = False"

lemma is_pint_mul: "is_pint a \<Longrightarrow> is_pint b \<Longrightarrow> is_pint (num_mul a b)"
  by (cases a; cases b) auto

lemma foldl_num_add_pint:
  "(\<forall>x \<in> set xs. is_pint x) \<Longrightarrow>
     foldl num_add (PInt a) xs = PInt (a + sum_list (map num_ceil xs))"
proof (induction xs arbitrary: a)
  case (Cons x xs)
  then show ?case by (cases x) auto
qed simp

lemma num_sum_pint:
  "(\<forall>x \<in> set xs. is_pint x) \<Longrightarrow> num_sum xs = PInt (sum_list (map num_ceil xs))"
  by (simp add: num_sum_def foldl_num_add_pint)

section \<open>JSON values\<close>

datatype json =
    JNull
  | JBool bool
  | JInt int
  | JFloat rat
  | JStr string
  | JList "json list"
  | JObj "(string \<times> json) list"

type_synonym dict = "(string \<times> json) list"

abbreviation dget :: "('k \<times> 'v) list \<Rightarrow> 'k \<Rightarrow> 'v option" where
  "dget \<equiv> map_of"

abbreviation dkeys :: "('k \<times> 'v) list \<Rightarrow> 'k list" where
  "dkeys d \<equiv> map fst d"

abbreviation dset :: "('k \<times> 'v) list \<Rightarrow> 'k \<Rightarrow> 'v \<Rightarrow> ('k \<times> 'v) list" where
  "dset d k v \<equiv> AList.update k v d"

definition dhas :: "('k \<times> 'v) list \<Rightarrow> 'k \<Rightarrow> bool" where
  "dhas d k = (map_of d k \<noteq> None)"

definition dget_or :: "('k \<times> 'v) list \<Rightarrow> 'k \<Rightarrow> 'v \<Rightarrow> 'v" where
  "dget_or d k v = (case map_of d k of None \<Rightarrow> v | Some w \<Rightarrow> w)"

text \<open>\<open>d[k]\<close> on a dictionary raises KeyError for a missing key.\<close>

definition dindex :: "(string \<times> 'v) list \<Rightarrow> string \<Rightarrow> 'v res" where
  "dindex d k = (case map_of d k of None \<Rightarrow> Inl (Exn KeyError k) | Some v \<Rightarrow> Inr v)"

fun json_index :: "json \<Rightarrow> string \<Rightarrow> json res" where
  "json_index (JObj d) k = dindex d k"
| "json_index _ k = Inl (Exn TypeError ''not subscriptable by a string'')"

fun json_get :: "json \<Rightarrow> string \<Rightarrow> json \<Rightarrow> json res" where
  "json_get (JObj d) k v = Inr (dget_or d k v)"
| "json_get _ k v = Inl (Exn AttributeError ''get'')"

text \<open>\<open>v[k1][k2]...\<close>, and the numbers, strings and lists read off a value.\<close>

fun json_at :: "json \<Rightarrow> string list \<Rightarrow> json res" where
  "json_at v [] = Inr v"
| "json_at v (k # ks) = rbind (json_index v k) (\<lambda>u. json_at u ks)"

fun json_to_num :: "json \<Rightarrow> num res" where
  "json_to_num (JInt i) = Inr (PInt i)"
| "json_to_num (JBool b) = Inr (PInt (if b then 1 else 0))"
| "json_to_num (JFloat r) = Inr (PFloat r)"
| "json_to_num _ = Inl (Exn TypeError ''not a number'')"

fun json_to_int :: "json \<Rightarrow> int res" where
  "json_to_int (JInt i) = Inr i"
| "json_to_int (JBool b) = Inr (if b then 1 else 0)"
| "json_to_int _ = Inl (Exn TypeError ''not an integer'')"

fun json_to_str :: "json \<Rightarrow> string res" where
  "json_to_str (JStr s) = Inr s"
| "json_to_str _ = Inl (Exn TypeError ''not a string'')"

fun json_to_list :: "json \<Rightarrow> json list res" where
  "json_to_list (JList xs) = Inr xs"
| "json_to_list _ = Inl (Exn TypeError ''not a list'')"

fun json_to_dict :: "json \<Rightarrow> dict res" where
  "json_to_dict (JObj d) = Inr d"
| "json_to_dict _ = Inl (Exn TypeError ''not an object'')"

fun num_json :: "num \<Rightarrow> json" where
  "num_json (PInt i) = JInt i"
| "num_json (PFloat r) = JFloat r"

lemma dhas_iff: "dhas d k \<longleftrightarrow> k \<in> set (dkeys d)"
  by (simp add: dhas_def map_of_eq_None_iff)

lemma dget_dset [simp]: "map_of (AList.update k v d) = (map_of d)(k \<mapsto> v)"
  by (simp add: update_conv')

lemma dindex_Inr_iff [res_simps]: "dindex d k = Inr v \<longleftrightarrow> map_of d k = Some v"
  by (auto simp: dindex_def split: option.splits)

text \<open>
  Python equality: numbers of any type compare by value and a boolean is a number,
  dictionaries compare without regard to order.
\<close>

fun json_num :: "json \<Rightarrow> rat option" where
  "json_num (JBool b) = Some (if b then 1 else 0)"
| "json_num (JInt i) = Some (of_int i)"
| "json_num (JFloat r) = Some r"
| "json_num _ = None"

fun py_eq :: "json \<Rightarrow> json \<Rightarrow> bool" where
  "py_eq JNull y = (y = JNull)"
| "py_eq (JStr s) y = (y = JStr s)"
| "py_eq (JList xs) y = (case y of JList ys \<Rightarrow> list_all2 py_eq xs ys | _ \<Rightarrow> False)"
| "py_eq (JObj d) y = (case y of
      JObj e \<Rightarrow> length d = length e \<and>
        list_all (\<lambda>p. case map_of e (fst p) of None \<Rightarrow> False | Some w \<Rightarrow> py_eq (snd p) w) d
    | _ \<Rightarrow> False)"
| "py_eq (JBool b) y = (json_num (JBool b) = json_num y)"
| "py_eq (JInt i) y = (json_num (JInt i) = json_num y)"
| "py_eq (JFloat r) y = (json_num (JFloat r) = json_num y)"

fun truthy :: "json \<Rightarrow> bool" where
  "truthy JNull = False"
| "truthy (JBool b) = b"
| "truthy (JInt i) = (i \<noteq> 0)"
| "truthy (JFloat r) = (r \<noteq> 0)"
| "truthy (JStr s) = (s \<noteq> [])"
| "truthy (JList xs) = (xs \<noteq> [])"
| "truthy (JObj d) = (d \<noteq> [])"

fun json_opt_str :: "string option \<Rightarrow> json" where
  "json_opt_str None = JNull"
| "json_opt_str (Some s) = JStr s"

fun json_opt_int :: "int option \<Rightarrow> json" where
  "json_opt_int None = JNull"
| "json_opt_int (Some i) = JInt i"

text \<open>
  The recurring test of the scripts: an integer that is not a boolean and is positive.
\<close>

fun json_pos_int :: "json \<Rightarrow> int option" where
  "json_pos_int (JInt i) = (if 0 < i then Some i else None)"
| "json_pos_int _ = None"

lemma json_pos_int_Some [simp]: "json_pos_int v = Some i \<longleftrightarrow> v = JInt i \<and> 0 < i"
  by (cases v) auto

section \<open>Paths into a value\<close>

text \<open>
  A path is a list of keys and of list indices in decimal. \<open>wf_json\<close>: the keys of every object
  are distinct, as in every Python dictionary.
\<close>

fun wf_json :: "json \<Rightarrow> bool" where
  "wf_json (JObj d) = (distinct (dkeys d) \<and> list_all (\<lambda>p. wf_json (snd p)) d)"
| "wf_json (JList xs) = list_all wf_json xs"
| "wf_json _ = True"

fun json_child :: "json \<Rightarrow> string \<Rightarrow> json option" where
  "json_child (JObj d) k = map_of d k"
| "json_child (JList xs) k = map_of (map (\<lambda>(i, x). (nat_str i, x)) (enumerate 0 xs)) k"
| "json_child _ k = None"

fun json_lookup :: "json \<Rightarrow> string list \<Rightarrow> json option" where
  "json_lookup v [] = Some v"
| "json_lookup v (k # ks) = (case json_child v k of None \<Rightarrow> None | Some u \<Rightarrow> json_lookup u ks)"

fun is_container :: "json \<Rightarrow> bool" where
  "is_container (JObj d) = True"
| "is_container (JList xs) = True"
| "is_container _ = False"

definition scalar_at :: "json \<Rightarrow> string list \<Rightarrow> json option" where
  "scalar_at v ks = (case json_lookup v ks of
      None \<Rightarrow> None
    | Some u \<Rightarrow> if is_container u then None else Some u)"

lemma child_list:
  "json_child (JList xs) k = Some x \<longleftrightarrow> (\<exists>i < length xs. k = nat_str i \<and> x = xs ! i)"
proof -
  have "distinct (map fst (map (\<lambda>(i, x). (nat_str i, x)) (enumerate 0 xs)))"
    by (auto simp: distinct_map inj_on_def o_def case_prod_unfold in_set_enumerate_eq
        simp flip: map_map intro!: distinct_enumerate)
  then show ?thesis
    by (auto simp: map_of_eq_Some_iff in_set_enumerate_eq image_iff case_prod_unfold Bex_def)
qed

lemma wf_child: "wf_json v \<Longrightarrow> json_child v k = Some u \<Longrightarrow> wf_json u"
proof (cases v)
  case (JObj d)
  moreover assume "wf_json v" "json_child v k = Some u"
  ultimately show ?thesis by (auto simp: list_all_iff dest!: map_of_SomeD)
next
  case (JList xs)
  moreover assume "wf_json v" "json_child v k = Some u"
  ultimately show ?thesis
    by (auto simp: child_list list_all_iff simp del: json_child.simps)
qed simp_all

text \<open>\<open>v[k1][k2]... = x\<close>.\<close>

fun json_put :: "json \<Rightarrow> string \<Rightarrow> json \<Rightarrow> json res" where
  "json_put (JObj d) k x = Inr (JObj (dset d k x))"
| "json_put _ k x = Inl (Exn TypeError ''item assignment'')"

fun json_put_at :: "json \<Rightarrow> string list \<Rightarrow> json \<Rightarrow> json res" where
  "json_put_at v [] x = Inr x"
| "json_put_at v [k] x = json_put v k x"
| "json_put_at v (k # l # ks) x =
     rbind (json_index v k) (\<lambda>u. rbind (json_put_at u (l # ks) x) (json_put v k))"

lemma child_index: "json_index v k = Inr u \<Longrightarrow> json_child v k = Some u"
  by (cases v) (auto simp: res_simps)

lemma child_put: "json_put v k x = Inr u \<Longrightarrow> json_child u = (json_child v)(k \<mapsto> x)"
  by (cases v) auto

lemma wf_put: "json_put v k x = Inr u \<Longrightarrow> wf_json v \<Longrightarrow> wf_json x \<Longrightarrow> wf_json u"
proof (induction v k x rule: json_put.induct)
  case (1 d k x)
  have "(a, b) \<in> set (dset d k x) \<Longrightarrow> wf_json b" for a b
    using 1 by (fastforce simp: list_all_iff dest!: map_of_is_SomeI [OF distinct_update] split: if_splits dest: map_of_SomeD)
  with 1 show ?case by (auto simp: list_all_iff distinct_update)
qed auto

lemma wf_put_at: "json_put_at v ks x = Inr u \<Longrightarrow> wf_json v \<Longrightarrow> wf_json x \<Longrightarrow> wf_json u"
proof (induction v ks x arbitrary: u rule: json_put_at.induct)
  case (3 v k l ks x)
  then obtain a b where ab: "json_index v k = Inr a" "json_put_at a (l # ks) x = Inr b" "json_put v k b = Inr u"
    by (auto simp: res_simps)
  from ab(1) have "json_child v k = Some a" by (cases v) (auto simp: res_simps)
  with 3 ab show ?case by (metis wf_child wf_put)
qed (auto dest: wf_put)

lemma lookup_put_at:
  "json_put_at v ks x = Inr u \<Longrightarrow> json_lookup u ks = Some x"
proof (induction v ks x arbitrary: u rule: json_put_at.induct)
  case (2 v k x)
  then show ?case by (cases v) auto
next
  case (3 v k l ks x)
  then obtain a b where ab: "json_index v k = Inr a" "json_put_at a (l # ks) x = Inr b" "json_put v k b = Inr u"
    by (auto simp: res_simps)
  then have "json_child u k = Some b" by (cases v) auto
  with 3 ab show ?case by simp
qed simp

section \<open>Canonical JSON text\<close>

definition hex_digit :: "nat \<Rightarrow> char" where
  "hex_digit d = (if d < 10 then char_of (48 + d) else char_of (87 + d))"

definition json_escape :: "char \<Rightarrow> string" where
  "json_escape c = (let n = (of_char c :: nat) in
     if c = dquot then [CHR 0x5C, dquot]
     else if n = 92 then [CHR 0x5C, CHR 0x5C]
     else if n = 10 then [CHR 0x5C, CHR ''n'']
     else if n = 13 then [CHR 0x5C, CHR ''r'']
     else if n = 9 then [CHR 0x5C, CHR ''t'']
     else if n = 8 then [CHR 0x5C, CHR ''b'']
     else if n = 12 then [CHR 0x5C, CHR ''f'']
     else if n < 32 then CHR 0x5C # ''u00'' @ [hex_digit (n div 16), hex_digit (n mod 16)]
     else [c])"

definition json_quote :: "string \<Rightarrow> string" where
  "json_quote s = dquot # concat (map json_escape s) @ [dquot]"

text \<open>
  \<open>json.dumps(x, sort_keys=True, separators=(",", ":"))\<close>; the text of a float is the
  parameter \<open>fr\<close>.
\<close>

fun dumps :: "(rat \<Rightarrow> string) \<Rightarrow> json \<Rightarrow> string" where
  "dumps fr JNull = ''null''"
| "dumps fr (JBool b) = (if b then ''true'' else ''false'')"
| "dumps fr (JInt i) = int_str i"
| "dumps fr (JFloat r) = fr r"
| "dumps fr (JStr s) = json_quote s"
| "dumps fr (JList xs) = ''['' @ join_with '','' (map (dumps fr) xs) @ '']''"
| "dumps fr (JObj d) =
     ''{'' @ join_with '','' (map (\<lambda>p. json_quote (fst p) @ '':'' @ snd p)
       (sort_key fst (map (\<lambda>p. (fst p, dumps fr (snd p))) d))) @ ''}''"

text \<open>
  \<open>json.dump\<close> in the order of insertion, with the separators of items and of keys, every
  character beyond ASCII escaped.
\<close>

definition json_escape_ascii :: "char \<Rightarrow> string" where
  "json_escape_ascii c = (let n = (of_char c :: nat) in
     if 128 \<le> n then CHR 0x5C # ''u00'' @ [hex_digit (n div 16), hex_digit (n mod 16)]
     else json_escape c)"

definition json_quote_ascii :: "string \<Rightarrow> string" where
  "json_quote_ascii s = dquot # concat (map json_escape_ascii s) @ [dquot]"

fun dump_text :: "string \<Rightarrow> string \<Rightarrow> (rat \<Rightarrow> string) \<Rightarrow> json \<Rightarrow> string" where
  "dump_text sep col fr JNull = ''null''"
| "dump_text sep col fr (JBool b) = (if b then ''true'' else ''false'')"
| "dump_text sep col fr (JInt i) = int_str i"
| "dump_text sep col fr (JFloat r) = fr r"
| "dump_text sep col fr (JStr s) = json_quote_ascii s"
| "dump_text sep col fr (JList xs) =
     ''['' @ join_with sep (map (dump_text sep col fr) xs) @ '']''"
| "dump_text sep col fr (JObj d) =
     ''{'' @ join_with sep (map (\<lambda>p. json_quote_ascii (fst p) @ col @ dump_text sep col fr (snd p)) d)
       @ ''}''"

lemma dumps_key_order:
  assumes "mset d = mset d'" and "distinct (dkeys d)"
  shows "dumps fr (JObj d) = dumps fr (JObj d')"
proof -
  let ?f = "\<lambda>p. (fst p, dumps fr (snd p))"
  have m: "mset (map ?f d) = mset (map ?f d')" using assms(1) by simp
  have "map fst (map ?f d) = dkeys d" by simp
  with assms(2) have "inj_on fst (set (map ?f d))"
    by (metis distinct_map)
  then have "sort_key fst (map ?f d) = sort_key fst (map ?f d')"
    using m by (intro sort_key_inj_key_eq) auto
  then show ?thesis by simp
qed

end
