(* ===== verification/Py_IO.thy ===== *)
theory Py_IO
  imports Py_Json
begin

text \<open>
  The effects of the scripts. What a script does to the outside (starting a process, an HTTP
  request, reading a clock, sleeping, a file, a line printed) is an event; a run appends its
  events to a history. The outside itself is a record of functions that answer a request from
  the history so far: it is a parameter of every effectful definition, so a theorem about a
  script holds for every behaviour of docker, of the network and of the clock.
  A computation returns, raises, or runs out of the fuel that bounds its polling loops.
\<close>

section \<open>Events and the outside world\<close>

record proc =
  p_rc :: int
  p_out :: string
  p_err :: string

record http_req =
  hr_method :: string
  hr_url :: string
  hr_headers :: "(string \<times> string) list"
  hr_body :: "json option"
  hr_timeout :: rat

text \<open>A response with a success status, or the HTTPError that urllib raises for 4xx and 5xx.\<close>

datatype http_result = Response int string | HttpError int string

datatype event =
    Ran "string list" "string option" "(string \<times> string option) list" "proc res"
  | Spawned "string list" "unit res"
  | Polled "int option"
  | Requested http_req "http_result res"
  | Clocked rat
  | WallClocked rat
  | Slept rat
  | TokenMade nat string
  | FileRead string "string res"
  | FileWritten string string "unit res"
  | JsonWritten string json "unit res"
  | FileAppended string string "unit res"
  | Copied string string "unit res"
  | DirMade string "unit res"
  | Removed string "unit res"
  | Renamed string string "unit res"
  | Printed string
  | PrintedErr string

type_synonym history = "event list"

record world =
  w_run :: "history \<Rightarrow> string list \<Rightarrow> string option \<Rightarrow> proc res"
  w_spawn :: "history \<Rightarrow> string list \<Rightarrow> unit res"
  w_poll :: "history \<Rightarrow> int option"
  w_http :: "history \<Rightarrow> http_req \<Rightarrow> http_result res"
  w_clock :: "history \<Rightarrow> rat"
  w_wall :: "history \<Rightarrow> rat"
  w_read :: "history \<Rightarrow> string \<Rightarrow> string res"
  w_write :: "history \<Rightarrow> string \<Rightarrow> unit res"
  w_append :: "history \<Rightarrow> string \<Rightarrow> unit res"
  w_copy :: "history \<Rightarrow> string \<Rightarrow> string \<Rightarrow> unit res"
  w_mkdir :: "history \<Rightarrow> string \<Rightarrow> unit res"
  w_remove :: "history \<Rightarrow> string \<Rightarrow> unit res"
  w_rename :: "history \<Rightarrow> string \<Rightarrow> string \<Rightarrow> unit res"
  w_temp_name :: "history \<Rightarrow> string \<Rightarrow> string"
  w_exists :: "history \<Rightarrow> string \<Rightarrow> bool"
  w_is_dir :: "history \<Rightarrow> string \<Rightarrow> bool"
  w_resolve :: "history \<Rightarrow> string \<Rightarrow> string"
  w_cwd :: string
  w_size :: "history \<Rightarrow> string \<Rightarrow> int res"
  w_entries :: "history \<Rightarrow> string \<Rightarrow> string list res"
  w_disk_free :: "history \<Rightarrow> string \<Rightarrow> int res"
  w_measure :: "history \<Rightarrow> string \<Rightarrow> rat"
  w_cookie :: "history \<Rightarrow> string \<Rightarrow> string option"
  w_header :: "history \<Rightarrow> string \<Rightarrow> string option"
  w_gunzip :: "string \<Rightarrow> string res"
  w_token :: "history \<Rightarrow> nat \<Rightarrow> string"
  w_loads :: "string \<Rightarrow> json res"
  w_sha256 :: "string \<Rightarrow> string"
  w_float_repr :: "rat \<Rightarrow> string"
  w_iso :: "rat \<Rightarrow> string"
  w_compact :: "rat \<Rightarrow> string"
  w_python :: string
  w_env :: "string \<Rightarrow> string option"
  w_root :: string
  w_fuel :: nat

section \<open>Computations\<close>

datatype 'a outcome = Ret 'a | Raised exn | Diverged

type_synonym ('s, 'a) io = "world \<Rightarrow> 's \<times> history \<Rightarrow> 'a outcome \<times> 's \<times> history"

definition ret :: "'a \<Rightarrow> ('s, 'a) io" where
  "ret x = (\<lambda>w sh. (Ret x, sh))"

definition raise :: "exn \<Rightarrow> ('s, 'a) io" where
  "raise e = (\<lambda>w sh. (Raised e, sh))"

definition diverge :: "('s, 'a) io" where
  "diverge = (\<lambda>w sh. (Diverged, sh))"

definition bnd :: "('s, 'a) io \<Rightarrow> ('a \<Rightarrow> ('s, 'b) io) \<Rightarrow> ('s, 'b) io" where
  "bnd m f = (\<lambda>w sh. case m w sh of
      (Ret x, sh') \<Rightarrow> f x w sh'
    | (Raised e, sh') \<Rightarrow> (Raised e, sh')
    | (Diverged, sh') \<Rightarrow> (Diverged, sh'))"

definition sq :: "('s, unit) io \<Rightarrow> ('s, 'b) io \<Rightarrow> ('s, 'b) io" where
  "sq m k = bnd m (\<lambda>_. k)"

definition of_res :: "'a res \<Rightarrow> ('s, 'a) io" where
  "of_res r = (case r of Inl e \<Rightarrow> raise e | Inr x \<Rightarrow> ret x)"

definition raise_if :: "bool \<Rightarrow> exn_class \<Rightarrow> string \<Rightarrow> ('s, unit) io" where
  "raise_if b c m = (if b then raise (Exn c m) else ret ())"

definition whenever :: "bool \<Rightarrow> ('s, unit) io \<Rightarrow> ('s, unit) io" where
  "whenever b m = (if b then m else ret ())"

text \<open>\<open>try: m  except <p>: k\<close> and \<open>try: m  finally: k\<close>.\<close>

definition try_except :: "(exn \<Rightarrow> bool) \<Rightarrow> ('s, 'a) io \<Rightarrow> (exn \<Rightarrow> ('s, 'a) io) \<Rightarrow> ('s, 'a) io" where
  "try_except p m k = (\<lambda>w sh. case m w sh of
      (Raised e, sh') \<Rightarrow> if p e then k e w sh' else (Raised e, sh')
    | r \<Rightarrow> r)"

definition try_finally :: "('s, 'a) io \<Rightarrow> ('s, unit) io \<Rightarrow> ('s, 'a) io" where
  "try_finally m k = (\<lambda>w sh. case m w sh of
      (Diverged, sh') \<Rightarrow> (Diverged, sh')
    | (r, sh') \<Rightarrow> (case k w sh' of
          (Ret u, sh'') \<Rightarrow> (r, sh'')
        | (Raised e, sh'') \<Rightarrow> (Raised e, sh'')
        | (Diverged, sh'') \<Rightarrow> (Diverged, sh'')))"

text \<open>Local variables that a handler or a later statement still reads are the state.\<close>

definition get_st :: "('s \<Rightarrow> 'a) \<Rightarrow> ('s, 'a) io" where
  "get_st f = (\<lambda>w (s, h). (Ret (f s), s, h))"

definition mod_st :: "('s \<Rightarrow> 's) \<Rightarrow> ('s, unit) io" where
  "mod_st f = (\<lambda>w (s, h). (Ret (), f s, h))"

definition with_local :: "'t \<Rightarrow> ('t, 'a) io \<Rightarrow> ('s, 'a) io" where
  "with_local t m = (\<lambda>w (s, h). case m w (t, h) of (r, _, h') \<Rightarrow> (r, s, h'))"

definition asks :: "(world \<Rightarrow> 'a) \<Rightarrow> ('s, 'a) io" where
  "asks f = (\<lambda>w sh. (Ret (f w), sh))"

definition looks :: "(world \<Rightarrow> history \<Rightarrow> 'a) \<Rightarrow> ('s, 'a) io" where
  "looks f = (\<lambda>w (s, h). (Ret (f w h), s, h))"

fun for_io :: "('x \<Rightarrow> ('s, unit) io) \<Rightarrow> 'x list \<Rightarrow> ('s, unit) io" where
  "for_io f [] = ret ()"
| "for_io f (x # xs) = sq (f x) (for_io f xs)"

fun map_io :: "('x \<Rightarrow> ('s, 'y) io) \<Rightarrow> 'x list \<Rightarrow> ('s, 'y list) io" where
  "map_io f [] = ret []"
| "map_io f (x # xs) = bnd (f x) (\<lambda>y. bnd (map_io f xs) (\<lambda>ys. ret (y # ys)))"

fun fold_io :: "('a \<Rightarrow> 'x \<Rightarrow> ('s, 'a) io) \<Rightarrow> 'a \<Rightarrow> 'x list \<Rightarrow> ('s, 'a) io" where
  "fold_io f a [] = ret a"
| "fold_io f a (x # xs) = bnd (f a x) (\<lambda>b. fold_io f b xs)"

text \<open>
  A \<open>while\<close> loop: the body continues with new loop variables (\<open>Inl\<close>) or leaves the loop
  (\<open>Inr\<close>). The fuel bounds the iterations; running out of it is \<open>Diverged\<close>, which no handler
  and no \<open>finally\<close> sees.
\<close>

fun loop_io :: "nat \<Rightarrow> ('x \<Rightarrow> ('s, 'x + 'r) io) \<Rightarrow> 'x \<Rightarrow> ('s, 'r) io" where
  "loop_io 0 f x = diverge"
| "loop_io (Suc n) f x = bnd (f x) (\<lambda>y. case y of Inl x' \<Rightarrow> loop_io n f x' | Inr r \<Rightarrow> ret r)"

definition while_io :: "('x \<Rightarrow> ('s, 'x + 'r) io) \<Rightarrow> 'x \<Rightarrow> ('s, 'r) io" where
  "while_io f x = (\<lambda>w sh. loop_io (w_fuel w) f x w sh)"

section \<open>The primitive effects\<close>

definition eff :: "(world \<Rightarrow> history \<Rightarrow> 'r) \<Rightarrow> ('r \<Rightarrow> event) \<Rightarrow> ('s, 'r) io" where
  "eff q ev = (\<lambda>w (s, h). (Ret (q w h), s, h @ [ev (q w h)]))"

definition eff_res :: "(world \<Rightarrow> history \<Rightarrow> 'r res) \<Rightarrow> ('r res \<Rightarrow> event) \<Rightarrow> ('s, 'r) io" where
  "eff_res q ev = bnd (eff q ev) of_res"

definition run_proc :: "string list \<Rightarrow> string option \<Rightarrow> (string \<times> string option) list \<Rightarrow> ('s, proc) io" where
  "run_proc argv inp env = eff_res (\<lambda>w h. w_run w h argv inp) (Ran argv inp env)"

definition spawn :: "string list \<Rightarrow> ('s, unit) io" where
  "spawn argv = eff_res (\<lambda>w h. w_spawn w h argv) (Spawned argv)"

definition poll :: "('s, int option) io" where
  "poll = eff w_poll Polled"

definition send :: "http_req \<Rightarrow> ('s, http_result) io" where
  "send rq = eff_res (\<lambda>w h. w_http w h rq) (Requested rq)"

definition clock :: "('s, rat) io" where
  "clock = eff w_clock Clocked"

definition wall :: "('s, rat) io" where
  "wall = eff w_wall WallClocked"

definition sleep :: "rat \<Rightarrow> ('s, unit) io" where
  "sleep d = eff (\<lambda>w h. ()) (\<lambda>_. Slept d)"

definition token :: "nat \<Rightarrow> ('s, string) io" where
  "token n = eff (\<lambda>w h. w_token w h n) (TokenMade n)"

definition read_text :: "string \<Rightarrow> ('s, string) io" where
  "read_text p = eff_res (\<lambda>w h. w_read w h p) (FileRead p)"

definition write_text :: "string \<Rightarrow> string \<Rightarrow> ('s, unit) io" where
  "write_text p t = eff_res (\<lambda>w h. w_write w h p) (FileWritten p t)"

definition write_json_text :: "string \<Rightarrow> json \<Rightarrow> ('s, unit) io" where
  "write_json_text p j = eff_res (\<lambda>w h. w_write w h p) (JsonWritten p j)"

definition append_text :: "string \<Rightarrow> string \<Rightarrow> ('s, unit) io" where
  "append_text p t = eff_res (\<lambda>w h. w_append w h p) (FileAppended p t)"

definition copy_file :: "string \<Rightarrow> string \<Rightarrow> ('s, unit) io" where
  "copy_file p q = eff_res (\<lambda>w h. w_copy w h p q) (Copied p q)"

definition mkdir :: "string \<Rightarrow> ('s, unit) io" where
  "mkdir p = eff_res (\<lambda>w h. w_mkdir w h p) (DirMade p)"

definition remove_file :: "string \<Rightarrow> ('s, unit) io" where
  "remove_file p = eff_res (\<lambda>w h. w_remove w h p) (Removed p)"

definition rename_file :: "string \<Rightarrow> string \<Rightarrow> ('s, unit) io" where
  "rename_file p q = eff_res (\<lambda>w h. w_rename w h p q) (Renamed p q)"

definition exists_path :: "string \<Rightarrow> ('s, bool) io" where
  "exists_path p = looks (\<lambda>w h. w_exists w h p)"

definition is_dir :: "string \<Rightarrow> ('s, bool) io" where
  "is_dir p = looks (\<lambda>w h. w_is_dir w h p)"

text \<open>\<open>Path.resolve\<close>: the path without symbolic links.\<close>

definition resolve_path :: "string \<Rightarrow> ('s, string) io" where
  "resolve_path p = looks (\<lambda>w h. w_resolve w h p)"

text \<open>Readings that leave no event: they do not change the outside.\<close>

definition look_res :: "(world \<Rightarrow> history \<Rightarrow> 'r res) \<Rightarrow> ('s, 'r) io" where
  "look_res q = bnd (looks q) of_res"

definition file_size :: "string \<Rightarrow> ('s, int) io" where
  "file_size p = look_res (\<lambda>w h. w_size w h p)"

definition list_dir :: "string \<Rightarrow> ('s, string list) io" where
  "list_dir p = look_res (\<lambda>w h. w_entries w h p)"

definition disk_free :: "string \<Rightarrow> ('s, int) io" where
  "disk_free p = look_res (\<lambda>w h. w_disk_free w h p)"

definition measure_of :: "string \<Rightarrow> ('s, rat) io" where
  "measure_of k = looks (\<lambda>w h. w_measure w h k)"

text \<open>The value of a cookie that the responses so far have set.\<close>

definition cookie :: "string \<Rightarrow> ('s, string option) io" where
  "cookie k = looks (\<lambda>w h. w_cookie w h k)"

text \<open>A header of the last response, and the decompression of a body.\<close>

definition header :: "string \<Rightarrow> ('s, string option) io" where
  "header k = looks (\<lambda>w h. w_header w h k)"

definition gunzip :: "string \<Rightarrow> ('s, string) io" where
  "gunzip t = bnd (asks (\<lambda>w. w_gunzip w t)) of_res"

definition temp_name :: "string \<Rightarrow> ('s, string) io" where
  "temp_name p = looks (\<lambda>w h. w_temp_name w h p)"

definition say :: "string \<Rightarrow> ('s, unit) io" where
  "say t = eff (\<lambda>w h. ()) (\<lambda>_. Printed t)"

definition say_err :: "string \<Rightarrow> ('s, unit) io" where
  "say_err t = eff (\<lambda>w h. ()) (\<lambda>_. PrintedErr t)"

definition loads :: "string \<Rightarrow> ('s, json) io" where
  "loads t = bnd (asks (\<lambda>w. w_loads w t)) of_res"

lemmas io_defs =
  ret_def raise_def diverge_def bnd_def sq_def of_res_def raise_if_def whenever_def
  try_except_def try_finally_def get_st_def mod_st_def with_local_def asks_def looks_def
  while_io_def eff_def eff_res_def

lemmas prim_defs =
  run_proc_def spawn_def poll_def send_def clock_def wall_def sleep_def token_def read_text_def
  write_text_def write_json_text_def append_text_def copy_file_def mkdir_def remove_file_def
  rename_file_def exists_path_def is_dir_def resolve_path_def look_res_def file_size_def list_dir_def disk_free_def measure_of_def cookie_def header_def gunzip_def temp_name_def say_def
  say_err_def loads_def

section \<open>Running a program step by step\<close>

text \<open>
  Equations that execute a program from a given local state and history; texts that are printed
  or passed on stay folded.
\<close>

named_theorems run_simps \<open>execution of a program from a state and a history\<close>

lemma run_sq_sq [run_simps]: "sq (sq m k) l = sq m (sq k l)"
  by (auto simp: sq_def bnd_def fun_eq_iff split: prod.splits outcome.splits)

lemma run_sq_bnd [run_simps]: "sq (bnd m f) k = bnd m (\<lambda>x. sq (f x) k)"
  by (auto simp: sq_def bnd_def fun_eq_iff split: prod.splits outcome.splits)

lemma run_bnd_sq [run_simps]: "bnd (sq m k) g = sq m (bnd k g)"
  by (auto simp: sq_def bnd_def fun_eq_iff split: prod.splits outcome.splits)

lemma run_bnd_bnd [run_simps]: "bnd (bnd m f) g = bnd m (\<lambda>x. bnd (f x) g)"
  by (auto simp: bnd_def fun_eq_iff split: prod.splits outcome.splits)

lemma run_ret [run_simps]: "bnd (ret x) f = f x" "ret x w (s, h) = (Ret x, s, h)"
  by (auto simp: bnd_def ret_def)

lemma run_sq_ret [run_simps]: "sq (ret u) k = k"
  by (auto simp: sq_def bnd_def ret_def)

lemma run_raise [run_simps]: "raise e w (s, h) = (Raised e, s, h)" "bnd (raise e) f w (s, h) = (Raised e, s, h)"
  by (auto simp: bnd_def raise_def)

lemma run_sq_raise [run_simps]: "sq (raise e) k w (s, h) = (Raised e, s, h)"
  by (auto simp: sq_def bnd_def raise_def)

lemma run_of_res [run_simps]:
  "of_res r w (s, h) = (case r of Inl e \<Rightarrow> (Raised e, s, h) | Inr x \<Rightarrow> (Ret x, s, h))"
  "bnd (of_res r) f w (s, h) = (case r of Inl e \<Rightarrow> (Raised e, s, h) | Inr x \<Rightarrow> f x w (s, h))"
  by (auto simp: of_res_def bnd_def raise_def ret_def split: sum.split)

lemma run_of_res_Inr: "bnd (of_res (Inr x)) f = f x"
  by (simp add: of_res_def bnd_def ret_def)

lemma run_guards [run_simps]:
  "sq (raise_if b c t) k w (s, h) = (if b then (Raised (Exn c t), s, h) else k w (s, h))"
  "raise_if b c t w (s, h) = (if b then (Raised (Exn c t), s, h) else (Ret (), s, h))"
  "sq (whenever b m) k w (s, h) = (if b then sq m k w (s, h) else k w (s, h))"
  "whenever b m w (s, h) = (if b then m w (s, h) else (Ret (), s, h))"
  by (auto simp: sq_def bnd_def raise_if_def whenever_def ret_def raise_def)

lemma run_if [run_simps]:
  "(if b then m else k) w (s, h) = (if b then m w (s, h) else k w (s, h))"
  "bnd (if b then m else k) f w (s, h) = (if b then bnd m f w (s, h) else bnd k f w (s, h))"
  by simp_all

lemma run_sq_if [run_simps]: "sq (if b then m else k) l w (s, h) = (if b then sq m l w (s, h) else sq k l w (s, h))"
  by simp

lemma run_asks [run_simps]: "bnd (asks f) k w (s, h) = k (f w) w (s, h)" "asks f w (s, h) = (Ret (f w), s, h)"
  by (simp_all add: bnd_def asks_def)

lemma run_looks [run_simps]: "bnd (looks q) k w (s, h) = k (q w h) w (s, h)"
  by (simp add: bnd_def looks_def)

lemma run_state [run_simps]:
  "bnd (get_st g) k w (s, h) = k (g s) w (s, h)" "get_st g w (s, h) = (Ret (g s), s, h)"
  by (simp_all add: bnd_def get_st_def)

lemma run_mod_st [run_simps]:
  "sq (mod_st g) m w (s, h) = m w (g s, h)" "mod_st g w (s, h) = (Ret (), g s, h)"
  by (simp_all add: sq_def bnd_def mod_st_def)

lemma bnd_eff [run_simps]: "bnd (eff q ev) k w (s, h) = k (q w h) w (s, h @ [ev (q w h)])"
  by (simp add: bnd_def eff_def)

lemma sq_eff [run_simps]: "sq (eff q ev) k w (s, h) = k w (s, h @ [ev (q w h)])"
  by (simp add: sq_def bnd_eff)

lemma run_eff [run_simps]: "eff q ev w (s, h) = (Ret (q w h), s, h @ [ev (q w h)])"
  by (simp add: eff_def)

lemma run_eff_res [run_simps]:
  "bnd (eff_res q ev) k w (s, h) = (case q w h of
      Inl e \<Rightarrow> (Raised e, s, h @ [ev (Inl e)]) | Inr x \<Rightarrow> k x w (s, h @ [ev (Inr x)]))"
  "eff_res q ev w (s, h) = (case q w h of
      Inl e \<Rightarrow> (Raised e, s, h @ [ev (Inl e)]) | Inr x \<Rightarrow> (Ret x, s, h @ [ev (Inr x)]))"
  by (auto simp: bnd_def eff_res_def eff_def of_res_def raise_def ret_def split: sum.split)

lemma sq_eff_res [run_simps]: "sq (eff_res q ev) k w (s, h) = (case q w h of
    Inl e \<Rightarrow> (Raised e, s, h @ [ev (Inl e)]) | Inr x \<Rightarrow> k w (s, h @ [ev (Inr x)]))"
  by (simp add: sq_def run_eff_res)

lemma run_handlers [run_simps]:
  "try_except p m k w (s, h) = (case m w (s, h) of
      (Raised e, sh') \<Rightarrow> if p e then k e w sh' else (Raised e, sh') | r \<Rightarrow> r)"
  "with_local t m w (s, h) = (case m w (t, h) of (r, _, h') \<Rightarrow> (r, s, h'))"
  by (auto simp: try_except_def with_local_def)

lemma run_finally [run_simps]:
  "try_finally m k w (s, h) = (case m w (s, h) of
      (Diverged, sh') \<Rightarrow> (Diverged, sh')
    | (r, sh') \<Rightarrow> (case k w sh' of
          (Ret u, sh'') \<Rightarrow> (r, sh'')
        | (Raised e, sh'') \<Rightarrow> (Raised e, sh'')
        | (Diverged, sh'') \<Rightarrow> (Diverged, sh'')))"
  by (simp add: try_finally_def)

lemma bnd_finally [run_simps]:
  "bnd (try_finally m k) f w (s, h) = (case try_finally m k w (s, h) of
      (Ret x, sh') \<Rightarrow> f x w sh'
    | (Raised e, sh') \<Rightarrow> (Raised e, sh')
    | (Diverged, sh') \<Rightarrow> (Diverged, sh'))"
  by (simp add: bnd_def)

lemma bnd_try [run_simps]:
  "bnd (try_except p m k) f w (s, h) = (case m w (s, h) of
      (Ret x, sh') \<Rightarrow> f x w sh'
    | (Raised e, sh') \<Rightarrow> if p e then bnd (k e) f w sh' else (Raised e, sh')
    | (Diverged, sh') \<Rightarrow> (Diverged, sh'))"
  by (auto simp: bnd_def try_except_def split: prod.split outcome.split)

section \<open>What a computation may emit\<close>

text \<open>
  \<open>emits ok m\<close>: whatever the outside answers and however \<open>m\<close> ends, it only appends events
  that satisfy \<open>ok\<close>. The rules follow the structure of the program.
\<close>

definition emits :: "(event \<Rightarrow> bool) \<Rightarrow> ('s, 'a) io \<Rightarrow> bool" where
  "emits ok m = (\<forall>w s h r s' h'. m w (s, h) = (r, s', h') \<longrightarrow>
     (\<exists>t. h' = h @ t \<and> list_all ok t))"

named_theorems emits_intros \<open>rules for what a computation may emit\<close>

lemma emitsI:
  assumes "\<And>w s h r s' h'. m w (s, h) = (r, s', h') \<Longrightarrow> \<exists>t. h' = h @ t \<and> list_all ok t"
  shows "emits ok m"
  using assms by (simp add: emits_def)

lemma emitsD:
  assumes "emits ok m" and "m w (s, h) = (r, s', h')"
  obtains t where "h' = h @ t" and "list_all ok t"
  using assms unfolding emits_def by blast

lemma emits_ret [emits_intros]: "emits ok (ret x)"
  by (auto simp: emits_def ret_def)

lemma emits_raise [emits_intros]: "emits ok (raise e)"
  by (auto simp: emits_def raise_def)

lemma emits_diverge [emits_intros]: "emits ok diverge"
  by (auto simp: emits_def diverge_def)

lemma emits_bnd [emits_intros]:
  assumes m: "emits ok m" and f: "\<And>x. emits ok (f x)"
  shows "emits ok (bnd m f)"
proof (rule emitsI)
  fix w s h r s' h'
  assume run: "bnd m f w (s, h) = (r, s', h')"
  obtain r1 s1 h1 where m1: "m w (s, h) = (r1, s1, h1)" by (metis prod_cases3)
  from m m1 obtain t1 where t1: "h1 = h @ t1" "list_all ok t1" by (rule emitsD)
  show "\<exists>t. h' = h @ t \<and> list_all ok t"
  proof (cases r1)
    case (Ret x)
    with run m1 have "f x w (s1, h1) = (r, s', h')" by (simp add: bnd_def)
    with f obtain t2 where "h' = h1 @ t2" "list_all ok t2" by (rule emitsD)
    with t1 show ?thesis by auto
  qed (use run m1 t1 in \<open>auto simp: bnd_def\<close>)
qed

lemma emits_sq [emits_intros]: "emits ok m \<Longrightarrow> emits ok k \<Longrightarrow> emits ok (sq m k)"
  unfolding sq_def by (intro emits_intros)

lemma emits_of_res [emits_intros]: "emits ok (of_res r)"
  by (cases r) (auto simp: of_res_def intro: emits_intros)

lemma emits_raise_if [emits_intros]: "emits ok (raise_if b c t)"
  by (simp add: raise_if_def emits_intros)

lemma emits_if [emits_intros]:
  "(b \<Longrightarrow> emits ok m) \<Longrightarrow> (\<not> b \<Longrightarrow> emits ok k) \<Longrightarrow> emits ok (if b then m else k)"
  by simp

lemma emits_whenever [emits_intros]: "(b \<Longrightarrow> emits ok m) \<Longrightarrow> emits ok (whenever b m)"
  by (simp add: whenever_def emits_intros)

lemma emits_case_option [emits_intros]:
  "(x = None \<Longrightarrow> emits ok m) \<Longrightarrow> (\<And>y. x = Some y \<Longrightarrow> emits ok (k y)) \<Longrightarrow>
     emits ok (case x of None \<Rightarrow> m | Some y \<Rightarrow> k y)"
  by (cases x) auto

lemma emits_case_sum [emits_intros]:
  "(\<And>y. x = Inl y \<Longrightarrow> emits ok (m y)) \<Longrightarrow> (\<And>y. x = Inr y \<Longrightarrow> emits ok (k y)) \<Longrightarrow>
     emits ok (case x of Inl y \<Rightarrow> m y | Inr y \<Rightarrow> k y)"
  by (cases x) auto

lemma emits_case_prod [emits_intros]:
  "(\<And>a b. x = (a, b) \<Longrightarrow> emits ok (m a b)) \<Longrightarrow> emits ok (case x of (a, b) \<Rightarrow> m a b)"
  by (cases x) auto

lemma emits_try_except [emits_intros]:
  assumes m: "emits ok m" and k: "\<And>e. emits ok (k e)"
  shows "emits ok (try_except p m k)"
proof (rule emitsI)
  fix w s h r s' h'
  assume run: "try_except p m k w (s, h) = (r, s', h')"
  obtain r1 s1 h1 where m1: "m w (s, h) = (r1, s1, h1)" by (metis prod_cases3)
  from m m1 obtain t1 where t1: "h1 = h @ t1" "list_all ok t1" by (rule emitsD)
  show "\<exists>t. h' = h @ t \<and> list_all ok t"
  proof (cases "\<exists>e. r1 = Raised e \<and> p e")
    case True
    then obtain e where "r1 = Raised e" "p e" by blast
    with run m1 have "k e w (s1, h1) = (r, s', h')" by (simp add: try_except_def)
    with k obtain t2 where "h' = h1 @ t2" "list_all ok t2" by (rule emitsD)
    with t1 show ?thesis by auto
  next
    case False
    with run m1 have "h' = h1"
      by (cases r1) (auto simp: try_except_def)
    with t1 show ?thesis by auto
  qed
qed

lemma emits_try_finally [emits_intros]:
  assumes m: "emits ok m" and k: "emits ok k"
  shows "emits ok (try_finally m k)"
proof (rule emitsI)
  fix w s h r s' h'
  assume run: "try_finally m k w (s, h) = (r, s', h')"
  obtain r1 s1 h1 where m1: "m w (s, h) = (r1, s1, h1)" by (metis prod_cases3)
  obtain r2 s2 h2 where k2: "k w (s1, h1) = (r2, s2, h2)" by (metis prod_cases3)
  from m m1 obtain t1 where t1: "h1 = h @ t1" "list_all ok t1" by (rule emitsD)
  from k k2 obtain t2 where t2: "h2 = h1 @ t2" "list_all ok t2" by (rule emitsD)
  from run m1 k2 have "h' = h1 \<or> h' = h2"
    by (cases r1; cases r2) (auto simp: try_finally_def)
  with t1 t2 show "\<exists>t. h' = h @ t \<and> list_all ok t" by auto
qed

lemma emits_state [emits_intros]:
  "emits ok (get_st f)" "emits ok (mod_st g)" "emits ok (asks a)" "emits ok (looks l)"
  by (auto simp: emits_def get_st_def mod_st_def asks_def looks_def)

lemma emits_with_local [emits_intros]: "emits ok m \<Longrightarrow> emits ok (with_local t m)"
  by (auto simp: emits_def with_local_def split: prod.splits)

lemma emits_for_io [emits_intros]: "(\<And>x. x \<in> set xs \<Longrightarrow> emits ok (f x)) \<Longrightarrow> emits ok (for_io f xs)"
  by (induction xs) (auto intro!: emits_intros)

lemma emits_map_io [emits_intros]: "(\<And>x. x \<in> set xs \<Longrightarrow> emits ok (f x)) \<Longrightarrow> emits ok (map_io f xs)"
  by (induction xs) (auto intro!: emits_intros)

lemma emits_fold_io [emits_intros]:
  "(\<And>a x. x \<in> set xs \<Longrightarrow> emits ok (f a x)) \<Longrightarrow> emits ok (fold_io f a xs)"
  by (induction xs arbitrary: a) (auto intro!: emits_intros)

lemma emits_loop_io [emits_intros]: "(\<And>x. emits ok (f x)) \<Longrightarrow> emits ok (loop_io n f x)"
  by (induction n arbitrary: x) (auto intro!: emits_intros)

lemma emits_while_io [emits_intros]: "(\<And>x. emits ok (f x)) \<Longrightarrow> emits ok (while_io f x)"
  using emits_loop_io [of ok f] by (simp add: emits_def while_io_def)

lemma emits_eff: "(\<And>r. ok (ev r)) \<Longrightarrow> emits ok (eff q ev)"
  by (auto simp: emits_def eff_def)

lemma emits_eff_res: "(\<And>r. ok (ev r)) \<Longrightarrow> emits ok (eff_res q ev)"
  unfolding eff_res_def by (intro emits_intros emits_eff)

lemma emits_run_proc [emits_intros]: "(\<And>r. ok (Ran argv inp env r)) \<Longrightarrow> emits ok (run_proc argv inp env)"
  unfolding run_proc_def by (rule emits_eff_res)

lemma emits_spawn [emits_intros]: "(\<And>r. ok (Spawned argv r)) \<Longrightarrow> emits ok (spawn argv)"
  unfolding spawn_def by (rule emits_eff_res)

lemma emits_poll [emits_intros]: "(\<And>r. ok (Polled r)) \<Longrightarrow> emits ok (poll)"
  unfolding poll_def by (rule emits_eff)

lemma emits_send [emits_intros]: "(\<And>r. ok (Requested rq r)) \<Longrightarrow> emits ok (send rq)"
  unfolding send_def by (rule emits_eff_res)

lemma emits_clock [emits_intros]: "(\<And>r. ok (Clocked r)) \<Longrightarrow> emits ok (clock)"
  unfolding clock_def by (rule emits_eff)

lemma emits_wall [emits_intros]: "(\<And>r. ok (WallClocked r)) \<Longrightarrow> emits ok (wall)"
  unfolding wall_def by (rule emits_eff)

lemma emits_sleep [emits_intros]: "(ok (Slept d)) \<Longrightarrow> emits ok (sleep d)"
  unfolding sleep_def by (rule emits_eff)

lemma emits_token [emits_intros]: "(\<And>r. ok (TokenMade n r)) \<Longrightarrow> emits ok (token n)"
  unfolding token_def by (rule emits_eff)

lemma emits_read_text [emits_intros]: "(\<And>r. ok (FileRead p r)) \<Longrightarrow> emits ok (read_text p)"
  unfolding read_text_def by (rule emits_eff_res)

lemma emits_write_text [emits_intros]: "(\<And>r. ok (FileWritten p t r)) \<Longrightarrow> emits ok (write_text p t)"
  unfolding write_text_def by (rule emits_eff_res)

lemma emits_write_json_text [emits_intros]: "(\<And>r. ok (JsonWritten p j r)) \<Longrightarrow> emits ok (write_json_text p j)"
  unfolding write_json_text_def by (rule emits_eff_res)

lemma emits_append_text [emits_intros]: "(\<And>r. ok (FileAppended p t r)) \<Longrightarrow> emits ok (append_text p t)"
  unfolding append_text_def by (rule emits_eff_res)

lemma emits_copy_file [emits_intros]: "(\<And>r. ok (Copied p q r)) \<Longrightarrow> emits ok (copy_file p q)"
  unfolding copy_file_def by (rule emits_eff_res)

lemma emits_mkdir [emits_intros]: "(\<And>r. ok (DirMade p r)) \<Longrightarrow> emits ok (mkdir p)"
  unfolding mkdir_def by (rule emits_eff_res)

lemma emits_remove_file [emits_intros]: "(\<And>r. ok (Removed p r)) \<Longrightarrow> emits ok (remove_file p)"
  unfolding remove_file_def by (rule emits_eff_res)

lemma emits_rename_file [emits_intros]: "(\<And>r. ok (Renamed p q r)) \<Longrightarrow> emits ok (rename_file p q)"
  unfolding rename_file_def by (rule emits_eff_res)

lemma emits_look_res [emits_intros]: "emits ok (look_res q)"
  unfolding look_res_def by (intro emits_bnd emits_state emits_of_res)

lemma emits_readings [emits_intros]:
  "emits ok (file_size p)" "emits ok (list_dir p)" "emits ok (disk_free p)" "emits ok (measure_of k)"
  "emits ok (temp_name p)" "emits ok (cookie k)" "emits ok (is_dir p)" "emits ok (resolve_path p)"
  unfolding is_dir_def resolve_path_def file_size_def list_dir_def disk_free_def measure_of_def temp_name_def cookie_def
  by (rule emits_look_res emits_state)+

lemma emits_say [emits_intros]: "(ok (Printed t)) \<Longrightarrow> emits ok (say t)"
  unfolding say_def by (rule emits_eff)

lemma emits_say_err [emits_intros]: "(ok (PrintedErr t)) \<Longrightarrow> emits ok (say_err t)"
  unfolding say_err_def by (rule emits_eff)

lemma emits_exists_path [emits_intros]: "emits ok (exists_path p)"
  unfolding exists_path_def by (rule emits_state)

lemma emits_loads [emits_intros]: "emits ok (loads t)"
  unfolding loads_def by (intro emits_intros)

lemma emits_responses [emits_intros]: "emits ok (header k)" "emits ok (gunzip t)"
  unfolding header_def gunzip_def by (intro emits_intros)+

lemma emits_mono:
  assumes m: "emits ok m" and le: "\<And>e. ok e \<Longrightarrow> ok' e"
  shows "emits ok' m"
proof (rule emitsI)
  fix w s h r s' h'
  assume "m w (s, h) = (r, s', h')"
  with m obtain t where "h' = h @ t" "list_all ok t" by (rule emitsD)
  with le show "\<exists>t. h' = h @ t \<and> list_all ok' t" by (auto simp: list_all_iff)
qed

section \<open>Results a computation may return\<close>

definition may_ret :: "('s, 'a) io \<Rightarrow> world \<Rightarrow> 'a \<Rightarrow> bool" where
  "may_ret m w x = (\<exists>sh sh'. m w sh = (Ret x, sh'))"

lemma may_retI: "m w sh = (Ret x, sh') \<Longrightarrow> may_ret m w x"
  unfolding may_ret_def by blast

lemma bnd_RetE:
  assumes "bnd m f w sh = (Ret y, sh')"
  obtains x sh1 where "m w sh = (Ret x, sh1)" and "f x w sh1 = (Ret y, sh')"
  using assms by (auto simp: bnd_def split: prod.splits outcome.splits)

lemma map_io_ret:
  "map_io f xs w sh = (Ret ys, sh') \<Longrightarrow> list_all2 (\<lambda>x y. may_ret (f x) w y) xs ys"
proof (induction xs arbitrary: ys sh)
  case (Cons x xs)
  from Cons.prems obtain y sh1 ys' where 1: "f x w sh = (Ret y, sh1)"
      and 2: "map_io f xs w sh1 = (Ret ys', sh')" and 3: "ys = y # ys'"
    by (auto simp: ret_def elim!: bnd_RetE)
  from 2 have "list_all2 (\<lambda>x y. may_ret (f x) w y) xs ys'" by (rule Cons.IH)
  moreover have "may_ret (f x) w y" using 1 unfolding may_ret_def by blast
  ultimately show ?case using 3 by simp
qed (simp add: ret_def)

section \<open>Computations that end\<close>

text \<open>
  \<open>halts_on w m\<close>: facing the outside \<open>w\<close>, \<open>m\<close> never runs out of fuel. Only a \<open>while\<close> loop
  needs an argument.
\<close>

definition halts_on :: "world \<Rightarrow> ('s, 'a) io \<Rightarrow> bool" where
  "halts_on w m = (\<forall>sh. fst (m w sh) \<noteq> Diverged)"

named_theorems halts_intros \<open>rules for computations that end\<close>

lemma halts_onD: "halts_on w m \<Longrightarrow> m w sh \<noteq> (Diverged, sh')"
  by (metis fst_conv halts_on_def)

lemma halts_basic [halts_intros]:
  "halts_on w (ret x)" "halts_on w (raise e)" "halts_on w (get_st f)" "halts_on w (mod_st g)"
  "halts_on w (asks a)" "halts_on w (looks l)" "halts_on w (raise_if b c t)"
  by (auto simp: halts_on_def io_defs)

lemma halts_of_res [halts_intros]: "halts_on w (of_res r)"
  by (cases r) (auto simp: of_res_def halts_basic)

lemma halts_bnd [halts_intros]:
  "halts_on w m \<Longrightarrow> (\<And>x. halts_on w (f x)) \<Longrightarrow> halts_on w (bnd m f)"
  by (auto simp: halts_on_def bnd_def split: prod.splits outcome.splits) (metis fst_conv)+

lemma halts_sq [halts_intros]: "halts_on w m \<Longrightarrow> halts_on w k \<Longrightarrow> halts_on w (sq m k)"
  unfolding sq_def by (rule halts_bnd)

lemma halts_if [halts_intros]:
  "(b \<Longrightarrow> halts_on w m) \<Longrightarrow> (\<not> b \<Longrightarrow> halts_on w k) \<Longrightarrow> halts_on w (if b then m else k)"
  by simp

lemma halts_whenever [halts_intros]: "(b \<Longrightarrow> halts_on w m) \<Longrightarrow> halts_on w (whenever b m)"
  by (simp add: whenever_def halts_basic)

lemma halts_case_option [halts_intros]:
  "(x = None \<Longrightarrow> halts_on w m) \<Longrightarrow> (\<And>y. x = Some y \<Longrightarrow> halts_on w (k y)) \<Longrightarrow>
     halts_on w (case x of None \<Rightarrow> m | Some y \<Rightarrow> k y)"
  by (cases x) auto

lemma halts_case_prod [halts_intros]:
  "(\<And>a b. x = (a, b) \<Longrightarrow> halts_on w (m a b)) \<Longrightarrow> halts_on w (case x of (a, b) \<Rightarrow> m a b)"
  by (cases x) auto

lemma halts_try_except [halts_intros]:
  "halts_on w m \<Longrightarrow> (\<And>e. halts_on w (k e)) \<Longrightarrow> halts_on w (try_except p m k)"
  by (auto simp: halts_on_def try_except_def split: prod.splits outcome.splits) (metis fst_conv)+

lemma halts_try_finally [halts_intros]:
  "halts_on w m \<Longrightarrow> halts_on w k \<Longrightarrow> halts_on w (try_finally m k)"
  by (auto simp: halts_on_def try_finally_def split: prod.splits outcome.splits) (metis fst_conv)+

lemma halts_with_local [halts_intros]: "halts_on w m \<Longrightarrow> halts_on w (with_local t m)"
  by (auto simp: halts_on_def with_local_def split: prod.splits) (metis fst_conv)+

lemma halts_for_io [halts_intros]: "(\<And>x. x \<in> set xs \<Longrightarrow> halts_on w (f x)) \<Longrightarrow> halts_on w (for_io f xs)"
  by (induction xs) (auto intro!: halts_intros)

lemma halts_map_io [halts_intros]: "(\<And>x. x \<in> set xs \<Longrightarrow> halts_on w (f x)) \<Longrightarrow> halts_on w (map_io f xs)"
  by (induction xs) (auto intro!: halts_intros)

lemma halts_fold_io [halts_intros]:
  "(\<And>a x. x \<in> set xs \<Longrightarrow> halts_on w (f a x)) \<Longrightarrow> halts_on w (fold_io f a xs)"
  by (induction xs arbitrary: a) (auto intro!: halts_intros)

lemma halts_eff [halts_intros]: "halts_on w (eff q ev)"
  by (auto simp: halts_on_def eff_def)

lemma halts_prims [halts_intros]:
  "halts_on w (run_proc argv inp env)" "halts_on w (spawn argv)" "halts_on w poll"
  "halts_on w (send rq)" "halts_on w clock" "halts_on w wall" "halts_on w (sleep d)"
  "halts_on w (token n)" "halts_on w (read_text p)" "halts_on w (write_text p t)"
  "halts_on w (append_text p t)" "halts_on w (copy_file p q)" "halts_on w (is_dir p)"
  "halts_on w (resolve_path p)" "halts_on w (write_json_text p j)" "halts_on w (mkdir p)" "halts_on w (remove_file p)"
  "halts_on w (rename_file p p')" "halts_on w (exists_path p)" "halts_on w (file_size p)"
  "halts_on w (list_dir p)" "halts_on w (disk_free p)" "halts_on w (measure_of k)"
  "halts_on w (temp_name p)" "halts_on w (cookie k)" "halts_on w (header k)" "halts_on w (gunzip t)" "halts_on w (say t)" "halts_on w (say_err t)" "halts_on w (loads t)"
  unfolding prim_defs eff_res_def by (intro halts_bnd halts_eff halts_of_res halts_basic)+

section \<open>Computations that handle their exceptions\<close>

text \<open>
  \<open>calm m\<close>: \<open>m\<close> never ends in an exception that \<open>except Exception\<close> would catch.
\<close>

definition calm :: "('s, 'a) io \<Rightarrow> bool" where
  "calm m = (\<forall>w sh e sh'. m w sh = (Raised e, sh') \<longrightarrow> \<not> is_exception e)"

named_theorems calm_intros \<open>rules for computations that handle their exceptions\<close>

lemma calm_basic [calm_intros]:
  "calm (ret x)" "calm (get_st f)" "calm (mod_st g)" "calm (asks a)" "calm (looks l)"
  by (auto simp: calm_def io_defs)

lemma calmD: "calm m \<Longrightarrow> m w sh = (Raised e, sh') \<Longrightarrow> \<not> is_exception e"
  unfolding calm_def by blast

lemma calm_bnd [calm_intros]:
  assumes m: "calm m" and f: "\<And>x. calm (f x)"
  shows "calm (bnd m f)"
  unfolding calm_def
proof (intro allI impI)
  fix w sh e sh'
  assume run: "bnd m f w sh = (Raised e, sh')"
  obtain r sh1 where 1: "m w sh = (r, sh1)" by (cases "m w sh")
  then show "\<not> is_exception e"
    using run m f by (cases r) (auto simp: bnd_def dest: calmD)
qed

lemma calm_sq [calm_intros]: "calm m \<Longrightarrow> calm k \<Longrightarrow> calm (sq m k)"
  unfolding sq_def by (rule calm_bnd)

lemma calm_if [calm_intros]: "calm m \<Longrightarrow> calm k \<Longrightarrow> calm (if b then m else k)"
  by simp

lemma calm_try_except [calm_intros]: "(\<And>e. calm (k e)) \<Longrightarrow> calm (try_except is_exception m k)"
  unfolding calm_def try_except_def by (auto split: prod.splits outcome.splits if_splits)

lemma calm_for_io [calm_intros]: "(\<And>x. x \<in> set xs \<Longrightarrow> calm (f x)) \<Longrightarrow> calm (for_io f xs)"
  by (induction xs) (auto intro!: calm_intros)

lemma calm_say [calm_intros]: "calm (say t)" "calm (say_err t)"
  by (auto simp: calm_def say_def say_err_def io_defs)

lemma calm_ends:
  assumes "calm m" and "halts_on w m"
  shows "(\<exists>x. fst (m w sh) = Ret x) \<or> (\<exists>e. fst (m w sh) = Raised e \<and> \<not> is_exception e)"
proof -
  obtain r sh' where m: "m w sh = (r, sh')" by (cases "m w sh")
  with halts_onD [OF assms(2), of sh sh'] have "r \<noteq> Diverged" by auto
  with m assms(1) show ?thesis by (cases r) (auto dest: calmD)
qed

section \<open>What a computation that returns has done\<close>

text \<open>
  \<open>yields f w xs m\<close>: whenever \<open>m\<close>, facing \<open>w\<close>, returns, the events of its course that \<open>f\<close>
  selects are, in their order, \<open>xs\<close>.
\<close>

definition yields :: "(event \<Rightarrow> 'x option) \<Rightarrow> world \<Rightarrow> 'x list \<Rightarrow> ('s, 'a) io \<Rightarrow> bool" where
  "yields f w xs m = (\<forall>s h x s' h'. m w (s, h) = (Ret x, s', h') \<longrightarrow>
     (\<exists>t. h' = h @ t \<and> List.map_filter f t = xs))"

lemma yieldsD:
  "yields f w xs m \<Longrightarrow> m w (s, h) = (Ret x, s', h') \<Longrightarrow> \<exists>t. h' = h @ t \<and> List.map_filter f t = xs"
  unfolding yields_def by blast

lemma map_filter_append: "List.map_filter f (xs @ ys) = List.map_filter f xs @ List.map_filter f ys"
  by (induction xs) (auto simp: List.map_filter_simps split: option.splits)

lemma yields_bnd_ret:
  assumes m: "yields f w xs m" and k: "\<And>x. may_ret m w x \<Longrightarrow> yields f w ys (k x)"
  shows "yields f w (xs @ ys) (bnd m k)"
  unfolding yields_def
proof (intro allI impI)
  fix s h y s' h'
  assume "bnd m k w (s, h) = (Ret y, s', h')"
  then obtain x s1 h1 where 1: "m w (s, h) = (Ret x, s1, h1)" "k x w (s1, h1) = (Ret y, s', h')"
    by (metis bnd_RetE prod.collapse)
  then have "may_ret m w x" unfolding may_ret_def by blast
  from yieldsD [OF m 1(1)] obtain t where t: "h1 = h @ t" "List.map_filter f t = xs" by blast
  from yieldsD [OF k [OF \<open>may_ret m w x\<close>] 1(2)] obtain u where
      "h' = h1 @ u" "List.map_filter f u = ys" by blast
  with t show "\<exists>t. h' = h @ t \<and> List.map_filter f t = xs @ ys" by (auto simp: map_filter_append)
qed

lemma yields_bnd:
  "yields f w xs m \<Longrightarrow> (\<And>x. yields f w ys (k x)) \<Longrightarrow> yields f w (xs @ ys) (bnd m k)"
  by (rule yields_bnd_ret)

lemma yields_sq: "yields f w xs m \<Longrightarrow> yields f w ys k \<Longrightarrow> yields f w (xs @ ys) (sq m k)"
  unfolding sq_def by (rule yields_bnd)

lemma yields_quiet:
  assumes "emits (\<lambda>e. f e = None) m"
  shows "yields f w [] m"
  unfolding yields_def
proof (intro allI impI)
  fix s h x s' h'
  assume "m w (s, h) = (Ret x, s', h')"
  with assms obtain t where t: "h' = h @ t" "list_all (\<lambda>e. f e = None) t" by (rule emitsD)
  from t(2) have "List.map_filter f t = []"
    by (induction t) (auto simp: List.map_filter_simps)
  with t(1) show "\<exists>t. h' = h @ t \<and> List.map_filter f t = []" by blast
qed

lemma yields_of_res:
  "(\<And>x. r = Inr x \<Longrightarrow> yields f w xs (k x)) \<Longrightarrow> yields f w xs (bnd (of_res r) k)"
  by (cases r) (auto simp: yields_def of_res_def bnd_def raise_def ret_def)

lemma yields_for_io:
  "(\<And>x. x \<in> set xs \<Longrightarrow> yields f w (g x) (m x)) \<Longrightarrow> yields f w (concat (map g xs)) (for_io m xs)"
proof (induction xs)
  case (Cons x xs)
  then show ?case by (auto intro!: yields_sq)
qed (simp add: yields_def ret_def List.map_filter_simps)

lemma yields_raise: "yields f w xs (raise e)"
  by (simp add: yields_def raise_def)

lemma yields_finally:
  assumes "yields f w xs m" and "emits (\<lambda>e. f e = None) k"
  shows "yields f w xs (try_finally m k)"
  unfolding yields_def
proof (intro allI impI)
  fix s h x s' h'
  assume run: "try_finally m k w (s, h) = (Ret x, s', h')"
  then obtain s1 h1 u where 1: "m w (s, h) = (Ret x, s1, h1)" "k w (s1, h1) = (Ret u, s', h')"
    by (auto simp: try_finally_def split: prod.splits outcome.splits)
  from yieldsD [OF assms(1) 1(1)] yieldsD [OF yields_quiet [OF assms(2)] 1(2)]
  show "\<exists>t. h' = h @ t \<and> List.map_filter f t = xs" by (auto simp: map_filter_append)
qed

text \<open>The commands that were run with success.\<close>

fun success_of :: "event \<Rightarrow> string list option" where
  "success_of (Ran argv i env (Inr p)) = (if p_rc p = 0 then Some argv else None)"
| "success_of _ = None"

definition completed :: "history \<Rightarrow> string list list" where
  "completed t = List.map_filter success_of t"

lemma completed_simps [simp]:
  "completed [] = []" "completed (e # t) = (case success_of e of None \<Rightarrow> completed t | Some a \<Rightarrow> a # completed t)"
  "completed (t @ u) = completed t @ completed u"
  by (simp_all add: completed_def List.map_filter_simps map_filter_append split: option.split)

lemma yields_success:
  "yields success_of w xs m \<longleftrightarrow> (\<forall>s h x s' h'. m w (s, h) = (Ret x, s', h') \<longrightarrow>
     (\<exists>t. h' = h @ t \<and> completed t = xs))"
  by (simp add: yields_def completed_def)

lemma yields_successD:
  "yields success_of w xs m \<Longrightarrow> m w (s, h) = (Ret x, s', h') \<Longrightarrow> \<exists>t. h' = h @ t \<and> completed t = xs"
  unfolding yields_success by blast

section \<open>Computations that return\<close>

text \<open>
  \<open>returns n w m\<close>: facing \<open>w\<close>, from any history of at least \<open>n\<close> events, \<open>m\<close> returns a value,
  keeps the local state and only appends events. The bound lets the outside change its answers
  once in a run.
\<close>

definition returns :: "nat \<Rightarrow> world \<Rightarrow> ('s, 'a) io \<Rightarrow> bool" where
  "returns n w m = (\<forall>s h. n \<le> length h \<longrightarrow> (\<exists>x t. m w (s, h) = (Ret x, s, h @ t)))"

named_theorems returns_intros \<open>rules for computations that return\<close>

lemma returnsE:
  assumes "returns n w m" and "n \<le> length h"
  obtains x t where "m w (s, h) = (Ret x, s, h @ t)"
  using assms unfolding returns_def by blast

lemma returns_basic [returns_intros]:
  "returns n w (ret x)" "returns n w (asks f)" "returns n w (get_st g)" "returns n w (looks q)"
  by (auto simp: returns_def ret_def asks_def get_st_def looks_def)

lemma returns_bnd [returns_intros]:
  assumes m: "returns n w m" and k: "\<And>x. returns n w (k x)"
  shows "returns n w (bnd m k)"
  unfolding returns_def
proof (intro allI impI)
  fix s and h :: history
  assume h: "n \<le> length h"
  from m h obtain x t where 1: "m w (s, h) = (Ret x, s, h @ t)" by (rule returnsE)
  have h1: "n \<le> length (h @ t)" using h by simp
  from k [of x] h1 obtain y u where "k x w (s, h @ t) = (Ret y, s, (h @ t) @ u)" by (rule returnsE)
  with 1 show "\<exists>x t. bnd m k w (s, h) = (Ret x, s, h @ t)" by (simp add: bnd_def)
qed

lemma returns_sq [returns_intros]: "returns n w m \<Longrightarrow> returns n w k \<Longrightarrow> returns n w (sq m k)"
  unfolding sq_def by (rule returns_bnd)

lemma returns_for_io [returns_intros]:
  "(\<And>x. x \<in> set xs \<Longrightarrow> returns n w (f x)) \<Longrightarrow> returns n w (for_io f xs)"
  by (induction xs) (auto intro: returns_intros)

lemma returns_fold_io [returns_intros]: "(\<And>a x. returns n w (f a x)) \<Longrightarrow> returns n w (fold_io f a xs)"
  by (induction xs arbitrary: a) (auto intro: returns_intros)

lemma returns_map_io [returns_intros]: "(\<And>x. returns n w (f x)) \<Longrightarrow> returns n w (map_io f xs)"
  by (induction xs) (auto intro: returns_intros)

lemma returns_eff [returns_intros]: "returns n w (eff q ev)"
  by (simp add: returns_def eff_def)

lemma returns_eff_res [returns_intros]:
  assumes "\<And>h. \<exists>x. q w h = Inr x"
  shows "returns n w (eff_res q ev)"
  unfolding returns_def
proof (intro allI impI)
  fix s and h :: history
  obtain x where "q w h = Inr x" using assms by blast
  then show "\<exists>x t. eff_res q ev w (s, h) = (Ret x, s, h @ t)" by (simp add: run_eff_res)
qed

lemma returns_say [returns_intros]: "returns n w (say t)" "returns n w (say_err t)" "returns n w wall"
    "returns n w clock"
  unfolding say_def say_err_def wall_def clock_def by (rule returns_eff)+

lemma returns_finally [returns_intros]:
  assumes m: "returns n w m" and k: "returns n w k"
  shows "returns n w (try_finally m k)"
  unfolding returns_def
proof (intro allI impI)
  fix s and h :: history
  assume h: "n \<le> length h"
  from m h obtain x t where 1: "m w (s, h) = (Ret x, s, h @ t)" by (rule returnsE)
  have h1: "n \<le> length (h @ t)" using h by simp
  from k h1 obtain y u where "k w (s, h @ t) = (Ret y, s, (h @ t) @ u)" by (rule returnsE)
  with 1 show "\<exists>x t. try_finally m k w (s, h) = (Ret x, s, h @ t)" by (simp add: try_finally_def)
qed

section \<open>Polling until a deadline\<close>

text \<open>
  The recurring loop of the scripts: read the monotonic clock, stop at the deadline, probe, stop
  when the probe is satisfied, sleep. The result is the last value probed and whether the probe
  was satisfied.
\<close>

definition poll_until :: "rat \<Rightarrow> rat \<Rightarrow> ('x \<Rightarrow> ('s, 'x \<times> bool) io) \<Rightarrow> 'x \<Rightarrow> ('s, 'x \<times> bool) io" where
  "poll_until timeout delay probe x0 =
     bnd clock (\<lambda>start.
     while_io (\<lambda>x.
       bnd clock (\<lambda>now.
       if now < start + timeout then
         bnd (probe x) (\<lambda>(x', fin).
         if fin then ret (Inr (x', True)) else sq (sleep delay) (ret (Inl x')))
       else ret (Inr (x, False)))) x0)"

text \<open>
  Documented behaviour of \<open>time.monotonic\<close> and \<open>time.sleep\<close>: the clock never goes back, and
  a sleep of \<open>d\<close> seconds moves it on by at least \<open>d\<close>.
\<close>

definition clock_fair :: "world \<Rightarrow> bool" where
  "clock_fair w = ((\<forall>h e. w_clock w h \<le> w_clock w (h @ [e])) \<and>
     (\<forall>h d. w_clock w h + d \<le> w_clock w (h @ [Slept d])))"

lemma clock_fair_mono: "clock_fair w \<Longrightarrow> w_clock w h \<le> w_clock w (h @ t)"
proof (induction t rule: rev_induct)
  case (snoc e t)
  then have "w_clock w h \<le> w_clock w (h @ t)" by simp
  also have "\<dots> \<le> w_clock w ((h @ t) @ [e])"
    using snoc.prems unfolding clock_fair_def by blast
  finally show ?case by simp
qed simp

locale polling =
  fixes probe :: "'x \<Rightarrow> ('s, 'x \<times> bool) io"
  assumes probe_extends: "emits (\<lambda>_. True) (probe x)"
    and probe_halts: "halts_on w (probe x)"
begin

lemma loop_returns:
  assumes fair: "clock_fair w" and d: "0 < d"
    and fuel: "deadline - w_clock w h \<le> of_nat n * d"
  shows "fst (loop_io (Suc n) (\<lambda>x. bnd clock (\<lambda>now. if now < deadline
             then bnd (probe x) (\<lambda>(x', fin).
               if fin then ret (Inr (x', True)) else sq (sleep d) (ret (Inl x')))
             else ret (Inr (x, False)))) x w (s, h)) \<noteq> Diverged"
  using fuel
proof (induction n arbitrary: x s h)
  case 0
  then have "\<not> w_clock w h < deadline" by simp
  then show ?case by (simp add: clock_def io_defs)
next
  case (Suc n)
  let ?h1 = "h @ [Clocked (w_clock w h)]"
  show ?case
  proof (cases "w_clock w h < deadline")
    case False
    then show ?thesis by (simp add: clock_def io_defs)
  next
    case True
    obtain r s2 h2 where p: "probe x w (s, ?h1) = (r, s2, h2)" by (metis prod_cases3)
    from probe_extends p obtain t where t: "h2 = ?h1 @ t" by (rule emitsD)
    show ?thesis
    proof (cases r)
      case Diverged
      with p halts_onD [OF probe_halts] show ?thesis by blast
    next
      case (Raised e)
      with p True show ?thesis by (simp add: clock_def io_defs)
    next
      case (Ret y)
      obtain x' fin where y: "y = (x', fin)" by fastforce
      show ?thesis
      proof (cases fin)
        case True
        with p Ret y \<open>w_clock w h < deadline\<close> show ?thesis
          by (simp add: clock_def io_defs)
      next
        case False
        let ?h3 = "h2 @ [Slept d]"
        have "w_clock w h \<le> w_clock w h2"
          using clock_fair_mono [OF fair, of h] t by (metis append_assoc)
        moreover have "w_clock w h2 + d \<le> w_clock w ?h3"
          using fair unfolding clock_fair_def by blast
        ultimately have "deadline - w_clock w ?h3 \<le> of_nat n * d"
          using Suc.prems by (simp add: algebra_simps)
        from Suc.IH [OF this, of x' s2] p Ret y False \<open>w_clock w h < deadline\<close>
        show ?thesis
          by (simp add: clock_def sleep_def bnd_def sq_def ret_def eff_def)
      qed
    qed
  qed
qed

lemma poll_returns:
  assumes fair: "clock_fair w" and d: "0 < d" and fuel: "timeout + d \<le> of_nat (w_fuel w) * d"
    and t: "0 \<le> timeout"
  shows "halts_on w (poll_until timeout d probe x)"
  unfolding halts_on_def
proof
  fix sh :: "'s \<times> history"
  obtain s h where sh: "sh = (s, h)" by fastforce
  let ?h1 = "h @ [Clocked (w_clock w h)]"
  from fuel d t obtain n where n: "w_fuel w = Suc n"
    by (cases "w_fuel w") auto
  have "w_clock w h \<le> w_clock w ?h1" using clock_fair_mono [OF fair] .
  with fuel n have le: "w_clock w h + timeout - w_clock w ?h1 \<le> of_nat n * d"
    by (simp add: algebra_simps)
  from loop_returns [OF fair d le] show "fst (poll_until timeout d probe x w sh) \<noteq> Diverged"
    by (simp add: sh poll_until_def while_io_def n clock_def bnd_def eff_def cong: if_cong)
qed

end


section \<open>Relations between the states before and after\<close>

text \<open>
  \<open>runs R m\<close>: however \<open>m\<close> ends, local state and history before and after are related by \<open>R\<close>.
  The interface \<open>effect_relation\<close> asks of a relation that it is a preorder and holds across a
  single allowed event; it gives a rule for every combinator.
\<close>

definition runs :: "('s \<times> history \<Rightarrow> 's \<times> history \<Rightarrow> bool) \<Rightarrow> ('s, 'a) io \<Rightarrow> bool" where
  "runs R m = (\<forall>w sh r sh'. m w sh = (r, sh') \<longrightarrow> R sh sh')"

lemma runsD: "runs R m \<Longrightarrow> m w sh = (r, sh') \<Longrightarrow> R sh sh'"
  unfolding runs_def by blast

locale effect_relation =
  fixes R :: "'s \<times> history \<Rightarrow> 's \<times> history \<Rightarrow> bool" and ok :: "event \<Rightarrow> bool"
  assumes rel_refl: "R sh sh"
    and rel_trans: "R sh sh1 \<Longrightarrow> R sh1 sh2 \<Longrightarrow> R sh sh2"
    and rel_event: "ok e \<Longrightarrow> R (s, h) (s, h @ [e])"
begin

lemma runs_ret: "runs R (ret x)" and runs_raise: "runs R (raise e)" and runs_diverge: "runs R diverge"
  by (simp_all add: runs_def ret_def raise_def diverge_def rel_refl)

lemma runs_reads: "runs R (get_st f)" "runs R (asks a)" "runs R (looks l)"
  by (auto simp: runs_def get_st_def asks_def looks_def rel_refl)

lemma runs_bnd:
  assumes m: "runs R m" and f: "\<And>x. runs R (f x)"
  shows "runs R (bnd m f)"
  unfolding runs_def
proof (intro allI impI)
  fix w sh r sh'
  assume run: "bnd m f w sh = (r, sh')"
  obtain r1 sh1 where 1: "m w sh = (r1, sh1)" by (cases "m w sh")
  with m have "R sh sh1" by (rule runsD)
  moreover have "R sh1 sh'"
    using run 1 f by (cases r1) (auto simp: bnd_def rel_refl dest: runsD)
  ultimately show "R sh sh'" by (rule rel_trans)
qed

lemma runs_sq: "runs R m \<Longrightarrow> runs R k \<Longrightarrow> runs R (sq m k)"
  unfolding sq_def by (rule runs_bnd)

lemma runs_of_res: "runs R (of_res r)"
  by (cases r) (simp_all add: of_res_def runs_ret runs_raise)

lemma runs_raise_if: "runs R (raise_if b c t)"
  by (simp add: raise_if_def runs_ret runs_raise)

lemma runs_if: "(b \<Longrightarrow> runs R m) \<Longrightarrow> (\<not> b \<Longrightarrow> runs R k) \<Longrightarrow> runs R (if b then m else k)"
  by simp

lemma runs_whenever: "(b \<Longrightarrow> runs R m) \<Longrightarrow> runs R (whenever b m)"
  by (simp add: whenever_def runs_ret)

lemma runs_case_option:
  "(x = None \<Longrightarrow> runs R m) \<Longrightarrow> (\<And>y. x = Some y \<Longrightarrow> runs R (k y)) \<Longrightarrow>
     runs R (case x of None \<Rightarrow> m | Some y \<Rightarrow> k y)"
  by (cases x) auto

lemma runs_case_prod:
  "(\<And>a b. x = (a, b) \<Longrightarrow> runs R (m a b)) \<Longrightarrow> runs R (case x of (a, b) \<Rightarrow> m a b)"
  by (cases x) auto

lemma runs_try_except:
  assumes m: "runs R m" and k: "\<And>e. runs R (k e)"
  shows "runs R (try_except p m k)"
  unfolding runs_def
proof (intro allI impI)
  fix w sh r sh'
  assume run: "try_except p m k w sh = (r, sh')"
  obtain r1 sh1 where 1: "m w sh = (r1, sh1)" by (cases "m w sh")
  with m have "R sh sh1" by (rule runsD)
  moreover have "R sh1 sh'"
    using run 1 k by (cases r1) (auto simp: try_except_def rel_refl dest: runsD split: if_splits)
  ultimately show "R sh sh'" by (rule rel_trans)
qed

lemma runs_try_finally: "runs R m \<Longrightarrow> runs R k \<Longrightarrow> runs R (try_finally m k)"
  unfolding runs_def try_finally_def
  by (auto split: prod.splits outcome.splits if_splits) (meson rel_trans)+

lemma runs_for_io: "(\<And>x. x \<in> set xs \<Longrightarrow> runs R (f x)) \<Longrightarrow> runs R (for_io f xs)"
  by (induction xs) (auto intro!: runs_ret runs_sq)

lemma runs_map_io: "(\<And>x. x \<in> set xs \<Longrightarrow> runs R (f x)) \<Longrightarrow> runs R (map_io f xs)"
  by (induction xs) (auto intro!: runs_ret runs_bnd)

lemma runs_fold_io: "(\<And>a x. x \<in> set xs \<Longrightarrow> runs R (f a x)) \<Longrightarrow> runs R (fold_io f a xs)"
  by (induction xs arbitrary: a) (auto intro!: runs_ret runs_bnd)

lemma runs_loop_io: "(\<And>x. runs R (f x)) \<Longrightarrow> runs R (loop_io n f x)"
  by (induction n arbitrary: x) (auto intro!: runs_ret runs_diverge runs_bnd split: sum.splits)

lemma runs_while_io: "(\<And>x. runs R (f x)) \<Longrightarrow> runs R (while_io f x)"
  using runs_loop_io [of f] by (simp add: runs_def while_io_def)

lemma runs_eff: "(\<And>r. ok (ev r)) \<Longrightarrow> runs R (eff q ev)"
  by (auto simp: runs_def eff_def rel_event)

lemma runs_eff_res: "(\<And>r. ok (ev r)) \<Longrightarrow> runs R (eff_res q ev)"
  unfolding eff_res_def by (intro runs_bnd runs_of_res runs_eff)

lemma runs_prims:
  "(\<And>r. ok (Ran argv inp env r)) \<Longrightarrow> runs R (run_proc argv inp env)"
  "(\<And>r. ok (Spawned argv r)) \<Longrightarrow> runs R (spawn argv)"
  "(\<And>r. ok (Polled r)) \<Longrightarrow> runs R poll"
  "(\<And>r. ok (Requested rq r)) \<Longrightarrow> runs R (send rq)"
  "(\<And>r. ok (Clocked r)) \<Longrightarrow> runs R clock"
  "(\<And>r. ok (WallClocked r)) \<Longrightarrow> runs R wall"
  "ok (Slept d) \<Longrightarrow> runs R (sleep d)"
  "(\<And>r. ok (TokenMade n r)) \<Longrightarrow> runs R (token n)"
  "(\<And>r. ok (FileRead p r)) \<Longrightarrow> runs R (read_text p)"
  "(\<And>r. ok (FileWritten p t r)) \<Longrightarrow> runs R (write_text p t)"
  "(\<And>r. ok (JsonWritten p j r)) \<Longrightarrow> runs R (write_json_text p j)"
  "(\<And>r. ok (FileAppended p t r)) \<Longrightarrow> runs R (append_text p t)"
  "(\<And>r. ok (Copied p p' r)) \<Longrightarrow> runs R (copy_file p p')"
  "(\<And>r. ok (DirMade p r)) \<Longrightarrow> runs R (mkdir p)"
  "(\<And>r. ok (Removed p r)) \<Longrightarrow> runs R (remove_file p)"
  "(\<And>r. ok (Renamed p p' r)) \<Longrightarrow> runs R (rename_file p p')"
  "ok (Printed t) \<Longrightarrow> runs R (say t)"
  "ok (PrintedErr t) \<Longrightarrow> runs R (say_err t)"
  unfolding run_proc_def spawn_def poll_def send_def clock_def wall_def sleep_def token_def
    read_text_def write_text_def write_json_text_def append_text_def copy_file_def mkdir_def remove_file_def rename_file_def
    say_def say_err_def
  by (rule runs_eff_res runs_eff; assumption)+

lemma runs_quiet: "runs R (loads t)" "runs R (exists_path p)" "runs R (file_size p)"
    "runs R (list_dir p)" "runs R (disk_free p)" "runs R (measure_of k)" "runs R (temp_name p)"
    "runs R (cookie k)" "runs R (is_dir p)" "runs R (resolve_path p)"
  unfolding is_dir_def resolve_path_def loads_def exists_path_def look_res_def file_size_def list_dir_def disk_free_def
    measure_of_def temp_name_def cookie_def
  by (intro runs_bnd runs_reads runs_of_res)+

lemma runs_mod_st: "(\<And>s h. R (s, h) (f s, h)) \<Longrightarrow> runs R (mod_st f)"
  by (auto simp: runs_def mod_st_def)

lemma runs_poll_until:
  assumes "\<And>r. ok (Clocked r)" and "ok (Slept d)" and "\<And>x. runs R (probe x)"
  shows "runs R (poll_until timeout d probe x)"
  unfolding poll_until_def
  by (intro runs_bnd runs_while_io runs_if runs_case_prod runs_sq runs_ret runs_prims assms)

lemmas runs_rules = runs_ret runs_raise runs_diverge runs_reads runs_bnd runs_sq runs_of_res
  runs_raise_if runs_if runs_whenever runs_case_option runs_case_prod runs_try_except
  runs_try_finally runs_for_io runs_map_io runs_fold_io runs_while_io runs_prims runs_quiet

end

section \<open>A quiet outside\<close>

text \<open>
  For concrete instances: every command and request succeeds, nothing exists, and the clock
  moves only while a script sleeps.
\<close>

definition quiet_world :: world where
  "quiet_world = \<lparr>w_run = \<lambda>h argv i. Inr \<lparr>p_rc = 0, p_out = [], p_err = []\<rparr>,
     w_spawn = \<lambda>h argv. Inr (), w_poll = \<lambda>h. Some 0, w_http = \<lambda>h rq. Inr (Response 200 []),
     w_clock = \<lambda>h. sum_list (map (\<lambda>e. case e of Slept d \<Rightarrow> max 0 d | _ \<Rightarrow> 0) h),
     w_wall = \<lambda>h. 0, w_read = \<lambda>h p. Inr [], w_write = \<lambda>h p. Inr (), w_append = \<lambda>h p. Inr (),
     w_copy = \<lambda>h p q. Inr (), w_mkdir = \<lambda>h p. Inr (), w_remove = \<lambda>h p. Inr (), w_rename = \<lambda>h p q. Inr (), w_temp_name = \<lambda>h p. p @ ''/tmp'',
     w_exists = \<lambda>h p. False, w_is_dir = \<lambda>h p. False, w_resolve = \<lambda>h p. p, w_cwd = ''/repo'', w_size = \<lambda>h p. Inr 0, w_entries = \<lambda>h p. Inr [],
     w_disk_free = \<lambda>h p. Inr 0, w_measure = \<lambda>h k. 0, w_cookie = \<lambda>h k. None, w_header = \<lambda>h k. None, w_gunzip = Inr, w_token = \<lambda>h n. ''t'' @ nat_str (length h),
     w_loads = \<lambda>t. Inr (JObj []), w_sha256 = \<lambda>t. ''sha:'' @ t, w_float_repr = \<lambda>r. [],
     w_iso = \<lambda>t. [], w_compact = \<lambda>t. [], w_python = ''python3'', w_env = \<lambda>k. None,
     w_root = ''/repo'', w_fuel = 100\<rparr>"

lemma quiet_clock_fair: "clock_fair quiet_world"
  by (auto simp: clock_fair_def quiet_world_def split: event.splits)

end
