(* ===== verification/Dataset_Profile.thy ===== *)
theory Dataset_Profile
  imports Py_IO
begin

text \<open>
  \<open>performance/data/generate_dataset.py\<close>, first part: the identifiers of the generated rows,
  the validation of a profile and the shape it yields, the pre-write estimate, the loading of
  profiles and authentication timeouts, the price zones and the session credentials.
\<close>

section \<open>Shapes and identifiers\<close>

record dataset_shape =
  sh_registered_users :: int
  sh_active_auth_sessions :: int
  sh_events :: int
  sh_sessions :: int
  sh_seats :: int
  sh_session_seats :: int

definition sh_users :: "dataset_shape \<Rightarrow> int" where
  "sh_users sh = sh_registered_users sh"

definition part_at :: "int list \<Rightarrow> nat \<Rightarrow> int res" where
  "part_at ps i = (if i < length ps then Inr (ps ! i)
                   else Inl (Exn IndexError ''tuple index out of range''))"

definition performance_id :: "string \<Rightarrow> int list \<Rightarrow> string res" where
  "performance_id kind ps =
     (if kind = ''user'' then
        rbind (part_at ps 0) (\<lambda>a. Inr (''perf-user-'' @ fmt_d 6 a))
      else if kind = ''auth'' then
        rbind (part_at ps 0) (\<lambda>a. Inr (''perf-auth-'' @ fmt_d 6 a))
      else if kind \<in> {''venue'', ''event''} then
        rbind (part_at ps 0) (\<lambda>a. Inr (''perf-'' @ kind @ ''-'' @ fmt_d 3 a))
      else if kind = ''session'' then
        rbind (part_at ps 0) (\<lambda>a. rbind (part_at ps 1) (\<lambda>b.
          Inr (''perf-session-'' @ fmt_d 3 a @ ''-'' @ fmt_d 3 b)))
      else if kind = ''seat'' then
        rbind (part_at ps 0) (\<lambda>a. Inr (''perf-seat-'' @ fmt_d 6 a))
      else if kind = ''session-seat'' then
        rbind (part_at ps 0) (\<lambda>a. rbind (part_at ps 1) (\<lambda>b. rbind (part_at ps 2) (\<lambda>c.
          Inr (''perf-ss-'' @ fmt_d 3 a @ ''-'' @ fmt_d 3 b @ ''-'' @ fmt_d 6 c))))
      else Inl (Exn ValueError (''unknown performance id kind: '' @ kind)))"

abbreviation user_id :: "int \<Rightarrow> string" where
  "user_id i \<equiv> ''perf-user-'' @ fmt_d 6 i"
abbreviation auth_id :: "int \<Rightarrow> string" where
  "auth_id i \<equiv> ''perf-auth-'' @ fmt_d 6 i"
abbreviation event_id :: "int \<Rightarrow> string" where
  "event_id e \<equiv> ''perf-event-'' @ fmt_d 3 e"
abbreviation session_id :: "int \<Rightarrow> int \<Rightarrow> string" where
  "session_id e s \<equiv> ''perf-session-'' @ fmt_d 3 e @ ''-'' @ fmt_d 3 s"
abbreviation seat_id :: "int \<Rightarrow> string" where
  "seat_id i \<equiv> ''perf-seat-'' @ fmt_d 6 i"
abbreviation session_seat_id :: "int \<Rightarrow> int \<Rightarrow> int \<Rightarrow> string" where
  "session_seat_id e s i \<equiv> ''perf-ss-'' @ fmt_d 3 e @ ''-'' @ fmt_d 3 s @ ''-'' @ fmt_d 6 i"

lemma performance_id_simps [simp]:
  "performance_id ''user'' [a] = Inr (user_id a)"
  "performance_id ''auth'' [a] = Inr (auth_id a)"
  "performance_id ''event'' [a] = Inr (event_id a)"
  "performance_id ''session'' [a, b] = Inr (session_id a b)"
  "performance_id ''seat'' [a] = Inr (seat_id a)"
  "performance_id ''session-seat'' [a, b, c] = Inr (session_seat_id a b c)"
  by (simp_all add: performance_id_def part_at_def)

lemma append_eq_at_sep:
  assumes "d \<notin> set s" and "d \<notin> set s'" and "s @ d # t = s' @ d # t'"
  shows "s = s' \<and> t = t'"
  using assms
proof (induction s arbitrary: s')
  case Nil
  then show ?case by (cases s') auto
next
  case (Cons c s)
  then show ?case by (cases s') auto
qed

lemma dash_not_in_fmt_d [simp]: "0 \<le> i \<Longrightarrow> CHR ''-'' \<notin> set (fmt_d w i)"
  by (auto simp: fmt_d_nonneg is_digit_def char_between_def dest!: set_zpad)

section \<open>Validation of a profile\<close>

definition required_fields :: "string list" where
  "required_fields = [''version'', ''name'', ''seed'', ''events'', ''sessionsPerEvent'',
     ''seatLayout'', ''futureStartOffsetDays'', ''sessionSpacingHours'', ''gateLeadMinutes'',
     ''priceZones'']"

definition positive_fields :: "string list" where
  "positive_fields = [''seed'', ''events'', ''sessionsPerEvent'', ''futureStartOffsetDays'',
     ''sessionSpacingHours'', ''gateLeadMinutes'']"

text \<open>\<open>IDENTIFIER_RE.fullmatch\<close>: one or more lower case letters, digits or hyphens.\<close>

definition identifier_re :: "string \<Rightarrow> bool" where
  "identifier_re s = (s \<noteq> [] \<and> list_all (\<lambda>c. is_lower c \<or> is_digit c \<or> c = CHR ''-'') s)"

definition check_positive :: "string \<Rightarrow> json \<Rightarrow> unit res" where
  "check_positive field v =
     (case json_pos_int v of
        None \<Rightarrow> Inl (Exn ValueError (field @ '' must be a positive integer''))
      | Some i \<Rightarrow> Inr ())"

definition check_zone :: "int \<times> string list \<Rightarrow> json \<Rightarrow> (int \<times> string list) res" where
  "check_zone acc z =
     (case z of
        JObj d \<Rightarrow>
          (let name = dget_or d ''name'' JNull;
               rows = dget_or d ''rows'' JNull;
               price = dget_or d ''price'' JNull
           in case name of
                JStr n \<Rightarrow>
                  if \<not> identifier_re (py_lower n)
                  then Inl (Exn ValueError ''zone name must be a non-empty identifier'')
                  else if n \<in> set (snd acc)
                  then Inl (Exn ValueError (''duplicate zone name: '' @ n))
                  else (case json_pos_int rows of
                      None \<Rightarrow> Inl (Exn ValueError ''zone rows must be a positive integer'')
                    | Some r \<Rightarrow> (case price of
                          JInt pr \<Rightarrow>
                            if pr < 0
                            then Inl (Exn ValueError ''zone price must be a non-negative integer'')
                            else Inr (fst acc + r, n # snd acc)
                        | _ \<Rightarrow> Inl (Exn ValueError ''zone price must be a non-negative integer'')))
              | _ \<Rightarrow> Inl (Exn ValueError ''zone name must be a non-empty identifier''))
      | _ \<Rightarrow> Inl (Exn ValueError ''each price zone must be an object''))"

definition the_int :: "json \<Rightarrow> int" where
  "the_int v = (case v of JInt i \<Rightarrow> i | _ \<Rightarrow> 0)"

definition validate_layout :: "json \<Rightarrow> (int \<times> int) res" where
  "validate_layout layout =
     (case layout of
        JObj l \<Rightarrow>
          (case json_pos_int (dget_or l ''rows'' JNull) of
             None \<Rightarrow> Inl (Exn ValueError ''seatLayout.rows must be a positive integer'')
           | Some r \<Rightarrow> (case json_pos_int (dget_or l ''seatsPerRow'' JNull) of
                 None \<Rightarrow> Inl (Exn ValueError ''seatLayout.seatsPerRow must be a positive integer'')
               | Some n \<Rightarrow>
                   if n > 999999
                   then Inl (Exn ValueError
                     ''seat numbers must fit the deterministic six-digit ID format'')
                   else Inr (r, n)))
      | _ \<Rightarrow> Inl (Exn ValueError ''seatLayout must be an object''))"

definition validate_zones :: "json \<Rightarrow> int \<Rightarrow> unit res" where
  "validate_zones zones rows =
     (case zones of
        JList zs \<Rightarrow>
          if zs = [] then Inl (Exn ValueError ''priceZones must be a non-empty array'')
          else rbind (fold_res check_zone (0, []) zs) (\<lambda>(zone_rows, names).
            require (zone_rows = rows) ValueError
              ''price zone rows must exactly cover the seat layout'')
      | _ \<Rightarrow> Inl (Exn ValueError ''priceZones must be a non-empty array''))"

definition validate_users :: "dict \<Rightarrow> (json \<times> json) res" where
  "validate_users p =
     (if \<not> dhas p ''users'' \<and> \<not> dhas p ''registeredUsers''
      then Inl (Exn ValueError ''profile requires registeredUsers or legacy users'')
      else if dhas p ''users'' \<and> dhas p ''registeredUsers''
          \<and> \<not> py_eq (dget_or p ''users'' JNull) (dget_or p ''registeredUsers'' JNull)
      then Inl (Exn ValueError ''users and registeredUsers must match when both are present'')
      else let reg = dget_or p ''registeredUsers'' (dget_or p ''users'' JNull)
           in Inr (reg, dget_or p ''activeAuthSessions'' reg))"

definition validate_profile :: "json \<Rightarrow> dataset_shape res" where
  "validate_profile profile =
     (case profile of
        JObj p \<Rightarrow>
          (let missing = sort (filter (\<lambda>k. \<not> dhas p k) required_fields)
           in if missing \<noteq> []
              then Inl (Exn ValueError (''profile is missing fields: '' @ join_with '', '' missing))
              else if \<not> py_eq (dget_or p ''version'' JNull) (JInt 1)
              then Inl (Exn ValueError ''only profile version 1 is supported'')
              else (case dget_or p ''name'' JNull of
                  JStr n \<Rightarrow>
                    if \<not> identifier_re n
                    then Inl (Exn ValueError
                      ''profile name must contain lowercase letters, digits or hyphens'')
                    else
                      rbind (validate_users p) (\<lambda>(reg, act).
                      rbind (fold_res (\<lambda>u f. check_positive f (dget_or p f JNull)) () positive_fields) (\<lambda>_.
                      rbind (check_positive ''registeredUsers'' reg) (\<lambda>_.
                      rbind (check_positive ''activeAuthSessions'' act) (\<lambda>_.
                      rbind (require (the_int act \<le> the_int reg) ValueError
                        ''activeAuthSessions cannot exceed registeredUsers'') (\<lambda>_.
                      rbind (validate_layout (dget_or p ''seatLayout'' JNull)) (\<lambda>(rows, perrow).
                      rbind (validate_zones (dget_or p ''priceZones'' JNull) rows) (\<lambda>_.
                      rbind (require (0 < the_int (dget_or p ''gateLeadMinutes'' JNull)) ValueError
                        ''gate_time must be earlier than start_time'') (\<lambda>_.
                      let evs = the_int (dget_or p ''events'' JNull);
                          ses = evs * the_int (dget_or p ''sessionsPerEvent'' JNull);
                          sts = rows * perrow
                      in Inr \<lparr>sh_registered_users = the_int reg,
                              sh_active_auth_sessions = the_int act,
                              sh_events = evs,
                              sh_sessions = ses,
                              sh_seats = sts,
                              sh_session_seats = ses * sts\<rparr>))))))))
                | _ \<Rightarrow> Inl (Exn ValueError
                    ''profile name must contain lowercase letters, digits or hyphens'')))
      | _ \<Rightarrow> Inl (Exn AttributeError ''keys''))"

definition estimate_generation :: "dataset_shape \<Rightarrow> (string \<times> int) list" where
  "estimate_generation sh =
     [(''databaseRows'',
         1 + sh_registered_users sh + sh_active_auth_sessions sh + sh_events sh
         + sh_sessions sh + sh_seats sh + sh_session_seats sh),
      (''generatedFileBytes'',
         sh_active_auth_sessions sh * 420 + sh_active_auth_sessions sh * 100
         + sh_session_seats sh * 120 + 16384)]"

section \<open>Loading\<close>

text \<open>\<open>x in value\<close> for a string and a JSON value.\<close>

fun json_in :: "string \<Rightarrow> json \<Rightarrow> bool res" where
  "json_in s (JObj d) = Inr (dhas d s)"
| "json_in s (JList xs) = Inr (list_ex (py_eq (JStr s)) xs)"
| "json_in s (JStr t) = Inr (contains t s)"
| "json_in s _ = Inl (Exn TypeError ''argument is not iterable'')"

fun json_floordiv :: "json \<Rightarrow> int \<Rightarrow> json res" where
  "json_floordiv (JInt i) n = Inr (JInt (i div n))"
| "json_floordiv (JBool b) n = Inr (JInt ((if b then 1 else 0) div n))"
| "json_floordiv (JFloat r) n = Inr (JFloat (of_int \<lfloor>r / of_int n\<rfloor>))"
| "json_floordiv _ n = Inl (Exn TypeError ''unsupported operand'')"

fun json_update :: "json \<Rightarrow> dict \<Rightarrow> json res" where
  "json_update (JObj d) us = Inr (JObj (foldl (\<lambda>e (k, v). dset e k v) d us))"
| "json_update _ us = Inl (Exn AttributeError ''update'')"

definition path_join :: "string \<Rightarrow> string \<Rightarrow> string" where
  "path_join a b = (if startswith b ''/'' then b else a @ ''/'' @ b)"

definition has_json_suffix :: "string \<Rightarrow> bool" where
  "has_json_suffix p = (let n = path_name p in
     5 < length n \<and> drop (length n - 5) n = ''.json'')"

definition profile_path :: "string \<Rightarrow> string \<Rightarrow> string" where
  "profile_path rt s = (if has_json_suffix s then s
     else rt @ ''/performance/data/profiles/'' @ s @ ''.json'')"

text \<open>
  The profile derived from the frozen targets, shared by \<open>load_profile\<close> and, without the
  name, the seed and the marker, by \<open>export_phase14\<close>.
\<close>

definition standard_zone :: "json \<Rightarrow> json" where
  "standard_zone rows = JList [JObj [(''name'', JStr ''STANDARD''), (''rows'', rows),
     (''price'', JInt 68000)]]"

definition phase14_profile :: "json \<Rightarrow> json \<Rightarrow> json \<Rightarrow> json res" where
  "phase14_profile profile targets base =
     rbind (json_index targets ''dataset'') (\<lambda>d.
     rbind (json_index profile ''name'') (\<lambda>name.
     rbind (json_index targets ''seed'') (\<lambda>sd.
     rbind (json_index d ''registeredUsers'') (\<lambda>ru.
     rbind (json_index d ''activeAuthSessions'') (\<lambda>aa.
     rbind (json_index d ''events'') (\<lambda>ev.
     rbind (json_index d ''sessionsPerEvent'') (\<lambda>spe.
     rbind (json_update base [(''name'', name), (''seed'', sd), (''registeredUsers'', ru),
       (''activeAuthSessions'', aa), (''events'', ev), (''sessionsPerEvent'', spe)]) (\<lambda>b1.
     rbind (json_index d ''seatsPerSession'') (\<lambda>sps.
     rbind (json_floordiv sps 50) (\<lambda>rows.
     json_update b1 [(''seatLayout'', JObj [(''rows'', rows), (''seatsPerRow'', JInt 50)]),
       (''priceZones'', standard_zone rows), (''phase14'', JBool True)]))))))))))"

definition load_profile :: "string \<Rightarrow> ('s, json \<times> string) io" where
  "load_profile name_or_path =
     bnd (asks (\<lambda>w. profile_path (w_root w) name_or_path)) (\<lambda>path.
     bnd (try_except (caught_by [OSError, JSONDecodeError])
           (bnd (read_text path) loads)
           (\<lambda>e. raise (Exn ValueError (''cannot read profile '' @ path @ '': '' @ exn_msg e)))) (\<lambda>profile.
     bnd (of_res (json_in ''phase14Targets'' profile)) (\<lambda>derived.
     bnd (if derived then
            bnd (of_res (json_index profile ''phase14Targets'')) (\<lambda>tf.
            bnd (case tf of JStr s \<Rightarrow> read_text (path_join (path_parent path) s)
                 | _ \<Rightarrow> raise (Exn TypeError ''unsupported operand'')) (\<lambda>traw.
            bnd (loads traw) (\<lambda>targets.
            bnd (of_res (json_index profile ''baseProfile'')) (\<lambda>bf.
            bnd (case bf of JStr s \<Rightarrow> read_text (path_join (path_parent path) s)
                 | _ \<Rightarrow> raise (Exn TypeError ''unsupported operand'')) (\<lambda>braw.
            bnd (loads braw) (\<lambda>base.
            of_res (phase14_profile profile targets base)))))))
          else ret profile) (\<lambda>profile'.
     bnd (of_res (validate_profile profile')) (\<lambda>_.
     ret (profile', path))))))"

definition auth_timeouts_of :: "json \<Rightarrow> (json \<times> json) res" where
  "auth_timeouts_of config =
     rbind (json_index config ''custom_config'') (\<lambda>cc.
     rbind (json_index cc ''authentication'') (\<lambda>auth.
     rbind (json_index auth ''idle_timeout_seconds'') (\<lambda>idle.
     rbind (json_index auth ''absolute_timeout_seconds'') (\<lambda>absolute.
     Inr (idle, absolute)))))"

definition check_timeouts :: "json \<times> json \<Rightarrow> (int \<times> int) res" where
  "check_timeouts ia =
     (case json_pos_int (fst ia) of
        None \<Rightarrow> Inl (Exn ValueError ''authentication idle timeout must be a positive integer'')
      | Some i \<Rightarrow> (case json_pos_int (snd ia) of
            None \<Rightarrow> Inl (Exn ValueError
              ''authentication absolute timeout must be a positive integer'')
          | Some a \<Rightarrow>
              if i > a
              then Inl (Exn ValueError
                ''authentication idle timeout cannot exceed absolute timeout'')
              else Inr (i, a)))"

definition load_auth_timeouts :: "string \<Rightarrow> ('s, int \<times> int) io" where
  "load_auth_timeouts path =
     bnd (try_except (caught_by [OSError, JSONDecodeError, KeyError, TypeError])
           (bnd (read_text path) (\<lambda>t. bnd (loads t) (\<lambda>c. of_res (auth_timeouts_of c))))
           (\<lambda>e. raise (Exn ValueError
             (''cannot read authentication timeouts from '' @ path @ '': '' @ exn_msg e)))) (\<lambda>ia.
     of_res (check_timeouts ia))"

definition load_auth_spread :: "string \<Rightarrow> ('s, int \<times> int \<times> int) io" where
  "load_auth_spread path =
     bnd (load_auth_timeouts path) (\<lambda>(idle, absolute).
     bnd (read_text path) (\<lambda>t.
     bnd (loads t) (\<lambda>c.
     bnd (of_res (rbind (json_index c ''custom_config'') (\<lambda>cc.
       rbind (json_index cc ''authentication'') (\<lambda>auth.
       json_index auth ''last_seen_write_interval_seconds'')))) (\<lambda>interval.
     case interval of
       JInt i \<Rightarrow>
         if 0 < i \<and> i < idle \<and> idle \<le> absolute then ret (idle, absolute, i)
         else raise (Exn ValueError ''last_seen interval must fit valid idle and absolute timeouts'')
     | _ \<Rightarrow> raise (Exn ValueError
         ''last_seen interval must fit valid idle and absolute timeouts'')))))"

definition canonical_json :: "(rat \<Rightarrow> string) \<Rightarrow> json \<Rightarrow> string" where
  "canonical_json fr payload = dumps fr payload"

definition profile_sha256 :: "world \<Rightarrow> json \<Rightarrow> string" where
  "profile_sha256 w profile = w_sha256 w (canonical_json (w_float_repr w) profile)"

section \<open>Price zones as SQL\<close>

definition sql_literal :: "string \<Rightarrow> string" where
  "sql_literal v = quot # concat (map (\<lambda>c. if c = quot then [quot, quot] else [c]) v) @ [quot]"

text \<open>
  \<open>zone_case\<close>: the clauses of the CASE expression, first and last row and value of each zone,
  in the order of the zones, and their text.
\<close>

fun zone_clauses :: "string \<Rightarrow> int \<Rightarrow> json list \<Rightarrow> (int \<times> int \<times> json) list res" where
  "zone_clauses field first [] = Inr []"
| "zone_clauses field first (z # zs) =
     rbind (json_index z ''rows'') (\<lambda>r.
     rbind (json_index z field) (\<lambda>v.
     let last_row = first + the_int r - 1
     in rbind (zone_clauses field (last_row + 1) zs) (\<lambda>cs. Inr ((first, last_row, v) # cs))))"

definition sql_value :: "json \<Rightarrow> string" where
  "sql_value v = (case v of
      JInt i \<Rightarrow> int_str i
    | JBool b \<Rightarrow> (if b then ''True'' else ''False'')
    | JStr s \<Rightarrow> sql_literal s
    | _ \<Rightarrow> [])"

definition clause_text :: "int \<times> int \<times> json \<Rightarrow> string" where
  "clause_text c = (case c of (a, b, v) \<Rightarrow>
     ''WHEN row_index BETWEEN '' @ int_str a @ '' AND '' @ int_str b @ '' THEN '' @ sql_value v)"

definition zone_case :: "json \<Rightarrow> string \<Rightarrow> string res" where
  "zone_case profile field =
     rbind (json_index profile ''priceZones'') (\<lambda>zs.
     case zs of
       JList l \<Rightarrow> rbind (zone_clauses field 1 l) (\<lambda>cs.
         Inr (''CASE '' @ join_with '' '' (map clause_text cs) @ '' ELSE NULL END''))
     | _ \<Rightarrow> Inl (Exn TypeError ''priceZones is not a list''))"

text \<open>Value of the CASE expression at a row: the first clause whose range holds it, or NULL.\<close>

fun case_value :: "(int \<times> int \<times> json) list \<Rightarrow> int \<Rightarrow> json option" where
  "case_value [] row = None"
| "case_value ((a, b, v) # cs) row = (if a \<le> row \<and> row \<le> b then Some v else case_value cs row)"

section \<open>Credentials\<close>

record credential =
  cr_user_id :: string
  cr_username :: string
  cr_auth_session_id :: string
  cr_session_token :: string
  cr_csrf_token :: string
  cr_token_hash :: string

definition generate_one :: "int \<Rightarrow> ('s, credential) io" where
  "generate_one index =
     bnd (token 32) (\<lambda>raw.
     bnd (token 32) (\<lambda>csrf.
     bnd (of_res (performance_id ''user'' [index])) (\<lambda>uid.
     bnd (of_res (performance_id ''auth'' [index])) (\<lambda>aid.
     bnd (asks (\<lambda>w. w_sha256 w raw)) (\<lambda>hash.
     ret \<lparr>cr_user_id = uid, cr_username = uid, cr_auth_session_id = aid,
          cr_session_token = raw, cr_csrf_token = csrf, cr_token_hash = hash\<rparr>)))))"

definition generate_session_credentials :: "int \<Rightarrow> ('s, credential list) io" where
  "generate_session_credentials user_count = map_io generate_one [1..user_count]"

definition public_sessions :: "credential list \<Rightarrow> json list" where
  "public_sessions cs = map (\<lambda>c. JObj
     [(''userId'', JStr (cr_user_id c)), (''username'', JStr (cr_username c)),
      (''authSessionId'', JStr (cr_auth_session_id c)),
      (''sessionToken'', JStr (cr_session_token c)), (''csrfToken'', JStr (cr_csrf_token c))]) cs"

definition workload_users :: "credential list \<Rightarrow> json list" where
  "workload_users cs = map (\<lambda>c. JObj
     [(''userId'', JStr (cr_user_id c)), (''username'', JStr (cr_username c))]) cs"

section \<open>What a validated profile is\<close>

text \<open>
  The abstract side: a typed profile, when it is well formed, when a dictionary represents it,
  and its shape.
\<close>

record zone_spec =
  zs_name :: string
  zs_rows :: int
  zs_price :: int

record profile_spec =
  ps_name :: string
  ps_registered :: int
  ps_active :: int
  ps_events :: int
  ps_per_event :: int
  ps_rows :: int
  ps_per_row :: int
  ps_lead :: int
  ps_zones :: "zone_spec list"

definition wf_zone :: "zone_spec \<Rightarrow> bool" where
  "wf_zone z = (identifier_re (py_lower (zs_name z)) \<and> 0 < zs_rows z \<and> 0 \<le> zs_price z)"

definition wf_profile :: "profile_spec \<Rightarrow> bool" where
  "wf_profile ps =
     (identifier_re (ps_name ps) \<and> 0 < ps_registered ps \<and> 0 < ps_active ps
      \<and> ps_active ps \<le> ps_registered ps \<and> 0 < ps_events ps \<and> 0 < ps_per_event ps
      \<and> 0 < ps_rows ps \<and> 0 < ps_per_row ps \<and> ps_per_row ps \<le> 999999 \<and> 0 < ps_lead ps
      \<and> ps_zones ps \<noteq> [] \<and> list_all wf_zone (ps_zones ps)
      \<and> distinct (map zs_name (ps_zones ps))
      \<and> sum_list (map zs_rows (ps_zones ps)) = ps_rows ps)"

definition zone_represents :: "json \<Rightarrow> zone_spec \<Rightarrow> bool" where
  "zone_represents j z = (\<exists>d. j = JObj d \<and> map_of d ''name'' = Some (JStr (zs_name z))
     \<and> map_of d ''rows'' = Some (JInt (zs_rows z))
     \<and> map_of d ''price'' = Some (JInt (zs_price z)))"

definition int_field :: "dict \<Rightarrow> string \<Rightarrow> int \<Rightarrow> bool" where
  "int_field p k i = (map_of p k = Some (JInt i))"

definition positive_field :: "dict \<Rightarrow> string \<Rightarrow> bool" where
  "positive_field p k = (\<exists>i > 0. int_field p k i)"

definition users_represent :: "dict \<Rightarrow> int \<Rightarrow> int \<Rightarrow> bool" where
  "users_represent p reg act =
     ((case map_of p ''registeredUsers'' of
         None \<Rightarrow> int_field p ''users'' reg
       | Some v \<Rightarrow> v = JInt reg \<and> (\<forall>u. map_of p ''users'' = Some u \<longrightarrow> json_num u = Some (of_int reg)))
      \<and> (case map_of p ''activeAuthSessions'' of None \<Rightarrow> act = reg | Some v \<Rightarrow> v = JInt act))"

definition profile_represents :: "dict \<Rightarrow> profile_spec \<Rightarrow> bool" where
  "profile_represents p ps =
     ((\<exists>v. map_of p ''version'' = Some v \<and> json_num v = Some 1)
      \<and> map_of p ''name'' = Some (JStr (ps_name ps))
      \<and> users_represent p (ps_registered ps) (ps_active ps)
      \<and> int_field p ''events'' (ps_events ps)
      \<and> int_field p ''sessionsPerEvent'' (ps_per_event ps)
      \<and> int_field p ''gateLeadMinutes'' (ps_lead ps)
      \<and> positive_field p ''seed'' \<and> positive_field p ''futureStartOffsetDays''
      \<and> positive_field p ''sessionSpacingHours''
      \<and> (\<exists>l. map_of p ''seatLayout'' = Some (JObj l) \<and> int_field l ''rows'' (ps_rows ps)
             \<and> int_field l ''seatsPerRow'' (ps_per_row ps))
      \<and> (\<exists>zs. map_of p ''priceZones'' = Some (JList zs) \<and> list_all2 zone_represents zs (ps_zones ps)))"

definition shape_of :: "profile_spec \<Rightarrow> dataset_shape" where
  "shape_of ps =
     \<lparr>sh_registered_users = ps_registered ps,
      sh_active_auth_sessions = ps_active ps,
      sh_events = ps_events ps,
      sh_sessions = ps_events ps * ps_per_event ps,
      sh_seats = ps_rows ps * ps_per_row ps,
      sh_session_seats = ps_events ps * ps_per_event ps * (ps_rows ps * ps_per_row ps)\<rparr>"

subsection \<open>The single checks\<close>

lemma dget_or_Some [simp]: "map_of d k = Some v \<Longrightarrow> dget_or d k w = v"
  by (simp add: dget_or_def)

lemma dget_or_JNull_iff: "v \<noteq> JNull \<Longrightarrow> dget_or d k JNull = v \<longleftrightarrow> map_of d k = Some v"
  by (auto simp: dget_or_def split: option.splits)

lemma check_positive_Inr_iff [res_simps]:
  "check_positive f v = Inr u \<longleftrightarrow> (\<exists>i > 0. v = JInt i)"
  by (auto simp: check_positive_def split: option.splits)

lemma positive_fields_Inr_iff:
  "fold_res (\<lambda>u f. check_positive f (dget_or p f JNull)) () fs = Inr u \<longleftrightarrow>
     (\<forall>f \<in> set fs. positive_field p f)"
proof (induction fs)
  case (Cons f fs)
  have "(\<exists>i > 0. dget_or p f JNull = JInt i) \<longleftrightarrow> positive_field p f"
    by (auto simp: positive_field_def int_field_def dget_or_JNull_iff)
  with Cons show ?case by (simp add: res_simps)
qed simp

lemma json_pos_int_dget_iff:
  "json_pos_int (dget_or d k JNull) = Some i \<longleftrightarrow> int_field d k i \<and> 0 < i"
  by (auto simp: int_field_def dget_or_JNull_iff)

lemma validate_layout_Inr_iff:
  "validate_layout lay = Inr (r, n) \<longleftrightarrow>
     (\<exists>l. lay = JObj l \<and> int_field l ''rows'' r \<and> 0 < r
        \<and> int_field l ''seatsPerRow'' n \<and> 0 < n \<and> n \<le> 999999)"
proof
  assume "validate_layout lay = Inr (r, n)"
  then show "\<exists>l. lay = JObj l \<and> int_field l ''rows'' r \<and> 0 < r
        \<and> int_field l ''seatsPerRow'' n \<and> 0 < n \<and> n \<le> 999999"
    by (cases lay)
       (auto simp: validate_layout_def json_pos_int_dget_iff not_less simp del: json_pos_int_Some
         split: option.splits if_splits)
qed (auto simp: validate_layout_def int_field_def)

lemma check_zone_Inr_iff:
  "check_zone (t, ns) j = Inr (t', ns') \<longleftrightarrow>
     (\<exists>z. zone_represents j z \<and> wf_zone z \<and> zs_name z \<notin> set ns
        \<and> t' = t + zs_rows z \<and> ns' = zs_name z # ns)"
proof
  assume "check_zone (t, ns) j = Inr (t', ns')"
  then obtain d n r pr where "j = JObj d" "dget_or d ''name'' JNull = JStr n"
      "identifier_re (py_lower n)" "n \<notin> set ns" "int_field d ''rows'' r" "0 < r"
      "dget_or d ''price'' JNull = JInt pr" "0 \<le> pr" "t' = t + r" "ns' = n # ns"
    by (auto simp: check_zone_def Let_def json_pos_int_dget_iff not_less simp del: json_pos_int_Some
        split: json.splits option.splits if_splits)
  then show "\<exists>z. zone_represents j z \<and> wf_zone z \<and> zs_name z \<notin> set ns
        \<and> t' = t + zs_rows z \<and> ns' = zs_name z # ns"
    by (intro exI [of _ "\<lparr>zs_name = n, zs_rows = r, zs_price = pr\<rparr>"])
       (auto simp: zone_represents_def wf_zone_def int_field_def dget_or_JNull_iff)
next
  assume "\<exists>z. zone_represents j z \<and> wf_zone z \<and> zs_name z \<notin> set ns
        \<and> t' = t + zs_rows z \<and> ns' = zs_name z # ns"
  then show "check_zone (t, ns) j = Inr (t', ns')"
    by (auto simp: check_zone_def zone_represents_def wf_zone_def)
qed

lemma zones_fold_Inr_iff:
  "fold_res check_zone (t, ns) zs = Inr (t', ns') \<longleftrightarrow>
     (\<exists>specs. list_all2 zone_represents zs specs \<and> list_all wf_zone specs
        \<and> distinct (map zs_name specs) \<and> set (map zs_name specs) \<inter> set ns = {}
        \<and> t' = t + sum_list (map zs_rows specs) \<and> ns' = rev (map zs_name specs) @ ns)"
proof (induction zs arbitrary: t ns)
  case (Cons z zs)
  show ?case
  proof
    assume "fold_res check_zone (t, ns) (z # zs) = Inr (t', ns')"
    then obtain t1 ns1 where z: "check_zone (t, ns) z = Inr (t1, ns1)"
        and rest: "fold_res check_zone (t1, ns1) zs = Inr (t', ns')"
      by (auto simp: res_simps)
    from z obtain sp where sp: "zone_represents z sp" "wf_zone sp" "zs_name sp \<notin> set ns"
        "t1 = t + zs_rows sp" "ns1 = zs_name sp # ns"
      by (auto simp: check_zone_Inr_iff)
    from rest obtain specs where "list_all2 zone_represents zs specs" "list_all wf_zone specs"
        "distinct (map zs_name specs)" "set (map zs_name specs) \<inter> set ns1 = {}"
        "t' = t1 + sum_list (map zs_rows specs)" "ns' = rev (map zs_name specs) @ ns1"
      by (auto simp: Cons.IH)
    with sp show "\<exists>specs. list_all2 zone_represents (z # zs) specs \<and> list_all wf_zone specs
        \<and> distinct (map zs_name specs) \<and> set (map zs_name specs) \<inter> set ns = {}
        \<and> t' = t + sum_list (map zs_rows specs) \<and> ns' = rev (map zs_name specs) @ ns"
      by (intro exI [of _ "sp # specs"]) auto
  next
    assume "\<exists>specs. list_all2 zone_represents (z # zs) specs \<and> list_all wf_zone specs
        \<and> distinct (map zs_name specs) \<and> set (map zs_name specs) \<inter> set ns = {}
        \<and> t' = t + sum_list (map zs_rows specs) \<and> ns' = rev (map zs_name specs) @ ns"
    then obtain sp specs where sp: "zone_represents z sp" "wf_zone sp" "zs_name sp \<notin> set ns"
        and specs: "list_all2 zone_represents zs specs" "list_all wf_zone specs"
        "distinct (map zs_name specs)" "zs_name sp \<notin> set (map zs_name specs)"
        "set (map zs_name specs) \<inter> set ns = {}"
        "t' = t + (zs_rows sp + sum_list (map zs_rows specs))"
        "ns' = rev (map zs_name (sp # specs)) @ ns"
      by (auto simp: list_all2_Cons1)
    have "fold_res check_zone (t + zs_rows sp, zs_name sp # ns) zs = Inr (t', ns')"
      unfolding Cons.IH using specs by (intro exI [of _ specs]) auto
    moreover have "check_zone (t, ns) z = Inr (t + zs_rows sp, zs_name sp # ns)"
      using sp by (auto simp: check_zone_Inr_iff)
    ultimately show "fold_res check_zone (t, ns) (z # zs) = Inr (t', ns')" by simp
  qed
qed (auto simp: list_all2_Nil)

lemma validate_zones_Inr_iff:
  "validate_zones j rows = Inr u \<longleftrightarrow>
     (\<exists>zs specs. j = JList zs \<and> specs \<noteq> [] \<and> list_all2 zone_represents zs specs
        \<and> list_all wf_zone specs \<and> distinct (map zs_name specs)
        \<and> sum_list (map zs_rows specs) = rows)"
  by (cases j)
     (auto simp: validate_zones_def res_simps zones_fold_Inr_iff split: prod.splits,
      metis list_all2_Nil2)

lemma py_eq_JInt [simp]: "py_eq v (JInt i) \<longleftrightarrow> json_num v = Some (of_int i)"
  by (cases v) auto

lemma validate_users_Inr_iff:
  "validate_users p = Inr (JInt reg, JInt act) \<longleftrightarrow> users_represent p reg act"
  by (auto simp: validate_users_def users_represent_def dhas_def dget_or_def Let_def int_field_def
      split: option.splits)

subsection \<open>The validation accepts exactly the represented well-formed profiles\<close>

lemma required_missing_iff:
  "sort (filter (\<lambda>k. \<not> dhas p k) required_fields) = [] \<longleftrightarrow> (\<forall>k \<in> set required_fields. dhas p k)"
proof -
  have "sort (filter (\<lambda>k. \<not> dhas p k) required_fields) = [] \<longleftrightarrow>
      set (sort (filter (\<lambda>k. \<not> dhas p k) required_fields)) = {}"
    by (simp only: set_empty)
  then show ?thesis by auto
qed

lemma represents_required:
  "profile_represents p ps \<Longrightarrow> k \<in> set required_fields \<Longrightarrow> dhas p k"
  by (auto simp: profile_represents_def required_fields_def dhas_def int_field_def positive_field_def)

lemma validate_profile_complete:
  assumes rep: "profile_represents p ps" and wf: "wf_profile ps"
  shows "validate_profile (JObj p) = Inr (shape_of ps)"
proof -
  from rep obtain v l zs where
      v: "map_of p ''version'' = Some v" "json_num v = Some 1"
    and n: "map_of p ''name'' = Some (JStr (ps_name ps))"
    and u: "users_represent p (ps_registered ps) (ps_active ps)"
    and i: "map_of p ''events'' = Some (JInt (ps_events ps))"
      "map_of p ''sessionsPerEvent'' = Some (JInt (ps_per_event ps))"
      "map_of p ''gateLeadMinutes'' = Some (JInt (ps_lead ps))"
    and pos: "positive_field p ''seed''" "positive_field p ''futureStartOffsetDays''"
      "positive_field p ''sessionSpacingHours''"
    and l: "map_of p ''seatLayout'' = Some (JObj l)" "int_field l ''rows'' (ps_rows ps)"
      "int_field l ''seatsPerRow'' (ps_per_row ps)"
    and z: "map_of p ''priceZones'' = Some (JList zs)" "list_all2 zone_represents zs (ps_zones ps)"
    by (auto simp: profile_represents_def int_field_def)
  have fields: "fold_res (\<lambda>u f. check_positive f (dget_or p f JNull)) () positive_fields = Inr ()"
    unfolding positive_fields_Inr_iff using pos i wf
    by (simp add: positive_fields_def positive_field_def int_field_def wf_profile_def)
  have "validate_layout (JObj l) = Inr (ps_rows ps, ps_per_row ps)"
    using l wf by (auto simp: validate_layout_Inr_iff wf_profile_def)
  moreover have "validate_zones (JList zs) (ps_rows ps) = Inr ()"
    using z wf by (auto simp: validate_zones_Inr_iff wf_profile_def)
  moreover have "validate_users p = Inr (JInt (ps_registered ps), JInt (ps_active ps))"
    using u by (simp add: validate_users_Inr_iff)
  moreover have "sort (filter (\<lambda>k. \<not> dhas p k) required_fields) = []"
    using represents_required [OF rep] by (simp add: required_missing_iff)
  ultimately show ?thesis
    using wf v n i l(1) z(1) fields
    by (simp add: validate_profile_def wf_profile_def check_positive_def require_def the_int_def
        shape_of_def Let_def)
qed

lemma validate_profile_sound:
  assumes "validate_profile (JObj p) = Inr sh"
  shows "\<exists>ps. profile_represents p ps \<and> wf_profile ps \<and> sh = shape_of ps"
proof -
  from assms obtain n reg act rows perrow where
      v: "py_eq (dget_or p ''version'' JNull) (JInt 1)"
    and n: "dget_or p ''name'' JNull = JStr n" "identifier_re n"
    and u: "validate_users p = Inr (reg, act)"
    and f: "fold_res (\<lambda>u f. check_positive f (dget_or p f JNull)) () positive_fields = Inr ()"
    and r: "check_positive ''registeredUsers'' reg = Inr ()"
    and a: "check_positive ''activeAuthSessions'' act = Inr ()"
    and le: "the_int act \<le> the_int reg"
    and lay: "validate_layout (dget_or p ''seatLayout'' JNull) = Inr (rows, perrow)"
    and zon: "validate_zones (dget_or p ''priceZones'' JNull) rows = Inr ()"
    and lead: "0 < the_int (dget_or p ''gateLeadMinutes'' JNull)"
    and sh: "sh = \<lparr>sh_registered_users = the_int reg, sh_active_auth_sessions = the_int act,
        sh_events = the_int (dget_or p ''events'' JNull),
        sh_sessions = the_int (dget_or p ''events'' JNull) * the_int (dget_or p ''sessionsPerEvent'' JNull),
        sh_seats = rows * perrow,
        sh_session_seats = the_int (dget_or p ''events'' JNull)
          * the_int (dget_or p ''sessionsPerEvent'' JNull) * (rows * perrow)\<rparr>"
    by (auto simp: validate_profile_def Let_def res_simps split: if_splits json.splits)
  from r a obtain ri ai where ra: "reg = JInt ri" "0 < ri" "act = JInt ai" "0 < ai"
    by (auto simp: res_simps)
  from f have pos: "positive_field p k" if "k \<in> set positive_fields" for k
    using that by (simp add: positive_fields_Inr_iff)
  obtain ev se le' where ev: "int_field p ''events'' ev" "0 < ev"
    and se: "int_field p ''sessionsPerEvent'' se" "0 < se"
    and le': "int_field p ''gateLeadMinutes'' le'" "0 < le'"
    using pos [of "''events''"] pos [of "''sessionsPerEvent''"] pos [of "''gateLeadMinutes''"]
    by (auto simp: positive_fields_def positive_field_def)
  from lay obtain l where l: "dget_or p ''seatLayout'' JNull = JObj l" "int_field l ''rows'' rows"
      "0 < rows" "int_field l ''seatsPerRow'' perrow" "0 < perrow" "perrow \<le> 999999"
    by (auto simp: validate_layout_Inr_iff)
  from zon obtain zs specs where z: "dget_or p ''priceZones'' JNull = JList zs" "specs \<noteq> []"
      "list_all2 zone_represents zs specs" "list_all wf_zone specs"
      "distinct (map zs_name specs)" "sum_list (map zs_rows specs) = rows"
    by (auto simp: validate_zones_Inr_iff)
  from v have v': "\<exists>w. map_of p ''version'' = Some w \<and> json_num w = Some 1"
    by (auto simp: dget_or_def split: option.splits)
  let ?ps = "\<lparr>ps_name = n, ps_registered = ri, ps_active = ai, ps_events = ev, ps_per_event = se,
    ps_rows = rows, ps_per_row = perrow, ps_lead = le', ps_zones = specs\<rparr>"
  have "profile_represents p ?ps"
    using v' n u ra ev se le' l z pos
    by (auto simp: profile_represents_def validate_users_Inr_iff dget_or_JNull_iff positive_fields_def)
  moreover have "wf_profile ?ps"
    using n ra le ev se le' l z by (simp add: wf_profile_def the_int_def)
  moreover have "sh = shape_of ?ps"
    using sh ra ev se by (simp add: shape_of_def the_int_def int_field_def)
  ultimately show ?thesis by blast
qed

section \<open>Consequences for the generated rows\<close>

text \<open>\textbf{Zones.} The clauses of a represented zone list are consecutive intervals.\<close>

fun spec_clauses :: "(zone_spec \<Rightarrow> json) \<Rightarrow> int \<Rightarrow> zone_spec list \<Rightarrow> (int \<times> int \<times> json) list" where
  "spec_clauses f first [] = []"
| "spec_clauses f first (z # zs) =
     (first, first + zs_rows z - 1, f z) # spec_clauses f (first + zs_rows z) zs"

definition field_value :: "string \<Rightarrow> zone_spec \<Rightarrow> json" where
  "field_value k z = (if k = ''name'' then JStr (zs_name z) else JInt (zs_price z))"

lemma zone_clauses_spec:
  assumes "list_all2 zone_represents zs specs" and "k \<in> {''name'', ''price''}"
  shows "zone_clauses k first zs = Inr (spec_clauses (field_value k) first specs)"
  using assms
proof (induction zs specs arbitrary: first rule: list_all2_induct)
  case (Cons z zs sp specs)
  then obtain d where d: "z = JObj d" "map_of d ''rows'' = Some (JInt (zs_rows sp))"
      "map_of d k = Some (field_value k sp)"
    by (auto simp: zone_represents_def field_value_def)
  with Cons show ?case by (simp add: dindex_def the_int_def)
qed simp

lemma case_value_below: "row < first \<Longrightarrow> list_all wf_zone specs \<Longrightarrow>
    case_value (spec_clauses f first specs) row = None"
  by (induction specs arbitrary: first) (auto simp: wf_zone_def)

lemma case_value_above:
  "first + sum_list (map zs_rows specs) \<le> row \<Longrightarrow> list_all wf_zone specs \<Longrightarrow>
    case_value (spec_clauses f first specs) row = None"
proof (induction specs arbitrary: first)
  case (Cons z specs)
  have "0 \<le> sum_list (map zs_rows specs)"
    using Cons.prems(2) by (auto simp: wf_zone_def list_all_iff less_imp_le intro!: sum_list_nonneg)
  with Cons show ?case by (auto simp: algebra_simps)
qed simp

lemma case_value_within:
  assumes "first \<le> row" and "row < first + sum_list (map zs_rows specs)"
    and "list_all wf_zone specs" and "distinct (map zs_name specs)"
  shows "\<exists>!z. z \<in> set specs \<and> case_value (spec_clauses (field_value ''name'') first specs) row
            = Some (JStr (zs_name z))
          \<and> case_value (spec_clauses (field_value ''price'') first specs) row
            = Some (JInt (zs_price z))"
  using assms
proof (induction specs arbitrary: first)
  case (Cons z specs)
  show ?case
  proof (cases "row < first + zs_rows z")
    case True
    with Cons.prems show ?thesis
      by (intro ex1I [of _ z]) (auto simp: field_value_def)
  next
    case False
    let ?f = "first + zs_rows z"
    have "\<exists>!z'. z' \<in> set specs
        \<and> case_value (spec_clauses (field_value ''name'') ?f specs) row = Some (JStr (zs_name z'))
        \<and> case_value (spec_clauses (field_value ''price'') ?f specs) row = Some (JInt (zs_price z'))"
      using Cons.prems False by (intro Cons.IH) (auto simp: algebra_simps)
    then obtain z' where z': "z' \<in> set specs"
        "case_value (spec_clauses (field_value ''name'') ?f specs) row = Some (JStr (zs_name z'))"
        "case_value (spec_clauses (field_value ''price'') ?f specs) row = Some (JInt (zs_price z'))"
      and uniq: "\<And>y. y \<in> set specs \<Longrightarrow> zs_name y = zs_name z' \<Longrightarrow> zs_price y = zs_price z' \<Longrightarrow> y = z'"
      by auto
    show ?thesis
    proof (rule ex1I [of _ z'])
      show "z' \<in> set (z # specs) \<and>
          case_value (spec_clauses (field_value ''name'') first (z # specs)) row = Some (JStr (zs_name z')) \<and>
          case_value (spec_clauses (field_value ''price'') first (z # specs)) row = Some (JInt (zs_price z'))"
        using z' False by simp
    next
      fix y
      assume y: "y \<in> set (z # specs) \<and>
          case_value (spec_clauses (field_value ''name'') first (z # specs)) row = Some (JStr (zs_name y)) \<and>
          case_value (spec_clauses (field_value ''price'') first (z # specs)) row = Some (JInt (zs_price y))"
      with z' False have same: "zs_name y = zs_name z'" "zs_price y = zs_price z'" by auto
      have "zs_name z \<noteq> zs_name z'" using Cons.prems(4) z'(1) by auto
      with y same have "y \<in> set specs" by auto
      with uniq same show "y = z'" by blast
    qed
  qed
qed simp

text \<open>\textbf{Identifiers.} Distinct positions have distinct identifiers, whatever the widths.\<close>

lemma session_id_inj:
  assumes "0 \<le> e" "0 \<le> s" "0 \<le> e'" "0 \<le> s'"
  shows "session_id e s = session_id e' s' \<longleftrightarrow> e = e' \<and> s = s'"
proof
  assume "session_id e s = session_id e' s'"
  then have "fmt_d 3 e @ CHR ''-'' # fmt_d 3 s = fmt_d 3 e' @ CHR ''-'' # fmt_d 3 s'" by simp
  then have "fmt_d 3 e = fmt_d 3 e' \<and> fmt_d 3 s = fmt_d 3 s'"
    by (intro append_eq_at_sep [of "CHR ''-''"]) (use assms in auto)
  then show "e = e' \<and> s = s'" using assms by (simp add: fmt_d_inj)
qed simp

lemma session_seat_id_inj:
  assumes "0 \<le> e" "0 \<le> s" "0 \<le> i" "0 \<le> e'" "0 \<le> s'" "0 \<le> i'"
  shows "session_seat_id e s i = session_seat_id e' s' i' \<longleftrightarrow> e = e' \<and> s = s' \<and> i = i'"
proof
  assume "session_seat_id e s i = session_seat_id e' s' i'"
  then have "fmt_d 3 e @ CHR ''-'' # (fmt_d 3 s @ CHR ''-'' # fmt_d 6 i)
      = fmt_d 3 e' @ CHR ''-'' # (fmt_d 3 s' @ CHR ''-'' # fmt_d 6 i')" by simp
  then have e: "fmt_d 3 e = fmt_d 3 e'"
      and "fmt_d 3 s @ CHR ''-'' # fmt_d 6 i = fmt_d 3 s' @ CHR ''-'' # fmt_d 6 i'"
    using append_eq_at_sep [of "CHR ''-''" "fmt_d 3 e" "fmt_d 3 e'"] assms by auto
  then have "fmt_d 3 s = fmt_d 3 s' \<and> fmt_d 6 i = fmt_d 6 i'"
    by (intro append_eq_at_sep [of "CHR ''-''"]) (use assms in auto)
  with e show "e = e' \<and> s = s' \<and> i = i'" using assms by (simp add: fmt_d_inj)
qed simp

lemma user_id_inj: "0 \<le> i \<Longrightarrow> 0 \<le> j \<Longrightarrow> user_id i = user_id j \<longleftrightarrow> i = j"
  by (simp add: fmt_d_inj)

lemma auth_id_inj: "0 \<le> i \<Longrightarrow> 0 \<le> j \<Longrightarrow> auth_id i = auth_id j \<longleftrightarrow> i = j"
  by (simp add: fmt_d_inj)

text \<open>\textbf{Credentials.}\<close>

lemma generate_one_ret:
  "may_ret (generate_one i) w c \<Longrightarrow>
     cr_user_id c = user_id i \<and> cr_username c = user_id i \<and> cr_auth_session_id c = auth_id i
     \<and> cr_token_hash c = w_sha256 w (cr_session_token c)"
  by (auto simp: may_ret_def generate_one_def token_def io_defs)

lemma generate_credentials_ret:
  fixes sh :: "'s \<times> history"
  assumes "generate_session_credentials n w sh = (Ret cs, sh')"
  shows "list_all2 (\<lambda>i c. may_ret (generate_one i :: ('s, credential) io) w c) [1..n] cs"
  using assms unfolding generate_session_credentials_def by (rule map_io_ret)

lemma generate_credentials_length:
  "generate_session_credentials n w sh = (Ret cs, sh') \<Longrightarrow> length cs = nat n"
  by (drule generate_credentials_ret) (auto dest: list_all2_lengthD)

lemma generate_credentials_nth:
  assumes "generate_session_credentials n w sh = (Ret cs, sh')" and "i < length cs"
  shows "cr_user_id (cs ! i) = user_id (int i + 1) \<and> cr_auth_session_id (cs ! i) = auth_id (int i + 1)
    \<and> cr_token_hash (cs ! i) = w_sha256 w (cr_session_token (cs ! i))"
proof -
  note generate_one_ret [OF list_all2_nthD2 [OF generate_credentials_ret [OF assms(1)] assms(2)]]
  moreover have "[1..n] ! i = int i + 1"
    using generate_credentials_length [OF assms(1)] assms(2) by (simp add: nth_upto)
  ultimately show ?thesis by simp
qed


section \<open>Properties\<close>

text \<open>A small profile for the concrete instances: two zones, two events.\<close>

definition sample_dict :: dict where
  "sample_dict = [(''version'', JInt 1), (''name'', JStr ''small''), (''seed'', JInt 7),
     (''registeredUsers'', JInt 3), (''activeAuthSessions'', JInt 2), (''events'', JInt 2),
     (''sessionsPerEvent'', JInt 1),
     (''seatLayout'', JObj [(''rows'', JInt 3), (''seatsPerRow'', JInt 2)]),
     (''futureStartOffsetDays'', JInt 30), (''sessionSpacingHours'', JInt 3),
     (''gateLeadMinutes'', JInt 60),
     (''priceZones'', JList [
        JObj [(''name'', JStr ''VIP''), (''rows'', JInt 1), (''price'', JInt 900)],
        JObj [(''name'', JStr ''STANDARD''), (''rows'', JInt 2), (''price'', JInt 400)]])]"

definition sample_spec :: profile_spec where
  "sample_spec = \<lparr>ps_name = ''small'', ps_registered = 3, ps_active = 2, ps_events = 2,
     ps_per_event = 1, ps_rows = 3, ps_per_row = 2, ps_lead = 60,
     ps_zones = [\<lparr>zs_name = ''VIP'', zs_rows = 1, zs_price = 900\<rparr>,
       \<lparr>zs_name = ''STANDARD'', zs_rows = 2, zs_price = 400\<rparr>]\<rparr>"

lemma sample_represented: "profile_represents sample_dict sample_spec"
  by (simp add: profile_represents_def sample_dict_def sample_spec_def users_represent_def
      int_field_def positive_field_def zone_represents_def)

lemma sample_wf: "wf_profile sample_spec"
  by (simp add: wf_profile_def sample_spec_def wf_zone_def identifier_re_def py_lower_def to_lower_def
      is_upper_def is_lower_def is_digit_def char_between_def)

text \<open>
  \textbf{C1.} \<open>validate_profile\<close> accepts a dictionary exactly when it represents a well-formed
  typed profile, and then returns the shape of that profile.
\<close>

theorem validate_profile_exact:
  "validate_profile (JObj p) = Inr sh \<longleftrightarrow>
     (\<exists>ps. profile_represents p ps \<and> wf_profile ps \<and> sh = shape_of ps)"
  using validate_profile_sound validate_profile_complete by blast

text \<open>
  The CASE expressions that \<open>zone_case\<close> builds give every row of the layout the
  name and the price of exactly one zone, and no row outside the layout a value.
\<close>

theorem zone_case_partition:
  assumes "profile_represents p ps" and "wf_profile ps"
    and "map_of p ''priceZones'' = Some (JList zs)"
  shows "\<exists>ncs pcs. zone_clauses ''name'' 1 zs = Inr ncs \<and> zone_clauses ''price'' 1 zs = Inr pcs
     \<and> (\<forall>row \<in> {1..ps_rows ps}. \<exists>!z. z \<in> set (ps_zones ps)
          \<and> case_value ncs row = Some (JStr (zs_name z)) \<and> case_value pcs row = Some (JInt (zs_price z)))
     \<and> (\<forall>row. row < 1 \<or> ps_rows ps < row \<longrightarrow> case_value ncs row = None \<and> case_value pcs row = None)"
proof -
  have z: "list_all2 zone_represents zs (ps_zones ps)"
    using assms(1,3) by (auto simp: profile_represents_def)
  have wf: "list_all wf_zone (ps_zones ps)" "distinct (map zs_name (ps_zones ps))"
      "sum_list (map zs_rows (ps_zones ps)) = ps_rows ps"
    using assms(2) by (auto simp: wf_profile_def)
  let ?c = "\<lambda>k. spec_clauses (field_value k) 1 (ps_zones ps)"
  have "zone_clauses ''name'' 1 zs = Inr (?c ''name'')" "zone_clauses ''price'' 1 zs = Inr (?c ''price'')"
    by (rule zone_clauses_spec [OF z], simp)+
  moreover have "\<exists>!z. z \<in> set (ps_zones ps) \<and> case_value (?c ''name'') row = Some (JStr (zs_name z))
      \<and> case_value (?c ''price'') row = Some (JInt (zs_price z))" if "row \<in> {1..ps_rows ps}" for row
    using that wf by (intro case_value_within) auto
  moreover have "case_value (?c k) row = None" if "row < 1 \<or> ps_rows ps < row" for k row
    using that case_value_below [of row 1] case_value_above [of 1 "ps_zones ps" row] wf by auto
  ultimately show ?thesis by (intro exI [of _ "?c ''name''"] exI [of _ "?c ''price''"]) blast
qed

theorem zone_case_partition_witness:
  "\<exists>zs ncs pcs. map_of sample_dict ''priceZones'' = Some (JList zs)
     \<and> zone_clauses ''name'' 1 zs = Inr ncs \<and> zone_clauses ''price'' 1 zs = Inr pcs
     \<and> case_value ncs 3 \<noteq> None \<and> case_value pcs 4 = None"
proof -
  obtain zs where zs: "map_of sample_dict ''priceZones'' = Some (JList zs)"
    by (simp add: sample_dict_def)
  from zone_case_partition [OF sample_represented sample_wf zs] obtain ncs pcs where
      1: "zone_clauses ''name'' 1 zs = Inr ncs" "zone_clauses ''price'' 1 zs = Inr pcs"
    and 2: "\<forall>row \<in> {1..ps_rows sample_spec}. \<exists>!z. z \<in> set (ps_zones sample_spec)
        \<and> case_value ncs row = Some (JStr (zs_name z)) \<and> case_value pcs row = Some (JInt (zs_price z))"
    and 3: "\<forall>row. row < 1 \<or> ps_rows sample_spec < row \<longrightarrow> case_value ncs row = None \<and> case_value pcs row = None"
    by blast
  have rows: "ps_rows sample_spec = 3" by (simp add: sample_spec_def)
  from 2 rows have "case_value ncs 3 \<noteq> None" by fastforce
  moreover from 3 rows have "case_value pcs 4 = None" by simp
  ultimately show ?thesis using zs 1 by blast
qed

text \<open>
  \textbf{C12.} Whatever tokens the source of randomness yields, a successful generation of
  credentials yields as many as asked for, the \<open>i\<close>-th one for the \<open>i\<close>-th user, no two with the
  same user or session, each with the hash of its own token.
\<close>

theorem credentials_correct:
  assumes "generate_session_credentials n w sh = (Ret cs, sh')"
  shows "length cs = nat n \<and> distinct (map cr_user_id cs) \<and> distinct (map cr_auth_session_id cs)
    \<and> (\<forall>i < length cs. cr_user_id (cs ! i) = user_id (int i + 1)
         \<and> cr_auth_session_id (cs ! i) = auth_id (int i + 1)
         \<and> cr_token_hash (cs ! i) = w_sha256 w (cr_session_token (cs ! i)))"
  using generate_credentials_length [OF assms] generate_credentials_nth [OF assms]
  by (auto simp: distinct_conv_nth fmt_d_inj)

theorem credentials_correct_witness:
  "\<exists>cs sh'. generate_session_credentials 2 quiet_world ((), []) = (Ret cs, sh') \<and> length cs = 2
     \<and> distinct (map cr_user_id cs)"
proof -
  have "\<exists>cs sh'. generate_session_credentials 2 quiet_world ((), []) = (Ret cs, sh')"
    by (simp add: generate_session_credentials_def generate_one_def quiet_world_def token_def io_defs
        upto.simps)
  then show ?thesis using credentials_correct [of 2 quiet_world "((), [])"] by fastforce
qed

end
