(* ===== verification/Dataset_Sql.thy ===== *)
theory Dataset_Sql
  imports Dataset_Profile
begin

text \<open>
  The SQL transaction that \<open>build_generation_sql\<close> of \<open>performance/data/generate_dataset.py\<close>
  produces, as the function on database states that its statements denote: the Performance scope
  is deleted, the catalogue, the seats, the inventory, the users and the login sessions are
  inserted, the row counts are checked, and any error rolls everything back. Primary keys are
  checked at every insert; foreign keys, the other constraints and the triggers of the schema are
  outside the model. A time is kept as the interval that the statement adds to the clock.
\<close>

section \<open>Tables\<close>

record interval =
  iv_days :: int
  iv_hours :: int
  iv_mins :: int

record venue_row =
  vn_id :: string
  vn_name :: string
  vn_city :: string

record event_row =
  ev_id :: string
  ev_venue :: string
  ev_name :: string
  ev_status :: string
  ev_sales_start :: interval
  ev_sales_end :: interval

record session_row =
  se_id :: string
  se_event :: string
  se_venue :: string
  se_start :: interval
  se_gate :: interval
  se_status :: string

record zone_row =
  zn_id :: string
  zn_venue :: string
  zn_code :: string
  zn_name :: string
  zn_order :: int

record seat_row =
  st_id :: string
  st_venue :: string
  st_row_no :: string
  st_seat_no :: int
  st_label :: string
  st_zone :: "string option"

record inventory_row =
  ss_id :: string
  ss_session :: string
  ss_seat :: string
  ss_venue :: string
  ss_status :: string
  ss_price :: "int option"
  ss_reservation :: "string option"

record user_row =
  us_id :: string
  us_display :: string
  us_username :: string
  us_status :: string

record login_row =
  lg_id :: string
  lg_user :: string
  lg_hash :: string
  lg_idle_secs :: int
  lg_absolute_secs :: int
  lg_revoked :: bool

record reservation_row =
  rv_id :: string
  rv_user :: string
  rv_session :: string

record reserved_seat_row =
  rs_reservation :: string
  rs_session :: string
  rs_session_seat :: string

record order_row =
  od_id :: string
  od_user :: string
  od_reservation :: string

record checkout_row =
  co_id :: string
  co_user :: string
  co_session :: string
  co_reservation :: "string option"

record checkout_seat_row =
  cs_checkout :: string
  cs_session_seat :: string

record order_item_row =
  oi_id :: string
  oi_order :: string

record notification_row =
  nt_id :: string
  nt_user :: string
  nt_order :: "string option"

record db =
  t_venues :: "venue_row list"
  t_events :: "event_row list"
  t_sessions :: "session_row list"
  t_zones :: "zone_row list"
  t_seats :: "seat_row list"
  t_inventory :: "inventory_row list"
  t_users :: "user_row list"
  t_logins :: "login_row list"
  t_reservations :: "reservation_row list"
  t_reserved_seats :: "reserved_seat_row list"
  t_orders :: "order_row list"
  t_checkouts :: "checkout_row list"
  t_checkout_seats :: "checkout_seat_row list"
  t_attempts :: "order_item_row list"
  t_refunds :: "order_item_row list"
  t_notifications :: "notification_row list"

section \<open>What the statements use of SQL\<close>

text \<open>
  \<open>lpad(s, w, '0')\<close> pads on the left and, unlike Python's format, cuts a longer text to its
  first \<open>w\<close> characters; \<open>x LIKE 'p%'\<close> is a prefix test.
\<close>

definition sql_lpad :: "nat \<Rightarrow> string \<Rightarrow> string" where
  "sql_lpad w s = (if w \<le> length s then take w s else replicate (w - length s) CHR ''0'' @ s)"

definition opt_like :: "string option \<Rightarrow> string \<Rightarrow> bool" where
  "opt_like x p = (case x of None \<Rightarrow> False | Some s \<Rightarrow> startswith s p)"

definition opt_in :: "string option \<Rightarrow> string list \<Rightarrow> bool" where
  "opt_in x ids = (case x of None \<Rightarrow> False | Some s \<Rightarrow> s \<in> set ids)"

text \<open>An INSERT fails, and with it the transaction, when a primary key would repeat.\<close>

definition insert_rows :: "('r \<Rightarrow> string) \<Rightarrow> 'r list \<Rightarrow> 'r list \<Rightarrow> 'r list res" where
  "insert_rows key new old =
     (if distinct (map key (old @ new)) then Inr (old @ new)
      else Inl (Exn DatasetError ''duplicate key value violates unique constraint''))"

definition sql_event_id :: "int \<Rightarrow> string" where
  "sql_event_id e = ''perf-event-'' @ sql_lpad 3 (int_str e)"

definition sql_session_id :: "int \<Rightarrow> int \<Rightarrow> string" where
  "sql_session_id e s = ''perf-session-'' @ sql_lpad 3 (int_str e) @ ''-'' @ sql_lpad 3 (int_str s)"

definition sql_seat_id :: "int \<Rightarrow> string" where
  "sql_seat_id i = ''perf-seat-'' @ sql_lpad 6 (int_str i)"

definition sql_session_seat_id :: "int \<Rightarrow> int \<Rightarrow> int \<Rightarrow> string" where
  "sql_session_seat_id e s i = ''perf-ss-'' @ sql_lpad 3 (int_str e) @ ''-''
     @ sql_lpad 3 (int_str s) @ ''-'' @ sql_lpad 6 (int_str i)"

definition sql_user_id :: "int \<Rightarrow> string" where
  "sql_user_id i = ''perf-user-'' @ sql_lpad (max 6 (length (int_str i))) (int_str i)"

section \<open>Deleting the Performance scope\<close>

definition reservation_scope :: "db \<Rightarrow> string list" where
  "reservation_scope d = map rv_id (filter (\<lambda>r.
     startswith (rv_user r) ''perf-user-'' \<or> startswith (rv_session r) ''perf-session-''
     \<or> list_ex (\<lambda>i. rs_reservation i = rv_id r
          \<and> list_ex (\<lambda>v. ss_id v = rs_session_seat i \<and> ss_session v = rs_session i
               \<and> startswith (ss_id v) ''perf-ss-'') (t_inventory d)) (t_reserved_seats d))
     (t_reservations d))"

definition order_scope :: "db \<Rightarrow> string list" where
  "order_scope d = map od_id (filter (\<lambda>o'.
     startswith (od_user o') ''perf-user-'' \<or> od_reservation o' \<in> set (reservation_scope d))
     (t_orders d))"

definition checkout_scope :: "db \<Rightarrow> string list" where
  "checkout_scope d = map co_id (filter (\<lambda>c.
     startswith (co_user c) ''perf-user-'' \<or> startswith (co_session c) ''perf-session-''
     \<or> opt_in (co_reservation c) (reservation_scope d)) (t_checkouts d))"

definition delete_scope :: "db \<Rightarrow> db" where
  "delete_scope d =
     (let rsv = reservation_scope d; ods = order_scope d; chs = checkout_scope d in
      d\<lparr>t_notifications := filter (\<lambda>n. \<not> (startswith (nt_user n) ''perf-user-''
            \<or> opt_in (nt_order n) ods)) (t_notifications d),
        t_refunds := filter (\<lambda>r. oi_order r \<notin> set ods) (t_refunds d),
        t_attempts := filter (\<lambda>a. oi_order a \<notin> set ods) (t_attempts d),
        t_checkout_seats := filter (\<lambda>c. cs_checkout c \<notin> set chs) (t_checkout_seats d),
        t_checkouts := filter (\<lambda>c. co_id c \<notin> set chs) (t_checkouts d),
        t_orders := filter (\<lambda>o'. od_id o' \<notin> set ods) (t_orders d),
        t_reserved_seats := filter (\<lambda>i. \<not> (rs_reservation i \<in> set rsv
            \<or> startswith (rs_session_seat i) ''perf-ss-'')) (t_reserved_seats d),
        t_inventory := filter (\<lambda>v. \<not> startswith (ss_id v) ''perf-ss-'') (t_inventory d),
        t_reservations := filter (\<lambda>r. rv_id r \<notin> set rsv) (t_reservations d),
        t_logins := filter (\<lambda>l. \<not> startswith (lg_user l) ''perf-user-'') (t_logins d),
        t_seats := filter (\<lambda>s. \<not> startswith (st_id s) ''perf-seat-'') (t_seats d),
        t_sessions := filter (\<lambda>s. \<not> startswith (se_id s) ''perf-session-'') (t_sessions d),
        t_events := filter (\<lambda>e. \<not> startswith (ev_id e) ''perf-event-'') (t_events d),
        t_zones := filter (\<lambda>z. \<not> startswith (zn_venue z) ''perf-venue-'') (t_zones d),
        t_venues := filter (\<lambda>v. \<not> startswith (vn_id v) ''perf-venue-'') (t_venues d),
        t_users := filter (\<lambda>u. \<not> startswith (us_id u) ''perf-user-'') (t_users d)\<rparr>)"

section \<open>The generated rows\<close>

text \<open>The numbers the template takes from the profile, and its price zones.\<close>

record gen_params =
  gp_offset_days :: int
  gp_spacing_hours :: int
  gp_lead_minutes :: int
  gp_per_event :: int
  gp_per_row :: int
  gp_zone_names :: "string list"
  gp_name_clauses :: "(int \<times> int \<times> json) list"
  gp_price_clauses :: "(int \<times> int \<times> json) list"

definition json_str_of :: "json \<Rightarrow> string" where
  "json_str_of v = (case v of JStr s \<Rightarrow> s | _ \<Rightarrow> [])"

definition gen_params_of :: "json \<Rightarrow> gen_params res" where
  "gen_params_of profile =
     rbind (json_index profile ''seatLayout'') (\<lambda>lay.
     rbind (json_index profile ''priceZones'') (\<lambda>zs.
     rbind (case zs of JList l \<Rightarrow> Inr l | _ \<Rightarrow> Inl (Exn TypeError ''priceZones'')) (\<lambda>l.
     rbind (zone_clauses ''name'' 1 l) (\<lambda>ncs.
     rbind (map_res (\<lambda>z. json_index z ''name'') l) (\<lambda>names.
     rbind (zone_clauses ''price'' 1 l) (\<lambda>pcs.
     rbind (json_index profile ''sessionsPerEvent'') (\<lambda>spe.
     rbind (json_index profile ''futureStartOffsetDays'') (\<lambda>off.
     rbind (json_index profile ''sessionSpacingHours'') (\<lambda>spc.
     rbind (json_index profile ''gateLeadMinutes'') (\<lambda>lead.
     rbind (json_index lay ''seatsPerRow'') (\<lambda>spr.
     Inr \<lparr>gp_offset_days = the_int off, gp_spacing_hours = the_int spc,
          gp_lead_minutes = the_int lead, gp_per_event = the_int spe, gp_per_row = the_int spr,
          gp_zone_names = map json_str_of names, gp_name_clauses = ncs,
          gp_price_clauses = pcs\<rparr>)))))))))))"

definition venue_id0 :: string where
  "venue_id0 = ''perf-venue-001''"

definition new_venues :: "venue_row list" where
  "new_venues = [\<lparr>vn_id = venue_id0, vn_name = ''Phase 10A Performance Venue'',
     vn_city = ''Shanghai''\<rparr>]"

definition new_events :: "gen_params \<Rightarrow> dataset_shape \<Rightarrow> event_row list" where
  "new_events g sh = map (\<lambda>e.
     \<lparr>ev_id = sql_event_id e, ev_venue = venue_id0,
      ev_name = ''Performance Event '' @ int_str e, ev_status = ''ON_SALE'',
      ev_sales_start = \<lparr>iv_days = -1, iv_hours = 0, iv_mins = 0\<rparr>,
      ev_sales_end = \<lparr>iv_days = gp_offset_days g + 1,
        iv_hours = sh_events sh * gp_per_event g * gp_spacing_hours g, iv_mins = 0\<rparr>\<rparr>)
     [1..sh_events sh]"

definition new_sessions :: "gen_params \<Rightarrow> dataset_shape \<Rightarrow> session_row list" where
  "new_sessions g sh = concat (map (\<lambda>e. map (\<lambda>s.
     let hours = ((e - 1) * gp_per_event g + s - 1) * gp_spacing_hours g in
     \<lparr>se_id = sql_session_id e s, se_event = sql_event_id e, se_venue = venue_id0,
      se_start = \<lparr>iv_days = gp_offset_days g, iv_hours = hours, iv_mins = 0\<rparr>,
      se_gate = \<lparr>iv_days = gp_offset_days g, iv_hours = hours, iv_mins = - gp_lead_minutes g\<rparr>,
      se_status = ''ON_SALE''\<rparr>) [1..gp_per_event g]) [1..sh_events sh])"

definition new_zones :: "gen_params \<Rightarrow> zone_row list" where
  "new_zones g = map (\<lambda>(i, name).
     \<lparr>zn_id = ''perf-zone-'' @ int_str (int i), zn_venue = venue_id0,
      zn_code = ''ZONE_'' @ int_str (int i), zn_name = name, zn_order = int i\<rparr>)
     (enumerate 0 (gp_zone_names g))"

definition row_index :: "gen_params \<Rightarrow> int \<Rightarrow> int" where
  "row_index g i = (i - 1) div gp_per_row g + 1"

definition seat_number :: "gen_params \<Rightarrow> int \<Rightarrow> int" where
  "seat_number g i = (i - 1) mod gp_per_row g + 1"

text \<open>The scalar subquery: the zone of the venue whose name the CASE expression gives.\<close>

definition zone_lookup :: "zone_row list \<Rightarrow> json option \<Rightarrow> string option" where
  "zone_lookup zones v = (case v of
      Some (JStr name) \<Rightarrow> map_option zn_id
        (List.find (\<lambda>z. zn_venue z = venue_id0 \<and> zn_name z = name) zones)
    | _ \<Rightarrow> None)"

definition new_seats :: "gen_params \<Rightarrow> dataset_shape \<Rightarrow> zone_row list \<Rightarrow> seat_row list" where
  "new_seats g sh zones = map (\<lambda>i.
     \<lparr>st_id = sql_seat_id i, st_venue = venue_id0,
      st_row_no = ''R'' @ sql_lpad 3 (int_str (row_index g i)),
      st_seat_no = seat_number g i,
      st_label = ''R'' @ sql_lpad 3 (int_str (row_index g i)) @ ''-''
        @ sql_lpad 3 (int_str (seat_number g i)),
      st_zone = zone_lookup zones (case_value (gp_name_clauses g) (row_index g i))\<rparr>)
     [1..sh_seats sh]"

definition new_inventory :: "gen_params \<Rightarrow> dataset_shape \<Rightarrow> inventory_row list" where
  "new_inventory g sh = concat (map (\<lambda>e. concat (map (\<lambda>s. map (\<lambda>i.
     \<lparr>ss_id = sql_session_seat_id e s i, ss_session = sql_session_id e s,
      ss_seat = sql_seat_id i, ss_venue = venue_id0, ss_status = ''AVAILABLE'',
      ss_price = map_option the_int (case_value (gp_price_clauses g) (row_index g i)),
      ss_reservation = None\<rparr>) [1..sh_seats sh]) [1..gp_per_event g])) [1..sh_events sh])"

definition new_users :: "dataset_shape \<Rightarrow> user_row list" where
  "new_users sh = map (\<lambda>i.
     \<lparr>us_id = sql_user_id i, us_display = ''Performance User '' @ int_str i,
      us_username = sql_user_id i, us_status = ''ACTIVE''\<rparr>) [1..sh_registered_users sh]"

definition new_logins :: "int \<Rightarrow> int \<Rightarrow> credential list \<Rightarrow> login_row list" where
  "new_logins idle absolute cs = sort_key lg_id (map (\<lambda>c.
     \<lparr>lg_id = cr_auth_session_id c, lg_user = cr_user_id c, lg_hash = cr_token_hash c,
      lg_idle_secs = idle, lg_absolute_secs = absolute, lg_revoked = False\<rparr>) cs)"

section \<open>The transaction\<close>

definition count_like :: "('r \<Rightarrow> string) \<Rightarrow> string \<Rightarrow> 'r list \<Rightarrow> int" where
  "count_like key p rows = int (length (filter (\<lambda>r. startswith (key r) p) rows))"

definition check_count :: "string \<Rightarrow> int \<Rightarrow> int \<Rightarrow> unit res" where
  "check_count what actual expected = require (actual = expected) DatasetError
     (what @ '' count '' @ int_str actual @ '', expected '' @ int_str expected)"

definition check_generated :: "dataset_shape \<Rightarrow> db \<Rightarrow> unit res" where
  "check_generated sh d =
     rbind (check_count ''perf user'' (count_like us_id ''perf-user-'' (t_users d))
       (sh_registered_users sh)) (\<lambda>_.
     rbind (check_count ''perf auth'' (count_like lg_id ''perf-auth-'' (t_logins d))
       (sh_active_auth_sessions sh)) (\<lambda>_.
     rbind (check_count ''perf event'' (count_like ev_id ''perf-event-'' (t_events d))
       (sh_events sh)) (\<lambda>_.
     rbind (check_count ''perf session'' (count_like se_id ''perf-session-'' (t_sessions d))
       (sh_sessions sh)) (\<lambda>_.
     rbind (check_count ''perf seat'' (count_like st_id ''perf-seat-'' (t_seats d))
       (sh_seats sh)) (\<lambda>_.
     check_count ''perf session seat'' (count_like ss_id ''perf-ss-'' (t_inventory d))
       (sh_session_seats sh))))))"

definition insert_catalog :: "gen_params \<Rightarrow> dataset_shape \<Rightarrow> db \<Rightarrow> db res" where
  "insert_catalog g sh d =
     rbind (insert_rows vn_id new_venues (t_venues d)) (\<lambda>vs.
     rbind (insert_rows ev_id (new_events g sh) (t_events d)) (\<lambda>es.
     rbind (insert_rows se_id (new_sessions g sh) (t_sessions d)) (\<lambda>ss.
     rbind (insert_rows zn_id (new_zones g) (t_zones d)) (\<lambda>zs.
     Inr (d\<lparr>t_venues := vs, t_events := es, t_sessions := ss, t_zones := zs\<rparr>)))))"

definition insert_inventory :: "gen_params \<Rightarrow> dataset_shape \<Rightarrow> db \<Rightarrow> db res" where
  "insert_inventory g sh d =
     rbind (insert_rows st_id (new_seats g sh (t_zones d)) (t_seats d)) (\<lambda>ss.
     rbind (insert_rows ss_id (new_inventory g sh) (t_inventory d)) (\<lambda>iv.
     Inr (d\<lparr>t_seats := ss, t_inventory := iv\<rparr>)))"

definition insert_people :: "dataset_shape \<Rightarrow> credential list \<Rightarrow> int \<Rightarrow> int \<Rightarrow> db \<Rightarrow> db res" where
  "insert_people sh cs idle absolute d =
     rbind (insert_rows us_id (new_users sh) (t_users d)) (\<lambda>us.
     rbind (insert_rows lg_id (new_logins idle absolute cs) (t_logins d)) (\<lambda>ls.
     Inr (d\<lparr>t_users := us, t_logins := ls\<rparr>)))"

definition build_generation_sql ::
    "json \<Rightarrow> dataset_shape \<Rightarrow> credential list \<Rightarrow> int \<Rightarrow> int \<Rightarrow> db \<Rightarrow> db res" where
  "build_generation_sql profile sh cs idle absolute d =
     rbind (gen_params_of profile) (\<lambda>g.
     rbind (insert_catalog g sh (delete_scope d)) (\<lambda>d1.
     rbind (insert_inventory g sh d1) (\<lambda>d2.
     rbind (insert_people sh cs idle absolute d2) (\<lambda>d3.
     rbind (check_generated sh d3) (\<lambda>_. Inr d3)))))"

text \<open>The state after the script: an error leaves the database as it was.\<close>

definition run_generation ::
    "json \<Rightarrow> dataset_shape \<Rightarrow> credential list \<Rightarrow> int \<Rightarrow> int \<Rightarrow> db \<Rightarrow> exn option \<times> db" where
  "run_generation profile sh cs idle absolute d =
     (case build_generation_sql profile sh cs idle absolute d of
        Inl e \<Rightarrow> (Some e, d)
      | Inr d' \<Rightarrow> (None, d'))"

section \<open>Identifiers of SQL and of Python\<close>

lemma sql_lpad_zpad: "length s \<le> w \<Longrightarrow> sql_lpad w s = zpad w s"
  by (auto simp: sql_lpad_def zpad_def)

lemma int_str_nonneg [simp]: "0 \<le> i \<Longrightarrow> int_str i = nat_str (nat i)"
  by (simp add: int_str_def)

lemma sql_lpad_fmt:
  assumes "0 \<le> i" and "nat i < 10 ^ Suc k"
  shows "sql_lpad (Suc k) (int_str i) = fmt_d (Suc k) i"
  using assms length_nat_str_le [OF assms(2)] by (simp add: sql_lpad_zpad fmt_d_nonneg)

lemma sql_lpad3 [simp]: "0 \<le> i \<Longrightarrow> i \<le> 999 \<Longrightarrow> sql_lpad 3 (int_str i) = fmt_d 3 i"
proof -
  assume i: "0 \<le> i" "i \<le> 999"
  then have "nat i < 10 ^ Suc 2" by (simp add: nat_less_iff)
  from sql_lpad_fmt [OF i(1) this] show ?thesis by (simp del: int_str_nonneg)
qed

lemma sql_lpad6 [simp]: "0 \<le> i \<Longrightarrow> i \<le> 999999 \<Longrightarrow> sql_lpad 6 (int_str i) = fmt_d 6 i"
proof -
  assume i: "0 \<le> i" "i \<le> 999999"
  then have "nat i < 10 ^ Suc 5" by (simp add: nat_less_iff)
  from sql_lpad_fmt [OF i(1) this] show ?thesis by (simp del: int_str_nonneg)
qed

lemma sql_user_id_eq: "0 \<le> i \<Longrightarrow> sql_user_id i = user_id i"
proof -
  assume i: "0 \<le> i"
  let ?s = "int_str i"
  have "max 6 (length ?s) - length ?s = 6 - length ?s" by arith
  with i show ?thesis
    by (simp add: sql_user_id_def sql_lpad_zpad fmt_d_nonneg zpad_def)
qed

lemma sql_event_id_eq: "0 \<le> e \<Longrightarrow> e \<le> 999 \<Longrightarrow> sql_event_id e = event_id e"
  by (simp add: sql_event_id_def del: int_str_nonneg)

lemma sql_session_id_eq:
  "0 \<le> e \<Longrightarrow> e \<le> 999 \<Longrightarrow> 0 \<le> s \<Longrightarrow> s \<le> 999 \<Longrightarrow> sql_session_id e s = session_id e s"
  by (simp add: sql_session_id_def del: int_str_nonneg)

lemma sql_seat_id_eq: "0 \<le> i \<Longrightarrow> i \<le> 999999 \<Longrightarrow> sql_seat_id i = seat_id i"
  by (simp add: sql_seat_id_def del: int_str_nonneg)

lemma sql_session_seat_id_eq:
  "0 \<le> e \<Longrightarrow> e \<le> 999 \<Longrightarrow> 0 \<le> s \<Longrightarrow> s \<le> 999 \<Longrightarrow> 0 \<le> i \<Longrightarrow> i \<le> 999999 \<Longrightarrow>
     sql_session_seat_id e s i = session_seat_id e s i"
  by (simp add: sql_session_seat_id_def del: int_str_nonneg)

text \<open>The seventh digit is cut off: seat 1000000 gets the identifier of seat 100000.\<close>

lemma seat_id_collision: "sql_seat_id 1000000 = sql_seat_id 100000"
proof -
  have len: "length (nat_str 100000) = 6"
    by (simp add: nat_str.simps)
  moreover have "nat_str 1000000 = nat_str 100000 @ [digit_char 0]"
    by (simp add: nat_str.simps [of 1000000])
  ultimately show ?thesis by (simp add: sql_seat_id_def sql_lpad_def)
qed

section \<open>Inserts, scopes and counts\<close>

lemma insert_rows_Inr_iff [res_simps]:
  "insert_rows key new old = Inr t \<longleftrightarrow> distinct (map key (old @ new)) \<and> t = old @ new"
  by (auto simp: insert_rows_def)

lemma startswith_Cons_self [simp]: "startswith (c # s) (c # p) \<longleftrightarrow> startswith s p"
  by (simp add: startswith_def)

lemma startswith_Cons_other [simp]: "c \<noteq> d \<Longrightarrow> \<not> startswith (c # s) (d # p)"
  by (simp add: startswith_def)

lemma startswith_Nil [simp]: "startswith s []"
  by (simp add: startswith_def)

lemma ids_like [simp]:
  "startswith (sql_event_id e) ''perf-event-''"
  "startswith (sql_session_id e s) ''perf-session-''"
  "startswith (sql_seat_id i) ''perf-seat-''"
  "startswith (sql_session_seat_id e s i) ''perf-ss-''"
  "startswith (sql_user_id i) ''perf-user-''"
  "startswith venue_id0 ''perf-venue-''"
  by (simp_all add: sql_event_id_def sql_session_id_def sql_seat_id_def sql_session_seat_id_def
      sql_user_id_def venue_id0_def)

lemma new_rows_like:
  "v \<in> set new_venues \<Longrightarrow> startswith (vn_id v) ''perf-venue-''"
  "e \<in> set (new_events g sh) \<Longrightarrow> startswith (ev_id e) ''perf-event-''"
  "s \<in> set (new_sessions g sh) \<Longrightarrow> startswith (se_id s) ''perf-session-''"
  "z \<in> set (new_zones g) \<Longrightarrow> startswith (zn_venue z) ''perf-venue-''"
  "t \<in> set (new_seats g sh d) \<Longrightarrow> startswith (st_id t) ''perf-seat-''"
  "r \<in> set (new_inventory g sh) \<Longrightarrow> startswith (ss_id r) ''perf-ss-''"
  "u \<in> set (new_users sh) \<Longrightarrow> startswith (us_id u) ''perf-user-''"
  by (auto simp: new_venues_def new_events_def new_sessions_def new_zones_def new_seats_def
      new_inventory_def new_users_def Let_def split: prod.splits)

definition perf_credentials :: "credential list \<Rightarrow> bool" where
  "perf_credentials cs = list_all (\<lambda>c. startswith (cr_user_id c) ''perf-user-''
     \<and> startswith (cr_auth_session_id c) ''perf-auth-'') cs"

lemma new_logins_like:
  "perf_credentials cs \<Longrightarrow> l \<in> set (new_logins idle absolute cs) \<Longrightarrow>
     startswith (lg_user l) ''perf-user-'' \<and> startswith (lg_id l) ''perf-auth-''"
  by (auto simp: new_logins_def perf_credentials_def list_all_iff)

text \<open>What a successful transaction did, table by table.\<close>

definition with_rows ::
    "gen_params \<Rightarrow> dataset_shape \<Rightarrow> credential list \<Rightarrow> int \<Rightarrow> int \<Rightarrow> db \<Rightarrow> db" where
  "with_rows g sh cs idle absolute d =
     d\<lparr>t_venues := t_venues d @ new_venues,
       t_events := t_events d @ new_events g sh,
       t_sessions := t_sessions d @ new_sessions g sh,
       t_zones := t_zones d @ new_zones g,
       t_seats := t_seats d @ new_seats g sh (t_zones d @ new_zones g),
       t_inventory := t_inventory d @ new_inventory g sh,
       t_users := t_users d @ new_users sh,
       t_logins := t_logins d @ new_logins idle absolute cs\<rparr>"

definition distinct_keys :: "db \<Rightarrow> bool" where
  "distinct_keys d =
     (distinct (map vn_id (t_venues d)) \<and> distinct (map ev_id (t_events d))
      \<and> distinct (map se_id (t_sessions d)) \<and> distinct (map zn_id (t_zones d))
      \<and> distinct (map st_id (t_seats d)) \<and> distinct (map ss_id (t_inventory d))
      \<and> distinct (map us_id (t_users d)) \<and> distinct (map lg_id (t_logins d)))"

lemma build_generation_Inr_iff:
  "build_generation_sql profile sh cs idle absolute d = Inr d' \<longleftrightarrow>
     (\<exists>g. gen_params_of profile = Inr g
        \<and> d' = with_rows g sh cs idle absolute (delete_scope d)
        \<and> distinct_keys d' \<and> check_generated sh d' = Inr ())"
  unfolding build_generation_sql_def insert_catalog_def insert_inventory_def insert_people_def
    with_rows_def distinct_keys_def
  by (simp add: res_simps del: distinct_append map_append cong: conj_cong)
     (rule ex_cong1, auto simp del: distinct_append map_append)

subsection \<open>A second run\<close>

text \<open>
  \<open>scope_free d\<close>: nothing of \<open>d\<close> is in the scope that the deletion computes from the users,
  the sessions and the inventory.
\<close>

definition scope_free :: "db \<Rightarrow> bool" where
  "scope_free d =
     (list_all (\<lambda>r. \<not> startswith (rv_user r) ''perf-user-'' \<and> \<not> startswith (rv_session r) ''perf-session-'')
        (t_reservations d)
      \<and> list_all (\<lambda>i. \<not> startswith (rs_session_seat i) ''perf-ss-'') (t_reserved_seats d)
      \<and> list_all (\<lambda>o'. \<not> startswith (od_user o') ''perf-user-'') (t_orders d)
      \<and> list_all (\<lambda>c. \<not> startswith (co_user c) ''perf-user-'' \<and> \<not> startswith (co_session c) ''perf-session-'')
        (t_checkouts d)
      \<and> list_all (\<lambda>n. \<not> startswith (nt_user n) ''perf-user-'') (t_notifications d))"

lemma scope_free_delete: "scope_free (delete_scope d)"
  by (auto simp: scope_free_def delete_scope_def Let_def list_all_iff reservation_scope_def
      order_scope_def checkout_scope_def)

lemma scope_free_empty:
  assumes "scope_free d"
  shows "reservation_scope d = []" "order_scope d = []" "checkout_scope d = []"
proof -
  show r: "reservation_scope d = []"
    using assms by (auto simp: scope_free_def reservation_scope_def filter_empty_conv list_all_iff
        list_ex_iff)
  show "order_scope d = []" "checkout_scope d = []"
    using assms r by (auto simp: scope_free_def order_scope_def checkout_scope_def filter_empty_conv
        list_all_iff opt_in_def split: option.splits)
qed

lemma opt_in_Nil [simp]: "\<not> opt_in x []"
  by (cases x) (auto simp: opt_in_def)

lemma filter_append_drop:
  "(\<And>x. x \<in> set xs \<Longrightarrow> P x) \<Longrightarrow> (\<And>x. x \<in> set ys \<Longrightarrow> \<not> P x) \<Longrightarrow> filter P (xs @ ys) = xs"
  by simp

lemma delete_scope_again:
  assumes ok: "perf_credentials cs"
  shows "delete_scope (with_rows g sh cs idle absolute (delete_scope d)) = delete_scope d"
    (is "delete_scope ?d' = _")
proof -
  have free: "scope_free ?d'"
    using scope_free_delete [of d] by (simp add: with_rows_def scope_free_def)
  note empty = scope_free_empty [OF free]
  have nots: "list_all (\<lambda>n. \<not> startswith (nt_user n) ''perf-user-'') (t_notifications ?d')"
      "list_all (\<lambda>i. \<not> startswith (rs_session_seat i) ''perf-ss-'') (t_reserved_seats ?d')"
    using free by (simp_all add: scope_free_def)
  have d': "delete_scope ?d' = ?d'
      \<lparr>t_inventory := filter (\<lambda>v. \<not> startswith (ss_id v) ''perf-ss-'') (t_inventory ?d'),
       t_logins := filter (\<lambda>l. \<not> startswith (lg_user l) ''perf-user-'') (t_logins ?d'),
       t_seats := filter (\<lambda>s. \<not> startswith (st_id s) ''perf-seat-'') (t_seats ?d'),
       t_sessions := filter (\<lambda>s. \<not> startswith (se_id s) ''perf-session-'') (t_sessions ?d'),
       t_events := filter (\<lambda>e. \<not> startswith (ev_id e) ''perf-event-'') (t_events ?d'),
       t_zones := filter (\<lambda>z. \<not> startswith (zn_venue z) ''perf-venue-'') (t_zones ?d'),
       t_venues := filter (\<lambda>v. \<not> startswith (vn_id v) ''perf-venue-'') (t_venues ?d'),
       t_users := filter (\<lambda>u. \<not> startswith (us_id u) ''perf-user-'') (t_users ?d')\<rparr>"
    unfolding delete_scope_def [of ?d'] Let_def empty
    using nots by (intro db.equality) (simp_all add: list_all_iff)
  have cut: "filter P (xs @ ys) = filter P xs" if "\<And>y. y \<in> set ys \<Longrightarrow> \<not> P y" for P :: "'r \<Rightarrow> bool" and xs ys
    using that by simp
  have old: "filter (\<lambda>v. \<not> startswith (ss_id v) ''perf-ss-'') (t_inventory (delete_scope d)) = t_inventory (delete_scope d)"
      "filter (\<lambda>l. \<not> startswith (lg_user l) ''perf-user-'') (t_logins (delete_scope d)) = t_logins (delete_scope d)"
      "filter (\<lambda>s. \<not> startswith (st_id s) ''perf-seat-'') (t_seats (delete_scope d)) = t_seats (delete_scope d)"
      "filter (\<lambda>s. \<not> startswith (se_id s) ''perf-session-'') (t_sessions (delete_scope d)) = t_sessions (delete_scope d)"
      "filter (\<lambda>e. \<not> startswith (ev_id e) ''perf-event-'') (t_events (delete_scope d)) = t_events (delete_scope d)"
      "filter (\<lambda>z. \<not> startswith (zn_venue z) ''perf-venue-'') (t_zones (delete_scope d)) = t_zones (delete_scope d)"
      "filter (\<lambda>v. \<not> startswith (vn_id v) ''perf-venue-'') (t_venues (delete_scope d)) = t_venues (delete_scope d)"
      "filter (\<lambda>u. \<not> startswith (us_id u) ''perf-user-'') (t_users (delete_scope d)) = t_users (delete_scope d)"
    by (simp_all add: delete_scope_def Let_def)
  show ?thesis
    by (subst d', intro db.equality)
       (simp_all add: with_rows_def cut old new_rows_like new_logins_like [OF ok])
qed

text \<open>\textbf{Repeatable.} Running the same script on its own result changes nothing.\<close>

lemma build_generation_again:
  assumes "build_generation_sql profile sh cs idle absolute d = Inr d'" and "perf_credentials cs"
  shows "build_generation_sql profile sh cs idle absolute d' = Inr d'"
  using assms by (auto simp: build_generation_Inr_iff delete_scope_again)

subsection \<open>What lies outside the scope\<close>

lemma with_rows_frame:
  assumes "perf_credentials cs"
    and d': "d' = with_rows g sh cs idle absolute (delete_scope d)"
  shows "filter (\<lambda>v. \<not> startswith (vn_id v) ''perf-venue-'') (t_venues d')
       = filter (\<lambda>v. \<not> startswith (vn_id v) ''perf-venue-'') (t_venues d)"
    "filter (\<lambda>e. \<not> startswith (ev_id e) ''perf-event-'') (t_events d')
       = filter (\<lambda>e. \<not> startswith (ev_id e) ''perf-event-'') (t_events d)"
    "filter (\<lambda>e. \<not> startswith (se_id e) ''perf-session-'') (t_sessions d')
       = filter (\<lambda>e. \<not> startswith (se_id e) ''perf-session-'') (t_sessions d)"
    "filter (\<lambda>e. \<not> startswith (st_id e) ''perf-seat-'') (t_seats d')
       = filter (\<lambda>e. \<not> startswith (st_id e) ''perf-seat-'') (t_seats d)"
    "filter (\<lambda>e. \<not> startswith (ss_id e) ''perf-ss-'') (t_inventory d')
       = filter (\<lambda>e. \<not> startswith (ss_id e) ''perf-ss-'') (t_inventory d)"
    "filter (\<lambda>e. \<not> startswith (us_id e) ''perf-user-'') (t_users d')
       = filter (\<lambda>e. \<not> startswith (us_id e) ''perf-user-'') (t_users d)"
    "filter (\<lambda>e. \<not> startswith (lg_user e) ''perf-user-'') (t_logins d')
       = filter (\<lambda>e. \<not> startswith (lg_user e) ''perf-user-'') (t_logins d)"
  using new_logins_like [OF assms(1)]
  by (auto simp: d' with_rows_def delete_scope_def Let_def new_rows_like filter_empty_conv)

lemma kept_reservation:
  "r \<in> set (t_reservations d) \<Longrightarrow> rv_id r \<notin> set (reservation_scope d) \<Longrightarrow>
     r \<in> set (t_reservations (with_rows g sh cs idle absolute (delete_scope d)))"
  by (simp add: with_rows_def delete_scope_def Let_def)

subsection \<open>Counts\<close>

lemma count_like_append: "count_like key p (xs @ ys) = count_like key p xs + count_like key p ys"
  by (simp add: count_like_def)

lemma count_like_all: "(\<And>x. x \<in> set xs \<Longrightarrow> startswith (key x) p) \<Longrightarrow> count_like key p xs = int (length xs)"
  by (simp add: count_like_def filter_True)

lemma count_like_none: "(\<And>x. x \<in> set xs \<Longrightarrow> \<not> startswith (key x) p) \<Longrightarrow> count_like key p xs = 0"
  by (simp add: count_like_def filter_False)

lemma length_concat_const:
  "(\<And>x. x \<in> set xs \<Longrightarrow> length (f x) = n) \<Longrightarrow> length (concat (map f xs)) = length xs * n"
  by (induction xs) auto

lemma length_new_rows:
  "length (new_events g sh) = nat (sh_events sh)"
  "length (new_sessions g sh) = nat (sh_events sh) * nat (gp_per_event g)"
  "length (new_seats g sh zs) = nat (sh_seats sh)"
  "length (new_inventory g sh) = nat (sh_events sh) * (nat (gp_per_event g) * nat (sh_seats sh))"
  "length (new_users sh) = nat (sh_registered_users sh)"
  "length (new_logins idle absolute cs) = length cs"
  by (simp_all add: new_events_def new_sessions_def new_seats_def new_inventory_def new_users_def
      new_logins_def length_concat_const)

lemma length_upto_bound: "length [1..n] = nat n"
  by simp

text \<open>
  A database is clean outside the scope when no other row carries an identifier that the
  generator will use.
\<close>

definition foreign_ids_ok :: "db \<Rightarrow> bool" where
  "foreign_ids_ok d =
     (list_all (\<lambda>z. startswith (zn_venue z) ''perf-venue-'' \<or> \<not> startswith (zn_id z) ''perf-zone-'')
        (t_zones d)
      \<and> list_all (\<lambda>l. startswith (lg_user l) ''perf-user-'' \<or> \<not> startswith (lg_id l) ''perf-auth-'')
        (t_logins d))"

lemma check_generated_ok:
  assumes ok: "perf_credentials cs" and fo: "foreign_ids_ok d"
    and n: "length cs = nat (sh_active_auth_sessions sh)" "0 \<le> sh_active_auth_sessions sh"
    and pos: "0 \<le> sh_registered_users sh" "0 \<le> sh_events sh" "0 \<le> gp_per_event g" "0 \<le> sh_seats sh"
    and ses: "sh_sessions sh = sh_events sh * gp_per_event g"
    and inv: "sh_session_seats sh = sh_sessions sh * sh_seats sh"
  shows "check_generated sh (with_rows g sh cs idle absolute (delete_scope d)) = Inr ()"
proof -
  let ?d = "delete_scope d"
  have old: "count_like us_id ''perf-user-'' (t_users ?d) = 0"
      "count_like ev_id ''perf-event-'' (t_events ?d) = 0"
      "count_like se_id ''perf-session-'' (t_sessions ?d) = 0"
      "count_like st_id ''perf-seat-'' (t_seats ?d) = 0"
      "count_like ss_id ''perf-ss-'' (t_inventory ?d) = 0"
    by (rule count_like_none, simp add: delete_scope_def Let_def)+
  have old_logins: "count_like lg_id ''perf-auth-'' (t_logins ?d) = 0"
    using fo by (intro count_like_none) (auto simp: delete_scope_def Let_def foreign_ids_ok_def list_all_iff)
  have new: "count_like us_id ''perf-user-'' (new_users sh) = sh_registered_users sh"
      "count_like ev_id ''perf-event-'' (new_events g sh) = sh_events sh"
      "count_like se_id ''perf-session-'' (new_sessions g sh) = sh_sessions sh"
      "count_like st_id ''perf-seat-'' (new_seats g sh zs) = sh_seats sh"
      "count_like ss_id ''perf-ss-'' (new_inventory g sh) = sh_session_seats sh"
      "count_like lg_id ''perf-auth-'' (new_logins idle absolute cs) = sh_active_auth_sessions sh"
      for zs
    using pos n ses inv
    by (simp_all add: count_like_all new_rows_like new_logins_like [OF ok] length_new_rows
        flip: of_nat_mult nat_mult_distrib)
  show ?thesis
    by (simp add: check_generated_def check_count_def require_def with_rows_def
        count_like_append old old_logins new)
qed

subsection \<open>When the script succeeds\<close>

definition generated_credentials :: "credential list \<Rightarrow> bool" where
  "generated_credentials cs = (\<forall>i < length cs.
     cr_user_id (cs ! i) = user_id (int i + 1) \<and> cr_auth_session_id (cs ! i) = auth_id (int i + 1))"

lemma generated_credentials_perf: "generated_credentials cs \<Longrightarrow> perf_credentials cs"
  by (auto simp: generated_credentials_def perf_credentials_def list_all_length)

lemma generated_auth_ids:
  assumes "generated_credentials cs"
  shows "distinct (map cr_auth_session_id cs)"
  using assms by (auto simp: distinct_conv_nth generated_credentials_def fmt_d_inj)

text \<open>The widths of the identifiers suffice.\<close>

definition widths_ok :: "gen_params \<Rightarrow> dataset_shape \<Rightarrow> bool" where
  "widths_ok g sh = (sh_events sh \<le> 999 \<and> gp_per_event g \<le> 999 \<and> sh_seats sh \<le> 999999)"

lemma distinct_old_new:
  assumes "distinct (map key old)" and "distinct (map key new)"
    and "\<And>x. x \<in> set old \<Longrightarrow> \<not> P (key x)" and "\<And>y. y \<in> set new \<Longrightarrow> P (key y)"
  shows "distinct (map key (old @ new))"
proof -
  have "set (map key old) \<inter> set (map key new) = {}"
    using assms(3,4) by fastforce
  with assms(1,2) show ?thesis by (simp only: map_append distinct_append)
qed

lemma session_id_inj_on:
  "inj_on (\<lambda>(e, s). session_id e s) ({0..} \<times> {0..})"
proof (rule inj_onI)
  fix x y :: "int \<times> int"
  assume xy: "x \<in> {0..} \<times> {0..}" "y \<in> {0..} \<times> {0..}"
    "(case x of (e, s) \<Rightarrow> session_id e s) = (case y of (e, s) \<Rightarrow> session_id e s)"
  obtain e s e' s' where "x = (e, s)" "y = (e', s')" by fastforce
  with xy show "x = y" using session_id_inj [of e s e' s'] by auto
qed

lemma session_seat_id_inj_on:
  "inj_on (\<lambda>(e, s, i). session_seat_id e s i) ({0..} \<times> {0..} \<times> {0..})"
proof (rule inj_onI)
  fix x y :: "int \<times> int \<times> int"
  assume xy: "x \<in> {0..} \<times> {0..} \<times> {0..}" "y \<in> {0..} \<times> {0..} \<times> {0..}"
    "(case x of (e, s, i) \<Rightarrow> session_seat_id e s i) = (case y of (e, s, i) \<Rightarrow> session_seat_id e s i)"
  obtain e s i e' s' i' where "x = (e, s, i)" "y = (e', s', i')" by (metis prod_cases3)
  with xy show "x = y" using session_seat_id_inj [of e s i e' s' i'] by auto
qed

lemma distinct_new_events: "sh_events sh \<le> 999 \<Longrightarrow> distinct (map ev_id (new_events g sh))"
proof -
  assume le: "sh_events sh \<le> 999"
  then have "map ev_id (new_events g sh) = map event_id [1..sh_events sh]"
    by (auto simp: new_events_def sql_event_id_eq)
  then show ?thesis by (auto simp: distinct_map inj_on_def fmt_d_inj)
qed

lemma product_concat:
  "concat (map (\<lambda>x. map (f x) ys) xs) = map (\<lambda>(x, y). f x y) (List.product xs ys)"
  by (induction xs) auto

lemma distinct_new_sessions:
  assumes "sh_events sh \<le> 999" and "gp_per_event g \<le> 999"
  shows "distinct (map se_id (new_sessions g sh))"
proof -
  have "map se_id (new_sessions g sh) =
      map (\<lambda>(e, s). session_id e s) (List.product [1..sh_events sh] [1..gp_per_event g])"
    using assms
    by (auto simp: new_sessions_def product_concat Let_def sql_session_id_eq)
  moreover have "inj_on (\<lambda>(e, s). session_id e s)
      (set (List.product [1..sh_events sh] [1..gp_per_event g]))"
    by (rule inj_on_subset [OF session_id_inj_on]) auto
  ultimately show ?thesis by (simp only: distinct_map distinct_product distinct_upto)
qed

lemma distinct_new_seats:
  assumes "sh_seats sh \<le> 999999"
  shows "distinct (map st_id (new_seats g sh zs))"
proof -
  have "map st_id (new_seats g sh zs) = map seat_id [1..sh_seats sh]"
    using assms by (auto simp: new_seats_def sql_seat_id_eq)
  then show ?thesis by (auto simp: distinct_map inj_on_def fmt_d_inj)
qed

lemma distinct_new_inventory:
  assumes "widths_ok g sh"
  shows "distinct (map ss_id (new_inventory g sh))"
proof -
  let ?ix = "List.product [1..sh_events sh] (List.product [1..gp_per_event g] [1..sh_seats sh])"
  have "new_inventory g sh = map (\<lambda>(e, s, i).
       \<lparr>ss_id = sql_session_seat_id e s i, ss_session = sql_session_id e s,
        ss_seat = sql_seat_id i, ss_venue = venue_id0, ss_status = ''AVAILABLE'',
        ss_price = map_option the_int (case_value (gp_price_clauses g) (row_index g i)),
        ss_reservation = None\<rparr>) ?ix"
    by (simp add: new_inventory_def product_concat case_prod_beta')
  then have "map ss_id (new_inventory g sh) = map (\<lambda>(e, s, i). session_seat_id e s i) ?ix"
    using assms by (auto simp: widths_ok_def sql_session_seat_id_eq)
  moreover have "inj_on (\<lambda>(e, s, i). session_seat_id e s i) (set ?ix)"
    by (rule inj_on_subset [OF session_seat_id_inj_on]) auto
  ultimately show ?thesis by (simp only: distinct_map distinct_product distinct_upto)
qed

lemma distinct_new_users: "distinct (map us_id (new_users sh))"
proof -
  have "map us_id (new_users sh) = map user_id [1..sh_registered_users sh]"
    by (auto simp: new_users_def sql_user_id_eq)
  then show ?thesis by (auto simp: distinct_map inj_on_def fmt_d_inj)
qed

lemma distinct_new_zones: "distinct (map zn_id (new_zones g))"
  by (auto simp: new_zones_def distinct_map inj_on_def in_set_enumerate_eq split: prod.splits)

lemma new_zone_ids: "z \<in> set (new_zones g) \<Longrightarrow> startswith (zn_id z) ''perf-zone-''"
  by (auto simp: new_zones_def split: prod.splits)

lemma distinct_new_logins:
  assumes "generated_credentials cs"
  shows "distinct (map lg_id (new_logins idle absolute cs))"
proof -
  have "mset (map lg_id (new_logins idle absolute cs)) = mset (map cr_auth_session_id cs)"
    by (simp add: new_logins_def image_mset.compositionality comp_def)
  then show ?thesis
    using generated_auth_ids [OF assms] mset_eq_imp_distinct_iff by blast
qed

lemma distinct_keys_delete: "distinct_keys d \<Longrightarrow> distinct_keys (delete_scope d)"
  by (simp add: distinct_keys_def delete_scope_def Let_def distinct_map_filter)

lemma distinct_keys_with_rows:
  assumes d: "distinct_keys d" and fo: "foreign_ids_ok d" and w: "widths_ok g sh"
    and cs: "generated_credentials cs"
  shows "distinct_keys (with_rows g sh cs idle absolute (delete_scope d))"
proof -
  note old = distinct_keys_delete [OF d, unfolded distinct_keys_def]
  note perf = new_logins_like [OF generated_credentials_perf [OF cs]]
  have fo': "\<not> startswith (zn_id z) ''perf-zone-''" if "z \<in> set (t_zones (delete_scope d))" for z
    using fo that by (auto simp: delete_scope_def Let_def foreign_ids_ok_def list_all_iff)
  have fl: "\<not> startswith (lg_id l) ''perf-auth-''" if "l \<in> set (t_logins (delete_scope d))" for l
    using fo that by (auto simp: delete_scope_def Let_def foreign_ids_ok_def list_all_iff)
  have w': "sh_events sh \<le> 999" "gp_per_event g \<le> 999" "sh_seats sh \<le> 999999"
    using w by (auto simp: widths_ok_def)
  have "distinct (map vn_id (t_venues (delete_scope d) @ new_venues))"
    by (rule distinct_old_new [where P = "\<lambda>s. startswith s ''perf-venue-''"])
       (use old in \<open>auto simp: new_rows_like delete_scope_def Let_def\<close>, simp add: new_venues_def)
  moreover have "distinct (map ev_id (t_events (delete_scope d) @ new_events g sh))"
    by (rule distinct_old_new [where P = "\<lambda>s. startswith s ''perf-event-''"])
       (use old w' in \<open>auto simp: new_rows_like distinct_new_events delete_scope_def Let_def\<close>)
  moreover have "distinct (map se_id (t_sessions (delete_scope d) @ new_sessions g sh))"
    by (rule distinct_old_new [where P = "\<lambda>s. startswith s ''perf-session-''"])
       (use old w' in \<open>auto simp: new_rows_like distinct_new_sessions delete_scope_def Let_def\<close>)
  moreover have "distinct (map zn_id (t_zones (delete_scope d) @ new_zones g))"
    by (rule distinct_old_new [where P = "\<lambda>s. startswith s ''perf-zone-''"])
       (use old fo' in \<open>auto simp: new_zone_ids distinct_new_zones\<close>)
  moreover have "distinct (map st_id (t_seats (delete_scope d) @ new_seats g sh zs))" for zs
    by (rule distinct_old_new [where P = "\<lambda>s. startswith s ''perf-seat-''"])
       (use old w' in \<open>auto simp: new_rows_like distinct_new_seats delete_scope_def Let_def\<close>)
  moreover have "distinct (map ss_id (t_inventory (delete_scope d) @ new_inventory g sh))"
    by (rule distinct_old_new [where P = "\<lambda>s. startswith s ''perf-ss-''"])
       (use old w in \<open>auto simp: new_rows_like distinct_new_inventory delete_scope_def Let_def\<close>)
  moreover have "distinct (map us_id (t_users (delete_scope d) @ new_users sh))"
    by (rule distinct_old_new [where P = "\<lambda>s. startswith s ''perf-user-''"])
       (use old in \<open>auto simp: new_rows_like distinct_new_users delete_scope_def Let_def\<close>)
  moreover have "distinct (map lg_id (t_logins (delete_scope d) @ new_logins idle absolute cs))"
    by (rule distinct_old_new [where P = "\<lambda>s. startswith s ''perf-auth-''"])
       (use old fl perf cs in \<open>auto simp: distinct_new_logins\<close>)
  ultimately show ?thesis by (simp add: distinct_keys_def with_rows_def del: map_append)
qed

text \<open>The parameters of the template for a represented profile.\<close>

lemma gen_params_represented:
  assumes rep: "profile_represents p ps" and wf: "wf_profile ps"
  shows "\<exists>g. gen_params_of (JObj p) = Inr g \<and> gp_per_event g = ps_per_event ps
     \<and> gp_per_row g = ps_per_row ps
     \<and> gp_name_clauses g = spec_clauses (field_value ''name'') 1 (ps_zones ps)
     \<and> gp_price_clauses g = spec_clauses (field_value ''price'') 1 (ps_zones ps)
     \<and> gp_zone_names g = map zs_name (ps_zones ps)"
proof -
  from rep obtain l zs off spc where
      i: "map_of p ''sessionsPerEvent'' = Some (JInt (ps_per_event ps))"
      "map_of p ''gateLeadMinutes'' = Some (JInt (ps_lead ps))"
      "map_of p ''futureStartOffsetDays'' = Some (JInt off)"
      "map_of p ''sessionSpacingHours'' = Some (JInt spc)"
    and l: "map_of p ''seatLayout'' = Some (JObj l)"
      "map_of l ''seatsPerRow'' = Some (JInt (ps_per_row ps))"
    and z: "map_of p ''priceZones'' = Some (JList zs)" "list_all2 zone_represents zs (ps_zones ps)"
    by (auto simp: profile_represents_def int_field_def positive_field_def)
  have names: "map_res (\<lambda>z. json_index z ''name'') zs = Inr (map (\<lambda>z. JStr (zs_name z)) (ps_zones ps))"
    using z(2) by (induction rule: list_all2_induct) (auto simp: zone_represents_def dindex_def)
  show ?thesis
    using i l z(1) names
    by (simp add: gen_params_of_def dindex_def the_int_def json_str_of_def comp_def
        zone_clauses_spec [OF z(2)])
qed

text \<open>
  A validated profile within the widths, credentials from the generator and a database with
  distinct keys: the script succeeds.
\<close>

lemma build_generation_succeeds:
  assumes rep: "profile_represents p ps" and wf: "wf_profile ps"
    and cs: "generated_credentials cs" "length cs = nat (ps_active ps)"
    and d: "distinct_keys d" "foreign_ids_ok d"
    and w: "ps_events ps \<le> 999" "ps_per_event ps \<le> 999" "ps_rows ps * ps_per_row ps \<le> 999999"
  shows "\<exists>d'. build_generation_sql (JObj p) (shape_of ps) cs idle absolute d = Inr d'"
proof -
  obtain g where g: "gen_params_of (JObj p) = Inr g" "gp_per_event g = ps_per_event ps"
    using gen_params_represented [OF rep wf] by blast
  have widths: "widths_ok g (shape_of ps)"
    using w g by (simp add: widths_ok_def shape_of_def)
  have pos: "0 < ps_rows ps" "0 < ps_per_row ps" "0 < ps_events ps" "0 < ps_per_event ps"
      "0 < ps_registered ps" "0 < ps_active ps"
    using wf by (simp_all add: wf_profile_def)
  have "check_generated (shape_of ps) (with_rows g (shape_of ps) cs idle absolute (delete_scope d)) = Inr ()"
    using pos g cs(2)
    by (intro check_generated_ok generated_credentials_perf [OF cs(1)] d)
       (simp_all add: shape_of_def)
  with g(1) distinct_keys_with_rows [OF d widths cs(1)] show ?thesis
    by (auto simp: build_generation_Inr_iff)
qed

text \<open>A layout of a million seats passes the validation, but its seats collide.\<close>

lemma build_generation_too_many_seats:
  assumes "1000000 \<le> sh_seats sh"
  shows "build_generation_sql profile sh cs idle absolute d \<noteq> Inr d'"
proof
  assume "build_generation_sql profile sh cs idle absolute d = Inr d'"
  then obtain g zs where "distinct (map st_id (new_seats g sh zs))"
    by (auto simp: build_generation_Inr_iff distinct_keys_def with_rows_def)
  then have "inj_on sql_seat_id {1..sh_seats sh}"
    by (simp add: new_seats_def distinct_map comp_def)
  moreover have "(1000000::int) \<in> {1..sh_seats sh}" "(100000::int) \<in> {1..sh_seats sh}"
    using assms by auto
  ultimately show False using seat_id_collision by (auto dest: inj_onD)
qed


section \<open>Properties\<close>

definition empty_db :: db where
  "empty_db = \<lparr>t_venues = [], t_events = [], t_sessions = [], t_zones = [], t_seats = [],
     t_inventory = [], t_users = [], t_logins = [], t_reservations = [], t_reserved_seats = [],
     t_orders = [], t_checkouts = [], t_checkout_seats = [], t_attempts = [], t_refunds = [],
     t_notifications = []\<rparr>"

definition sample_credentials :: "credential list" where
  "sample_credentials = map (\<lambda>i. \<lparr>cr_user_id = user_id i, cr_username = user_id i,
     cr_auth_session_id = auth_id i, cr_session_token = ''a'', cr_csrf_token = ''b'',
     cr_token_hash = ''c''\<rparr>) [1..2]"

lemma sample_credentials_generated: "generated_credentials sample_credentials"
  by (auto simp: generated_credentials_def sample_credentials_def nth_upto add.commute)

lemma empty_db_ok: "distinct_keys empty_db" "foreign_ids_ok empty_db"
  by (simp_all add: empty_db_def distinct_keys_def foreign_ids_ok_def)

lemma sample_generation:
  "\<exists>d'. build_generation_sql (JObj sample_dict) (shape_of sample_spec) sample_credentials 10 20 empty_db = Inr d'"
  using sample_represented sample_wf sample_credentials_generated _ empty_db_ok
  by (rule build_generation_succeeds) (simp_all add: sample_credentials_def sample_spec_def)






definition foreign_user :: user_row where
  "foreign_user = \<lparr>us_id = ''alice'', us_display = ''Alice'', us_username = ''alice'', us_status = ''ACTIVE''\<rparr>"


text \<open>
  \textbf{C11.} The validation bounds the seats of a row, not the seats of the layout: a profile
  with a million seats is accepted, but its identifiers repeat and the script rolls back.
\<close>

theorem too_many_seats_roll_back:
  assumes "profile_represents p ps" and "wf_profile ps"
    and "1000000 \<le> ps_rows ps * ps_per_row ps"
  shows "validate_profile (JObj p) = Inr (shape_of ps)
    \<and> (\<exists>e. run_generation (JObj p) (shape_of ps) cs idle absolute d = (Some e, d))"
proof
  show "validate_profile (JObj p) = Inr (shape_of ps)"
    using assms(1,2) by (rule validate_profile_complete)
  have "1000000 \<le> sh_seats (shape_of ps)" using assms(3) by (simp add: shape_of_def)
  then have "build_generation_sql (JObj p) (shape_of ps) cs idle absolute d \<noteq> Inr d'" for d'
    by (rule build_generation_too_many_seats)
  then show "\<exists>e. run_generation (JObj p) (shape_of ps) cs idle absolute d = (Some e, d)"
    by (cases "build_generation_sql (JObj p) (shape_of ps) cs idle absolute d")
       (auto simp: run_generation_def)
qed

definition wide_dict :: dict where
  "wide_dict = dset sample_dict ''seatLayout'' (JObj [(''rows'', JInt 3), (''seatsPerRow'', JInt 400000)])"

definition wide_spec :: profile_spec where
  "wide_spec = sample_spec\<lparr>ps_per_row := 400000\<rparr>"

theorem too_many_seats_roll_back_witness:
  "\<exists>e. run_generation (JObj wide_dict) (shape_of wide_spec) sample_credentials 10 20 empty_db = (Some e, empty_db)"
proof -
  have "profile_represents wide_dict wide_spec"
    by (simp add: profile_represents_def wide_dict_def sample_dict_def wide_spec_def sample_spec_def
        users_represent_def int_field_def positive_field_def zone_represents_def)
  moreover have "wf_profile wide_spec" using sample_wf by (simp add: wf_profile_def wide_spec_def sample_spec_def)
  ultimately show ?thesis
    using too_many_seats_roll_back [of wide_dict wide_spec]
    by (simp add: wide_spec_def sample_spec_def)
qed

end
