(* ===== verification/Dataset_Main.thy ===== *)
theory Dataset_Main
  imports Dataset_Sql "HOL-Library.Product_Lexorder"
begin

text \<open>
  \<open>performance/data/generate_dataset.py\<close>, the rest: the text of the generation script, the
  commands run through docker compose, the manifest, the validation of the generated database,
  the seat pool, the smoke test of a session, the export for phase 14 and \<open>main\<close>. A file that
  a \<open>with\<close> statement fills piece by piece is written in one event when the statement ends;
  paths are taken as already resolved.
\<close>

section \<open>The text of the generation script\<close>

definition password_hash :: string where
  "password_hash = ''$argon2id$v=19$m=65536,t=2,p=1$tUON0+a+tW+XPmzdPL+RoA$''
     @ ''OCRPrfDL//acztJL8FF4AhlFnL7GN03xL4mAsYextRo''"

definition script_scope :: "string" where
  "script_scope = join_with [nl] [
     [],
     [CHR 0x5C] @ ''set ON_ERROR_STOP on'',
     ''BEGIN;'',
     ''SET LOCAL TIME ZONE 'UTC';'',
     [],
     ''CREATE TEMP TABLE perf_reservation_scope ON COMMIT DROP AS'',
     ''SELECT DISTINCT reservation.id'',
     ''FROM reservations AS reservation'',
     ''LEFT JOIN reservation_session_seats AS item'',
     ''  ON item.reservation_id = reservation.id'',
     ''LEFT JOIN session_seats AS inventory'',
     ''  ON inventory.id = item.session_seat_id'',
     '' AND inventory.session_id = item.session_id'',
     ''WHERE reservation.user_id LIKE 'perf-user-%'' @ [quot],
     ''   OR reservation.session_id LIKE 'perf-session-%'' @ [quot],
     ''   OR inventory.id LIKE 'perf-ss-%';'',
     [],
     ''CREATE TEMP TABLE perf_order_scope ON COMMIT DROP AS'',
     ''SELECT ticket_order.id'',
     ''FROM orders AS ticket_order'',
     ''WHERE ticket_order.user_id LIKE 'perf-user-%'' @ [quot],
     ''   OR ticket_order.reservation_id IN (SELECT id FROM perf_reservation_scope);'',
     [],
     ''CREATE TEMP TABLE perf_checkout_scope ON COMMIT DROP AS'',
     ''SELECT checkout.id'',
     ''FROM checkout_sessions AS checkout'',
     ''WHERE checkout.user_id LIKE 'perf-user-%'' @ [quot],
     ''   OR checkout.session_id LIKE 'perf-session-%'' @ [quot],
     ''   OR checkout.reservation_id IN (SELECT id FROM perf_reservation_scope);'',
     [],
     ''DELETE FROM user_notifications'',
     ''WHERE user_id LIKE 'perf-user-%'' @ [quot],
     ''   OR order_id IN (SELECT id FROM perf_order_scope);'',
     ''DELETE FROM refunds'',
     ''WHERE order_id IN (SELECT id FROM perf_order_scope);'',
     ''DELETE FROM payment_attempts'',
     ''WHERE order_id IN (SELECT id FROM perf_order_scope);'',
     ''DELETE FROM checkout_session_seats'',
     ''WHERE checkout_session_id IN (SELECT id FROM perf_checkout_scope);'',
     ''DELETE FROM checkout_sessions'',
     ''WHERE id IN (SELECT id FROM perf_checkout_scope);'',
     ''DELETE FROM orders'',
     ''WHERE id IN (SELECT id FROM perf_order_scope);'',
     ''DELETE FROM reservation_session_seats'',
     ''WHERE reservation_id IN (SELECT id FROM perf_reservation_scope)'',
     ''   OR session_seat_id LIKE 'perf-ss-%';'',
     ''DELETE FROM session_seats WHERE id LIKE 'perf-ss-%';'',
     ''DELETE FROM reservations WHERE id IN (SELECT id FROM perf_reservation_scope);'',
     ''DELETE FROM user_sessions WHERE user_id LIKE 'perf-user-%';'',
     ''DELETE FROM seats WHERE id LIKE 'perf-seat-%';'',
     ''DELETE FROM sessions WHERE id LIKE 'perf-session-%';'',
     ''DELETE FROM events WHERE id LIKE 'perf-event-%';'',
     ''DELETE FROM venue_zones WHERE venue_id LIKE 'perf-venue-%';'',
     ''DELETE FROM venues WHERE id LIKE 'perf-venue-%';'',
     ''DELETE FROM app_users WHERE id LIKE 'perf-user-%';'',
     []]"

definition script_rows :: "gen_params \<Rightarrow> int \<Rightarrow> dataset_shape \<Rightarrow> string \<Rightarrow> string \<Rightarrow> string \<Rightarrow> string" where
  "script_rows g evs sh zone_sql price_sql zone_values = join_with [nl] [
     ''INSERT INTO venues (id, name, city)'',
     ''VALUES ('perf-venue-001', 'Phase 10A Performance Venue', 'Shanghai');'',
     [],
     ''INSERT INTO events (id, primary_venue_id, name, description, status, category, cover_url, date_range, sales_starts_at, sales_ends_at)'',
     ''SELECT 'perf-event-' || lpad(event_index::text, 3, '0'),'',
     ''       'perf-venue-001','',
     ''       'Performance Event ' || event_index,'',
     ''       'Generated Phase 10A dataset event','',
     ''       'ON_SALE','',
     ''       'PERFORMANCE_TEST','',
     ''       'https://example.invalid/performance/event-' || event_index || '.jpg','',
     ''       'Generated future schedule','',
     ''       clock_timestamp()-INTERVAL '1 day','',
     ''       clock_timestamp()+make_interval(days => '' @ int_str (gp_offset_days g + 1) @
       '', hours => '' @ int_str evs @ ''*'' @ int_str (gp_per_event g) @ ''*'' @
       int_str (gp_spacing_hours g) @ '')'',
     ''FROM generate_series(1, '' @ int_str evs @ '') AS event_index;'',
     [],
     ''INSERT INTO sessions (id, event_id, venue_id, hall_name, start_time, gate_time, status)'',
     ''SELECT 'perf-session-' || lpad(event_index::text, 3, '0') || '-' || lpad(session_index::text, 3, '0'),'',
     ''       'perf-event-' || lpad(event_index::text, 3, '0'),'',
     ''       'perf-venue-001','',
     ''       'Performance Hall','',
     ''       clock_timestamp() + make_interval(days => '' @ int_str (gp_offset_days g) @
       '', hours => ((event_index - 1) * '' @ int_str (gp_per_event g) @
       '' + session_index - 1) * '' @ int_str (gp_spacing_hours g) @ ''),'',
     ''       clock_timestamp() + make_interval(days => '' @ int_str (gp_offset_days g) @
       '', hours => ((event_index - 1) * '' @ int_str (gp_per_event g) @
       '' + session_index - 1) * '' @ int_str (gp_spacing_hours g) @ '', mins => -'' @
       int_str (gp_lead_minutes g) @ ''),'',
     ''       'ON_SALE'' @ [quot],
     ''FROM generate_series(1, '' @ int_str evs @ '') AS event_index'',
     ''CROSS JOIN generate_series(1, '' @ int_str (gp_per_event g) @ '') AS session_index;'',
     [],
     ''INSERT INTO venue_zones(id,venue_id,code,name,sort_order) VALUES '' @ zone_values @ '';'',
     [],
     ''INSERT INTO seats (id, venue_id, row_no, seat_no, seat_label, zone_id)'',
     ''SELECT 'perf-seat-' || lpad(seat_index::text, 6, '0'),'',
     ''       'perf-venue-001','',
     ''       'R' || lpad(row_index::text, 3, '0'),'',
     ''       seat_number,'',
     ''       'R' || lpad(row_index::text, 3, '0') || '-' || lpad(seat_number::text, 3, '0'),'',
     ''       (SELECT id FROM venue_zones WHERE venue_id='perf-venue-001' AND name=('' @
       zone_sql @ ''))'',
     ''FROM generate_series(1, '' @ int_str (sh_seats sh) @ '') AS seat_index'',
     ''CROSS JOIN LATERAL ('',
     ''    SELECT ((seat_index - 1) / '' @ int_str (gp_per_row g) @ '') + 1 AS row_index,'',
     ''           ((seat_index - 1) % '' @ int_str (gp_per_row g) @ '') + 1 AS seat_number'',
     '') AS position;'',
     [],
     ''INSERT INTO session_seats (id, session_id, seat_id, venue_id, status, price, current_reservation_id)'',
     ''SELECT 'perf-ss-' || lpad(event_index::text, 3, '0') || '-' || lpad(session_index::text, 3, '0') || '-' || lpad(seat_index::text, 6, '0'),'',
     ''       'perf-session-' || lpad(event_index::text, 3, '0') || '-' || lpad(session_index::text, 3, '0'),'',
     ''       'perf-seat-' || lpad(seat_index::text, 6, '0'),'',
     ''       'perf-venue-001','',
     ''       'AVAILABLE','',
     ''       '' @ price_sql @ '','',
     ''       NULL'',
     ''FROM generate_series(1, '' @ int_str evs @ '') AS event_index'',
     ''CROSS JOIN generate_series(1, '' @ int_str (gp_per_event g) @ '') AS session_index'',
     ''CROSS JOIN generate_series(1, '' @ int_str (sh_seats sh) @ '') AS seat_index'',
     ''CROSS JOIN LATERAL ('',
     ''    SELECT ((seat_index - 1) / '' @ int_str (gp_per_row g) @ '') + 1 AS row_index'',
     '') AS position;'',
     [],
     ''INSERT INTO app_users (id, display_name, username, password_hash, status)'',
     ''SELECT 'perf-user-' || lpad(user_index::text, GREATEST(6, length(user_index::text)), '0'),'',
     ''       'Performance User ' || user_index,'',
     ''       'perf-user-' || lpad(user_index::text, GREATEST(6, length(user_index::text)), '0'),'',
     ''       '' @ sql_literal password_hash @ '','',
     ''       'ACTIVE'' @ [quot],
     ''FROM generate_series(1, '' @ int_str (sh_registered_users sh) @ '') AS user_index;'',
     []]"

definition script_auth :: "string \<Rightarrow> int \<Rightarrow> int \<Rightarrow> string" where
  "script_auth copy_rows idle absolute = join_with [nl] [
     ''CREATE TEMP TABLE perf_auth_input ('',
     ''    id TEXT NOT NULL,'',
     ''    user_id TEXT NOT NULL,'',
     ''    token_hash TEXT NOT NULL'',
     '') ON COMMIT DROP;'',
     ''COPY perf_auth_input (id, user_id, token_hash) FROM STDIN;'',
     copy_rows,
     [CHR 0x5C] @ ''.'',
     [],
     ''INSERT INTO user_sessions ('',
     ''    id, user_id, token_hash, created_at, last_seen_at,'',
     ''    idle_expires_at, absolute_expires_at, revoked_at'',
     '')'',
     ''SELECT id,'',
     ''       user_id,'',
     ''       token_hash,'',
     ''       clock_timestamp(),'',
     ''       clock_timestamp(),'',
     ''       clock_timestamp() + make_interval(secs => '' @ int_str idle @ ''),'',
     ''       clock_timestamp() + make_interval(secs => '' @ int_str absolute @ ''),'',
     ''       NULL'',
     ''FROM perf_auth_input'',
     ''ORDER BY id;'',
     []]"

definition script_checks :: "dataset_shape \<Rightarrow> string" where
  "script_checks sh = join_with [nl] [
     ''DO $validation$'',
     ''DECLARE'',
     ''    actual BIGINT;'',
     ''BEGIN'',
     ''    SELECT count(*) INTO actual FROM app_users WHERE id LIKE 'perf-user-%';'',
     ''    IF actual <> '' @ int_str (sh_registered_users sh) @
       '' THEN RAISE EXCEPTION 'perf user count %, expected '' @
       int_str (sh_registered_users sh) @ [quot] @ '', actual; END IF;'',
     ''    SELECT count(*) INTO actual FROM user_sessions WHERE id LIKE 'perf-auth-%';'',
     ''    IF actual <> '' @ int_str (sh_active_auth_sessions sh) @
       '' THEN RAISE EXCEPTION 'perf auth count %, expected '' @
       int_str (sh_active_auth_sessions sh) @ [quot] @ '', actual; END IF;'',
     ''    SELECT count(*) INTO actual FROM events WHERE id LIKE 'perf-event-%';'',
     ''    IF actual <> '' @ int_str (sh_events sh) @
       '' THEN RAISE EXCEPTION 'perf event count %, expected '' @ int_str (sh_events sh) @
       [quot] @ '', actual; END IF;'',
     ''    SELECT count(*) INTO actual FROM sessions WHERE id LIKE 'perf-session-%';'',
     ''    IF actual <> '' @ int_str (sh_sessions sh) @
       '' THEN RAISE EXCEPTION 'perf session count %, expected '' @ int_str (sh_sessions sh) @
       [quot] @ '', actual; END IF;'',
     ''    SELECT count(*) INTO actual FROM seats WHERE id LIKE 'perf-seat-%';'',
     ''    IF actual <> '' @ int_str (sh_seats sh) @
       '' THEN RAISE EXCEPTION 'perf seat count %, expected '' @ int_str (sh_seats sh) @ [quot] @
       '', actual; END IF;'',
     ''    SELECT count(*) INTO actual FROM session_seats WHERE id LIKE 'perf-ss-%';'',
     ''    IF actual <> '' @ int_str (sh_session_seats sh) @
       '' THEN RAISE EXCEPTION 'perf session seat count %, expected '' @
       int_str (sh_session_seats sh) @ [quot] @ '', actual; END IF;'',
     ''END'',
     ''$validation$;'',
     ''COMMIT;'',
     []]"

definition zone_values_of :: "json list \<Rightarrow> string res" where
  "zone_values_of zs = rbind (map_res (\<lambda>(i, z).
       rbind (json_index z ''name'') (\<lambda>n. rbind (json_to_str n) (\<lambda>name.
       Inr (''('perf-zone-'' @ int_str (int i) @ '', 'perf-venue-001', 'ZONE_'' @ int_str (int i)
         @ '', '' @ sql_literal name @ '', '' @ int_str (int i) @ '')'')))) (enumerate 0 zs))
     (\<lambda>vs. Inr (join_with ('','' @ [nl]) vs))"

definition copy_line :: "credential \<Rightarrow> string" where
  "copy_line c = cr_auth_session_id c @ [tab] @ cr_user_id c @ [tab] @ cr_token_hash c"

definition generation_script ::
    "json \<Rightarrow> dataset_shape \<Rightarrow> credential list \<Rightarrow> int \<Rightarrow> int \<Rightarrow> string res" where
  "generation_script profile sh cs idle absolute =
     rbind (gen_params_of profile) (\<lambda>g.
     rbind (zone_case profile ''name'') (\<lambda>zone_sql.
     rbind (rbind (json_index profile ''priceZones'') json_to_list) (\<lambda>zs.
     rbind (zone_values_of zs) (\<lambda>zone_values.
     rbind (zone_case profile ''price'') (\<lambda>price_sql.
     rbind (rbind (json_index profile ''events'') json_to_int) (\<lambda>evs.
     Inr (join_with [nl]
       [script_scope, script_rows g evs sh zone_sql price_sql zone_values,
        script_auth (join_with [nl] (map copy_line cs)) idle absolute, script_checks sh])))))))"

section \<open>Commands\<close>

definition perf_compose :: "string \<Rightarrow> string list \<Rightarrow> string list" where
  "perf_compose rt arguments =
     [''docker'', ''compose'', ''-p'', ''ticketing-phase10a'', ''-f'',
      rt @ ''/performance/docker-compose.performance.yml''] @ arguments"

definition psql_arguments :: "string list" where
  "psql_arguments = [''exec'', ''-T'', ''postgres'', ''psql'', ''-U'', ''ticketing'', ''-d'',
     ''ticketing'', ''-v'', ''ON_ERROR_STOP=1'', ''-At'', ''-F'', [tab]]"

definition run_psql :: "string \<Rightarrow> ('s, string) io" where
  "run_psql sql =
     bnd (asks w_root) (\<lambda>rt.
     bnd (run_proc (perf_compose rt psql_arguments) (Some sql) []) (\<lambda>completed.
     if p_rc completed \<noteq> 0
     then raise (Exn DatasetError
       (str_or (py_strip (p_err completed)) (py_strip (p_out completed))))
     else ret (py_strip (p_out completed))))"

definition git_head :: "('s, string) io" where
  "git_head =
     bnd (run_proc [''git'', ''rev-parse'', ''HEAD''] None []) (\<lambda>completed.
     if p_rc completed \<noteq> 0
     then raise (Exn DatasetError (str_or (py_strip (p_err completed)) ''cannot read Git HEAD''))
     else ret (py_strip (p_out completed)))"

text \<open>
  The lines \<open>name<tab>number\<close> that psql prints, as a dictionary: a line without a tab and a
  text that is no integer raise ValueError.
\<close>

definition parse_count_line :: "(string \<times> int) list \<Rightarrow> string \<Rightarrow> (string \<times> int) list res" where
  "parse_count_line d line = (case split_max 1 tab line of
      [name, cnt] \<Rightarrow> rbind (py_int cnt) (\<lambda>n. Inr (dset d name n))
    | _ \<Rightarrow> Inl (Exn ValueError ''not enough values to unpack''))"

definition parse_counts :: "string \<Rightarrow> (string \<times> int) list res" where
  "parse_counts out = fold_res parse_count_line [] (splitlines out)"

definition storage_sql :: string where
  "storage_sql = join_with [nl] [ [],
     ''SELECT 'database', pg_database_size(current_database())'',
     ''UNION ALL SELECT 'table:app_users', pg_total_relation_size('app_users')'',
     ''UNION ALL SELECT 'table:user_sessions', pg_total_relation_size('user_sessions')'',
     ''UNION ALL SELECT 'table:session_seats', pg_total_relation_size('session_seats')'',
     ''UNION ALL'',
     ''SELECT 'index:' || indexrelid::regclass::text, pg_relation_size(indexrelid)'',
     ''FROM pg_stat_user_indexes'',
     ''WHERE relname IN ('app_users', 'user_sessions', 'session_seats')'',
     ''ORDER BY 1;'',
     []]"

definition collect_storage_sizes :: "('s, json) io" where
  "collect_storage_sizes =
     bnd (run_psql storage_sql) (\<lambda>rows.
     bnd (of_res (parse_counts rows)) (\<lambda>values.
     bnd (of_res (dindex values ''database'')) (\<lambda>db.
     ret (JObj [(''databaseBytes'', JInt db),
       (''relationBytes'', JObj (map (\<lambda>(k, v). (k, JInt v)) (AList.delete ''database'' values)))]))))"

section \<open>The manifest\<close>

definition low_conflict_ids :: "int \<Rightarrow> int \<Rightarrow> string list res" where
  "low_conflict_ids per_event sessions =
     map_res (\<lambda>ordinal. performance_id ''session''
       [ordinal div per_event + 1, ordinal mod per_event + 1]) [0..min 4 sessions - 1]"

definition build_dataset_manifest ::
    "json \<Rightarrow> dataset_shape \<Rightarrow> string \<Rightarrow> rat \<Rightarrow> (string \<times> int) list \<Rightarrow> json \<Rightarrow> ('s, dict) io" where
  "build_dataset_manifest profile sh profile_hash seconds estimate storage =
     bnd (of_res (rbind (json_index profile ''sessionsPerEvent'') json_to_int)) (\<lambda>per_event.
     bnd (of_res (low_conflict_ids per_event (sh_sessions sh))) (\<lambda>low_conflict.
     bnd (of_res (json_index profile ''name'')) (\<lambda>name.
     bnd git_head (\<lambda>head.
     bnd wall (\<lambda>now.
     bnd (asks (\<lambda>w. w_iso w now)) (\<lambda>generated_at.
     bnd (of_res (performance_id ''event'' [1])) (\<lambda>ev.
     bnd (of_res (performance_id ''session'' [1, 1])) (\<lambda>ses.
     bnd (of_res (performance_id ''session-seat'' [1, 1, 1])) (\<lambda>seat.
     bnd (of_res (dindex estimate ''databaseRows'')) (\<lambda>est_rows.
     bnd (of_res (dindex estimate ''generatedFileBytes'')) (\<lambda>est_bytes.
     ret [(''version'', JInt 1), (''profile'', name), (''profileSha256'', JStr profile_hash),
       (''gitHead'', JStr head), (''generatedAt'', JStr generated_at),
       (''scope'', JObj [(''prefix'', JStr ''perf-'')]),
       (''counts'', JObj
         [(''users'', JInt (sh_registered_users sh)),
          (''registeredUsers'', JInt (sh_registered_users sh)),
          (''activeAuthSessions'', JInt (sh_active_auth_sessions sh)),
          (''events'', JInt (sh_events sh)), (''sessions'', JInt (sh_sessions sh)),
          (''physicalSeats'', JInt (sh_seats sh)), (''sessionSeats'', JInt (sh_session_seats sh))]),
       (''publicReadEventId'', JStr ev), (''seatMapSessionId'', JStr ses),
       (''hotSessionId'', JStr ses), (''hotSessionSeatId'', JStr seat),
       (''lowConflictSessionIds'', JList (map JStr low_conflict)),
       (''generation'', JObj
         [(''seconds'', JFloat (py_round 3 seconds)), (''estimatedDatabaseRows'', JInt est_rows),
          (''estimatedGeneratedFileBytes'', JInt est_bytes)]),
       (''storage'', storage)])))))))))))"

section \<open>Validation of the generated database\<close>

definition checks_sql :: "string list \<Rightarrow> string \<Rightarrow> credential \<Rightarrow> string" where
  "checks_sql targets hot first =
     (let target_sql = join_with '', '' (map sql_literal targets) in join_with [nl] [ [],
     ''SELECT 'users', count(*) FROM app_users WHERE id LIKE 'perf-user-%'' @ [quot],
     ''UNION ALL SELECT 'user_sessions', count(*) FROM user_sessions WHERE id LIKE 'perf-auth-%'' @
       [quot],
     ''UNION ALL SELECT 'events', count(*) FROM events WHERE id LIKE 'perf-event-%'' @ [quot],
     ''UNION ALL SELECT 'sessions', count(*) FROM sessions WHERE id LIKE 'perf-session-%'' @
       [quot],
     ''UNION ALL SELECT 'seats', count(*) FROM seats WHERE id LIKE 'perf-seat-%'' @ [quot],
     ''UNION ALL SELECT 'session_seats', count(*) FROM session_seats WHERE id LIKE 'perf-ss-%'' @
       [quot],
     ''UNION ALL SELECT 'available_session_seats', count(*) FROM session_seats WHERE id LIKE 'perf-ss-%' AND status = 'AVAILABLE'' @
       [quot],
     ''UNION ALL SELECT 'seat_pointers', count(*) FROM session_seats WHERE id LIKE 'perf-ss-%' AND current_reservation_id IS NOT NULL'',
     ''UNION ALL SELECT 'reservations', count(*) FROM reservations WHERE id LIKE 'perf-reservation-%' OR user_id LIKE 'perf-user-%'' @
       [quot],
     ''UNION ALL SELECT 'checkouts', count(*) FROM checkout_sessions WHERE id LIKE 'perf-checkout-%' OR user_id LIKE 'perf-user-%'' @
       [quot],
     ''UNION ALL SELECT 'orders', count(*) FROM orders WHERE id LIKE 'perf-order-%' OR user_id LIKE 'perf-user-%'' @
       [quot],
     ''UNION ALL SELECT 'attempts', count(*) FROM payment_attempts WHERE order_id LIKE 'perf-order-%'' @
       [quot],
     ''UNION ALL SELECT 'refunds', count(*) FROM refunds WHERE order_id LIKE 'perf-order-%'' @
       [quot],
     ''UNION ALL SELECT 'notifications', count(*) FROM user_notifications WHERE user_id LIKE 'perf-user-%'' @
       [quot],
     ''UNION ALL SELECT 'hot_target', count(*) FROM session_seats WHERE id = '' @ sql_literal hot,
     ''UNION ALL SELECT 'low_conflict_targets', count(*) FROM sessions WHERE id IN ('' @
       target_sql @ '')'',
     ''UNION ALL SELECT 'token_hash', count(*) FROM user_sessions WHERE id = '' @
       sql_literal (cr_auth_session_id first) @ '' AND token_hash = '' @
       sql_literal (cr_token_hash first) @ '';'',
     []])"

definition expected_counts :: "dataset_shape \<Rightarrow> string list \<Rightarrow> (string \<times> int) list" where
  "expected_counts sh targets =
     [(''users'', sh_registered_users sh), (''user_sessions'', sh_active_auth_sessions sh),
      (''events'', sh_events sh), (''sessions'', sh_sessions sh), (''seats'', sh_seats sh),
      (''session_seats'', sh_session_seats sh),
      (''available_session_seats'', sh_session_seats sh), (''seat_pointers'', 0),
      (''reservations'', 0), (''checkouts'', 0), (''orders'', 0), (''attempts'', 0),
      (''refunds'', 0), (''notifications'', 0), (''hot_target'', 1),
      (''low_conflict_targets'', int (length targets)), (''token_hash'', 1)]"

definition count_differences :: "(string \<times> int) list \<Rightarrow> (string \<times> int) list \<Rightarrow> (string \<times> int option \<times> int) list" where
  "count_differences parsed expected =
     map (\<lambda>(name, v). (name, dget parsed name, v)) (filter (\<lambda>(name, v). dget parsed name \<noteq> Some v) expected)"

definition validate_database :: "dataset_shape \<Rightarrow> dict \<Rightarrow> credential list \<Rightarrow> ('s, unit) io" where
  "validate_database sh manifest cs =
     (case cs of
        [] \<Rightarrow> raise (Exn IndexError ''list index out of range'')
      | first # rest \<Rightarrow>
          bnd (of_res (rbind (dindex manifest ''lowConflictSessionIds'') (\<lambda>v.
            rbind (json_to_list v) (map_res json_to_str)))) (\<lambda>targets.
          bnd (of_res (rbind (dindex manifest ''hotSessionSeatId'') json_to_str)) (\<lambda>hot.
          bnd (run_psql (checks_sql targets hot first)) (\<lambda>out.
          bnd (of_res (parse_counts out)) (\<lambda>parsed.
          raise_if (count_differences parsed (expected_counts sh targets) \<noteq> []) DatasetError
            ''dataset validation failed'')))))"

section \<open>The seat pool\<close>

definition add_seat_line ::
    "(string \<times> string) list \<Rightarrow> string \<Rightarrow> (string \<times> string) list res" where
  "add_seat_line pool line =
     (if py_strip line = [] then Inr pool
      else case split_on tab line of
        [ses, seat, status, owner_is_null] \<Rightarrow>
          if (ses, seat) \<in> set pool then Inl (Exn DatasetError ''duplicate workload seat'')
          else if \<not> startswith ses ''perf-session-'' \<or> \<not> startswith seat ''perf-ss-''
          then Inl (Exn DatasetError ''workload seat is outside Performance scope'')
          else if status \<noteq> ''AVAILABLE'' \<or> owner_is_null \<noteq> ''t''
          then Inl (Exn DatasetError ''workload seat is not initially available'')
          else Inr (pool @ [(ses, seat)])
      | _ \<Rightarrow> Inl (Exn DatasetError ''workload seat query returned an invalid row''))"

definition build_workload_seats :: "string \<Rightarrow> dataset_shape \<Rightarrow> (string \<times> string) list res" where
  "build_workload_seats database_rows sh =
     rbind (fold_res add_seat_line [] (splitlines database_rows)) (\<lambda>pool.
     rbind (require (int (length pool) = sh_session_seats sh) DatasetError
       (''workload seat count '' @ int_str (int (length pool)) @ '', expected ''
        @ int_str (sh_session_seats sh))) (\<lambda>_.
     rbind (require (pool = sort_key (\<lambda>item. (fst item, snd item)) pool) DatasetError
       ''workload seats are not deterministically sorted'') (\<lambda>_.
     Inr pool)))"

definition workload_seats_sql :: string where
  "workload_seats_sql = join_with [nl] [ [],
     ''SELECT session_id, id, status, current_reservation_id IS NULL'',
     ''FROM session_seats'',
     ''WHERE id LIKE 'perf-ss-%'' @ [quot],
     ''ORDER BY session_id, id;'',
     []]"

definition load_workload_seats :: "dataset_shape \<Rightarrow> ('s, (string \<times> string) list) io" where
  "load_workload_seats sh =
     bnd (run_psql workload_seats_sql) (\<lambda>rows. of_res (build_workload_seats rows sh))"

definition seat_json :: "string \<times> string \<Rightarrow> json" where
  "seat_json p = JObj [(''sessionId'', JStr (fst p)), (''sessionSeatId'', JStr (snd p))]"

section \<open>Files and the smoke test\<close>

definition write_json_atomic :: "string \<Rightarrow> json \<Rightarrow> ('s, unit) io" where
  "write_json_atomic path payload =
     sq (mkdir (path_parent path))
     (bnd (temp_name (path_parent path)) (\<lambda>temporary.
      sq (write_json_text temporary payload) (rename_file temporary path)))"

definition auth_me_smoke :: "string \<Rightarrow> credential \<Rightarrow> ('s, unit) io" where
  "auth_me_smoke backend_url c =
     bnd (try_except (caught_by [OSError, URLError])
       (send \<lparr>hr_method = ''GET'', hr_url = py_rstrip CHR ''/'' backend_url @ ''/auth/me'',
         hr_headers = [(''Cookie'', ''ticketing_session='' @ cr_session_token c)],
         hr_body = None, hr_timeout = 10\<rparr>)
       (\<lambda>e. raise (Exn DatasetError (''offline session /auth/me failed: '' @ exn_msg e)))) (\<lambda>r.
     case r of
       HttpError code text \<Rightarrow> raise (Exn DatasetError
         (''offline session /auth/me returned HTTP '' @ int_str code @ '': '' @ take 300 text))
     | Response status body \<Rightarrow>
         bnd (loads body) (\<lambda>payload.
         bnd (of_res (json_get payload ''id'' JNull)) (\<lambda>actual.
         if status \<noteq> 200 \<or> actual \<noteq> JStr (cr_user_id c)
         then raise (Exn DatasetError (''offline session /auth/me mismatch: HTTP ''
           @ int_str status @ '', body='' @ take 300 body))
         else say (''[PASS] offline session /auth/me: HTTP '' @ int_str status @ '', userId=''
           @ cr_user_id c))))"

definition file_sha256 :: "string \<Rightarrow> ('s, string) io" where
  "file_sha256 path = bnd (read_text path) (\<lambda>t. asks (\<lambda>w. w_sha256 w t))"


section \<open>Generating into the database: main\<close>

record dataset_args =
  da_profile :: string
  da_backend_url :: string
  da_skip_auth_check :: bool

definition default_dataset_args :: dataset_args where
  "default_dataset_args = \<lparr>da_profile = ''smoke'', da_backend_url = ''http://127.0.0.1:18080'',
     da_skip_auth_check = False\<rparr>"

definition generating_line :: "string \<Rightarrow> dataset_shape \<Rightarrow> (string \<times> int) list \<Rightarrow> string" where
  "generating_line name sh estimate =
     ''Generating profile='' @ name
     @ '' registered_users='' @ int_str (sh_registered_users sh)
     @ '' active_auth_sessions='' @ int_str (sh_active_auth_sessions sh)
     @ '' events='' @ int_str (sh_events sh) @ '' sessions='' @ int_str (sh_sessions sh)
     @ '' seats='' @ int_str (sh_seats sh) @ '' session_seats='' @ int_str (sh_session_seats sh)
     @ ''; estimated_rows='' @ int_str (dget_or estimate ''databaseRows'' 0)
     @ '' estimated_generated_bytes='' @ int_str (dget_or estimate ''generatedFileBytes'' 0)"

definition write_generated_files ::
    "string \<Rightarrow> dict \<Rightarrow> credential list \<Rightarrow> (string \<times> string) list \<Rightarrow> ('s, unit) io" where
  "write_generated_files gen manifest cs seats =
     sq (write_json_atomic (gen @ ''/sessions.json'') (JList (public_sessions cs)))
     (sq (write_json_atomic (gen @ ''/workload-users.json'') (JList (workload_users cs)))
     (sq (write_json_atomic (gen @ ''/workload-seats.json'') (JList (map seat_json seats)))
     (bnd (map_io (\<lambda>name. bnd (file_size (gen @ ''/'' @ name)) (\<lambda>n. ret (name, n)))
       [''sessions.json'', ''workload-users.json'', ''workload-seats.json'']) (\<lambda>sizes.
      bnd (of_res (rbind (dindex manifest ''generation'') json_to_dict)) (\<lambda>generation.
      write_json_atomic (gen @ ''/dataset.json'') (JObj (dset manifest ''generation''
        (JObj (dset (dset generation ''generatedFileBytes''
            (JObj (map (\<lambda>(k, n). (k, JInt n)) sizes)))
          ''generatedFilesTotalBytes'' (JInt (sum_list (map snd sizes))))))))))))"

definition generate_dataset :: "dataset_args \<Rightarrow> ('s, unit) io" where
  "generate_dataset args =
     bnd (asks w_root) (\<lambda>rt.
     bnd (load_profile (da_profile args)) (\<lambda>(profile, path).
     bnd (of_res (json_get profile ''phase14'' JNull)) (\<lambda>guarded.
     sq (raise_if (truthy guarded) DatasetError
       ''Phase14 generation requires the guarded run_phase14.py entry point'')
     (bnd (of_res (validate_profile profile)) (\<lambda>sh.
      let estimate = estimate_generation sh; gen = rt @ ''/performance/generated'' in
      bnd (load_auth_timeouts (rt @ ''/backend/config/config.performance.json'')) (\<lambda>(idle, absolute).
      bnd (generate_session_credentials (sh_active_auth_sessions sh)) (\<lambda>cs.
      bnd (of_res (generation_script profile sh cs idle absolute)) (\<lambda>sql.
      bnd (of_res (rbind (json_index profile ''name'') json_to_str)) (\<lambda>name.
      sq (say (generating_line name sh estimate))
      (bnd clock (\<lambda>started.
       bnd (run_psql sql) (\<lambda>_.
       bnd clock (\<lambda>ended.
       bnd collect_storage_sizes (\<lambda>storage.
       bnd (asks (\<lambda>w. profile_sha256 w profile)) (\<lambda>hash.
       bnd (build_dataset_manifest profile sh hash (fl64 (ended - started)) estimate storage) (\<lambda>manifest.
       sq (validate_database sh manifest cs)
       (bnd (load_workload_seats sh) (\<lambda>seats.
        sq (raise_if (int (length (public_sessions cs)) \<noteq> sh_active_auth_sessions sh)
             DatasetError ''session manifest count mismatch'')
        (sq (write_generated_files gen manifest cs seats)
        (sq (if da_skip_auth_check args then ret ()
             else case cs of
               [] \<Rightarrow> raise (Exn IndexError ''list index out of range'')
             | c # _ \<Rightarrow> auth_me_smoke (da_backend_url args) c)
        (say (''[PASS] dataset '' @ name @ '' generated from '' @ path @ ''; manifests='' @ gen)))
        )))))))))))))))))))"

definition dataset_main :: "dataset_args \<Rightarrow> ('s, int) io" where
  "dataset_main args =
     try_except (caught_by [DatasetError, ValueError, JSONDecodeError])
       (sq (generate_dataset args) (ret 0))
       (\<lambda>e. sq (say_err (''[FAIL] '' @ exn_msg e)) (ret 1))"

section \<open>Generating into files: export\_phase14\<close>

text \<open>
  The authentication times of the template are replaced by times that depend on the number of
  the session.
\<close>

definition copy_marker :: string where
  "copy_marker = ''COPY perf_auth_input (id, user_id, token_hash) FROM STDIN;'' @ [nl]"

definition old_times :: "int \<Rightarrow> int \<Rightarrow> string" where
  "old_times idle absolute = join_with [nl]
     [''       clock_timestamp(),'',
      ''       clock_timestamp(),'',
      ''       clock_timestamp() + make_interval(secs => '' @ int_str idle @ ''),'',
      ''       clock_timestamp() + make_interval(secs => '' @ int_str absolute @ ''),'']"

definition age_sql :: "json \<Rightarrow> int \<Rightarrow> string" where
  "age_sql sd interval = ''((substring(id from '[0-9]+$')::bigint - 1 + ''
     @ (case sd of JInt i \<Rightarrow> int_str i | JStr s \<Rightarrow> s | _ \<Rightarrow> []) @ '') % '' @ int_str interval @ '')::int''"

definition new_times :: "json \<Rightarrow> int \<Rightarrow> int \<Rightarrow> int \<Rightarrow> string" where
  "new_times sd idle absolute interval = (let age = age_sql sd interval in join_with [nl]
     [''       transaction_timestamp() - make_interval(secs => '' @ int_str interval @ ''),'',
      ''       transaction_timestamp() - make_interval(secs => '' @ age @ ''),'',
      ''       transaction_timestamp() + make_interval(secs => '' @ int_str idle @ '' - '' @ age @ ''),'',
      ''       transaction_timestamp() + make_interval(secs => '' @ int_str absolute @ '' - ''
        @ int_str interval @ ''),''])"

text \<open>The prefix before the COPY data and the rewritten suffix after it.\<close>

definition split_template :: "string \<Rightarrow> json \<Rightarrow> int \<Rightarrow> int \<Rightarrow> int \<Rightarrow> (string \<times> string) res" where
  "split_template template sd idle absolute interval =
     (case split_once copy_marker template of
        None \<Rightarrow> Inl (Exn ValueError ''not enough values to unpack'')
      | Some (before, tail) \<Rightarrow>
          (case split_once [CHR 0x5C, CHR ''.''] tail of
             None \<Rightarrow> Inl (Exn ValueError ''substring not found'')
           | Some (_, after) \<Rightarrow>
               if \<not> contains after (old_times idle absolute)
               then Inl (Exn DatasetError ''SQL auth template contract changed'')
               else Inr (before, py_replace (old_times idle absolute)
                 (new_times sd idle absolute interval) after)))"

definition export_profile :: "json \<Rightarrow> json \<Rightarrow> json res" where
  "export_profile profile d =
     rbind (json_index d ''registeredUsers'') (\<lambda>ru.
     rbind (json_index d ''activeAuthSessions'') (\<lambda>aa.
     rbind (json_index d ''events'') (\<lambda>ev.
     rbind (json_index d ''sessionsPerEvent'') (\<lambda>spe.
     rbind (json_update profile [(''registeredUsers'', ru), (''activeAuthSessions'', aa),
       (''events'', ev), (''sessionsPerEvent'', spe)]) (\<lambda>p1.
     rbind (json_index d ''seatsPerSession'') (\<lambda>sps.
     rbind (json_floordiv sps 50) (\<lambda>rows.
     json_update p1 [(''seatLayout'', JObj [(''rows'', rows), (''seatsPerRow'', JInt 50)]),
       (''priceZones'', standard_zone rows)])))))))"

definition exported_credential :: "int \<Rightarrow> ('s, credential) io" where
  "exported_credential index =
     bnd (generate_session_credentials 1) (\<lambda>items.
     case items of
       [] \<Rightarrow> raise (Exn IndexError ''list index out of range'')
     | item # _ \<Rightarrow>
         bnd (of_res (performance_id ''user'' [index + 1])) (\<lambda>uid.
         bnd (of_res (performance_id ''auth'' [index + 1])) (\<lambda>aid.
         ret (item\<lparr>cr_user_id := uid, cr_username := uid, cr_auth_session_id := aid\<rparr>))))"

text \<open>Consecutive seats of the pool belong to different sessions.\<close>

definition exported_seat :: "int \<Rightarrow> int \<Rightarrow> int \<Rightarrow> (string \<times> string) res" where
  "exported_seat sessions per_event i =
     (let ses = i mod sessions; number = i div sessions + 1;
          e = ses div per_event + 1; s = ses mod per_event + 1
      in rbind (performance_id ''session'' [e, s]) (\<lambda>a.
         rbind (performance_id ''session-seat'' [e, s, number]) (\<lambda>b. Inr (a, b))))"

definition json_array_text :: "string list \<Rightarrow> string" where
  "json_array_text items = ''['' @ join_with ('','' @ [nl]) items @ '']'' @ [nl]"

definition hashed_file :: "string \<Rightarrow> string \<Rightarrow> ('s, string \<times> json) io" where
  "hashed_file out name =
     bnd (file_size (out @ ''/'' @ name)) (\<lambda>n.
     bnd (file_sha256 (out @ ''/'' @ name)) (\<lambda>h.
     ret (name, JObj [(''bytes'', JInt n), (''sha256'', JStr h)])))"

definition write_exported_files ::
    "string \<Rightarrow> dataset_shape \<Rightarrow> json \<Rightarrow> int \<Rightarrow> string \<times> string \<Rightarrow> ('s, unit) io" where
  "write_exported_files out sh slices per_event ps =
     bnd (asks w_float_repr) (\<lambda>fr.
     bnd (map_io exported_credential [0..sh_active_auth_sessions sh - 1]) (\<lambda>items.
     sq (write_text (out @ ''/dataset.sql'') (fst ps @ copy_marker
       @ concat (map (\<lambda>c. copy_line c @ [nl]) items) @ [CHR 0x5C] @ ''.'' @ [nl] @ snd ps))
     (sq (write_text (out @ ''/sessions.json'')
       (json_array_text (map (dump_text '','' '':'' fr) (public_sessions items))))
     (bnd (of_res (rbind (json_index slices ''login'') (\<lambda>v. rbind (json_to_list v) (map_res json_to_int)))) (\<lambda>login.
      bnd (case login of [lo, hi] \<Rightarrow> ret [lo..hi - 1]
           | _ \<Rightarrow> raise (Exn TypeError ''range expected two bounds'')) (\<lambda>indices.
      bnd (of_res (map_res (\<lambda>i. performance_id ''user'' [i + 1]) indices)) (\<lambda>uids.
      sq (write_text (out @ ''/workload-users.json'') (json_array_text (map (\<lambda>uid.
        dump_text '', '' '': '' fr (JObj [(''userId'', JStr uid), (''username'', JStr uid)])) uids)))
      (bnd (of_res (map_res (exported_seat (sh_sessions sh) per_event) [0..sh_session_seats sh - 1])) (\<lambda>seats.
       write_text (out @ ''/workload-seats.json'')
         (json_array_text (map (\<lambda>p. dump_text '', '' '': '' fr (seat_json p)) seats)))))))))))"

definition export_phase14 :: "string \<Rightarrow> json \<Rightarrow> string \<Rightarrow> ('s, json) io" where
  "export_phase14 out targets auth_config =
     bnd clock (\<lambda>started.
     bnd (load_profile ''phase14-1m-users-100k-auth'') (\<lambda>(profile0, _).
     bnd (of_res (json_index targets ''dataset'')) (\<lambda>d.
     bnd (of_res (export_profile profile0 d)) (\<lambda>profile.
     bnd (of_res (validate_profile profile)) (\<lambda>sh.
     bnd (load_auth_spread auth_config) (\<lambda>(idle, absolute, interval).
     sq (mkdir out)
     (bnd (of_res (rbind (json_at targets [''generator'', ''diskSafetyFactor'']) json_to_num)) (\<lambda>factor.
      let estimate = num_mul (PInt (dget_or (estimate_generation sh) ''generatedFileBytes'' 0)) factor in
      bnd (disk_free out) (\<lambda>free.
      sq (raise_if (of_int free < num_rat estimate) DatasetError ''insufficient disk before generation'')
      (bnd (list_dir out) (\<lambda>present.
       sq (raise_if (present \<noteq> []) DatasetError ''generation output must be empty'')
       (bnd (of_res (generation_script profile sh [] idle absolute)) (\<lambda>template.
        bnd (of_res (json_index targets ''seed'')) (\<lambda>sd.
        bnd (of_res (split_template template sd idle absolute interval)) (\<lambda>ps.
        bnd (of_res (json_index targets ''slices'')) (\<lambda>slices.
        bnd (of_res (rbind (json_index profile ''sessionsPerEvent'') json_to_int)) (\<lambda>per_event.
        sq (write_exported_files out sh slices per_event ps)
        (bnd (measure_of ''tracemalloc peak'') (\<lambda>peak.
         bnd (list_dir out) (\<lambda>names.
         bnd (map_io (hashed_file out) (sort names)) (\<lambda>files.
         bnd (of_res (json_index targets ''mode'')) (\<lambda>mode.
         bnd (of_res (json_index profile ''name'')) (\<lambda>name.
         bnd (asks (\<lambda>w. profile_sha256 w profile)) (\<lambda>profile_hash.
         bnd (of_res (json_index targets ''sourceSha256'')) (\<lambda>targets_hash.
         bnd (file_sha256 auth_config) (\<lambda>auth_hash.
         bnd (bnd (asks w_root) (\<lambda>rt. file_sha256 (rt @ ''/performance/data/generate_dataset.py''))) (\<lambda>gen_hash.
         bnd git_head (\<lambda>head.
         bnd (of_res (json_index targets ''seatSlices'')) (\<lambda>seat_slices.
         bnd clock (\<lambda>ended.
         let manifest = JObj [(''version'', JInt 1), (''mode'', mode), (''profile'', name),
           (''profileSha256'', JStr profile_hash), (''targetsSha256'', targets_hash),
           (''authConfigSha256'', JStr auth_hash), (''generatorSha256'', JStr gen_hash),
           (''gitHead'', JStr head), (''counts'', d), (''slices'', slices),
           (''seatSlices'', seat_slices), (''lastSeenIntervalSeconds'', JInt interval),
           (''files'', JObj files), (''generation'', JObj
             [(''seconds'', JFloat (fl64 (ended - started))),
              (''pythonPeakAllocatedBytes'', JInt \<lfloor>peak\<rfloor>),
              (''estimatedBytes'', num_json estimate)])]
         in sq (write_json_atomic (out @ ''/dataset-manifest.json'') manifest)
              (ret manifest)))))))))))))))))))))))))))))))"


section \<open>The seat pool of the export\<close>

definition seat_triple :: "int \<Rightarrow> int \<Rightarrow> int \<Rightarrow> int \<times> int \<times> int" where
  "seat_triple sessions per_event i =
     ((i mod sessions) div per_event + 1, (i mod sessions) mod per_event + 1, i div sessions + 1)"

lemma exported_seat_triple:
  "exported_seat sessions per_event i = (case seat_triple sessions per_event i of (e, s, n) \<Rightarrow>
     Inr (session_id e s, session_seat_id e s n))"
  by (simp add: exported_seat_def seat_triple_def Let_def)

lemma map_res_Inr_map: "(\<And>x. x \<in> set xs \<Longrightarrow> f x = Inr (g x)) \<Longrightarrow> map_res f xs = Inr (map g xs)"
  by (induction xs) auto

lemma seat_triple_inj: "seat_triple sessions per_event i = seat_triple sessions per_event j \<Longrightarrow> i = j"
proof -
  assume eq: "seat_triple sessions per_event i = seat_triple sessions per_event j"
  then have "i mod sessions = j mod sessions"
    unfolding seat_triple_def by (metis Pair_inject add_right_cancel div_mult_mod_eq)
  moreover have "i div sessions = j div sessions" using eq by (simp add: seat_triple_def)
  ultimately show "i = j" by (metis div_mult_mod_eq)
qed

lemma seat_triple_range:
  assumes "0 < evs" "0 < per" "0 \<le> seats"
  shows "seat_triple (evs * per) per ` {0..<evs * per * seats} = {1..evs} \<times> {1..per} \<times> {1..seats}"
proof (intro set_eqI iffI)
  fix t assume "t \<in> seat_triple (evs * per) per ` {0..<evs * per * seats}"
  then obtain i where i: "0 \<le> i" "i < evs * per * seats" and t: "t = seat_triple (evs * per) per i"
    by auto
  have pos: "0 < evs * per" using assms by simp
  have "0 \<le> i mod (evs * per)" "i mod (evs * per) < per * evs"
    using pos by (simp_all add: mult.commute)
  then have "0 \<le> i mod (evs * per) div per" "i mod (evs * per) div per < evs"
    using assms by (simp_all add: pos_imp_zdiv_nonneg_iff int_div_less)
  moreover have "0 \<le> i div (evs * per)" "i div (evs * per) < seats"
    using pos i by (simp_all add: pos_imp_zdiv_nonneg_iff int_div_less)
  moreover have "0 \<le> i mod (evs * per) mod per" "i mod (evs * per) mod per < per" using assms by simp_all
  ultimately show "t \<in> {1..evs} \<times> {1..per} \<times> {1..seats}" using t by (simp add: seat_triple_def)
next
  fix t assume "t \<in> {1..evs} \<times> {1..per} \<times> {1..seats}"
  then obtain e s n where t: "t = (e, s, n)" "1 \<le> e" "e \<le> evs" "1 \<le> s" "s \<le> per" "1 \<le> n" "n \<le> seats"
    by auto
  define k where "k = (e - 1) * per + (s - 1)"
  have k1: "k div per = e - 1" "k mod per = s - 1"
    using t by (simp_all add: k_def div_add1_eq div_pos_pos_trivial mod_pos_pos_trivial)
  have "(e - 1) * per \<le> (evs - 1) * per" "0 \<le> (e - 1) * per"
    using t assms by (auto intro: mult_right_mono)
  moreover have "(evs - 1) * per = evs * per - per" by (simp add: algebra_simps)
  ultimately have k: "0 \<le> k" "k < evs * per" using t unfolding k_def by linarith+
  define i where "i = (n - 1) * (evs * per) + k"
  have "(n - 1) * (evs * per) \<le> (seats - 1) * (evs * per)" "0 \<le> (n - 1) * (evs * per)"
    using t assms by (auto intro: mult_right_mono)
  moreover have "(seats - 1) * (evs * per) = evs * per * seats - evs * per"
    by (simp add: algebra_simps)
  ultimately have "0 \<le> i" "i < evs * per * seats" using k unfolding i_def by linarith+
  moreover have "i mod (evs * per) = k" "i div (evs * per) = n - 1"
    using k assms by (simp_all add: i_def mod_pos_pos_trivial div_pos_pos_trivial div_add1_eq)
  then have "seat_triple (evs * per) per i = t" using k1 t by (simp add: seat_triple_def)
  ultimately show "t \<in> seat_triple (evs * per) per ` {0..<evs * per * seats}"
    by (intro image_eqI [of _ _ i]) auto
qed

definition pool_entry :: "int \<times> int \<times> int \<Rightarrow> string \<times> string" where
  "pool_entry t = (case t of (e, s, n) \<Rightarrow> (session_id e s, session_seat_id e s n))"

lemma exported_pool:
  assumes "0 < evs" "0 < per" "0 \<le> seats"
  obtains pool where "map_res (exported_seat (evs * per) per) [0..evs * per * seats - 1] = Inr pool"
    and "distinct pool" and "set pool = pool_entry ` ({1..evs} \<times> {1..per} \<times> {1..seats})"
proof
  let ?f = "\<lambda>i. pool_entry (seat_triple (evs * per) per i)"
  show "map_res (exported_seat (evs * per) per) [0..evs * per * seats - 1]
      = Inr (map ?f [0..evs * per * seats - 1])"
    by (rule map_res_Inr_map) (simp only: exported_seat_triple pool_entry_def split: prod.split, simp)
  have rng: "seat_triple (evs * per) per ` set [0..evs * per * seats - 1] = {1..evs} \<times> {1..per} \<times> {1..seats}"
    using seat_triple_range [OF assms] by (simp add: atLeastLessThanPlusOne_atLeastAtMost_int [symmetric])
  then show "set (map ?f [0..evs * per * seats - 1]) = pool_entry ` ({1..evs} \<times> {1..per} \<times> {1..seats})"
    by (simp only: set_map image_image [symmetric])
  have inj: "inj_on pool_entry ({1..evs} \<times> {1..per} \<times> {1..seats})"
  proof (rule inj_onI)
    fix x y assume xy: "x \<in> {1..evs} \<times> {1..per} \<times> {1..seats}" "y \<in> {1..evs} \<times> {1..per} \<times> {1..seats}"
      "pool_entry x = pool_entry y"
    obtain e s i e' s' i' where "x = (e, s, i)" "y = (e', s', i')" by (metis prod_cases3)
    with xy session_seat_id_inj [of e s i e' s' i'] show "x = y" by (auto simp: pool_entry_def)
  qed
  have "inj_on (pool_entry \<circ> seat_triple (evs * per) per) (set [0..evs * per * seats - 1])"
    by (rule comp_inj_on) (use inj rng in \<open>auto intro: inj_onI dest: seat_triple_inj\<close>)
  then show "distinct (map ?f [0..evs * per * seats - 1])"
    by (simp add: distinct_map comp_def)
qed

text \<open>Neighbours in the pool belong to different sessions.\<close>

lemma exported_sessions_spread:
  assumes "i < j" "j < i + sessions"
  shows "(let (e, s, n) = seat_triple sessions per i in (e, s))
       \<noteq> (let (e, s, n) = seat_triple sessions per j in (e, s))"
proof -
  have ne: "i mod sessions \<noteq> j mod sessions"
  proof
    assume "i mod sessions = j mod sessions"
    then have "sessions dvd j - i" by (metis mod_eq_dvd_iff)
    with assms show False by (auto dest: zdvd_imp_le)
  qed
  then show "(let (e, s, n) = seat_triple sessions per i in (e, s))
       \<noteq> (let (e, s, n) = seat_triple sessions per j in (e, s))"
    by (simp add: seat_triple_def) (metis div_mult_mod_eq)
qed


section \<open>The validation accepts what the generation produces\<close>

text \<open>What the statement \<open>checks_sql\<close> counts in a database.\<close>

definition count_rows :: "('r \<Rightarrow> bool) \<Rightarrow> 'r list \<Rightarrow> int" where
  "count_rows P rows = int (length (filter P rows))"

definition checks_of :: "db \<Rightarrow> string list \<Rightarrow> string \<Rightarrow> credential \<Rightarrow> (string \<times> int) list" where
  "checks_of d targets hot c =
     [(''users'', count_rows (\<lambda>u. startswith (us_id u) ''perf-user-'') (t_users d)),
      (''user_sessions'', count_rows (\<lambda>l. startswith (lg_id l) ''perf-auth-'') (t_logins d)),
      (''events'', count_rows (\<lambda>e. startswith (ev_id e) ''perf-event-'') (t_events d)),
      (''sessions'', count_rows (\<lambda>s. startswith (se_id s) ''perf-session-'') (t_sessions d)),
      (''seats'', count_rows (\<lambda>s. startswith (st_id s) ''perf-seat-'') (t_seats d)),
      (''session_seats'', count_rows (\<lambda>v. startswith (ss_id v) ''perf-ss-'') (t_inventory d)),
      (''available_session_seats'', count_rows (\<lambda>v. startswith (ss_id v) ''perf-ss-''
         \<and> ss_status v = ''AVAILABLE'') (t_inventory d)),
      (''seat_pointers'', count_rows (\<lambda>v. startswith (ss_id v) ''perf-ss-''
         \<and> ss_reservation v \<noteq> None) (t_inventory d)),
      (''reservations'', count_rows (\<lambda>r. startswith (rv_id r) ''perf-reservation-''
         \<or> startswith (rv_user r) ''perf-user-'') (t_reservations d)),
      (''checkouts'', count_rows (\<lambda>c. startswith (co_id c) ''perf-checkout-''
         \<or> startswith (co_user c) ''perf-user-'') (t_checkouts d)),
      (''orders'', count_rows (\<lambda>o'. startswith (od_id o') ''perf-order-''
         \<or> startswith (od_user o') ''perf-user-'') (t_orders d)),
      (''attempts'', count_rows (\<lambda>a. startswith (oi_order a) ''perf-order-'') (t_attempts d)),
      (''refunds'', count_rows (\<lambda>a. startswith (oi_order a) ''perf-order-'') (t_refunds d)),
      (''notifications'', count_rows (\<lambda>n. startswith (nt_user n) ''perf-user-'') (t_notifications d)),
      (''hot_target'', count_rows (\<lambda>v. ss_id v = hot) (t_inventory d)),
      (''low_conflict_targets'', count_rows (\<lambda>s. se_id s \<in> set targets) (t_sessions d)),
      (''token_hash'', count_rows (\<lambda>l. lg_id l = cr_auth_session_id c
         \<and> lg_hash l = cr_token_hash c) (t_logins d))]"

text \<open>
  Rows outside the deleted scope do not carry the identifiers that the validation counts.
\<close>

definition no_leftovers :: "db \<Rightarrow> bool" where
  "no_leftovers d =
     (list_all (\<lambda>r. rv_id r \<in> set (reservation_scope d) \<or> \<not> startswith (rv_id r) ''perf-reservation-'')
        (t_reservations d)
      \<and> list_all (\<lambda>c. co_id c \<in> set (checkout_scope d) \<or> \<not> startswith (co_id c) ''perf-checkout-'')
        (t_checkouts d)
      \<and> list_all (\<lambda>x. od_id x \<in> set (order_scope d) \<or> \<not> startswith (od_id x) ''perf-order-'')
        (t_orders d)
      \<and> list_all (\<lambda>a. oi_order a \<in> set (order_scope d) \<or> \<not> startswith (oi_order a) ''perf-order-'')
        (t_attempts d @ t_refunds d))"

lemma count_rows_none: "(\<And>x. x \<in> set xs \<Longrightarrow> \<not> P x) \<Longrightarrow> count_rows P xs = 0"
  by (simp add: count_rows_def filter_False)

lemma count_rows_keys:
  assumes "distinct (map key xs)" and "distinct ks" and "set ks \<subseteq> set (map key xs)"
  shows "count_rows (\<lambda>x. key x \<in> set ks) xs = int (length ks)"
proof -
  have "distinct (map key (filter (\<lambda>x. key x \<in> set ks) xs))"
    using assms(1) by (simp add: distinct_map_filter)
  moreover have "set (map key (filter (\<lambda>x. key x \<in> set ks) xs)) = set ks" using assms(3) by auto
  ultimately have "length (map key (filter (\<lambda>x. key x \<in> set ks) xs)) = length ks"
    using assms(2) by (metis distinct_card)
  then show ?thesis by (simp add: count_rows_def)
qed

lemma count_rows_one:
  assumes "distinct (map key xs)" and "x \<in> set xs" and "P x"
  shows "count_rows (\<lambda>y. key y = key x \<and> P y) xs = 1"
proof -
  have same: "key y = key x \<and> P y \<longleftrightarrow> key y \<in> set [key x]" if "y \<in> set xs" for y
    using assms that by (auto simp: distinct_map dest: inj_onD)
  then have "filter (\<lambda>y. key y = key x \<and> P y) xs = filter (\<lambda>y. key y \<in> set [key x]) xs"
    by (intro filter_cong) auto
  moreover have "count_rows (\<lambda>y. key y \<in> set [key x]) xs = int (length [key x])"
    using assms by (intro count_rows_keys) auto
  ultimately show ?thesis by (simp add: count_rows_def)
qed

lemma count_differences_Nil_iff:
  "count_differences parsed expected = [] \<longleftrightarrow> (\<forall>(k, v) \<in> set expected. dget parsed k = Some v)"
  by (auto simp: count_differences_def filter_empty_conv)

lemma low_conflict_ids_Inr:
  "low_conflict_ids per n = Inr (map (\<lambda>i. session_id (i div per + 1) (i mod per + 1)) [0..min 4 n - 1])"
  unfolding low_conflict_ids_def by (rule map_res_Inr_map) simp

lemma div_mod_eq_imp: "(i::int) div n = j div n \<Longrightarrow> i mod n = j mod n \<Longrightarrow> i = j"
  by (metis div_mult_mod_eq)

lemma low_conflict_sessions:
  assumes pos: "0 < evs" "0 < per" and w: "evs \<le> 999" "per \<le> 999"
    and g: "gp_per_event g = per" "sh_events sh = evs"
    and t: "low_conflict_ids per (evs * per) = Inr targets"
  shows "distinct targets" and "set targets \<subseteq> set (map se_id (new_sessions g sh))"
proof -
  let ?f = "\<lambda>i. session_id (i div per + 1) (i mod per + 1)"
  have ts: "targets = map ?f [0..min 4 (evs * per) - 1]"
    using t by (simp only: low_conflict_ids_Inr sum.inject)
  have range: "0 \<le> i div per" "i div per < evs" "0 \<le> i mod per" "i mod per < per"
    if "i \<in> set [0..min 4 (evs * per) - 1]" for i
    using that pos by (auto simp: pos_imp_zdiv_nonneg_iff mult.commute intro: int_div_less)
  show "distinct targets"
    unfolding ts distinct_map
  proof (intro conjI inj_onI)
    fix i j assume i: "i \<in> set [0..min 4 (evs * per) - 1]" and j: "j \<in> set [0..min 4 (evs * per) - 1]"
      and eq: "?f i = ?f j"
    have "i div per + 1 = j div per + 1 \<and> i mod per + 1 = j mod per + 1"
      using session_id_inj [of "i div per + 1" "i mod per + 1" "j div per + 1" "j mod per + 1"]
        range [OF i] range [OF j] eq by (simp only:) simp
    then show "i = j" by (auto intro: div_mod_eq_imp)
  qed simp
  show "set targets \<subseteq> set (map se_id (new_sessions g sh))"
  proof
    fix x assume "x \<in> set targets"
    then obtain i where i: "i \<in> set [0..min 4 (evs * per) - 1]" and x: "x = ?f i" by (auto simp: ts)
    have "x = sql_session_id (i div per + 1) (i mod per + 1)"
      using range [OF i] w unfolding x by (intro sql_session_id_eq [symmetric]) auto
    moreover have "i div per + 1 \<in> set [1..sh_events sh]" "i mod per + 1 \<in> set [1..gp_per_event g]"
      using range [OF i] g by auto
    ultimately show "x \<in> set (map se_id (new_sessions g sh))"
      by (force simp: new_sessions_def Let_def)
  qed
qed

lemma scope_rows_gone:
  assumes "no_leftovers d"
  shows "r \<in> set (t_reservations (delete_scope d)) \<Longrightarrow>
      \<not> startswith (rv_id r) ''perf-reservation-'' \<and> \<not> startswith (rv_user r) ''perf-user-''"
    and "c \<in> set (t_checkouts (delete_scope d)) \<Longrightarrow>
      \<not> startswith (co_id c) ''perf-checkout-'' \<and> \<not> startswith (co_user c) ''perf-user-''"
    and "x \<in> set (t_orders (delete_scope d)) \<Longrightarrow>
      \<not> startswith (od_id x) ''perf-order-'' \<and> \<not> startswith (od_user x) ''perf-user-''"
    and "a \<in> set (t_attempts (delete_scope d)) \<Longrightarrow> \<not> startswith (oi_order a) ''perf-order-''"
    and "a \<in> set (t_refunds (delete_scope d)) \<Longrightarrow> \<not> startswith (oi_order a) ''perf-order-''"
    and "n \<in> set (t_notifications (delete_scope d)) \<Longrightarrow> \<not> startswith (nt_user n) ''perf-user-''"
  using assms scope_free_delete [of d]
  by (auto simp: no_leftovers_def scope_free_def list_all_iff delete_scope_def Let_def)

lemma checks_accept:
  assumes run: "build_generation_sql profile sh cs idle absolute d = Inr d'"
    and g: "gen_params_of profile = Inr g" and left: "no_leftovers d"
    and pos: "0 < sh_events sh" "0 < gp_per_event g" "0 < sh_seats sh"
    and w: "sh_events sh \<le> 999" "gp_per_event g \<le> 999"
    and ses: "sh_sessions sh = sh_events sh * gp_per_event g"
    and t: "low_conflict_ids (gp_per_event g) (sh_sessions sh) = Inr targets"
    and c: "c \<in> set cs"
  shows "count_differences (checks_of d' targets (session_seat_id 1 1 1) c) (expected_counts sh targets) = []"
proof -
  from run g have d': "d' = with_rows g sh cs idle absolute (delete_scope d)"
    and keys: "distinct_keys d'" and chk: "check_generated sh d' = Inr ()"
    by (auto simp: build_generation_Inr_iff)
  from chk have counts: "count_rows (\<lambda>u. startswith (us_id u) ''perf-user-'') (t_users d') = sh_registered_users sh"
      "count_rows (\<lambda>l. startswith (lg_id l) ''perf-auth-'') (t_logins d') = sh_active_auth_sessions sh"
      "count_rows (\<lambda>e. startswith (ev_id e) ''perf-event-'') (t_events d') = sh_events sh"
      "count_rows (\<lambda>s. startswith (se_id s) ''perf-session-'') (t_sessions d') = sh_sessions sh"
      "count_rows (\<lambda>s. startswith (st_id s) ''perf-seat-'') (t_seats d') = sh_seats sh"
      "count_rows (\<lambda>v. startswith (ss_id v) ''perf-ss-'') (t_inventory d') = sh_session_seats sh"
    by (simp_all add: check_generated_def check_count_def count_like_def count_rows_def res_simps)
  have inv: "ss_status v = ''AVAILABLE'' \<and> ss_reservation v = None"
    if "v \<in> set (t_inventory d')" "startswith (ss_id v) ''perf-ss-''" for v
    using that by (auto simp: d' with_rows_def delete_scope_def Let_def new_inventory_def)
  have "filter (\<lambda>v. startswith (ss_id v) ''perf-ss-'' \<and> ss_status v = ''AVAILABLE'') (t_inventory d')
      = filter (\<lambda>v. startswith (ss_id v) ''perf-ss-'') (t_inventory d')"
    by (intro filter_cong) (auto dest: inv)
  then have avail: "count_rows (\<lambda>v. startswith (ss_id v) ''perf-ss-'' \<and> ss_status v = ''AVAILABLE'')
      (t_inventory d') = sh_session_seats sh"
    using counts(6) by (simp add: count_rows_def)
  have ptrs: "count_rows (\<lambda>v. startswith (ss_id v) ''perf-ss-'' \<and> ss_reservation v \<noteq> None)
      (t_inventory d') = 0"
    by (rule count_rows_none) (auto dest: inv)
  have gone: "count_rows (\<lambda>r. startswith (rv_id r) ''perf-reservation-''
         \<or> startswith (rv_user r) ''perf-user-'') (t_reservations d') = 0"
      "count_rows (\<lambda>c. startswith (co_id c) ''perf-checkout-''
         \<or> startswith (co_user c) ''perf-user-'') (t_checkouts d') = 0"
      "count_rows (\<lambda>o'. startswith (od_id o') ''perf-order-''
         \<or> startswith (od_user o') ''perf-user-'') (t_orders d') = 0"
      "count_rows (\<lambda>a. startswith (oi_order a) ''perf-order-'') (t_attempts d') = 0"
      "count_rows (\<lambda>a. startswith (oi_order a) ''perf-order-'') (t_refunds d') = 0"
      "count_rows (\<lambda>n. startswith (nt_user n) ''perf-user-'') (t_notifications d') = 0"
    by (rule count_rows_none, use scope_rows_gone [OF left] in \<open>simp add: d' with_rows_def\<close>)+
  have hot_in: "session_seat_id 1 1 1 \<in> set (map ss_id (t_inventory d'))"
  proof -
    have "sql_session_seat_id 1 1 1 \<in> set (map ss_id (new_inventory g sh))"
      using pos by (force simp: new_inventory_def)
    moreover have "sql_session_seat_id 1 1 1 = session_seat_id 1 1 1"
      by (rule sql_session_seat_id_eq) simp_all
    ultimately show ?thesis by (simp add: d' with_rows_def)
  qed
  have hot: "count_rows (\<lambda>v. ss_id v = session_seat_id 1 1 1) (t_inventory d') = 1"
    using count_rows_keys [of ss_id "t_inventory d'" "[session_seat_id 1 1 1]"] keys hot_in
    by (simp add: distinct_keys_def)
  note lc = low_conflict_sessions [OF pos(1,2) w refl refl t [unfolded ses]]
  have low: "count_rows (\<lambda>s. se_id s \<in> set targets) (t_sessions d') = int (length targets)"
    using keys lc by (intro count_rows_keys) (auto simp: distinct_keys_def d' with_rows_def)
  let ?row = "\<lparr>lg_id = cr_auth_session_id c, lg_user = cr_user_id c, lg_hash = cr_token_hash c,
      lg_idle_secs = idle, lg_absolute_secs = absolute, lg_revoked = False\<rparr>"
  have "?row \<in> set (t_logins d')" using c by (auto simp: d' with_rows_def new_logins_def)
  then have tok: "count_rows (\<lambda>l. lg_id l = cr_auth_session_id c \<and> lg_hash l = cr_token_hash c)
      (t_logins d') = 1"
    using count_rows_one [of lg_id "t_logins d'" ?row "\<lambda>l. lg_hash l = cr_token_hash c"] keys
    by (simp add: distinct_keys_def)
  show ?thesis
    unfolding count_differences_Nil_iff using ptrs hot
    by (simp add: checks_of_def expected_counts_def counts avail gone low tok)
qed


section \<open>Text that psql prints\<close>

definition plain_text :: "string \<Rightarrow> bool" where
  "plain_text s = list_all (\<lambda>c. \<not> is_line_break c \<and> c \<noteq> tab) s"

lemma tab_plain [simp]: "\<not> is_line_break tab"
  by (simp add: is_line_break_def)

lemma splitlines_join:
  "(\<And>l. l \<in> set ls \<Longrightarrow> l \<noteq> [] \<and> (\<forall>c \<in> set l. \<not> is_line_break c)) \<Longrightarrow>
     splitlines (join_with [nl] ls) = ls"
proof (induction ls rule: induct_list012)
  case (2 x)
  then show ?case by (simp add: splitlines_last)
next
  case (3 x y zs)
  have "\<forall>c \<in> set x. \<not> is_line_break c" using "3.prems" [of x] by simp
  moreover have "splitlines (join_with [nl] (y # zs)) = y # zs"
    using "3.prems" by (intro "3.IH"(2)) auto
  ultimately show ?case by (simp add: splitlines_line)
qed simp

lemma digit_no_break: "is_digit c \<Longrightarrow> \<not> is_line_break c"
  by (auto simp: is_digit_def char_between_def is_line_break_def Let_def)

lemma parse_counts_join:
  assumes "distinct (dkeys kvs)" and "\<And>k v. (k, v) \<in> set kvs \<Longrightarrow> plain_text k"
  shows "parse_counts (join_with [nl] (map (\<lambda>(k, v). k @ tab # int_str v) kvs)) = Inr kvs"
proof -
  have digits: "\<not> is_line_break c" if "c \<in> set (int_str v)" for c v
  proof -
    have "\<not> is_line_break CHR ''-''" by (simp add: is_line_break_def)
    with that show ?thesis by (auto simp: int_str_def dest: nat_str_digits digit_no_break split: if_splits)
  qed
  have lines: "splitlines (join_with [nl] (map (\<lambda>(k, v). k @ tab # int_str v) kvs))
      = map (\<lambda>(k, v). k @ tab # int_str v) kvs"
    using assms(2) digits
    by (intro splitlines_join) (auto simp: plain_text_def list_all_iff)
  have step: "parse_count_line d (k @ tab # int_str v) = Inr (dset d k v)" if "plain_text k" for d k v
  proof -
    have "tab \<notin> set k" using that by (auto simp: plain_text_def list_all_iff)
    then show ?thesis by (simp add: parse_count_line_def split_max_append)
  qed
  have upd: "dset d k v = d @ [(k, v)]" if "k \<notin> set (dkeys d)" for d :: "(string \<times> int) list" and k v
    using that by (induction d) auto
  have "fold_res parse_count_line d (map (\<lambda>(k, v). k @ tab # int_str v) ks) = Inr (d @ ks)"
    if "distinct (dkeys (d @ ks))" "\<forall>(k, v) \<in> set ks. plain_text k" for d ks
    using that
  proof (induction ks arbitrary: d)
    case (Cons p ks)
    obtain k v where p: "p = (k, v)" by fastforce
    from Cons.prems p have "k \<notin> set (dkeys d)" by auto
    then have "parse_count_line d (k @ tab # int_str v) = Inr (d @ [p])"
      using Cons.prems(2) p by (simp add: step upd)
    with Cons.IH [of "d @ [p]"] Cons.prems p show ?case by simp
  qed simp
  from this [of "[]" kvs] assms lines show ?thesis by (fastforce simp: parse_counts_def)
qed

subsection \<open>The seat pool\<close>

definition seat_line :: "string \<times> string \<Rightarrow> string" where
  "seat_line p = fst p @ tab # snd p @ tab # ''AVAILABLE'' @ tab # ''t''"

definition scoped_seat :: "string \<times> string \<Rightarrow> bool" where
  "scoped_seat p = (startswith (fst p) ''perf-session-'' \<and> startswith (snd p) ''perf-ss-'')"

lemma add_seat_line_Inr:
  assumes "add_seat_line pool line = Inr pool'"
  shows "pool' = pool \<and> py_strip line = [] \<or>
    (\<exists>p. pool' = pool @ [p] \<and> scoped_seat p \<and> p \<notin> set pool)"
  using assms by (auto simp: add_seat_line_def scoped_seat_def split: if_splits list.splits)

lemma build_workload_seats_sound:
  assumes "build_workload_seats rows sh = Inr pool"
  shows "distinct pool \<and> list_all scoped_seat pool \<and> sorted pool
    \<and> int (length pool) = sh_session_seats sh"
proof -
  from assms have f: "fold_res add_seat_line [] (splitlines rows) = Inr pool"
    and n: "int (length pool) = sh_session_seats sh"
    and so: "pool = sort_key (\<lambda>item. (fst item, snd item)) pool"
    by (auto simp: build_workload_seats_def res_simps)
  from f have "distinct pool \<and> list_all scoped_seat pool"
  proof (rule fold_res_invariant)
    fix s x s'
    assume "distinct s \<and> list_all scoped_seat s" and "add_seat_line s x = Inr s'"
    then show "distinct s' \<and> list_all scoped_seat s'" by (auto dest!: add_seat_line_Inr)
  qed simp
  moreover have "sorted pool"
  proof -
    have "sorted (map (\<lambda>p. p) (sort_key (\<lambda>p. p) pool))" by (rule sorted_sort_key)
    with so show ?thesis by simp
  qed
  ultimately show ?thesis using n by blast
qed

lemma add_seat_line_seat_line:
  assumes "scoped_seat p" "plain_text (fst p)" "plain_text (snd p)" "p \<notin> set pool"
  shows "add_seat_line pool (seat_line p) = Inr (pool @ [p])"
proof -
  have "tab \<notin> set (fst p)" "tab \<notin> set (snd p)"
    using assms by (auto simp: plain_text_def list_all_iff)
  then have split: "split_on tab (seat_line p) = [fst p, snd p, ''AVAILABLE'', ''t'']"
    by (simp add: seat_line_def split_on_append)
  obtain t where "fst p = CHR ''p'' # t"
    using assms(1) by (cases "fst p") (auto simp: scoped_seat_def startswith_def)
  then have "py_strip (seat_line p) = seat_line p"
    by (intro py_strip_id) (simp_all add: seat_line_def is_space_def)
  moreover have "seat_line p \<noteq> []" by (simp add: seat_line_def)
  ultimately show ?thesis using assms split by (simp add: add_seat_line_def scoped_seat_def)
qed

lemma build_workload_seats_complete:
  assumes "distinct pool" "sorted pool" "int (length pool) = sh_session_seats sh"
    and ok: "\<And>p. p \<in> set pool \<Longrightarrow> scoped_seat p \<and> plain_text (fst p) \<and> plain_text (snd p)"
  shows "build_workload_seats (join_with [nl] (map seat_line pool)) sh = Inr pool"
proof -
  have lines: "splitlines (join_with [nl] (map seat_line pool)) = map seat_line pool"
    using ok by (intro splitlines_join)
      (auto simp: seat_line_def plain_text_def list_all_iff is_line_break_def)
  have "fold_res add_seat_line acc (map seat_line ps) = Inr (acc @ ps)"
    if "distinct (acc @ ps)" "set ps \<subseteq> set pool" for acc ps
    using that
  proof (induction ps arbitrary: acc)
    case (Cons p ps)
    have "add_seat_line acc (seat_line p) = Inr (acc @ [p])"
      using Cons.prems ok by (intro add_seat_line_seat_line) auto
    with Cons.IH [of "acc @ [p]"] Cons.prems show ?case by simp
  qed simp
  from this [of "[]" pool] lines assms
  have "fold_res add_seat_line [] (splitlines (join_with [nl] (map seat_line pool))) = Inr pool" by simp
  moreover have "sort_key (\<lambda>item. (fst item, snd item)) pool = pool"
    using sorted_sort_id [OF assms(2)] by simp
  ultimately show ?thesis using assms(3) by (simp add: build_workload_seats_def require_def)
qed

section \<open>What the generator may do\<close>

text \<open>
  The only processes are psql in the container of the Performance project and \<open>git rev-parse\<close>,
  the only request is the smoke test of the backend, and the files written are the manifests
  or temporaries that are renamed to them.
\<close>

definition manifest_names :: "string list" where
  "manifest_names = [''/sessions.json'', ''/workload-users.json'', ''/workload-seats.json'',
     ''/dataset.json'']"

fun dataset_event :: "event \<Rightarrow> bool" where
  "dataset_event (Ran argv inp env r) =
     (argv = [''git'', ''rev-parse'', ''HEAD'']
      \<or> (\<exists>rt. argv = perf_compose rt psql_arguments \<and> inp \<noteq> None))"
| "dataset_event (Spawned argv r) = False"
| "dataset_event (Requested rq r) = (hr_method rq = ''GET'' \<and> endswith (hr_url rq) ''/auth/me'')"
| "dataset_event (FileWritten p t r) = False"
| "dataset_event (Removed p r) = False"
| "dataset_event (Renamed p q r) = list_ex (endswith q) manifest_names"
| "dataset_event e = True"

lemma endswith_append [simp]: "endswith (a @ b) b"
  by (simp add: endswith_def)

lemma emits_run_psql: "emits dataset_event (run_psql sql)"
  unfolding run_psql_def by (intro emits_intros) auto

lemma emits_git_head: "emits dataset_event git_head"
  unfolding git_head_def by (intro emits_intros) auto

lemma emits_write_json_atomic:
  "list_ex (endswith path) manifest_names \<Longrightarrow> emits dataset_event (write_json_atomic path j)"
  unfolding write_json_atomic_def by (intro emits_intros) auto

lemma emits_load_profile: "emits dataset_event (load_profile p)"
  unfolding load_profile_def
  by (intro emits_intros; (auto intro!: emits_intros split: json.splits)?)

lemma emits_load_auth_timeouts: "emits dataset_event (load_auth_timeouts p)"
  unfolding load_auth_timeouts_def by (intro emits_intros) auto

lemma emits_credentials: "emits dataset_event (generate_session_credentials n)"
  unfolding generate_session_credentials_def generate_one_def by (intro emits_intros) auto

lemma emits_auth_me_smoke: "emits dataset_event (auth_me_smoke url c)"
  unfolding auth_me_smoke_def
  by (intro emits_intros; (auto intro!: emits_intros split: http_result.splits)?)

lemma emits_written: "emits dataset_event (write_generated_files gen m cs seats)"
  unfolding write_generated_files_def
  by (intro emits_intros emits_write_json_atomic) (simp_all add: manifest_names_def endswith_def startswith_def)

lemma emits_dataset_main: "emits dataset_event (dataset_main args)"
  unfolding dataset_main_def generate_dataset_def Let_def collect_storage_sizes_def
    build_dataset_manifest_def validate_database_def load_workload_seats_def
  by (intro emits_intros emits_load_profile emits_load_auth_timeouts emits_credentials emits_run_psql
      emits_git_head emits_auth_me_smoke emits_written;
      (auto intro!: emits_intros emits_run_psql emits_auth_me_smoke split: list.splits)?)


section \<open>Properties\<close>

text \<open>
  \textbf{C4.} After a successful generation, the counts that \<open>validate_database\<close> queries are
  the expected ones, for the targets of the manifest and any generated credential.
\<close>

theorem validation_accepts_generation:
  assumes "run_generation profile sh cs idle absolute d = (None, d')"
    and "gen_params_of profile = Inr g" and "no_leftovers d" and "c \<in> set cs"
    and "0 < sh_events sh" "sh_events sh \<le> 999" "0 < gp_per_event g" "gp_per_event g \<le> 999"
    and "0 < sh_seats sh" and "sh_sessions sh = sh_events sh * gp_per_event g"
    and "low_conflict_ids (gp_per_event g) (sh_sessions sh) = Inr targets"
  shows "count_differences (checks_of d' targets (session_seat_id 1 1 1) c) (expected_counts sh targets) = []"
proof -
  have "build_generation_sql profile sh cs idle absolute d = Inr d'"
    using assms(1) by (simp add: run_generation_def split: sum.splits)
  from checks_accept [OF this assms(2,3) assms(5,7,9,6,8,10,11,4)] show ?thesis .
qed

theorem validation_accepts_generation_witness:
  "\<exists>d' targets. run_generation (JObj sample_dict) (shape_of sample_spec) sample_credentials 10 20 empty_db = (None, d')
     \<and> length targets = 2
     \<and> count_differences (checks_of d' targets (session_seat_id 1 1 1) (sample_credentials ! 0))
         (expected_counts (shape_of sample_spec) targets) = []"
proof -
  obtain d' where run: "run_generation (JObj sample_dict) (shape_of sample_spec) sample_credentials 10 20 empty_db = (None, d')"
    using sample_generation by (auto simp: run_generation_def)
  obtain g where g: "gen_params_of (JObj sample_dict) = Inr g" "gp_per_event g = 1"
    using gen_params_represented [OF sample_represented sample_wf] by (auto simp: sample_spec_def)
  have n: "sh_sessions (shape_of sample_spec) = 2" "sh_events (shape_of sample_spec) = 2"
    by (simp_all add: shape_of_def sample_spec_def)
  obtain targets where t: "low_conflict_ids (gp_per_event g) (sh_sessions (shape_of sample_spec)) = Inr targets"
      "length targets = 2"
    using g n by (simp add: low_conflict_ids_Inr)
  have "no_leftovers empty_db" by (simp add: no_leftovers_def empty_db_def)
  moreover have "sample_credentials ! 0 \<in> set sample_credentials" by (simp add: sample_credentials_def)
  ultimately have "count_differences (checks_of d' targets (session_seat_id 1 1 1) (sample_credentials ! 0))
      (expected_counts (shape_of sample_spec) targets) = []"
    by (intro validation_accepts_generation [OF run g(1) _ _ _ _ _ _ _ _ t(1)])
       (simp_all add: g n, simp_all add: shape_of_def sample_spec_def)
  with run t(2) show ?thesis by blast
qed

text \<open>
  \textbf{C13.} The seat pool that \<open>export_phase14\<close> writes holds every seat of every session
  exactly once, and any run of seats no longer than the number of sessions visits pairwise
  different sessions.
\<close>

theorem exported_pool_spread:
  assumes "0 < evs" and "0 < per" and "0 \<le> seats"
  shows "\<exists>pool. map_res (exported_seat (evs * per) per) [0..evs * per * seats - 1] = Inr pool
    \<and> distinct pool \<and> set pool = pool_entry ` ({1..evs} \<times> {1..per} \<times> {1..seats})
    \<and> (\<forall>i j. i < j \<and> j < length pool \<and> int j < int i + evs * per \<longrightarrow> fst (pool ! i) \<noteq> fst (pool ! j))"
proof -
  obtain pool where pool: "map_res (exported_seat (evs * per) per) [0..evs * per * seats - 1] = Inr pool"
      "distinct pool" "set pool = pool_entry ` ({1..evs} \<times> {1..per} \<times> {1..seats})"
    using exported_pool [OF assms] by blast
  have "fst (pool ! i) \<noteq> fst (pool ! j)" if ij: "i < j" "j < length pool" "int j < int i + evs * per" for i j
  proof -
    have len: "length pool = nat (evs * per * seats)"
      using map_res_Inr_length [OF pool(1)] by simp
    have nth: "pool ! k = pool_entry (seat_triple (evs * per) per (int k))" if "k < length pool" for k
      using map_res_Inr_nth [OF pool(1), of k] that len
      by (simp add: exported_seat_triple pool_entry_def nth_upto split: prod.splits)
    obtain e s n e' s' n' where t: "seat_triple (evs * per) per (int i) = (e, s, n)"
        "seat_triple (evs * per) per (int j) = (e', s', n')" by (metis prod_cases3)
    from ij exported_sessions_spread [of "int i" "int j" "evs * per" per] t
    have "(e, s) \<noteq> (e', s')" by simp
    moreover have "0 \<le> e" "0 \<le> s" "0 \<le> e'" "0 \<le> s'"
      using t assms by (auto simp: seat_triple_def pos_imp_zdiv_nonneg_iff)
    ultimately have "session_id e s \<noteq> session_id e' s'" using session_id_inj [of e s e' s'] by blast
    then show ?thesis using nth [of i] nth [of j] ij t by (simp add: pool_entry_def)
  qed
  with pool show ?thesis by blast
qed

theorem exported_pool_spread_witness:
  "\<exists>pool. map_res (exported_seat (2 * 3) 3) [0..2 * 3 * 4 - 1] = Inr pool \<and> length pool = 24
     \<and> fst (pool ! 0) \<noteq> fst (pool ! 5)"
proof -
  obtain pool where pool: "map_res (exported_seat (2 * 3) 3) [0..2 * 3 * 4 - 1] = Inr pool"
      "\<forall>i j. i < j \<and> j < length pool \<and> int j < int i + 2 * 3 \<longrightarrow> fst (pool ! i) \<noteq> fst (pool ! j)"
    using exported_pool_spread [of 2 3 4] by auto
  moreover have "length pool = 24" using map_res_Inr_length [OF pool(1)] by simp
  ultimately show ?thesis by (intro exI [of _ pool]) simp
qed

text \<open>
  \textbf{C14.} Whatever psql prints, an accepted seat pool has no duplicates, lies in the
  Performance scope, is sorted by session and seat and has the expected size.
\<close>

theorem workload_seats_sound:
  assumes "build_workload_seats rows sh = Inr pool"
  shows "distinct pool \<and> list_all scoped_seat pool \<and> sorted pool \<and> int (length pool) = sh_session_seats sh"
  using assms by (rule build_workload_seats_sound)

definition sample_pool :: "(string \<times> string) list" where
  "sample_pool = [(''perf-session-001-001'', ''perf-ss-001-001-000001''),
     (''perf-session-001-001'', ''perf-ss-001-001-000002'')]"

definition sample_pool_shape :: dataset_shape where
  "sample_pool_shape = \<lparr>sh_registered_users = 1, sh_active_auth_sessions = 1, sh_events = 1,
     sh_sessions = 1, sh_seats = 2, sh_session_seats = 2\<rparr>"

lemma sample_pool_ok:
  "distinct sample_pool" "sorted sample_pool" "int (length sample_pool) = sh_session_seats sample_pool_shape"
  "p \<in> set sample_pool \<Longrightarrow> scoped_seat p \<and> plain_text (fst p) \<and> plain_text (snd p)"
  by (auto simp: sample_pool_def sample_pool_shape_def less_eq_prod_def less_prod_def scoped_seat_def
      startswith_def plain_text_def is_line_break_def list_le_def lexordp_eq_simps)

theorem workload_seats_sound_witness:
  "build_workload_seats (join_with [nl] (map seat_line sample_pool)) sample_pool_shape = Inr sample_pool
     \<and> list_all scoped_seat sample_pool"
  using build_workload_seats_complete [OF sample_pool_ok(1-3)] sample_pool_ok(4)
    workload_seats_sound [of _ sample_pool_shape sample_pool] by blast

text \<open>
  \textbf{C15.} A sorted pool of distinct Performance seats, printed the way psql prints the rows
  of free seats, is read back unchanged.
\<close>

theorem workload_seats_roundtrip:
  assumes "distinct pool" and "sorted pool" and "int (length pool) = sh_session_seats sh"
    and "\<And>p. p \<in> set pool \<Longrightarrow> scoped_seat p \<and> plain_text (fst p) \<and> plain_text (snd p)"
  shows "build_workload_seats (join_with [nl] (map seat_line pool)) sh = Inr pool"
  using assms by (rule build_workload_seats_complete)

theorem workload_seats_roundtrip_witness:
  "build_workload_seats (join_with [nl] (map seat_line sample_pool)) sample_pool_shape = Inr sample_pool"
  using sample_pool_ok(1-3) by (rule workload_seats_roundtrip) (rule sample_pool_ok(4))

text \<open>
  Whatever docker, the network and the file system answer, \<open>main\<close> of the generator
  runs only psql in the Performance project and \<open>git rev-parse\<close>, sends only the \<open>/auth/me\<close>
  request, and renames files only to the four manifests.
\<close>

lemma dataset_main_scope:
  "emits dataset_event (dataset_main args)"
  by (rule emits_dataset_main)

end
