(* ===== verification/Observability.thy ===== *)
theory Observability
  imports Py_IO
begin

text \<open>
  \<open>performance/scripts/verify_observability.py\<close>: the checks of the observability stack. A
  check prints a PASS or FAIL line and counts the failures; every group of checks turns an
  exception into a failed check. The three regular expressions over the metrics text are written
  out as matchers. The state holds the failures and the dashboard expressions.
\<close>

section \<open>Checks\<close>

record obs_state =
  ob_failed :: int
  ob_expressions :: "string list"

definition record_check :: "string \<Rightarrow> bool \<Rightarrow> string \<Rightarrow> (obs_state, unit) io" where
  "record_check name passed detail =
     sq (say ((if passed then ''[PASS] '' else ''[FAIL] '') @ name @ '': '' @ detail))
     (if passed then ret () else mod_st (\<lambda>s. s\<lparr>ob_failed := ob_failed s + 1\<rparr>))"

text \<open>\<open>try: ... except Exception as error: checks.record(name, False, str(error))\<close>.\<close>

definition guarded :: "string \<Rightarrow> string \<Rightarrow> (obs_state, unit) io \<Rightarrow> (obs_state, unit) io" where
  "guarded name note m = try_except is_exception m (\<lambda>e. record_check name False (exn_msg e @ note))"

section \<open>Requests and commands\<close>

definition obs_request ::
    "string \<Rightarrow> string \<Rightarrow> (string \<times> string) list \<Rightarrow> json option \<Rightarrow> rat \<Rightarrow> ('s, int \<times> string) io" where
  "obs_request verb url headers data timeout =
     bnd (send \<lparr>hr_method = verb, hr_url = url, hr_headers = headers, hr_body = data,
       hr_timeout = timeout\<rparr>) (\<lambda>r.
     case r of Response s t \<Rightarrow> ret (s, t) | HttpError s t \<Rightarrow> ret (s, t))"

definition fetch :: "string \<Rightarrow> ('s, int \<times> string) io" where
  "fetch url = obs_request ''GET'' url [] None 10"

text \<open>A probe that swallows OSError and URLError: the last answer, and whether it is the one expected.\<close>

definition url_probe :: "string \<Rightarrow> int \<Rightarrow> string \<times> string \<Rightarrow> ('s, (string \<times> string) \<times> bool) io" where
  "url_probe url expected x =
     try_except (caught_by [OSError, URLError])
       (bnd (fetch url) (\<lambda>(status, body). ret ((''HTTP '' @ int_str status, body), status = expected)))
       (\<lambda>e. ret ((exn_msg e, []), False))"

definition wait_for_url :: "string \<Rightarrow> int \<Rightarrow> int \<Rightarrow> ('s, int \<times> string) io" where
  "wait_for_url url expected timeout =
     bnd (poll_until (of_int timeout) 1 (url_probe url expected) (''no response'', [])) (\<lambda>(answer, ready).
     if ready then ret (expected, snd answer)
     else raise (Exn RuntimeError (url @ '' did not become ready: '' @ fst answer)))"

definition exec_checked :: "string list \<Rightarrow> ('s, string) io" where
  "exec_checked argv =
     bnd (run_proc argv None []) (\<lambda>completed.
     if p_rc completed \<noteq> 0
     then raise (Exn RuntimeError (str_or (py_strip (p_err completed)) (py_strip (p_out completed))))
     else ret (py_strip (p_out completed)))"

definition psql_connection :: "bool \<Rightarrow> string list" where
  "psql_connection monitoring_user =
     (if monitoring_user
      then [''psql'', ''postgresql://ticketing_metrics:ticketing_metrics_dev@''
        @ ''127.0.0.1:5432/ticketing?sslmode=disable'']
      else [''psql'', ''-U'', ''ticketing'', ''-d'', ''ticketing''])"

definition compose_psql :: "string \<Rightarrow> string \<Rightarrow> bool \<Rightarrow> ('s, string) io" where
  "compose_psql compose_file sql monitoring_user =
     exec_checked ([''docker'', ''compose'', ''-f'', compose_file, ''exec'', ''-T'', ''postgres'']
       @ psql_connection monitoring_user
       @ [''-v'', ''ON_ERROR_STOP=1'', ''-At'', ''-F'', [tab], ''-c'', sql])"

definition compose_redis :: "string \<Rightarrow> string list \<Rightarrow> ('s, string) io" where
  "compose_redis compose_file arguments =
     exec_checked ([''docker'', ''compose'', ''-f'', compose_file, ''exec'', ''-T'', ''redis'', ''redis-cli'',
       ''--raw''] @ arguments)"

definition obs_prometheus_query :: "string \<Rightarrow> string \<Rightarrow> ('s, json) io" where
  "obs_prometheus_query base_url expression =
     bnd (fetch (base_url @ ''/api/v1/query?'' @ urlencode [(''query'', expression)])) (\<lambda>(status, body).
     if status \<noteq> 200
     then raise (Exn RuntimeError (''HTTP '' @ int_str status @ '': '' @ take 200 body))
     else bnd (loads body) (\<lambda>payload. of_res (json_at payload [''data'', ''result''])))"

definition panel_probe :: "string \<Rightarrow> string \<Rightarrow> json \<Rightarrow> ('s, json \<times> bool) io" where
  "panel_probe base_url expression x =
     bnd (obs_prometheus_query base_url expression) (\<lambda>result. ret (result, truthy result))"

definition wait_for_prometheus_query :: "string \<Rightarrow> string \<Rightarrow> int \<Rightarrow> ('s, json) io" where
  "wait_for_prometheus_query base_url expression timeout =
     bnd (poll_until (of_int timeout) 1 (panel_probe base_url expression) (JList [])) (\<lambda>(result, found).
     ret (if found then result else JList []))"

text \<open>The cookies of the responses are kept by the standard library's cookie jar.\<close>

definition exercise_redis_backed_paths :: "string \<Rightarrow> ('s, string) io" where
  "exercise_redis_backed_paths backend =
     (let origin = ''http://performance.local'' in
      bnd (obs_request ''POST'' (backend @ ''/auth/login'')
        [(''Content-Type'', ''application/json''), (''Origin'', origin)]
        (Some (JObj [(''username'', JStr ''demo''), (''password'', JStr ''Ticketing123!'')])) 10) (\<lambda>(status, _).
      if status \<noteq> 200 then ret (''login returned HTTP '' @ int_str status)
      else
        bnd (fetch (backend @ ''/auth/me'')) (\<lambda>(me_status, _).
        bnd (fetch (backend @ ''/sessions/ses-concert-1001/seats'')) (\<lambda>(seats_status, _).
        bnd (cookie ''ticketing_csrf'') (\<lambda>c.
        bnd (obs_request ''POST'' (backend @ ''/auth/logout'')
          [(''Origin'', origin), (''X-CSRF-Token'', case c of None \<Rightarrow> [] | Some v \<Rightarrow> v)]
          (Some (JStr [])) 10) (\<lambda>(logout_status, _).
        ret (''login=200, me='' @ int_str me_status @ '', seats='' @ int_str seats_status
          @ '', logout='' @ int_str logout_status)))))))"

section \<open>The regular expressions\<close>

text \<open>
  \<open>[^}]*\<close> followed by a literal and the rest of the pattern: the literal is looked for at every
  position up to the first closing brace.
\<close>

fun after_gap :: "string \<Rightarrow> (string \<Rightarrow> bool) \<Rightarrow> string \<Rightarrow> bool" where
  "after_gap lit k [] = (lit = [] \<and> k [])"
| "after_gap lit k (c # cs) =
     ((startswith (c # cs) lit \<and> k (drop (length lit) (c # cs)))
      \<or> (c \<noteq> CHR ''}'' \<and> after_gap lit k cs))"

definition number_char :: "char \<Rightarrow> bool" where
  "number_char c = (is_digit c \<or> c = CHR ''.'')"

text \<open>\<open>\}\s+([0-9.]+)\<close> at this position.\<close>

definition sample_value :: "string \<Rightarrow> bool" where
  "sample_value s = (case dropWhile is_space s of
      [] \<Rightarrow> False
    | c # _ \<Rightarrow> number_char c \<and> s \<noteq> [] \<and> is_space (hd s))"

fun search :: "(string \<Rightarrow> bool) \<Rightarrow> string \<Rightarrow> bool" where
  "search m [] = m []"
| "search m (c # cs) = (m (c # cs) \<or> search m cs)"

definition route_metric :: "string \<Rightarrow> string \<Rightarrow> string \<Rightarrow> bool" where
  "route_metric route status_class metrics =
     search (\<lambda>s. startswith s ''ticketing_http_requests_total{''
       \<and> after_gap (''route='' @ [dquot] @ route @ [dquot])
           (after_gap (''status_class='' @ [dquot] @ status_class @ [dquot])
             (after_gap ''}'' sample_value))
           (drop (length ''ticketing_http_requests_total{'') s)) metrics"

text \<open>
  \<open>^ticketing_http_requests_in_flight\s+(-?[0-9.]+)$\<close> over the lines of the text: the sample
  that the first match captures.
\<close>

definition gauge_at :: "string \<Rightarrow> string option" where
  "gauge_at s =
     (let lit = ''ticketing_http_requests_in_flight''; t = drop (length lit) s;
          u = dropWhile is_space t;
          (sign, v) = (case u of c # cs \<Rightarrow> if c = CHR ''-'' then ([c], cs) else ([], u) | [] \<Rightarrow> ([], []));
          digits = takeWhile number_char v; rest = dropWhile number_char v
      in if startswith s lit \<and> length u < length t \<and> digits \<noteq> [] \<and> (rest = [] \<or> hd rest = nl)
         then Some (sign @ digits) else None)"

fun gauge_from :: "bool \<Rightarrow> string \<Rightarrow> string option" where
  "gauge_from line_start [] = None"
| "gauge_from line_start (c # cs) =
     (case (if line_start then gauge_at (c # cs) else None) of
        Some g \<Rightarrow> Some g
      | None \<Rightarrow> gauge_from (c = nl) cs)"

text \<open>\<open>float(s)\<close> on the captured text: at most one point and at least one digit.\<close>

definition decimal_value :: "string \<Rightarrow> rat res" where
  "decimal_value s =
     (let (neg, t) = (case s of c # cs \<Rightarrow> if c = CHR ''-'' then (True, cs) else (False, s) | [] \<Rightarrow> (False, []));
          bad = Inl (Exn ValueError (''could not convert string to float: '' @ s));
          val = (\<lambda>a b. (of_nat (digits_val (a @ b)) / 10 ^ length b) * (if neg then -1 else 1))
      in case split_on CHR ''.'' t of
           [a] \<Rightarrow> if a \<noteq> [] \<and> list_all is_digit a then Inr (val a []) else bad
         | [a, b] \<Rightarrow> if a @ b \<noteq> [] \<and> list_all is_digit (a @ b) then Inr (val a b) else bad
         | _ \<Rightarrow> bad)"

section \<open>The groups of checks\<close>

record obs_args =
  oa_compose_file :: string
  oa_backend :: string
  oa_prometheus :: string
  oa_grafana :: string
  oa_cadvisor :: string

definition default_obs_args :: "string \<Rightarrow> obs_args" where
  "default_obs_args rt =
     \<lparr>oa_compose_file = rt @ ''/performance/docker-compose.performance.yml'',
      oa_backend = ''http://127.0.0.1:18080'', oa_prometheus = ''http://127.0.0.1:19090'',
      oa_grafana = ''http://127.0.0.1:13000'', oa_cadvisor = ''http://127.0.0.1:18081''\<rparr>"

definition check_layout :: "(obs_state, unit) io" where
  "check_layout =
     bnd (asks w_root) (\<lambda>rt.
     bnd (exists_path (rt @ ''/backend/performance'')) (\<lambda>misplaced.
     record_check ''performance directory layout'' (\<not> misplaced) (''root='' @ rt @ ''/performance'')))"

definition check_backend :: "obs_args \<Rightarrow> (obs_state, unit) io" where
  "check_backend a = guarded ''backend health'' []
     (bnd (wait_for_url (oa_backend a @ ''/health'') 200 60) (\<lambda>(status, health).
      record_check ''backend health'' (status = 200) (''HTTP '' @ int_str status @ '' '' @ health)))"

definition required_families :: "string list" where
  "required_families = [''ticketing_http_requests_total'', ''ticketing_http_request_duration_seconds'',
     ''ticketing_http_requests_in_flight'']"

definition check_families :: "int \<Rightarrow> int \<Rightarrow> int \<Rightarrow> int \<Rightarrow> string \<Rightarrow> (obs_state, unit) io" where
  "check_families event_status order_status order_id_status unmatched_status metrics =
     sq (record_check ''backend metric families'' (list_all (contains metrics) required_families)
       (join_with '', '' required_families))
     (sq (record_check ''2xx normalized route''
       (event_status = 200 \<and> route_metric ''/events'' ''2xx'' metrics)
       (''GET /events HTTP '' @ int_str event_status))
     (sq (record_check ''401 counted as 4xx''
       (order_status = 401 \<and> route_metric ''/orders'' ''4xx'' metrics)
       (''GET /orders HTTP '' @ int_str order_status))
     (sq (record_check ''parameterized route normalized''
       (order_id_status = 401 \<and> route_metric ''/orders/{orderId}'' ''4xx'' metrics)
       (''GET /orders/<id> HTTP '' @ int_str order_id_status))
     (sq (record_check ''unmatched route bounded''
       (unmatched_status = 404 \<and> route_metric ''__unmatched__'' ''4xx'' metrics)
       (''unmatched HTTP '' @ int_str unmatched_status))
     (sq (record_check ''health and metrics excluded''
       (\<not> contains metrics (''route='' @ [dquot] @ ''/health'' @ [dquot])
        \<and> \<not> contains metrics (''route='' @ [dquot] @ ''/metrics'' @ [dquot]))
       ''no excluded route labels'')
     (sq (record_check ''bounded metric labels''
       (\<not> contains metrics ''TKT-SEED-SOLD-ses-concert-1001'' \<and> \<not> contains metrics ''U-1001''
        \<and> \<not> contains metrics ''phase10a-unmatched-smoke'') ''no sample IDs in labels'')
     (case gauge_from True metrics of
        None \<Rightarrow> record_check ''in-flight returned to zero'' False ''gauge sample missing''
      | Some g \<Rightarrow> bnd (of_res (decimal_value g)) (\<lambda>v.
          record_check ''in-flight returned to zero'' (v = 0) g))))))))"

definition check_metrics :: "obs_args \<Rightarrow> (obs_state, unit) io" where
  "check_metrics a = guarded ''backend HTTP metrics'' []
     (bnd (fetch (oa_backend a @ ''/events'')) (\<lambda>(event_status, _).
      bnd (fetch (oa_backend a @ ''/orders'')) (\<lambda>(order_status, _).
      bnd (fetch (oa_backend a @ ''/orders/TKT-SEED-SOLD-ses-concert-1001'')) (\<lambda>(order_id_status, _).
      bnd (fetch (oa_backend a @ ''/phase10a-unmatched-smoke'')) (\<lambda>(unmatched_status, _).
      bnd (fetch (oa_backend a @ ''/health'')) (\<lambda>_.
      bnd (fetch (oa_backend a @ ''/metrics'')) (\<lambda>_.
      bnd (fetch (oa_backend a @ ''/metrics'')) (\<lambda>(_, metrics).
      check_families event_status order_status order_id_status unmatched_status metrics))))))))"

definition check_exercise :: "obs_args \<Rightarrow> (obs_state, unit) io" where
  "check_exercise a = guarded ''Redis-backed API exercise'' []
     (bnd (exercise_redis_backed_paths (oa_backend a)) (\<lambda>exercise.
      record_check ''Redis-backed API exercise''
        (contains exercise ''me=200'' \<and> contains exercise ''seats=200'' \<and> contains exercise ''logout=200'')
        exercise))"

definition expected_jobs :: "string list" where
  "expected_jobs = [''ticketing-backend'', ''postgres'', ''redis'', ''cadvisor'', ''prometheus'']"

text \<open>The states by job: of several targets of a job the last one counts.\<close>

definition add_target :: "dict \<Rightarrow> json \<Rightarrow> dict res" where
  "add_target d target =
     rbind (rbind (json_at target [''labels'', ''job'']) json_to_str) (\<lambda>job.
     rbind (json_index target ''health'') (\<lambda>health. Inr (dset d job health)))"

definition targets_up :: "dict \<Rightarrow> bool" where
  "targets_up states = list_all (\<lambda>job. dget states job = Some (JStr ''up'')) expected_jobs"

definition check_prometheus :: "obs_args \<Rightarrow> (obs_state, unit) io" where
  "check_prometheus a = guarded ''Prometheus'' []
     (bnd (asks w_float_repr) (\<lambda>fr.
      bnd (wait_for_url (oa_prometheus a @ ''/-/ready'') 200 60) (\<lambda>(status, body).
      sq (record_check ''Prometheus readiness'' (status = 200) (py_strip body))
      (bnd (fetch (oa_prometheus a @ ''/api/v1/targets'')) (\<lambda>(_, targets_body).
       bnd (loads targets_body) (\<lambda>targets.
       bnd (of_res (rbind (json_at targets [''data'', ''activeTargets'']) json_to_list)) (\<lambda>active.
       bnd (of_res (fold_res add_target [] active)) (\<lambda>states.
       record_check ''Prometheus targets'' (targets_up states)
         (dump_text '', '' '': '' fr (JObj (sort_key fst states)))))))))))"

definition target_expressions :: "json \<Rightarrow> string list res" where
  "target_expressions target =
     rbind (json_get target ''expr'' JNull) (\<lambda>e.
     if truthy e then rbind (json_to_str e) (\<lambda>s. Inr [s]) else Inr [])"

definition panel_expressions :: "json \<Rightarrow> string list res" where
  "panel_expressions panel =
     rbind (rbind (json_get panel ''targets'' (JList [])) json_to_list) (\<lambda>targets.
     rbind (map_res target_expressions targets) (\<lambda>ess. Inr (concat ess)))"

definition check_grafana :: "obs_args \<Rightarrow> (obs_state, unit) io" where
  "check_grafana a = guarded ''Grafana provisioning'' []
     (let headers = [(''Authorization'', ''Basic YWRtaW46YWRtaW4='')] in
      bnd (wait_for_url (oa_grafana a @ ''/api/health'') 200 60) (\<lambda>(status, health).
      sq (record_check ''Grafana health'' (status = 200) health)
      (bnd (obs_request ''GET'' (oa_grafana a @ ''/api/datasources/uid/ticketing-prometheus'') headers None 10) (\<lambda>(ds_status, datasource).
       bnd (obs_request ''GET'' (oa_grafana a @ ''/api/dashboards/uid/ticketing-phase10a'') headers None 10) (\<lambda>(db_status, dashboard).
       sq (record_check ''Grafana datasource provisioning''
         (ds_status = 200 \<and> contains datasource ''Prometheus'') (''HTTP '' @ int_str ds_status))
       (sq (record_check ''Grafana dashboard provisioning''
         (db_status = 200 \<and> contains dashboard ''Ticketing Phase 10A Observability'')
         (''HTTP '' @ int_str db_status))
       (bnd (loads dashboard) (\<lambda>value.
        bnd (of_res (rbind (json_at value [''dashboard'', ''panels'']) json_to_list)) (\<lambda>panels.
        bnd (of_res (map_res panel_expressions panels)) (\<lambda>ess.
        mod_st (\<lambda>s. s\<lparr>ob_expressions := concat ess\<rparr>)))))))))))"

definition privilege_sql :: string where
  "privilege_sql =
     (let table = (\<lambda>p. ''has_table_privilege('ticketing_metrics', format('%I.%I', table_schema, table_name), ''
            @ [quot] @ p @ [quot] @ '')'')
      in ''SELECT NOT COALESCE(bool_or('' @ table ''INSERT'' @ '' OR '' @ table ''UPDATE'' @ '' OR ''
        @ table ''DELETE''
        @ ''), false) FROM information_schema.tables WHERE table_schema='public';'')"

definition check_postgres :: "obs_args \<Rightarrow> (obs_state, unit) io" where
  "check_postgres a = guarded ''PostgreSQL checks'' []
     (let q = (\<lambda>sql. compose_psql (oa_compose_file a) sql False) in
      bnd (q (''SELECT current_setting('shared_preload_libraries'), ''
        @ ''current_setting('track_io_timing'), current_setting('log_lock_waits');'')) (\<lambda>settings.
      sq (record_check ''PostgreSQL observability settings''
        (settings = ''pg_stat_statements'' @ [tab] @ ''on'' @ [tab] @ ''on'') settings)
      (bnd (q ''SELECT extname FROM pg_extension WHERE extname='pg_stat_statements';'') (\<lambda>extension.
      sq (record_check ''pg_stat_statements extension'' (extension = ''pg_stat_statements'') extension)
      (bnd (q ''SELECT pg_has_role('ticketing_metrics', 'pg_monitor', 'member');'') (\<lambda>role.
       bnd (q privilege_sql) (\<lambda>no_writes.
       bnd (compose_psql (oa_compose_file a) ''SELECT count(*) >= 1 FROM pg_stat_activity;'' True) (\<lambda>monitor_read.
       sq (record_check ''ticketing_metrics permissions''
         (role = ''t'' \<and> no_writes = ''t'' \<and> monitor_read = ''t'')
         (''pg_monitor='' @ role @ '', no_business_writes='' @ no_writes @ '', read_stats='' @ monitor_read))
       (bnd (q (''SELECT count(*) FROM pg_stat_activity ''
          @ ''WHERE application_name='ticketing_backend_phase10a';'')) (\<lambda>backend_connections.
        bnd (q (''SELECT count(*) FROM pg_stat_activity ''
          @ ''WHERE application_name='ticketing_postgres_exporter';'')) (\<lambda>exporter_connections.
        bnd (if backend_connections = ''4''
             then bnd (of_res (py_int (str_or exporter_connections ''0''))) (\<lambda>n. ret (1 \<le> n))
             else ret False) (\<lambda>names_ok.
        sq (record_check ''PostgreSQL application names'' names_ok
          (''backend='' @ backend_connections @ '', exporter='' @ exporter_connections))
        (bnd (q ''SELECT count(*) > 0 FROM pg_stat_statements;'') (\<lambda>statements.
         record_check ''pg_stat_statements data'' (statements = ''t'') statements))))))))))))))"

definition check_redis :: "obs_args \<Rightarrow> (obs_state, unit) io" where
  "check_redis a = guarded ''Redis checks'' []
     (bnd (compose_redis (oa_compose_file a) [''INFO'', ''commandstats'']) (\<lambda>commandstats.
      bnd (compose_redis (oa_compose_file a) [''INFO'', ''latencystats'']) (\<lambda>latencystats.
      sq (record_check ''Redis commandstats'' (contains commandstats ''cmdstat_'')
        (nat_str (count_sub commandstats ''cmdstat_'') @ '' command rows''))
      (sq (record_check ''Redis latencystats'' (contains latencystats ''latency_percentiles_usec_'')
        (nat_str (count_sub latencystats ''latency_percentiles_usec_'') @ '' latency rows''))
      (bnd (fetch ''http://127.0.0.1:19121/metrics'') (\<lambda>(_, redis_metrics).
       record_check ''Redis exporter metrics''
         (contains redis_metrics ''redis_up 1'' \<and> contains redis_metrics ''redis_connected_clients'')
         ''redis_up and connected_clients present''))))))"

definition service_seen :: "string \<Rightarrow> string \<Rightarrow> bool" where
  "service_seen metrics service =
     (contains metrics (''container_label_com_docker_compose_project='' @ [dquot] @ ''ticketing-phase10a'' @ [dquot])
      \<and> contains metrics (''container_label_com_docker_compose_service='' @ [dquot] @ service @ [dquot]))"

definition bool_text :: "bool \<Rightarrow> string" where
  "bool_text b = (if b then ''True'' else ''False'')"

definition check_cadvisor :: "obs_args \<Rightarrow> (obs_state, unit) io" where
  "check_cadvisor a = guarded ''cAdvisor'' ''; use docker_stats_sampler.py''
     (bnd (obs_request ''GET'' (oa_cadvisor a @ ''/metrics'') [] None 20) (\<lambda>(_, metrics).
      let cpu_present = contains metrics ''container_cpu_usage_seconds_total'';
          memory_present = contains metrics ''container_memory_working_set_bytes'';
          services = map (\<lambda>service. (service, service_seen metrics service)) [''backend'', ''postgres'', ''redis''];
          cadvisor_ok = cpu_present \<and> memory_present \<and> list_all snd services in
      sq (record_check ''cAdvisor container recognition'' cadvisor_ok
        (''cpu='' @ bool_text cpu_present @ '', memory='' @ bool_text memory_present @ '', services={''
          @ join_with '', '' (map (\<lambda>(k, v). [quot] @ k @ [quot] @ '': '' @ bool_text v) services) @ ''}''))
      (whenever (\<not> cadvisor_ok)
        (say (''[FALLBACK] Run performance/scripts/docker_stats_sampler.py; ''
          @ ''cAdvisor recognition is a partial verification failure.'')))))"

definition check_dashboard :: "obs_args \<Rightarrow> (obs_state, unit) io" where
  "check_dashboard a = guarded ''Grafana dashboard query syntax'' []
     (bnd (get_st ob_expressions) (\<lambda>es.
      sq (for_io (\<lambda>e. bnd (obs_prometheus_query (oa_prometheus a) e) (\<lambda>_. ret ())) es)
      (record_check ''Grafana dashboard query syntax'' (es \<noteq> [])
        (''Prometheus accepted '' @ nat_str (length es) @ '' panel queries''))))"

definition panel_queries :: "(string \<times> string) list" where
  "panel_queries = [(''backend'', ''ticketing_http_requests_total''),
     (''postgres'', ''pg_stat_database_numbackends{datname='' @ [dquot] @ ''ticketing'' @ [dquot] @ ''}''),
     (''redis'', ''redis_connected_clients''),
     (''containers'', ''container_memory_working_set_bytes{container_label_com_docker_compose_project=''
        @ [dquot] @ ''ticketing-phase10a'' @ [dquot] @ ''}'')]"

fun json_len :: "json \<Rightarrow> nat res" where
  "json_len (JList xs) = Inr (length xs)"
| "json_len (JObj d) = Inr (length d)"
| "json_len (JStr s) = Inr (length s)"
| "json_len _ = Inl (Exn TypeError ''object has no len()'')"

definition check_panel :: "obs_args \<Rightarrow> string \<times> string \<Rightarrow> (obs_state, unit) io" where
  "check_panel a p = guarded (''Prometheus '' @ fst p @ '' panel data'') []
     (bnd (wait_for_prometheus_query (oa_prometheus a) (snd p) 20) (\<lambda>result.
      bnd (of_res (json_len result)) (\<lambda>n.
      record_check (''Prometheus '' @ fst p @ '' panel data'') (truthy result) (nat_str n @ '' series''))))"

definition run_checks :: "obs_args \<Rightarrow> (obs_state, unit) io" where
  "run_checks a =
     sq check_layout
     (sq (check_backend a)
     (sq (check_metrics a)
     (sq (check_exercise a)
     (sq (check_prometheus a)
     (sq (check_grafana a)
     (sq (check_postgres a)
     (sq (check_redis a)
     (sq (check_cadvisor a)
     (sq (check_dashboard a)
     (for_io (check_panel a) panel_queries))))))))))"

definition obs_main :: "obs_args \<Rightarrow> (obs_state, int) io" where
  "obs_main a =
     sq (mod_st (\<lambda>_. \<lparr>ob_failed = 0, ob_expressions = []\<rparr>))
     (sq (run_checks a)
     (bnd (get_st ob_failed) (\<lambda>failed.
      sq (say (nl # ''Verification result: '' @ (if failed = 0 then ''PASS'' else ''FAIL'') @ '' (''
        @ int_str failed @ '' failed check(s))''))
      (ret (if failed = 0 then 0 else 1)))))"

section \<open>Waiting\<close>

interpretation url: polling "url_probe url expected" for url expected
proof unfold_locales
  show "emits (\<lambda>_. True) (url_probe url expected x)" for url expected x
    unfolding url_probe_def fetch_def obs_request_def
    by (intro emits_intros) (auto intro: emits_intros split: http_result.split)
  show "halts_on w (url_probe url expected x)" for w url expected x
    unfolding url_probe_def fetch_def obs_request_def
    by (intro halts_intros) (auto intro: halts_intros split: http_result.split)
qed

lemma halts_obs_request [halts_intros]: "halts_on w (obs_request v u hs d t)"
  unfolding obs_request_def by (intro halts_intros) (auto intro: halts_intros split: http_result.split)

lemma halts_fetch [halts_intros]: "halts_on w (fetch u)"
  unfolding fetch_def by (rule halts_obs_request)

lemma emits_obs_request:
  "(\<And>rq r. ok (Requested rq r)) \<Longrightarrow> emits ok (obs_request v u hs d t)"
  unfolding obs_request_def by (intro emits_intros) (auto intro: emits_intros split: http_result.split)

lemma halts_obs_prometheus_query [halts_intros]: "halts_on w (obs_prometheus_query b e)"
  unfolding obs_prometheus_query_def by (intro halts_intros)

interpretation panel: polling "panel_probe base expr" for base expr
proof unfold_locales
  show "emits (\<lambda>_. True) (panel_probe base expr x)" for base expr x
    unfolding panel_probe_def obs_prometheus_query_def fetch_def
    by (intro emits_intros emits_obs_request) auto
  show "halts_on w (panel_probe base expr x)" for w base expr x
    unfolding panel_probe_def by (intro halts_intros)
qed

lemma halts_wait_for_url:
  assumes "clock_fair w" and "0 \<le> timeout" and "timeout + 1 \<le> int (w_fuel w)"
  shows "halts_on w (wait_for_url u expected timeout)"
proof -
  have "(of_int timeout :: rat) + 1 \<le> of_nat (w_fuel w) * 1" using assms(3)
    by (metis mult.right_neutral of_int_1 of_int_add of_int_le_iff of_int_of_nat_eq)
  then show ?thesis
    unfolding wait_for_url_def using assms(1,2)
    by (intro halts_intros url.poll_returns) (auto intro: halts_intros)
qed

lemma halts_wait_for_query:
  assumes "clock_fair w" and "0 \<le> timeout" and "timeout + 1 \<le> int (w_fuel w)"
  shows "halts_on w (wait_for_prometheus_query b e timeout)"
proof -
  have "(of_int timeout :: rat) + 1 \<le> of_nat (w_fuel w) * 1" using assms(3)
    by (metis mult.right_neutral of_int_1 of_int_add of_int_le_iff of_int_of_nat_eq)
  then show ?thesis
    unfolding wait_for_prometheus_query_def using assms(1,2)
    by (intro halts_intros panel.poll_returns) (auto intro: halts_intros)
qed

section \<open>What a run reports\<close>

text \<open>
  The failures counted are the FAIL lines printed, and every check of a group that ends has
  printed its PASS line or some FAIL line has been printed.
\<close>

fun fail_line :: "event \<Rightarrow> bool" where
  "fail_line (Printed t) = startswith t ''[FAIL] ''"
| "fail_line _ = False"

fun pass_line :: "string \<Rightarrow> event \<Rightarrow> bool" where
  "pass_line name (Printed t) = startswith t (''[PASS] '' @ name @ '': '')"
| "pass_line name _ = False"

definition counted :: "obs_state \<times> history \<Rightarrow> obs_state \<times> history \<Rightarrow> bool" where
  "counted sh sh' = (\<exists>t. snd sh' = snd sh @ t
     \<and> ob_failed (fst sh') = ob_failed (fst sh) + int (length (filter fail_line t)))"

interpretation counting: effect_relation counted "\<lambda>e. \<not> fail_line e"
proof unfold_locales
  show "counted sh sh" for sh by (simp add: counted_def)
  show "counted sh sh1 \<Longrightarrow> counted sh1 sh2 \<Longrightarrow> counted sh sh2" for sh sh1 sh2
    by (auto simp: counted_def)
  show "\<not> fail_line e \<Longrightarrow> counted (s, h) (s, h @ [e])" for e s h by (simp add: counted_def)
qed

lemma counted_record_check: "runs counted (record_check name passed detail)"
  by (auto simp: runs_def counted_def record_check_def say_def io_defs startswith_def)

lemma counted_guarded: "runs counted m \<Longrightarrow> runs counted (guarded name note m)"
  unfolding guarded_def by (intro counting.runs_try_except counted_record_check)

lemma counted_poll: "(\<And>x. runs counted (probe x)) \<Longrightarrow> runs counted (poll_until t d probe x)"
  by (rule counting.runs_poll_until) auto

lemma counted_requests:
  "runs counted (obs_request v u hs d t)" "runs counted (fetch u)"
  "runs counted (exec_checked argv)"
  unfolding fetch_def obs_request_def exec_checked_def
  by (intro counting.runs_rules; auto intro!: counting.runs_rules split: http_result.split)+

lemma counted_services:
  "runs counted (compose_psql f q mu)" "runs counted (compose_redis f xs)"
  "runs counted (obs_prometheus_query b e)" "runs counted (wait_for_url u n t)"
  "runs counted (wait_for_prometheus_query b e t)" "runs counted (exercise_redis_backed_paths b)"
  unfolding compose_psql_def compose_redis_def obs_prometheus_query_def wait_for_url_def
    wait_for_prometheus_query_def url_probe_def panel_probe_def exercise_redis_backed_paths_def Let_def
  by (intro counting.runs_rules counted_poll counted_requests; simp)+

lemmas check_defs = check_layout_def check_backend_def check_metrics_def check_families_def
  check_exercise_def check_prometheus_def check_grafana_def check_postgres_def check_redis_def
  check_cadvisor_def check_dashboard_def check_panel_def

lemmas counted_rules = counting.runs_rules counted_record_check counted_guarded counted_requests
  counted_services

lemma counted_add_expressions: "runs counted (mod_st (\<lambda>s. s\<lparr>ob_expressions := es\<rparr>))"
  by (rule counting.runs_mod_st) (simp add: counted_def)

lemmas counted_all = counted_rules counted_add_expressions

lemma counted_checks:
  "runs counted check_layout" "runs counted (check_backend a)" "runs counted (check_metrics a)"
  "runs counted (check_exercise a)" "runs counted (check_prometheus a)" "runs counted (check_grafana a)"
  "runs counted (check_postgres a)" "runs counted (check_redis a)" "runs counted (check_cadvisor a)"
  "runs counted (check_dashboard a)" "runs counted (check_panel a p)"
  unfolding check_defs Let_def by (intro counted_all; simp add: startswith_def)+

fun is_ret :: "'a outcome \<Rightarrow> bool" where
  "is_ret (Ret x) = True"
| "is_ret _ = False"

definition reported :: "string list \<Rightarrow> history \<Rightarrow> bool" where
  "reported names t = (list_ex fail_line t \<or> (\<forall>n \<in> set names. list_ex (pass_line n) t))"

definition covers :: "string list \<Rightarrow> (obs_state, 'a) io \<Rightarrow> bool" where
  "covers names m = (\<forall>w s h r s' h'. m w (s, h) = (r, s', h') \<longrightarrow>
     (\<exists>t. h' = h @ t \<and> (is_ret r \<longrightarrow> reported names t)))"

lemma reported_nil: "reported [] t"
  by (simp add: reported_def)

lemma reported_append: "reported a t \<Longrightarrow> reported b u \<Longrightarrow> reported (a @ b) (t @ u)"
  by (auto simp: reported_def)

lemma coversE:
  assumes "covers names m" and "m w (s, h) = (r, s', h')"
  obtains t where "h' = h @ t" and "is_ret r \<Longrightarrow> reported names t"
  using assms unfolding covers_def by blast

lemma covers_emits: "emits (\<lambda>_. True) m \<Longrightarrow> covers [] m"
  unfolding covers_def emits_def using reported_nil by blast

lemma covers_mono: "covers names m \<Longrightarrow> set names' \<subseteq> set names \<Longrightarrow> covers names' m"
  unfolding covers_def reported_def by (meson subsetD)

lemma covers_bnd:
  assumes m: "covers a m" and f: "\<And>x. covers b (f x)"
  shows "covers (a @ b) (bnd m f)"
  unfolding covers_def
proof (intro allI impI)
  fix w s h r s' h'
  assume run: "bnd m f w (s, h) = (r, s', h')"
  obtain r1 s1 h1 where m1: "m w (s, h) = (r1, s1, h1)" by (metis prod_cases3)
  from m m1 obtain t1 where t1: "h1 = h @ t1" "is_ret r1 \<Longrightarrow> reported a t1"
    by (rule coversE) blast
  show "\<exists>t. h' = h @ t \<and> (is_ret r \<longrightarrow> reported (a @ b) t)"
  proof (cases r1)
    case (Ret x)
    with run m1 have "f x w (s1, h1) = (r, s', h')" by (simp add: bnd_def)
    with f obtain t2 where "h' = h1 @ t2" "is_ret r \<Longrightarrow> reported b t2"
      by (rule coversE) blast
    with t1 Ret show ?thesis by (auto intro: reported_append)
  qed (use run m1 t1 in \<open>auto simp: bnd_def\<close>)
qed

lemma covers_sq: "covers a m \<Longrightarrow> covers b k \<Longrightarrow> covers (a @ b) (sq m k)"
  unfolding sq_def by (rule covers_bnd)

lemma covers_of_res_bnd: "(\<And>x. covers b (f x)) \<Longrightarrow> covers b (bnd (of_res r) f)"
  using covers_bnd [of "[]" "of_res r" b f] by (simp add: covers_emits emits_of_res)

lemma covers_record_check: "covers [name] (record_check name passed detail)"
  by (auto simp: covers_def reported_def record_check_def say_def io_defs startswith_def)

lemma covers_case_prod: "(\<And>a b. covers ns (m a b)) \<Longrightarrow> covers ns (case x of (a, b) \<Rightarrow> m a b)"
  by (cases x) auto

lemma covers_case_option:
  "covers ns m \<Longrightarrow> (\<And>y. covers ns (k y)) \<Longrightarrow> covers ns (case x of None \<Rightarrow> m | Some y \<Rightarrow> k y)"
  by (cases x) auto

lemma covers_guarded:
  assumes "covers ns m"
  shows "covers ns (guarded name note m)"
  unfolding covers_def
proof (intro allI impI)
  fix w s h r s' h'
  assume run: "guarded name note m w (s, h) = (r, s', h')"
  obtain r1 s1 h1 where m1: "m w (s, h) = (r1, s1, h1)" by (metis prod_cases3)
  from assms m1 obtain t1 where t1: "h1 = h @ t1" "is_ret r1 \<Longrightarrow> reported ns t1"
    by (rule coversE) blast
  show "\<exists>t. h' = h @ t \<and> (is_ret r \<longrightarrow> reported ns t)"
  proof (cases "\<exists>e. r1 = Raised e \<and> is_exception e")
    case True
    then have fails: "list_ex fail_line (drop (length h1) h')" and pre: "take (length h1) h' = h1"
      using run m1
      by (auto simp: guarded_def try_except_def record_check_def say_def io_defs startswith_def)
    from pre t1(1) have "h' = h @ t1 @ drop (length h1) h'"
      by (metis append.assoc append_take_drop_id)
    moreover from fails have "reported ns (t1 @ drop (length h1) h')" by (simp add: reported_def)
    ultimately show ?thesis by blast
  next
    case False
    then have "h' = h1 \<and> r = r1" using run m1
      by (cases r1) (auto simp: guarded_def try_except_def)
    with t1 show ?thesis by auto
  qed
qed

lemmas covers_rules = covers_of_res_bnd covers_guarded covers_record_check covers_bnd covers_sq
  covers_case_prod covers_case_option

definition family_checks :: "string list" where
  "family_checks = [''backend metric families'', ''2xx normalized route'', ''401 counted as 4xx'',
     ''parameterized route normalized'', ''unmatched route bounded'', ''health and metrics excluded'',
     ''bounded metric labels'', ''in-flight returned to zero'']"

lemma emits_exec_checked: "(\<And>argv i e r. ok (Ran argv i e r)) \<Longrightarrow> emits ok (exec_checked argv)"
  unfolding exec_checked_def by (intro emits_intros)

lemma emits_services:
  "emits (\<lambda>_. True) (compose_psql f q mu)" "emits (\<lambda>_. True) (compose_redis f xs)"
  "emits (\<lambda>_. True) (fetch u)" "emits (\<lambda>_. True) (obs_prometheus_query b e)"
  "emits (\<lambda>_. True) (wait_for_url u n t)" "emits (\<lambda>_. True) (wait_for_prometheus_query b e t)"
  "emits (\<lambda>_. True) (exercise_redis_backed_paths b)"
  unfolding compose_psql_def compose_redis_def obs_prometheus_query_def wait_for_url_def fetch_def
    wait_for_prometheus_query_def url_probe_def panel_probe_def exercise_redis_backed_paths_def
    Let_def poll_until_def
  by (intro emits_intros emits_obs_request emits_exec_checked; simp)+

lemmas covers_quiet = covers_emits [OF emits_services(1)] covers_emits [OF emits_services(2)]
  covers_emits [OF emits_services(3)] covers_emits [OF emits_services(4)]
  covers_emits [OF emits_services(5)] covers_emits [OF emits_services(6)]
  covers_emits [OF emits_services(7)]

lemma covers_families: "covers family_checks (check_families a b c d m)"
  unfolding check_families_def
  by (rule covers_mono, (rule covers_rules)+) (simp add: family_checks_def)

definition postgres_checks :: "string list" where
  "postgres_checks = [''PostgreSQL observability settings'', ''pg_stat_statements extension'',
     ''ticketing_metrics permissions'', ''PostgreSQL application names'', ''pg_stat_statements data'']"

definition all_checks :: "string list" where
  "all_checks = [''performance directory layout'', ''backend health''] @ family_checks
     @ [''Redis-backed API exercise'', ''Prometheus readiness'', ''Prometheus targets'', ''Grafana health'',
        ''Grafana datasource provisioning'', ''Grafana dashboard provisioning''] @ postgres_checks
     @ [''Redis commandstats'', ''Redis latencystats'', ''Redis exporter metrics'',
        ''cAdvisor container recognition'', ''Grafana dashboard query syntax'',
        ''Prometheus backend panel data'', ''Prometheus postgres panel data'',
        ''Prometheus redis panel data'', ''Prometheus containers panel data'']"

lemma covers_checks:
  "covers [''performance directory layout''] check_layout"
  "covers [''backend health''] (check_backend a)"
  "covers family_checks (check_metrics a)"
  "covers [''Redis-backed API exercise''] (check_exercise a)"
  "covers [''Prometheus readiness'', ''Prometheus targets''] (check_prometheus a)"
  "covers [''Grafana health'', ''Grafana datasource provisioning'', ''Grafana dashboard provisioning''] (check_grafana a)"
  "covers postgres_checks (check_postgres a)"
  "covers [''Redis commandstats'', ''Redis latencystats'', ''Redis exporter metrics''] (check_redis a)"
  "covers [''cAdvisor container recognition''] (check_cadvisor a)"
  "covers [''Grafana dashboard query syntax''] (check_dashboard a)"
  "covers [''Prometheus '' @ fst p @ '' panel data''] (check_panel a p)"
  unfolding check_layout_def check_backend_def check_metrics_def check_exercise_def check_prometheus_def
    check_grafana_def check_postgres_def check_redis_def check_cadvisor_def check_dashboard_def
    check_panel_def Let_def postgres_checks_def
  by (rule covers_mono, (rule covers_rules covers_quiet covers_families
      | rule covers_emits, (intro emits_intros emits_obs_request emits_services; simp))+, simp)+

lemma covers_for_io:
  "(\<And>x. covers (f x) (g x)) \<Longrightarrow> covers (concat (map f xs)) (for_io g xs)"
  by (induction xs) (auto intro: covers_sq covers_emits emits_intros)

lemma covers_run: "covers all_checks (run_checks a)"
  unfolding run_checks_def
  by (rule covers_mono, (rule covers_checks covers_rules covers_for_io)+)
    (simp add: all_checks_def panel_queries_def)

lemma counted_run: "runs counted (run_checks a)"
  unfolding run_checks_def by (intro counting.runs_rules counted_checks)

lemma obs_main_reports:
  assumes "obs_main a w (s, h) = (Ret c, s', h')"
  shows "\<exists>t. h' = h @ t \<and> c = (if list_ex fail_line t then 1 else 0) \<and> reported all_checks t"
proof -
  obtain r s1 h1 where run: "run_checks a w (\<lparr>ob_failed = 0, ob_expressions = []\<rparr>, h) = (r, s1, h1)"
    by (metis prod_cases3)
  from runsD [OF counted_run run] obtain t where t: "h1 = h @ t"
    and n: "ob_failed s1 = int (length (filter fail_line t))" by (auto simp: counted_def)
  from assms run have r: "r = Ret ()"
    by (cases r) (auto simp: obs_main_def io_defs)
  with coversE [OF covers_run run] t have rep: "reported all_checks t" by (metis is_ret.simps(1) same_append_eq)
  let ?line = "Printed (nl # ''Verification result: '' @ (if ob_failed s1 = 0 then ''PASS'' else ''FAIL'') @ '' (''
        @ int_str (ob_failed s1) @ '' failed check(s))'')"
  have main: "c = (if ob_failed s1 = 0 then 0 else 1)" "h' = h @ t @ [?line]"
    using assms run r t by (auto simp: obs_main_def say_def io_defs)
  have "\<not> fail_line ?line" by (simp add: startswith_def)
  with rep have "reported all_checks (t @ [?line])" "list_ex fail_line (t @ [?line]) = list_ex fail_line t"
    by (auto simp: reported_def)
  moreover have "ob_failed s1 = 0 \<longleftrightarrow> \<not> list_ex fail_line t"
    using n by (auto simp: filter_empty_conv list_ex_iff)
  ultimately show ?thesis using main by auto
qed

section \<open>Every run ends\<close>

lemma calm_record_check [calm_intros]: "calm (record_check name p d)"
  unfolding record_check_def by (intro calm_intros)

lemma calm_guarded [calm_intros]: "calm (guarded name note m)"
  unfolding guarded_def by (intro calm_intros)

lemma calm_run: "calm (run_checks a)"
  unfolding run_checks_def check_backend_def check_metrics_def check_exercise_def check_prometheus_def
    check_grafana_def check_postgres_def check_redis_def check_cadvisor_def check_dashboard_def
    check_panel_def check_layout_def exists_path_def
  by (intro calm_intros)

lemma halts_record_check [halts_intros]: "halts_on w (record_check name p d)"
  unfolding record_check_def by (intro halts_intros)

lemma halts_guarded [halts_intros]: "halts_on w m \<Longrightarrow> halts_on w (guarded name note m)"
  unfolding guarded_def by (intro halts_intros)

lemma halts_commands [halts_intros]:
  "halts_on w (compose_psql f q mu)" "halts_on w (compose_redis f xs)"
  "halts_on w (exercise_redis_backed_paths b)"
  unfolding compose_psql_def compose_redis_def exec_checked_def exercise_redis_backed_paths_def Let_def
  by (intro halts_intros)+

lemma halts_run:
  assumes "clock_fair w" and "61 \<le> w_fuel w"
  shows "halts_on w (run_checks a)"
proof -
  have urls: "halts_on w (wait_for_url u 200 60)" for u :: string
    using assms by (intro halts_wait_for_url) auto
  have panels: "halts_on w (wait_for_prometheus_query b e 20)" for b e :: string
    using assms by (intro halts_wait_for_query) auto
  show ?thesis
    unfolding run_checks_def check_defs Let_def by (intro halts_intros urls panels)
qed

lemma obs_main_ends:
  assumes "clock_fair w" and "61 \<le> w_fuel w"
  shows "fst (obs_main a w sh) \<in> {Ret 0, Ret 1}
     \<or> (\<exists>e. fst (obs_main a w sh) = Raised e \<and> \<not> is_exception e)"
proof -
  obtain s h where sh: "sh = (s, h)" by fastforce
  obtain r s1 h1 where run: "run_checks a w (\<lparr>ob_failed = 0, ob_expressions = []\<rparr>, h) = (r, s1, h1)"
    by (metis prod_cases3)
  with halts_onD [OF halts_run [OF assms]] have "r \<noteq> Diverged" by blast
  with run sh calmD [OF calm_run, of a w _ _ "(s1, h1)"] show ?thesis
    by (cases r) (auto simp: obs_main_def say_def io_defs)
qed

lemma search_code [code]:
  "search m [] = m []"
  "search m (c # cs) = (if m (c # cs) then True else search m cs)"
  by auto

lemma after_gap_code [code]:
  "after_gap lit k [] = (if lit = [] then k [] else False)"
  "after_gap lit k (c # cs) =
     (if (if startswith (c # cs) lit then k (drop (length lit) (c # cs)) else False) then True
      else if c = CHR ''}'' then False else after_gap lit k cs)"
  by auto

section \<open>The language of the metric pattern\<close>

lemma after_gap_iff:
  "after_gap lit k s \<longleftrightarrow> (\<exists>g rest. s = g @ lit @ rest \<and> CHR ''}'' \<notin> set g \<and> k rest)"
proof (induction s)
  case Nil
  then show ?case by auto
next
  case (Cons c cs)
  have "startswith (c # cs) lit \<and> k (drop (length lit) (c # cs)) \<longleftrightarrow> (\<exists>rest. c # cs = lit @ rest \<and> k rest)"
    by (auto simp: startswith_def) (metis append_take_drop_id)
  moreover have "(\<exists>g rest. c # cs = g @ lit @ rest \<and> CHR ''}'' \<notin> set g \<and> k rest) \<longleftrightarrow>
      (\<exists>rest. c # cs = lit @ rest \<and> k rest)
      \<or> (c \<noteq> CHR ''}'' \<and> (\<exists>g rest. cs = g @ lit @ rest \<and> CHR ''}'' \<notin> set g \<and> k rest))"
    (is "?L \<longleftrightarrow> ?A \<or> ?B")
  proof
    assume ?L
    then obtain g rest where g: "c # cs = g @ lit @ rest" "CHR ''}'' \<notin> set g" "k rest" by blast
    then show "?A \<or> ?B" by (cases g) auto
  next
    assume "?A \<or> ?B"
    then show ?L
    proof
      assume ?A then show ?L by (metis append_Nil empty_iff list.set(1))
    next
      assume ?B
      then obtain g rest where "cs = g @ lit @ rest" "CHR ''}'' \<notin> set g" "k rest" "c \<noteq> CHR ''}''" by blast
      then show ?L by (intro exI [of _ "c # g"] exI [of _ rest]) auto
    qed
  qed
  ultimately show ?case using Cons.IH by simp
qed

lemma search_iff: "search m s \<longleftrightarrow> (\<exists>a b. s = a @ b \<and> m b)"
proof (induction s)
  case (Cons c cs)
  have "(\<exists>a b. c # cs = a @ b \<and> m b) \<longleftrightarrow> m (c # cs) \<or> (\<exists>a b. cs = a @ b \<and> m b)"
    by (auto simp: Cons_eq_append_conv)
  then show ?case using Cons.IH by simp
qed simp

lemma sample_value_iff:
  "sample_value s \<longleftrightarrow> (\<exists>sp c rest. s = sp @ c # rest \<and> sp \<noteq> [] \<and> list_all is_space sp \<and> number_char c)"
proof
  assume v: "sample_value s"
  obtain c rest where d: "dropWhile is_space s = c # rest"
    using v by (auto simp: sample_value_def split: list.splits)
  moreover have "s = takeWhile is_space s @ dropWhile is_space s" by simp
  moreover have "takeWhile is_space s \<noteq> []" using v d
    by (cases s) (auto simp: sample_value_def)
  moreover have "list_all is_space (takeWhile is_space s)" by (auto simp: list_all_iff dest: set_takeWhileD)
  moreover have "number_char c" using v d by (simp add: sample_value_def)
  ultimately show "\<exists>sp c rest. s = sp @ c # rest \<and> sp \<noteq> [] \<and> list_all is_space sp \<and> number_char c" by metis
next
  assume "\<exists>sp c rest. s = sp @ c # rest \<and> sp \<noteq> [] \<and> list_all is_space sp \<and> number_char c"
  then obtain sp c rest where s: "s = sp @ c # rest" "sp \<noteq> []" "list_all is_space sp" "number_char c" by blast
  have "\<not> is_space c" using s(4) by (auto simp: number_char_def is_digit_def is_space_def char_between_def Let_def)
  with s have "dropWhile is_space s = c # rest" by (auto simp: list_all_iff dropWhile_append2)
  with s show "sample_value s" by (cases sp) (auto simp: sample_value_def)
qed

section \<open>Properties\<close>

text \<open>A stack in which every check passes.\<close>

definition healthy_metrics :: string where
  "healthy_metrics = concat (map (\<lambda>(r, c). ''ticketing_http_requests_total{route='' @ [dquot] @ r @ [dquot]
        @ ''status_class='' @ [dquot] @ c @ [dquot] @ ''} 3'')
      [(''/events'', ''2xx''), (''/orders'', ''4xx''), (''/orders/{orderId}'', ''4xx''), (''__unmatched__'', ''4xx'')])
    @ ''ticketing_http_request_duration_seconds'' @ [nl] @ ''ticketing_http_requests_in_flight 0''"

definition redis_metrics_text :: string where
  "redis_metrics_text = ''redis_up 1 redis_connected_clients''"

definition container_metrics_text :: string where
  "container_metrics_text = ''container_cpu_usage_seconds_totalcontainer_memory_working_set_bytes''
    @ ''container_label_com_docker_compose_project='' @ [dquot] @ ''ticketing-phase10a'' @ [dquot]
    @ concat (map (\<lambda>x. ''container_label_com_docker_compose_service='' @ [dquot] @ x @ [dquot])
        [''backend'', ''postgres'', ''redis''])"

definition healthy_http :: "http_req \<Rightarrow> http_result res" where
  "healthy_http rq =
     (let u = hr_url rq in
      if endswith u ''/orders'' \<or> contains u ''/orders/TKT'' then Inr (HttpError 401 [])
      else if endswith u ''-smoke'' then Inr (HttpError 404 [])
      else if endswith u ''18080/metrics'' then Inr (Response 200 healthy_metrics)
      else if endswith u ''18081/metrics'' then Inr (Response 200 container_metrics_text)
      else if endswith u ''/metrics'' then Inr (Response 200 redis_metrics_text)
      else if endswith u ''prometheus'' then Inr (Response 200 ''Prometheus'')
      else if endswith u ''phase10a'' then Inr (Response 200 ''Ticketing Phase 10A Observability'')
      else if endswith u ''targets'' then Inr (Response 200 ''targets'')
      else Inr (Response 200 ''query''))"

definition healthy_parser :: "string \<Rightarrow> json res" where
  "healthy_parser t =
     (if t = ''targets'' then Inr (JObj [(''data'', JObj [(''activeTargets'', JList (map (\<lambda>j.
          JObj [(''labels'', JObj [(''job'', JStr j)]), (''health'', JStr ''up'')]) expected_jobs))])])
      else if t = ''query'' then Inr (JObj [(''data'', JObj [(''result'', JList [JInt 1])])])
      else Inr (JObj [(''dashboard'', JObj [(''panels'', JList [JObj [(''targets'',
          JList [JObj [(''expr'', JStr ''up'')]])]])])]))"

definition healthy_run :: "string list \<Rightarrow> proc res" where
  "healthy_run argv =
     (let q = last argv;
          out = (if startswith q ''SELECT current_setting'' then ''pg_stat_statements'' @ [tab] @ ''on'' @ [tab] @ ''on''
                 else if startswith q ''SELECT extname'' then ''pg_stat_statements''
                 else if startswith q ''SELECT count(*) FROM'' then ''4''
                 else if q = ''commandstats'' then ''cmdstat_get''
                 else if q = ''latencystats'' then ''latency_percentiles_usec_get'' else ''t'')
      in Inr \<lparr>p_rc = 0, p_out = out, p_err = []\<rparr>)"

definition healthy_world :: world where
  "healthy_world = quiet_world\<lparr>w_http := \<lambda>h. healthy_http, w_loads := healthy_parser,
     w_run := \<lambda>h argv i. healthy_run argv\<rparr>"

definition clean_state :: obs_state where
  "clean_state = \<lparr>ob_failed = 0, ob_expressions = []\<rparr>"

text \<open>
  \textbf{C24.} The verification returns one exactly when it printed a FAIL line, and it returns
  zero only after every one of the thirty named checks printed its PASS line: no exception in a
  group of checks can make a check vanish from the verdict.
\<close>

theorem obs_exit_code:
  assumes "obs_main a w (s, h) = (Ret c, s', h')"
  shows "\<exists>t. h' = h @ t \<and> c = (if list_ex fail_line t then 1 else 0)
     \<and> (c = 0 \<longrightarrow> (\<forall>name \<in> set all_checks. list_ex (pass_line name) t))"
  using obs_main_reports [OF assms] by (auto simp: reported_def)

lemma healthy_run_passes: "fst (obs_main (default_obs_args ''/repo'') healthy_world (clean_state, [])) = Ret 0"
  by code_simp

theorem obs_exit_code_witness:
  "\<exists>s' t. obs_main (default_obs_args ''/repo'') healthy_world (clean_state, []) = (Ret 0, s', t)
     \<and> length all_checks = 30 \<and> list_ex (pass_line ''ticketing_metrics permissions'') t"
proof -
  obtain s' t where run: "obs_main (default_obs_args ''/repo'') healthy_world (clean_state, []) = (Ret 0, s', t)"
    using healthy_run_passes by (metis fst_conv prod_cases3)
  from obs_exit_code [OF run] have "list_ex (pass_line ''ticketing_metrics permissions'') t"
    by (simp add: all_checks_def postgres_checks_def)
  moreover have "length all_checks = 30" by (simp add: all_checks_def family_checks_def postgres_checks_def)
  ultimately show ?thesis using run by blast
qed

text \<open>
  With a clock that never goes back and a sleep that lasts, the verification always
  ends with exit code zero or one, whatever the services answer: nothing that \<open>except Exception\<close>
  catches escapes, and sixty-one iterations of fuel are enough for its deadlines.
\<close>

lemma obs_run_ends:
  assumes "clock_fair w" and "61 \<le> w_fuel w"
  shows "fst (obs_main a w sh) \<in> {Ret 0, Ret 1}
     \<or> (\<exists>e. fst (obs_main a w sh) = Raised e \<and> \<not> is_exception e)"
  using obs_main_ends [OF assms] .

lemma obs_run_ends_witness:
  "fst (obs_main (default_obs_args ''/repo'') quiet_world (clean_state, [])) \<in> {Ret 0, Ret 1}
     \<or> (\<exists>e. fst (obs_main (default_obs_args ''/repo'') quiet_world (clean_state, [])) = Raised e \<and> \<not> is_exception e)"
  by (rule obs_run_ends [OF quiet_clock_fair]) (simp add: quiet_world_def)

text \<open>
  The matcher of the request counter finds exactly the texts that contain a sample of
  the counter with the route and then the status class among labels without a closing brace,
  followed by whitespace and a number.
\<close>

lemma route_metric_exact:
  "route_metric route cls metrics \<longleftrightarrow> (\<exists>before l1 l2 l3 sp c after.
     metrics = before @ ''ticketing_http_requests_total{'' @ l1 @ (''route='' @ [dquot] @ route @ [dquot])
       @ l2 @ (''status_class='' @ [dquot] @ cls @ [dquot]) @ l3 @ ''}'' @ sp @ c # after
     \<and> CHR ''}'' \<notin> set l1 \<and> CHR ''}'' \<notin> set l2 \<and> CHR ''}'' \<notin> set l3
     \<and> sp \<noteq> [] \<and> list_all is_space sp \<and> number_char c)"
proof -
  define lit r q where defs: "lit = ''ticketing_http_requests_total{''" "r = ''route='' @ [dquot] @ route @ [dquot]"
    "q = ''status_class='' @ [dquot] @ cls @ [dquot]"
  have at: "startswith b lit \<and> P (drop (length lit) b) \<longleftrightarrow> (\<exists>t. b = lit @ t \<and> P t)" for b and P :: "string \<Rightarrow> bool"
    unfolding startswith_def by (metis append_eq_conv_conj append_take_drop_id)
  have labels: "after_gap r (after_gap q (after_gap ''}'' sample_value)) t \<longleftrightarrow> (\<exists>l1 l2 l3 sp c after. t = l1 @ r @ l2 @ q @ l3 @ ''}'' @ sp @ c # after
      \<and> CHR ''}'' \<notin> set l1 \<and> CHR ''}'' \<notin> set l2 \<and> CHR ''}'' \<notin> set l3
      \<and> sp \<noteq> [] \<and> list_all is_space sp \<and> number_char c)" for t
    unfolding after_gap_iff sample_value_iff by blast
  have "route_metric route cls metrics \<longleftrightarrow> (\<exists>a t. metrics = a @ lit @ t \<and> after_gap r (after_gap q (after_gap ''}'' sample_value)) t)"
    unfolding route_metric_def search_iff defs [symmetric] at by blast
  also have "\<dots> \<longleftrightarrow> (\<exists>before l1 l2 l3 sp c after. metrics = before @ lit @ l1 @ r @ l2 @ q @ l3 @ ''}'' @ sp @ c # after
      \<and> CHR ''}'' \<notin> set l1 \<and> CHR ''}'' \<notin> set l2 \<and> CHR ''}'' \<notin> set l3
      \<and> sp \<noteq> [] \<and> list_all is_space sp \<and> number_char c)"
    unfolding labels by blast
  finally show ?thesis unfolding defs by (simp only: append_assoc)
qed

end
