(* ===== verification/Verify_Database.thy ===== *)
theory Verify_Database
  imports Py_IO
begin

text \<open>
  \<open>performance/verification/verify_database.py\<close>: the verifier of the database invariants. It
  pipes \<open>verify.sql\<close> into psql, reads one line of name and count per check, and fails when a
  check is missing, unknown, repeated, malformed or has violations.
\<close>

section \<open>The program\<close>

definition expected_checks :: "string list" where
  "expected_checks = [''effective_seat_overlap'', ''active_reservation_seat_mismatch'',
     ''held_seat_owner_mismatch'', ''confirmed_state_mismatch'', ''sold_state_mismatch'',
     ''order_reservation_status_mismatch'', ''order_paid_at_mismatch'', ''order_amount_mismatch'',
     ''terminal_reservation_still_holds'', ''accepted_payment_mismatch'',
     ''unaccepted_success_refund_mismatch'', ''multiple_processing_attempts'', ''multiple_refunds'',
     ''refund_order_or_amount_mismatch'']"

text \<open>The text of a list of names (without quotes or backslashes in them).\<close>

definition names_text :: "string list \<Rightarrow> string" where
  "names_text xs = ''['' @ join_with '', '' (map (\<lambda>x. [quot] @ x @ [quot]) xs) @ '']''"

definition violation_count :: "string \<Rightarrow> string \<Rightarrow> int res" where
  "violation_count name raw_count = (case py_int raw_count of
      Inr n \<Rightarrow> Inr n
    | Inl e \<Rightarrow> Inl (Exn ValueError (''invalid violation count for '' @ name @ '': '' @ raw_count)))"

definition add_check :: "(string \<times> int) list \<Rightarrow> nat \<times> string \<Rightarrow> (string \<times> int) list res" where
  "add_check result numbered =
     (if py_strip (snd numbered) = [] then Inr result
      else case split_on tab (snd numbered) of
        [name, raw_count] \<Rightarrow>
          rbind (require (\<not> dhas result name) ValueError (''duplicate verifier check: '' @ name)) (\<lambda>_.
          rbind (violation_count name raw_count) (\<lambda>n.
          rbind (require (0 \<le> n) ValueError (''negative violation count for '' @ name)) (\<lambda>_.
          Inr (dset result name n))))
      | _ \<Rightarrow> Inl (Exn ValueError (''invalid verifier row '' @ nat_str (fst numbered) @ '': '' @ snd numbered)))"

definition parse_verifier_output :: "string \<Rightarrow> (string \<times> int) list res" where
  "parse_verifier_output output =
     rbind (fold_res add_check [] (enumerate 1 (splitlines output))) (\<lambda>result.
     let missing = filter (\<lambda>k. \<not> dhas result k) expected_checks;
         extra = filter (\<lambda>k. k \<notin> set expected_checks) (dkeys result)
     in rbind (require (missing = [] \<and> extra = []) ValueError
          (''verifier check set mismatch: missing='' @ names_text (sort missing)
            @ '', extra='' @ names_text (sort extra))) (\<lambda>_.
        Inr result))"

definition verifier_argv :: "string \<Rightarrow> string list" where
  "verifier_argv compose_file =
     [''docker'', ''compose'', ''-p'', ''ticketing-phase10a'', ''-f'', compose_file, ''exec'', ''-T'',
      ''postgres'', ''psql'', ''-U'', ''ticketing'', ''-d'', ''ticketing'', ''-v'', ''ON_ERROR_STOP=1'',
      ''-At'', ''-F'', [tab]]"

definition execute_verifier :: "string \<Rightarrow> string \<Rightarrow> ('s, string) io" where
  "execute_verifier compose_file sql_file =
     bnd (read_text sql_file) (\<lambda>sql.
     bnd (run_proc (verifier_argv compose_file) (Some sql) []) (\<lambda>completed.
     if p_rc completed \<noteq> 0
     then raise (Exn RuntimeError (str_or (py_strip (p_err completed)) (py_strip (p_out completed))))
     else ret (p_out completed)))"

definition report_check :: "(string \<times> int) list \<Rightarrow> bool \<Rightarrow> string \<Rightarrow> ('s, bool) io" where
  "report_check checks failed name =
     bnd (of_res (dindex checks name)) (\<lambda>n.
     sq (say (''['' @ (if n = 0 then ''PASS'' else ''FAIL'') @ ''] '' @ name @ '': violation_count='' @ int_str n))
     (ret (failed \<or> n \<noteq> 0)))"

definition report_checks :: "(string \<times> int) list \<Rightarrow> ('s, int) io" where
  "report_checks checks =
     bnd (fold_io (report_check checks) False (sort (dkeys checks))) (\<lambda>failed.
     ret (if failed then 1 else 0))"

definition verify_main :: "string \<Rightarrow> string \<Rightarrow> ('s, int) io" where
  "verify_main compose_file sql_file =
     bnd (try_except (caught_by [OSError, RuntimeError, ValueError])
       (bnd (execute_verifier compose_file sql_file) (\<lambda>output.
        bnd (of_res (parse_verifier_output output)) (\<lambda>checks. ret (Some checks))))
       (\<lambda>e. sq (say_err (''[FAIL] verifier execution: '' @ exn_msg e)) (ret None)))
     (\<lambda>r. case r of None \<Rightarrow> ret 1 | Some checks \<Rightarrow> report_checks checks)"

section \<open>The reports that are accepted\<close>

text \<open>
  The reference reading of a report: each line that is not blank is a name and a count, the
  names are exactly the expected checks, each once, and no count is negative.
\<close>

definition read_row :: "string \<Rightarrow> (string \<times> int) option" where
  "read_row line = (case split_on tab line of
      [name, raw_count] \<Rightarrow> (case py_int raw_count of Inr n \<Rightarrow> Some (name, n) | Inl _ \<Rightarrow> None)
    | _ \<Rightarrow> None)"

definition report_rows :: "string \<Rightarrow> (string \<times> int) option list" where
  "report_rows output = map read_row (filter (\<lambda>l. py_strip l \<noteq> []) (splitlines output))"

lemma update_fresh: "\<not> dhas d k \<Longrightarrow> dset d k v = d @ [(k, v)]"
  by (induction d) (auto simp: dhas_def split: if_splits)

lemma violation_count_Inr: "violation_count name raw = Inr n \<longleftrightarrow> py_int raw = Inr n"
  by (auto simp: violation_count_def split: sum.splits)

lemma add_check_Inr:
  "add_check d (i, line) = Inr d' \<longleftrightarrow>
     (if py_strip line = [] then d' = d
      else \<exists>name n. read_row line = Some (name, n) \<and> \<not> dhas d name \<and> 0 \<le> n \<and> d' = d @ [(name, n)])"
  by (auto simp: add_check_def read_row_def res_simps violation_count_Inr update_fresh
      split: list.splits sum.splits)

lemma fold_checks_Inr:
  "fold_res add_check d (enumerate i lines) = Inr d' \<longleftrightarrow>
     (\<exists>e. d' = d @ e \<and> map read_row (filter (\<lambda>l. py_strip l \<noteq> []) lines) = map Some e
        \<and> distinct (dkeys e) \<and> (\<forall>k \<in> set (dkeys e). \<not> dhas d k) \<and> (\<forall>p \<in> set e. 0 \<le> snd p))"
proof (induction lines arbitrary: i d)
  case (Cons line lines)
  show ?case
  proof (cases "py_strip line = []")
    case True
    then have "add_check d (i, line) = Inr d" by (simp add: add_check_def)
    with True Cons.IH show ?thesis by simp
  next
    case False
    have has: "dhas (d @ [(name, n)]) k \<longleftrightarrow> dhas d k \<or> k = name" for name n k
      by (auto simp: dhas_iff)
    have "fold_res add_check d (enumerate i (line # lines)) = Inr d' \<longleftrightarrow>
        (\<exists>name n. read_row line = Some (name, n) \<and> \<not> dhas d name \<and> 0 \<le> n
          \<and> fold_res add_check (d @ [(name, n)]) (enumerate (Suc i) lines) = Inr d')"
      using False by (auto simp: rbind_Inr_iff add_check_Inr)
    also have "\<dots> \<longleftrightarrow> (\<exists>e. d' = d @ e
        \<and> map read_row (filter (\<lambda>l. py_strip l \<noteq> []) (line # lines)) = map Some e
        \<and> distinct (dkeys e) \<and> (\<forall>k \<in> set (dkeys e). \<not> dhas d k) \<and> (\<forall>p \<in> set e. 0 \<le> snd p))" (is "?L \<longleftrightarrow> ?R")
    proof
      assume ?L
      then obtain name n e where "read_row line = Some (name, n)" "\<not> dhas d name" "0 \<le> n"
        "d' = d @ [(name, n)] @ e" "map read_row (filter (\<lambda>l. py_strip l \<noteq> []) lines) = map Some e"
        "distinct (dkeys e)" "\<forall>k \<in> set (dkeys e). \<not> dhas d k \<and> k \<noteq> name" "\<forall>p \<in> set e. 0 \<le> snd p"
        unfolding Cons.IH has by auto
      then show ?R using False by (intro exI [of _ "(name, n) # e"]) auto
    next
      assume ?R
      then obtain e where e: "d' = d @ e" "distinct (dkeys e)" "\<forall>k \<in> set (dkeys e). \<not> dhas d k"
        "\<forall>p \<in> set e. 0 \<le> snd p" "read_row line # map read_row (filter (\<lambda>l. py_strip l \<noteq> []) lines) = map Some e"
        using False by auto
      then obtain p e' where "e = p # e'" by (cases e) auto
      moreover obtain name n where "p = (name, n)" by fastforce
      ultimately show ?L using e unfolding Cons.IH has by auto
    qed
    finally show ?thesis .
  qed
qed auto

lemma parse_verifier_Inr:
  "parse_verifier_output output = Inr d \<longleftrightarrow> report_rows output = map Some d \<and> distinct (dkeys d)
     \<and> set (dkeys d) = set expected_checks \<and> (\<forall>p \<in> set d. 0 \<le> snd p)"
proof -
  have "filter (\<lambda>k. \<not> dhas d k) expected_checks = [] \<and> filter (\<lambda>k. k \<notin> set expected_checks) (dkeys d) = []
      \<longleftrightarrow> set (dkeys d) = set expected_checks"
    unfolding filter_empty_conv dhas_iff by blast
  then have "parse_verifier_output output = Inr d \<longleftrightarrow>
      fold_res add_check [] (enumerate 1 (splitlines output)) = Inr d \<and> set (dkeys d) = set expected_checks"
    unfolding parse_verifier_output_def Let_def rbind_Inr_iff require_Inr_iff by blast
  then show ?thesis unfolding fold_checks_Inr report_rows_def dhas_def by auto
qed

lemma report_checks_result:
  assumes "distinct (dkeys d)"
  shows "\<exists>t. report_checks d w (s, h) = (Ret (if \<forall>p \<in> set d. snd p = 0 then 0 else 1), s, h @ t)
     \<and> list_all (\<lambda>e. \<exists>l. e = Printed l) t"
proof -
  have fold: "set ks \<subseteq> set (dkeys d) \<Longrightarrow> \<exists>t. fold_io (report_check d) b ks w (s, h)
      = (Ret (b \<or> (\<exists>k \<in> set ks. map_of d k \<noteq> Some 0)), s, h @ t) \<and> list_all (\<lambda>e. \<exists>l. e = Printed l) t" for b ks h
  proof (induction ks arbitrary: b h)
    case (Cons k ks)
    then obtain n where n: "map_of d k = Some n"
      by (cases "map_of d k") (auto simp: map_of_eq_None_iff)
    let ?e = "Printed (''['' @ (if n = 0 then ''PASS'' else ''FAIL'') @ ''] '' @ k @ '': violation_count='' @ int_str n)"
    obtain t where "fold_io (report_check d) (b \<or> n \<noteq> 0) ks w (s, h @ [?e])
        = (Ret ((b \<or> n \<noteq> 0) \<or> (\<exists>k \<in> set ks. map_of d k \<noteq> Some 0)), s, (h @ [?e]) @ t)"
        "list_all (\<lambda>e. \<exists>l. e = Printed l) t"
      using Cons.IH [of "b \<or> n \<noteq> 0" "h @ [?e]"] Cons.prems by auto
    moreover have "report_check d b k w (s, h) = (Ret (b \<or> n \<noteq> 0), s, h @ [?e])"
      using n by (simp add: report_check_def dindex_def say_def io_defs)
    ultimately show ?case
      using n by (intro exI [of _ "?e # t"]) (simp add: bnd_def del: append_Cons)
  qed (simp add: ret_def)
  obtain t where t: "fold_io (report_check d) False (sort (dkeys d)) w (s, h)
      = (Ret (False \<or> (\<exists>k \<in> set (sort (dkeys d)). map_of d k \<noteq> Some 0)), s, h @ t)"
      "list_all (\<lambda>e. \<exists>l. e = Printed l) t"
    using fold [where ks = "sort (dkeys d)" and h = h and b = False] by auto
  moreover have "\<forall>p \<in> set d. map_of d (fst p) = Some (snd p)" using assms by auto
  then have "(\<exists>k \<in> set (dkeys d). map_of d k \<noteq> Some 0) \<longleftrightarrow> \<not> (\<forall>p \<in> set d. snd p = 0)" by auto
  ultimately show ?thesis by (intro exI [of _ t]) (simp add: report_checks_def io_defs)
qed

text \<open>A report in which every expected check appears once and none has a violation.\<close>

definition clean_report :: "string \<Rightarrow> bool" where
  "clean_report output = (\<exists>rows. report_rows output = map Some rows \<and> distinct (dkeys rows)
     \<and> set (dkeys rows) = set expected_checks \<and> (\<forall>row \<in> set rows. snd row = 0))"

lemma clean_report_iff:
  "clean_report output \<longleftrightarrow> (\<exists>d. parse_verifier_output output = Inr d \<and> (\<forall>p \<in> set d. snd p = 0))"
  unfolding clean_report_def parse_verifier_Inr by auto

lemma execute_verifier_run:
  "execute_verifier cf sf w (s, h) =
     (case w_read w h sf of
        Inl e \<Rightarrow> (Raised e, s, h @ [FileRead sf (Inl e)])
      | Inr sql \<Rightarrow>
          let h1 = h @ [FileRead sf (Inr sql)]; r = w_run w h1 (verifier_argv cf) (Some sql);
              h2 = h1 @ [Ran (verifier_argv cf) (Some sql) [] r]
          in case r of
               Inl e \<Rightarrow> (Raised e, s, h2)
             | Inr p \<Rightarrow> (if p_rc p \<noteq> 0
                 then Raised (Exn RuntimeError (str_or (py_strip (p_err p)) (py_strip (p_out p))))
                 else Ret (p_out p), s, h2))"
  by (auto simp: execute_verifier_def read_text_def run_proc_def io_defs Let_def split: sum.split)

lemma verify_main_result:
  assumes run: "verify_main cf sf w (s, h) = (Ret c, s', h')"
  shows "\<exists>t. h' = h @ t \<and> c = (if \<exists>sql p. t ! 0 = FileRead sf (Inr sql)
     \<and> t ! 1 = Ran (verifier_argv cf) (Some sql) [] (Inr p) \<and> p_rc p = 0 \<and> clean_report (p_out p) then 0 else 1)"
proof -
  obtain r s1 h1 where ex: "execute_verifier cf sf w (s, h) = (r, s1, h1)" by (metis prod_cases3)
  have failed: "c = 1 \<and> (\<exists>l. h' = h1 @ [PrintedErr l])"
    if "r = Raised e \<or> (\<exists>out. r = Ret out \<and> parse_verifier_output out = Inl e)" for e
    using run ex that
    by (auto simp: verify_main_def say_err_def io_defs split: if_splits)
  show ?thesis
  proof (cases "w_read w h sf")
    case (Inl e)
    with ex have "r = Raised e" "h1 = h @ [FileRead sf (Inl e)]" by (auto simp: execute_verifier_run)
    moreover from this failed obtain l where "c = 1" "h' = h1 @ [PrintedErr l]" by blast
    ultimately show ?thesis by (intro exI [of _ "[FileRead sf (Inl e), PrintedErr l]"]) auto
  next
    case (Inr sql)
    let ?p = "w_run w (h @ [FileRead sf (Inr sql)]) (verifier_argv cf) (Some sql)"
    let ?t = "[FileRead sf (Inr sql), Ran (verifier_argv cf) (Some sql) [] ?p]"
    have h1: "h1 = h @ ?t" and s1: "s1 = s"
      using ex Inr by (auto simp: execute_verifier_run Let_def split: sum.splits)
    show ?thesis
    proof (cases "\<exists>p. ?p = Inr p \<and> p_rc p = 0")
      case False
      then obtain e where "r = Raised e"
        using ex Inr by (cases ?p) (auto simp: execute_verifier_run Let_def)
      with failed obtain l where l: "c = 1" "h' = h1 @ [PrintedErr l]" by blast
      with False h1 show ?thesis by (intro exI [of _ "?t @ [PrintedErr l]"]) auto
    next
      case True
      then obtain p where p: "?p = Inr p" "p_rc p = 0" by blast
      with ex Inr have r: "r = Ret (p_out p)" by (auto simp: execute_verifier_run Let_def)
      show ?thesis
      proof (cases "parse_verifier_output (p_out p)")
        case (Inl e)
        with failed r obtain l where l: "c = 1" "h' = h1 @ [PrintedErr l]" by blast
        moreover have "\<not> clean_report (p_out p)" using Inl by (simp add: clean_report_iff)
        ultimately show ?thesis using h1 p by (intro exI [of _ "?t @ [PrintedErr l]"]) auto
      next
        case (Inr d)
        then have "distinct (dkeys d)" by (simp add: parse_verifier_Inr)
        from report_checks_result [OF this, of w s h1] obtain u where
          "report_checks d w (s, h1) = (Ret (if \<forall>p \<in> set d. snd p = 0 then 0 else 1), s, h1 @ u)" by blast
        with run ex r s1 Inr have "c = (if \<forall>p \<in> set d. snd p = 0 then 0 else 1)" "h' = h1 @ u"
          by (auto simp: verify_main_def io_defs)
        moreover have "clean_report (p_out p) \<longleftrightarrow> (\<forall>p \<in> set d. snd p = 0)"
          using Inr by (simp add: clean_report_iff)
        ultimately show ?thesis using h1 p by (intro exI [of _ "?t @ u"]) auto
      qed
    qed
  qed
qed

section \<open>Properties\<close>

text \<open>
  \textbf{C26.} The parser of the verifier's output accepts exactly the reports whose lines that
  are not blank are a name and a count, with the fourteen expected names each once and no
  negative count, and returns the rows in their order.
\<close>

theorem verifier_output_exact:
  "parse_verifier_output output = Inr d \<longleftrightarrow> report_rows output = map Some d \<and> distinct (dkeys d)
     \<and> set (dkeys d) = set expected_checks \<and> list_all (\<lambda>p. 0 \<le> snd p) d"
  unfolding list_all_iff by (rule parse_verifier_Inr)

text \<open>
  The verifier returns zero exactly when psql, fed with the text of the SQL file,
  exits with zero and its output is a clean report; otherwise, when it returns at all, one.
\<close>

theorem verifier_exit_code:
  assumes "verify_main cf sf w (s, h) = (Ret c, s', h')"
  shows "\<exists>t. h' = h @ t \<and> c = (if \<exists>sql p. t ! 0 = FileRead sf (Inr sql)
     \<and> t ! 1 = Ran (verifier_argv cf) (Some sql) [] (Inr p) \<and> p_rc p = 0 \<and> clean_report (p_out p) then 0 else 1)"
  using assms by (rule verify_main_result)

text \<open>A database without violations, and one whose report misses the last check.\<close>

definition report_text :: "string list \<Rightarrow> string" where
  "report_text names = concat (map (\<lambda>n. n @ [tab] @ ''0'' @ [nl]) names)"

definition reporting_world :: "string list \<Rightarrow> world" where
  "reporting_world names = quiet_world\<lparr>w_run := \<lambda>h argv i.
     Inr \<lparr>p_rc = 0, p_out = report_text names, p_err = []\<rparr>\<rparr>"

lemma py_int_zero: "py_int ''0'' = Inr 0"
  by code_simp

lemma report_rows_text:
  assumes "\<forall>n \<in> set names. n \<noteq> [] \<and> list_all (\<lambda>c. \<not> is_space c) n"
  shows "report_rows (report_text names) = map (\<lambda>n. Some (n, 0)) names"
  using assms
proof (induction names)
  case (Cons n names)
  let ?line = "n @ tab # ''0''"
  have breaks: "is_line_break c \<Longrightarrow> is_space c" for c
    by (auto simp: is_line_break_def is_space_def Let_def)
  have n: "n \<noteq> []" "\<forall>c \<in> set n. \<not> is_space c" using Cons.prems by (auto simp: list_all_iff)
  then have "splitlines (?line @ nl # report_text names) = ?line # splitlines (report_text names)"
    using breaks by (intro splitlines_line) (auto simp: is_line_break_def)
  moreover have "py_strip ?line \<noteq> []" using n by (cases n) (auto simp: py_strip_def)
  moreover have "tab \<notin> set n" using n(2) by (auto simp: is_space_def Let_def)
  then have "read_row ?line = Some (n, 0)"
    by (simp add: read_row_def split_on_append split_on_no_sep py_int_zero)
  ultimately show ?case using Cons by (simp add: report_rows_def report_text_def)
qed (simp add: report_rows_def report_text_def)

lemma clean_text: "parse_verifier_output (report_text expected_checks) = Inr (map (\<lambda>n. (n, 0)) expected_checks)"
proof -
  have "report_rows (report_text expected_checks) = map (\<lambda>n. Some (n, 0)) expected_checks"
    by (rule report_rows_text) (simp add: expected_checks_def is_space_def)
  moreover have "distinct expected_checks" by (simp add: expected_checks_def)
  ultimately show ?thesis unfolding parse_verifier_Inr by (simp add: comp_def)
qed

lemma reporting_run:
  "\<exists>u. verify_main ''c'' ''f'' (reporting_world expected_checks) (s, []) =
     (Ret 0, s, [FileRead ''f'' (Inr []), Ran (verifier_argv ''c'') (Some []) []
        (Inr \<lparr>p_rc = 0, p_out = report_text expected_checks, p_err = []\<rparr>)] @ u)"
proof -
  let ?d = "map (\<lambda>n. (n, 0 :: int)) expected_checks" and ?w = "reporting_world expected_checks"
  let ?t = "[FileRead ''f'' (Inr []), Ran (verifier_argv ''c'') (Some []) []
        (Inr \<lparr>p_rc = 0, p_out = report_text expected_checks, p_err = []\<rparr>)]"
  have "distinct (dkeys ?d)" by (simp add: expected_checks_def)
  from report_checks_result [OF this, of ?w s ?t] obtain u where
    u: "report_checks ?d ?w (s, ?t) = (Ret 0, s, ?t @ u)" by auto
  have "execute_verifier ''c'' ''f'' ?w (s, []) = (Ret (report_text expected_checks), s, ?t)"
    by (simp add: execute_verifier_run reporting_world_def quiet_world_def Let_def)
  with u clean_text show ?thesis
    by (intro exI [of _ u]) (simp only: verify_main_def bnd_def try_except_def of_res_def ret_def
        prod.case outcome.case option.case sum.case)
qed

theorem verifier_exit_code_witness:
  "clean_report (report_text expected_checks)
     \<and> fst (verify_main ''c'' ''f'' (reporting_world expected_checks) ((), [])) = Ret 0"
proof -
  obtain u where run: "verify_main ''c'' ''f'' (reporting_world expected_checks) ((), []) =
     (Ret 0, (), [FileRead ''f'' (Inr []), Ran (verifier_argv ''c'') (Some []) []
        (Inr \<lparr>p_rc = 0, p_out = report_text expected_checks, p_err = []\<rparr>)] @ u)"
    using reporting_run [of "()"] by (elim exE) (rule that)
  from verifier_exit_code [OF run] have "clean_report (report_text expected_checks)"
    by (auto split: if_splits)
  with run show ?thesis by simp
qed

end
