(* ===== verification/Reset_Env.thy ===== *)
theory Reset_Env
  imports Py_IO
begin

text \<open>
  \<open>performance/scripts/reset_environment.py\<close>: the guarded rebuild of the Performance stack. It
  reads the Compose model, refuses any volume that does not belong to the Performance project,
  and only then, and only when confirmed, deletes the generated files and the volumes and builds
  the stack, the dataset and the verification again.
\<close>

section \<open>The program\<close>

definition project_name :: string where "project_name = ''ticketing-phase10a''"
definition performance_volume_prefix :: string where "performance_volume_prefix = ''ticketing_phase10a_''"
definition development_volume :: string where "development_volume = ''backend_ticketing_postgres_data''"

definition performance_root :: "string \<Rightarrow> string" where
  "performance_root rt = rt @ ''/performance''"

definition compose_path :: "string \<Rightarrow> string" where
  "compose_path rt = performance_root rt @ ''/docker-compose.performance.yml''"

definition generated_path :: "string \<Rightarrow> string" where
  "generated_path rt = performance_root rt @ ''/generated''"

definition reset_compose :: "string \<Rightarrow> string list \<Rightarrow> string list" where
  "reset_compose rt arguments = [''docker'', ''compose'', ''-p'', project_name, ''-f'', compose_path rt] @ arguments"

definition reset_run :: "string list \<Rightarrow> ('s, unit) io" where
  "reset_run arguments =
     sq (say (''+ '' @ list2cmdline arguments))
     (bnd (run_proc arguments None []) (\<lambda>completed.
      raise_if (p_rc completed \<noteq> 0) ResetGuardError
        (''command failed with exit code '' @ int_str (p_rc completed) @ '': '' @ list2cmdline arguments)))"

text \<open>The attempts left, the number of this attempt and of all attempts, and the delay.\<close>

fun retry_from :: "nat \<Rightarrow> nat \<Rightarrow> nat \<Rightarrow> int \<Rightarrow> string list \<Rightarrow> ('s, unit) io" where
  "retry_from 0 attempt attempts delay arguments =
     raise (Exn ResetGuardError (''command failed after '' @ nat_str attempts @ '' attempts: '' @ list2cmdline arguments))"
| "retry_from (Suc left) attempt attempts delay arguments =
     sq (say (''+ '' @ list2cmdline arguments @ '' (attempt '' @ nat_str attempt @ ''/'' @ nat_str attempts @ '')''))
     (bnd (run_proc arguments None []) (\<lambda>completed.
      if p_rc completed = 0 then ret ()
      else
        sq (whenever (attempt < attempts)
          (sq (say (''Observability stack has not converged yet; retrying in '' @ int_str delay @ '' seconds.''))
          (sleep (of_int delay))))
        (retry_from left (Suc attempt) attempts delay arguments)))"

definition reset_run_retries :: "string list \<Rightarrow> nat \<Rightarrow> int \<Rightarrow> ('s, unit) io" where
  "reset_run_retries arguments attempts delay = retry_from attempts 1 attempts delay arguments"

definition config_argv :: "string \<Rightarrow> string list" where
  "config_argv rt = reset_compose rt [''config'', ''--format'', ''json'']"

definition read_compose_model :: "string \<Rightarrow> ('s, json) io" where
  "read_compose_model rt =
     bnd (run_proc (config_argv rt) None []) (\<lambda>completed.
     if p_rc completed \<noteq> 0
     then raise (Exn ResetGuardError (str_or (py_strip (p_err completed)) ''cannot parse Compose config''))
     else try_except (caught_by [JSONDecodeError]) (loads (p_out completed))
       (\<lambda>e. raise (Exn ResetGuardError (''Compose config did not return JSON: '' @ exn_msg e))))"

definition unsafe_volume :: "string \<Rightarrow> bool" where
  "unsafe_volume name = (name = development_volume \<or> \<not> startswith name performance_volume_prefix)"

definition validate_volume_names :: "json \<Rightarrow> string list \<Rightarrow> unit res" where
  "validate_volume_names project names =
     rbind (require (py_eq project (JStr project_name)) ResetGuardError ''refusing reset for Compose project'') (\<lambda>_.
     rbind (require (names \<noteq> []) ResetGuardError ''Compose model declares no named volumes'') (\<lambda>_.
     require (filter unsafe_volume names = []) ResetGuardError ''refusing to delete non-Performance volumes''))"

definition volume_name :: "json \<Rightarrow> string res" where
  "volume_name value = (case value of
      JObj d \<Rightarrow> (case dget d ''name'' of
          Some (JStr s) \<Rightarrow> Inr s
        | _ \<Rightarrow> Inl (Exn ResetGuardError ''Compose volume has no explicit name''))
    | _ \<Rightarrow> Inl (Exn ResetGuardError ''Compose volume has no explicit name''))"

definition guarded_volume_names :: "json \<Rightarrow> string list res" where
  "guarded_volume_names model =
     rbind (json_get model ''name'' JNull) (\<lambda>project.
     rbind (json_get model ''volumes'' JNull) (\<lambda>volumes.
     case volumes of
       JObj d \<Rightarrow>
         rbind (map_res (\<lambda>p. volume_name (snd p)) d) (\<lambda>names.
         rbind (validate_volume_names project names) (\<lambda>_. Inr (sort names)))
     | _ \<Rightarrow> Inl (Exn ResetGuardError ''Compose model has no volumes object'')))"

definition clear_entry :: "string \<Rightarrow> string \<Rightarrow> ('s, unit) io" where
  "clear_entry generated name =
     (let path = generated @ ''/'' @ name in
      if name = ''.gitignore'' then ret ()
      else bnd (is_dir path) (\<lambda>directory.
        sq (raise_if directory ResetGuardError (''refusing unexpected generated subdirectory: '' @ path))
        (remove_file path)))"

definition clear_generated :: "('s, unit) io" where
  "clear_generated =
     bnd (asks w_root) (\<lambda>rt.
     bnd (resolve_path (generated_path rt)) (\<lambda>generated.
     bnd (resolve_path (performance_root rt)) (\<lambda>expected_parent.
     sq (raise_if (path_parent generated \<noteq> expected_parent) ResetGuardError
       (''unsafe generated directory: '' @ generated))
     (bnd (list_dir generated) (for_io (clear_entry generated))))))"

definition down_argv :: "string \<Rightarrow> string list" where
  "down_argv rt = reset_compose rt [''down'', ''-v'']"

definition up_argv :: "string \<Rightarrow> string list" where
  "up_argv rt = reset_compose rt [''up'', ''-d'', ''--build'', ''--wait'']"

definition observability_argv :: "string \<Rightarrow> string \<Rightarrow> string list" where
  "observability_argv python rt = [python, performance_root rt @ ''/scripts/verify_observability.py'']"

definition generate_argv :: "string \<Rightarrow> string \<Rightarrow> string \<Rightarrow> string list" where
  "generate_argv python rt profile =
     [python, performance_root rt @ ''/data/generate_dataset.py'', ''--profile'', profile]"

definition database_argv :: "string \<Rightarrow> string \<Rightarrow> string list" where
  "database_argv python rt = [python, performance_root rt @ ''/verification/verify_database.py'']"

definition rebuild :: "string \<Rightarrow> ('s, unit) io" where
  "rebuild profile =
     bnd (asks w_root) (\<lambda>rt. bnd (asks w_python) (\<lambda>python.
     sq clear_generated
     (sq (reset_run (down_argv rt))
     (sq (reset_run (up_argv rt))
     (sq (reset_run_retries (observability_argv python rt) 6 5)
     (sq (reset_run (generate_argv python rt profile))
     (sq (reset_run (database_argv python rt))
     (say (''[PASS] fresh Phase 10A environment is ready with profile='' @ profile)))))))))"

definition selected_volumes :: "('s, string list) io" where
  "selected_volumes =
     bnd (asks w_root) (\<lambda>rt.
     bnd (asks w_cwd) (\<lambda>here.
     bnd (resolve_path here) (\<lambda>cwd.
     bnd (resolve_path rt) (\<lambda>repo.
     sq (raise_if (cwd \<noteq> repo) ResetGuardError (''run from repository root: '' @ rt))
     (bnd (exists_path (compose_path rt)) (\<lambda>present.
      sq (raise_if (\<not> present) ResetGuardError (''Compose file is missing: '' @ compose_path rt))
      (bnd (read_compose_model rt) (\<lambda>model. of_res (guarded_volume_names model)))))))))"

definition announce :: "string \<Rightarrow> string list \<Rightarrow> ('s, unit) io" where
  "announce profile volumes =
     sq (say (''Compose project: '' @ project_name))
     (sq (say ''Performance volumes selected for deletion:'')
     (sq (for_io (\<lambda>name. say (''  - '' @ name)) volumes)
     (say (''Dataset profile after rebuild: '' @ profile))))"

definition reset :: "string \<Rightarrow> bool \<Rightarrow> ('s, unit) io" where
  "reset profile confirmed =
     bnd selected_volumes (\<lambda>volumes.
     sq (announce profile volumes)
     (if \<not> confirmed
      then say ''DRY RUN: no files, containers, or volumes were changed; pass --yes to execute.''
      else rebuild profile))"

definition reset_main :: "string \<Rightarrow> bool \<Rightarrow> ('s, int) io" where
  "reset_main profile yes =
     try_except (caught_by [OSError, ResetGuardError])
       (sq (reset profile yes) (ret 0))
       (\<lambda>e. sq (say_err (''[FAIL] '' @ exn_msg e)) (ret 1))"

section \<open>Nothing is deleted before the guard\<close>

text \<open>
  What the guard establishes: the model is that of the Performance project, and the volumes it
  declares are all volumes of the Performance stack.
\<close>

definition deletable :: "json \<Rightarrow> string list \<Rightarrow> bool" where
  "deletable model names = (\<exists>d vs ns. model = JObj d \<and> dget_or d ''name'' JNull = JStr project_name
     \<and> dget_or d ''volumes'' JNull = JObj vs \<and> map_res (\<lambda>p. volume_name (snd p)) vs = Inr ns
     \<and> names = sort ns \<and> ns \<noteq> []
     \<and> (\<forall>n \<in> set ns. startswith n performance_volume_prefix \<and> n \<noteq> development_volume))"

lemma py_eq_str: "py_eq v (JStr s) \<longleftrightarrow> v = JStr s"
  by (cases v) auto

lemma guarded_volume_names_Inr: "guarded_volume_names model = Inr names \<longleftrightarrow> deletable model names"
proof (cases model)
  case (JObj d)
  show ?thesis
  proof (cases "dget_or d ''volumes'' JNull")
    case (JObj vs)
    then show ?thesis using \<open>model = JObj d\<close>
      by (auto simp: guarded_volume_names_def deletable_def validate_volume_names_def res_simps py_eq_str
          filter_empty_conv unsafe_volume_def)
  qed (use JObj in \<open>auto simp: guarded_volume_names_def deletable_def\<close>)
qed (auto simp: guarded_volume_names_def deletable_def)

fun looking :: "event \<Rightarrow> bool" where
  "looking (Ran argv i env r) = (\<exists>rt. argv = config_argv rt)"
| "looking (Printed t) = True"
| "looking (PrintedErr t) = True"
| "looking _ = False"

definition approves :: "world \<Rightarrow> event \<Rightarrow> bool" where
  "approves w e = (\<exists>p model names. e = Ran (config_argv (w_root w)) None [] (Inr p) \<and> p_rc p = 0
     \<and> w_loads w (p_out p) = Inr model \<and> deletable model names)"

lemma emits_read_model: "emits looking (read_compose_model rt)"
  unfolding read_compose_model_def by (intro emits_intros) auto

lemma emits_selected: "emits looking selected_volumes"
  unfolding selected_volumes_def by (intro emits_intros emits_read_model)

lemma read_model_approves:
  assumes "read_compose_model (w_root w) w (s, h) = (Ret model, s', h')" and "deletable model names"
  shows "\<exists>e. h' = h @ [e] \<and> approves w e"
proof -
  let ?argv = "config_argv (w_root w)"
  obtain p where p: "w_run w h ?argv None = Inr p" "p_rc p = 0" "w_loads w (p_out p) = Inr model"
      "h' = h @ [Ran ?argv None [] (Inr p)]"
    using assms(1) by (auto simp: read_compose_model_def run_proc_def loads_def io_defs
        split: sum.splits if_splits prod.splits outcome.splits)
  with assms(2) show ?thesis unfolding approves_def by blast
qed

lemma selected_approves:
  assumes "selected_volumes w (s, h) = (Ret names, s', h')"
  shows "\<exists>e. h' = h @ [e] \<and> approves w e"
proof -
  from assms obtain model where m: "read_compose_model (w_root w) w (s, h) = (Ret model, s', h')"
      and "guarded_volume_names model = Inr names"
    by (auto simp: selected_volumes_def resolve_path_def exists_path_def io_defs
        split: if_splits prod.splits outcome.splits sum.splits)
  then have "deletable model names" by (simp add: guarded_volume_names_Inr)
  with m show ?thesis by (rule read_model_approves)
qed

text \<open>What a confirmed rebuild may do.\<close>

definition rebuild_commands :: "world \<Rightarrow> string \<Rightarrow> string list list" where
  "rebuild_commands w profile = (let rt = w_root w; python = w_python w in
     [down_argv rt, up_argv rt, observability_argv python rt, generate_argv python rt profile,
      database_argv python rt])"

fun removes :: "event \<Rightarrow> bool" where
  "removes (Removed p r) = True"
| "removes _ = False"

definition permitted :: "world \<Rightarrow> history \<Rightarrow> string \<Rightarrow> event \<Rightarrow> bool" where
  "permitted w h profile e = (case e of
      Removed p r \<Rightarrow>
        let generated = w_resolve w h (generated_path (w_root w)) in
        path_parent generated = w_resolve w h (performance_root (w_root w))
        \<and> (\<exists>name. name \<noteq> ''.gitignore'' \<and> p = generated @ ''/'' @ name)
    | Ran argv i env r \<Rightarrow> argv \<in> set (rebuild_commands w profile)
    | Slept d \<Rightarrow> d = 5
    | Printed t \<Rightarrow> True
    | PrintedErr t \<Rightarrow> True
    | _ \<Rightarrow> False)"

lemma emits_retry_from:
  "(\<And>t. ok (Printed t)) \<Longrightarrow> (\<And>r. ok (Ran xs None [] r)) \<Longrightarrow> ok (Slept (of_int d)) \<Longrightarrow>
     emits ok (retry_from n i m d xs)"
  by (induction n arbitrary: i) (auto intro!: emits_intros)

lemma emits_reset_run:
  "(\<And>t. ok (Printed t)) \<Longrightarrow> (\<And>r. ok (Ran xs None [] r)) \<Longrightarrow> emits ok (reset_run xs)"
  unfolding reset_run_def by (auto intro!: emits_intros)

lemma clear_generated_permitted:
  assumes "clear_generated w (s, h) = (r, s', h')"
  shows "\<exists>t. h' = h @ t \<and> list_all (permitted w h profile) t"
proof (cases "path_parent (w_resolve w h (generated_path (w_root w))) = w_resolve w h (performance_root (w_root w))")
  case True
  let ?g = "w_resolve w h (generated_path (w_root w))"
  have "permitted w h profile (Removed (?g @ ''/'' @ name) x)" if "name \<noteq> ''.gitignore''" for name x
    using True that by (auto simp: permitted_def Let_def)
  then have e: "emits (permitted w h profile) (for_io (clear_entry ?g) names)" for names
    unfolding clear_entry_def Let_def by (intro emits_intros) auto
  from assms True have "h' = h \<or> (\<exists>names. for_io (clear_entry ?g) names w (s, h) = (r, s', h'))"
    by (auto simp: clear_generated_def resolve_path_def list_dir_def look_res_def io_defs split: sum.splits)
  then show ?thesis
  proof
    assume "\<exists>names. for_io (clear_entry ?g) names w (s, h) = (r, s', h')"
    with e show ?thesis by (metis emitsD)
  qed simp
next
  case False
  with assms have "h' = h" by (simp add: clear_generated_def resolve_path_def io_defs)
  then show ?thesis by simp
qed

lemma rebuild_permitted:
  assumes "rebuild profile w (s, h) = (r, s', h')"
  shows "\<exists>t. h' = h @ t \<and> list_all (permitted w h profile) t"
proof -
  define rest :: "('a, unit) io" where "rest = (let rt = w_root w; python = w_python w in
     sq (reset_run (down_argv rt)) (sq (reset_run (up_argv rt))
     (sq (reset_run_retries (observability_argv python rt) 6 5)
     (sq (reset_run (generate_argv python rt profile)) (sq (reset_run (database_argv python rt))
     (say (''[PASS] fresh Phase 10A environment is ready with profile='' @ profile)))))))"
  have e: "emits (permitted w h profile) rest"
    unfolding rest_def reset_run_retries_def Let_def
    by (intro emits_intros emits_retry_from emits_reset_run)
      (auto simp: permitted_def rebuild_commands_def Let_def)
  obtain r1 s1 h1 where c: "clear_generated w (s, h) = (r1, s1, h1)" by (metis prod_cases3)
  from clear_generated_permitted [OF c] obtain t where t: "h1 = h @ t" "list_all (permitted w h profile) t" by blast
  have "rebuild profile w (s, h) = sq clear_generated rest w (s, h)"
    by (simp add: rebuild_def rest_def Let_def asks_def bnd_def)
  with assms c have "h' = h1 \<or> rest w (s1, h1) = (r, s', h')"
    by (cases r1) (auto simp: sq_def bnd_def)
  then show ?thesis
  proof
    assume "rest w (s1, h1) = (r, s', h')"
    with e obtain u where "h' = h1 @ u" "list_all (permitted w h profile) u" by (rule emitsD)
    with t show ?thesis by auto
  qed (use t in auto)
qed

definition announcement :: "string \<Rightarrow> string list \<Rightarrow> string list" where
  "announcement profile names = (''Compose project: '' @ project_name) #
     ''Performance volumes selected for deletion:'' # map (\<lambda>n. ''  - '' @ n) names
     @ [''Dataset profile after rebuild: '' @ profile]"

lemma say_run: "say t w (s, h) = (Ret (), s, h @ [Printed t])"
  by (simp add: say_def eff_def)

lemma announce_run: "announce profile names w (s, h) = (Ret (), s, h @ map Printed (announcement profile names))"
proof -
  have "for_io (\<lambda>name. say (''  - '' @ name)) xs w (s, g) = (Ret (), s, g @ map (\<lambda>n. Printed (''  - '' @ n)) xs)"
    for xs g by (induction xs arbitrary: g) (simp_all add: say_run sq_def bnd_def ret_def)
  then show ?thesis
    unfolding announce_def announcement_def by (simp add: sq_def bnd_def say_run comp_def)
qed

lemma reset_guarded:
  assumes "reset profile yes w (s, h) = (r, s', h')"
  shows "\<exists>t u. h' = h @ t @ u \<and> list_all looking t \<and> (u = [] \<or> yes \<and> list_ex (approves w) t)
     \<and> list_all (permitted w (h @ t) profile) u"
proof -
  obtain r1 s1 h1 where sel: "selected_volumes w (s, h) = (r1, s1, h1)" by (metis prod_cases3)
  from emits_selected sel obtain t1 where t1: "h1 = h @ t1" "list_all looking t1" by (rule emitsD)
  show ?thesis
  proof (cases r1)
    case (Ret names)
    let ?h2 = "h1 @ map Printed (announcement profile names)"
    from Ret sel assms have run: "(if yes then rebuild profile
        else say ''DRY RUN: no files, containers, or volumes were changed; pass --yes to execute.'') w (s1, ?h2) = (r, s', h')"
      by (simp add: reset_def bnd_def sq_def announce_run split: if_splits)
    have l2: "?h2 = h @ (t1 @ map Printed (announcement profile names))"
        "list_all looking (t1 @ map Printed (announcement profile names))"
      using t1 by (auto simp: list_all_iff)
    show ?thesis
    proof (cases yes)
      case True
      from Ret sel have "selected_volumes w (s, h) = (Ret names, s1, h1)" by simp
      from selected_approves [OF this] t1(1) have "list_ex (approves w) t1" by auto
      moreover from run True have rb: "rebuild profile w (s1, ?h2) = (r, s', h')" by simp
      from rebuild_permitted [OF rb] obtain u where
          "h' = ?h2 @ u" "list_all (permitted w ?h2 profile) u" by blast
      ultimately show ?thesis using l2 True
        by (intro exI [of _ "t1 @ map Printed (announcement profile names)"] exI [of _ u]) simp
    next
      case False
      with run have "h' = ?h2 @ [Printed ''DRY RUN: no files, containers, or volumes were changed; pass --yes to execute.'']"
        by (simp add: say_def eff_def)
      with l2 show ?thesis
        by (intro exI [of _ "t1 @ map Printed (announcement profile names) @ [Printed ''DRY RUN: no files, containers, or volumes were changed; pass --yes to execute.'']"]
            exI [of _ "[]"]) simp
    qed
  next
    case (Raised e)
    with assms sel t1 show ?thesis
      by (intro exI [of _ t1] exI [of _ "[]"]) (simp add: reset_def bnd_def)
  next
    case Diverged
    with assms sel t1 show ?thesis
      by (intro exI [of _ t1] exI [of _ "[]"]) (simp add: reset_def bnd_def)
  qed
qed

lemma reset_main_guarded:
  assumes "reset_main profile yes w (s, h) = (r, s', h')"
  shows "\<exists>t u. h' = h @ t @ u \<and> list_all looking t \<and> (u = [] \<or> yes \<and> list_ex (approves w) t)
     \<and> list_all (permitted w (h @ t) profile) u"
proof -
  obtain r1 s1 h1 where run: "reset profile yes w (s, h) = (r1, s1, h1)" by (metis prod_cases3)
  from reset_guarded [OF run] obtain t u where h1: "h1 = h @ t @ u" and t: "list_all looking t"
    and u: "u = [] \<or> yes \<and> list_ex (approves w) t" "list_all (permitted w (h @ t) profile) u" by blast
  from assms run have "h' = h1 \<or> (\<exists>l. h' = h1 @ [PrintedErr l])"
    by (cases r1) (auto simp: reset_main_def say_err_def io_defs split: if_splits)
  then show ?thesis
  proof
    assume "\<exists>l. h' = h1 @ [PrintedErr l]"
    then obtain l where l: "h' = h1 @ [PrintedErr l]" by blast
    show ?thesis
    proof (cases "u = []")
      case True
      with h1 l t show ?thesis by (intro exI [of _ "t @ [PrintedErr l]"] exI [of _ "[]"]) simp
    next
      case False
      with h1 l t u show ?thesis
        by (intro exI [of _ t] exI [of _ "u @ [PrintedErr l]"]) (simp add: permitted_def)
    qed
  qed (use h1 t u in blast)
qed

section \<open>What a successful reset has done\<close>

lemma completes_reset_run: "yields success_of w [argv] (reset_run argv)"
  by (auto simp: yields_success reset_run_def run_proc_def say_def io_defs
      split: sum.splits if_splits)

lemma sq_say: "sq (say t) k w (s, h) = k w (s, h @ [Printed t])"
  by (simp add: sq_def bnd_def say_run)

lemma bnd_run_proc: "bnd (run_proc argv i env) k w (s, h) = (case w_run w h argv i of
    Inl e \<Rightarrow> (Raised e, s, h @ [Ran argv i env (Inl e)])
  | Inr p \<Rightarrow> k p w (s, h @ [Ran argv i env (Inr p)]))"
  by (auto simp: run_proc_def io_defs split: sum.split)

lemma completes_retry_from: "yields success_of w [argv] (retry_from n i m d argv :: ('s, unit) io)"
proof (induction n arbitrary: i)
  case (Suc n)
  let ?line = "Printed (''+ '' @ list2cmdline argv @ '' (attempt '' @ nat_str i @ ''/'' @ nat_str m @ '')'')"
  let ?again = "sq (whenever (i < m)
      (sq (say (''Observability stack has not converged yet; retrying in '' @ int_str d @ '' seconds.''))
      (sleep (of_int d)))) (retry_from n (Suc i) m d argv) :: ('s, unit) io"
  have again: "yields success_of w ([] @ [argv]) ?again"
    by (intro yields_sq Suc yields_quiet emits_intros) auto
  show ?case
    unfolding yields_success
  proof (intro allI impI)
    fix s :: 's and h x s' h'
    assume run: "retry_from (Suc n) i m d argv w (s, h) = (Ret x, s', h')"
    then obtain p where p: "w_run w (h @ [?line]) argv None = Inr p"
      unfolding retry_from.simps sq_say bnd_run_proc by (auto split: sum.splits)
    let ?h1 = "h @ [?line, Ran argv None [] (Inr p)]"
    have "(if p_rc p = 0 then ret () else ?again) w (s, ?h1) = (Ret x, s', h')"
      using run p unfolding retry_from.simps sq_say bnd_run_proc by simp
    then show "\<exists>t. h' = h @ t \<and> completed t = [argv]"
    proof (cases "p_rc p = 0")
      case False
      with \<open>(if p_rc p = 0 then ret () else ?again) w (s, ?h1) = (Ret x, s', h')\<close>
      have a: "?again w (s, ?h1) = (Ret x, s', h')" by simp
      from yields_successD [OF again a] obtain t where "h' = ?h1 @ t \<and> completed t = [] @ [argv]" by blast
      with False show ?thesis by auto
    qed (auto simp: ret_def)
  qed
qed (simp add: yields_def raise_def)

lemma clear_generated_quiet: "emits (\<lambda>e. success_of e = None) clear_generated"
  unfolding clear_generated_def clear_entry_def Let_def by (intro emits_intros) auto

lemma completes_rebuild: "yields success_of w (rebuild_commands w profile) (rebuild profile :: ('s, unit) io)"
proof -
  let ?rt = "w_root w" and ?py = "w_python w"
  let ?steps = "sq clear_generated (sq (reset_run (down_argv ?rt)) (sq (reset_run (up_argv ?rt))
     (sq (reset_run_retries (observability_argv ?py ?rt) 6 5)
     (sq (reset_run (generate_argv ?py ?rt profile)) (sq (reset_run (database_argv ?py ?rt))
     (say (''[PASS] fresh Phase 10A environment is ready with profile='' @ profile))))))) :: ('s, unit) io"
  have "yields success_of w ([] @ [down_argv ?rt] @ [up_argv ?rt] @ [observability_argv ?py ?rt]
      @ [generate_argv ?py ?rt profile] @ [database_argv ?py ?rt] @ []) ?steps"
    unfolding reset_run_retries_def
    by (intro yields_sq completes_reset_run completes_retry_from yields_quiet [OF clear_generated_quiet]
        yields_quiet emits_intros) auto
  moreover have "rebuild profile w (s, h) = ?steps w (s, h)" for s h
    by (simp only: rebuild_def run_asks)
  ultimately show ?thesis by (simp only: yields_def rebuild_commands_def Let_def append_Cons append_Nil)
qed

lemma completes_selected: "yields success_of w [config_argv (w_root w)] selected_volumes"
  unfolding yields_success
proof (intro allI impI)
  fix s h x s' h'
  assume "selected_volumes w (s, h) = (Ret x, s', h')"
  from selected_approves [OF this] obtain e where "h' = h @ [e]" "approves w e" by blast
  then show "\<exists>t. h' = h @ t \<and> completed t = [config_argv (w_root w)]"
    by (auto simp: approves_def)
qed

lemma completes_reset:
  "yields success_of w (config_argv (w_root w) # rebuild_commands w profile) (reset profile True :: ('s, unit) io)"
proof -
  have "yields success_of w ([config_argv (w_root w)] @ [] @ rebuild_commands w profile) (reset profile True :: ('s, unit) io)"
    unfolding reset_def announce_def
    by (intro yields_bnd yields_sq completes_selected yields_quiet emits_intros)
      (auto simp: completes_rebuild)
  then show ?thesis by simp
qed

section \<open>Properties\<close>

text \<open>
  \textbf{C25.} Whatever the outside answers, a reset first only looks: it reads the Compose model
  and prints. Anything else happens only when the reset is confirmed and the model it read is
  that of the Performance project and declares only volumes of the Performance stack, and then
  it is one of the five commands of the rebuild, or the removal of a file, other than
  \<open>.gitignore\<close>, of the generated directory, which resolves to a child of the Performance root.
\<close>

theorem reset_deletes_only_performance:
  assumes "reset_main profile yes w (s, h) = (r, s', h')"
  shows "\<exists>t u. h' = h @ t @ u \<and> list_all looking t \<and> (u = [] \<or> yes \<and> list_ex (approves w) t)
     \<and> list_all (permitted w (h @ t) profile) u"
  using assms by (rule reset_main_guarded)

definition reset_world :: world where
  "reset_world = quiet_world\<lparr>w_exists := \<lambda>h p. True, w_entries := \<lambda>h p. Inr [''.gitignore'', ''dataset.json''],
     w_loads := \<lambda>t. Inr (JObj [(''name'', JStr project_name), (''volumes'',
       JObj [(''postgres'', JObj [(''name'', JStr (performance_volume_prefix @ ''postgres''))])])])\<rparr>"

lemma reset_world_volumes:
  "guarded_volume_names (JObj [(''name'', JStr project_name), (''volumes'',
     JObj [(''postgres'', JObj [(''name'', JStr (performance_volume_prefix @ ''postgres''))])])])
   = Inr [performance_volume_prefix @ ''postgres'']"
  by code_simp

lemma reset_world_parent:
  "path_parent (generated_path ''/repo'') = performance_root ''/repo''"
  by code_simp

lemma reset_world_run:
  "\<exists>h'. reset_main ''smoke'' True reset_world ((), []) = (Ret 0, (), h') \<and> list_ex removes h'"
  by (simp add: reset_main_def reset_def selected_volumes_def read_compose_model_def announce_def
      rebuild_def clear_generated_def clear_entry_def reset_run_def reset_run_retries_def eval_nat_numeral
      run_simps Let_def prim_defs reset_world_def quiet_world_def reset_world_volumes reset_world_parent)

theorem reset_deletes_only_performance_witness:
  "\<exists>s' h'. reset_main ''smoke'' True reset_world ((), []) = (Ret 0, s', h') \<and> list_ex removes h'
     \<and> list_ex (approves reset_world) h'"
proof -
  obtain s' h' where run: "reset_main ''smoke'' True reset_world ((), []) = (Ret 0, s', h')"
    and rem: "list_ex removes h'" using reset_world_run by blast
  from reset_deletes_only_performance [OF run] obtain t u where "h' = t @ u" "list_all looking t"
      "u = [] \<or> list_ex (approves reset_world) t" by auto
  moreover have "looking e \<Longrightarrow> \<not> removes e" for e by (cases e) auto
  ultimately have "list_ex (approves reset_world) h'" using rem by (auto simp: list_ex_iff list_all_iff)
  with run rem show ?thesis by blast
qed

text \<open>
  When a confirmed reset returns zero, the commands that succeeded in its course are,
  in this order: the reading of the model, the removal of containers and volumes, the build and
  start of the stack, the observability checks, the generation of the dataset and the database
  verifier.
\<close>

theorem reset_success_complete:
  assumes "reset_main profile True w (s, h) = (Ret 0, s', h')"
  shows "\<exists>t. h' = h @ t \<and> completed t = config_argv (w_root w) # rebuild_commands w profile"
proof -
  obtain r1 s1 h1 where run: "reset profile True w (s, h) = (r1, s1, h1)" by (metis prod_cases3)
  with assms obtain u where "r1 = Ret u" "h1 = h'"
    by (cases r1) (auto simp: reset_main_def io_defs say_err_def split: if_splits)
  with run have "reset profile True w (s, h) = (Ret u, s1, h')" by simp
  from yields_successD [OF completes_reset this] show ?thesis .
qed

theorem reset_success_complete_witness:
  "\<exists>s' t. reset_main ''smoke'' True reset_world ((), []) = (Ret 0, s', t) \<and> length (completed t) = 6"
proof -
  obtain t where run: "reset_main ''smoke'' True reset_world ((), []) = (Ret 0, (), t)"
    using reset_world_run by blast
  from reset_success_complete [OF run] have
    "completed t = config_argv (w_root reset_world) # rebuild_commands reset_world ''smoke''" by simp
  then have "length (completed t) = 6" by (simp add: rebuild_commands_def Let_def)
  with run show ?thesis by blast
qed

end
