(* ===== verification/K6_Plan.thy ===== *)
theory K6_Plan
  imports Py_IO
begin

text \<open>
  \<open>performance/scripts/run_k6.py\<close>, the pure part: the arguments and their defaults, durations,
  the planned iterations, the pool of users and seats that a run reserves, and the validation of
  the arguments against the generated pools.
\<close>

section \<open>Arguments\<close>

datatype k6_workload =
    PublicRead | AuthRead | FormalSeatContention | SeatMapRead | TemporaryHoldContention
  | Checkout | PaymentStart | PaymentLifecycle | Login | SyntheticMixedRead
  | SyntheticMixedTransactional | FormalHotSeatWave | TemporaryHoldHotWave

datatype k6_mode = Smoke | Steady | Discovery | Spike | Soak | Wave

datatype auth_mode = Warm | Cold | RedisDown

fun workload_name :: "k6_workload \<Rightarrow> string" where
  "workload_name PublicRead = ''public-read''"
| "workload_name AuthRead = ''auth-read''"
| "workload_name FormalSeatContention = ''formal-seat-contention''"
| "workload_name SeatMapRead = ''seat-map-read''"
| "workload_name TemporaryHoldContention = ''temporary-hold-contention''"
| "workload_name Checkout = ''checkout''"
| "workload_name PaymentStart = ''payment-start''"
| "workload_name PaymentLifecycle = ''payment-lifecycle''"
| "workload_name Login = ''login''"
| "workload_name SyntheticMixedRead = ''synthetic-mixed-read''"
| "workload_name SyntheticMixedTransactional = ''synthetic-mixed-transactional''"
| "workload_name FormalHotSeatWave = ''formal-hot-seat-wave''"
| "workload_name TemporaryHoldHotWave = ''temporary-hold-hot-wave''"

fun mode_name :: "k6_mode \<Rightarrow> string" where
  "mode_name Smoke = ''smoke''"
| "mode_name Steady = ''steady''"
| "mode_name Discovery = ''discovery''"
| "mode_name Spike = ''spike''"
| "mode_name Soak = ''soak''"
| "mode_name Wave = ''wave''"

fun auth_mode_name :: "auth_mode \<Rightarrow> string" where
  "auth_mode_name Warm = ''warm''"
| "auth_mode_name Cold = ''cold''"
| "auth_mode_name RedisDown = ''redis-down''"

record k6_args =
  ka_workload :: k6_workload
  ka_mode :: k6_mode
  ka_rate :: "int option"
  ka_group_rate :: "int option"
  ka_duration :: string
  ka_preallocated_vus :: "int option"
  ka_start_rate :: "int option"
  ka_target_rate :: "int option"
  ka_ramp_duration :: string
  ka_hold_duration :: "string option"
  ka_base_duration :: string
  ka_recovery_duration :: string
  ka_ramp_down_duration :: string
  ka_auth_mode :: auth_mode
  ka_auth_pool_size :: int
  ka_contenders :: int
  ka_wave_contenders :: int
  ka_control_rate :: int
  ka_control_vus :: int
  ka_wave_control_duration :: string
  ka_seat_hold_density :: int
  ka_public_rate :: "int option"
  ka_auth_rate :: "int option"
  ka_seat_map_rate :: "int option"
  ka_checkout_rate :: "int option"
  ka_payment_rate :: "int option"
  ka_public_target_rate :: "int option"
  ka_auth_target_rate :: "int option"
  ka_seat_map_target_rate :: "int option"
  ka_checkout_target_rate :: "int option"
  ka_payment_target_rate :: "int option"
  ka_login_password :: "string option"

text \<open>The defaults of the parser for a workload; the environment gives the password.\<close>

definition default_args :: "k6_workload \<Rightarrow> string option \<Rightarrow> k6_args" where
  "default_args w password =
     \<lparr>ka_workload = w, ka_mode = Smoke, ka_rate = None, ka_group_rate = None,
      ka_duration = ''10s'', ka_preallocated_vus = None, ka_start_rate = None,
      ka_target_rate = None, ka_ramp_duration = ''10s'', ka_hold_duration = None,
      ka_base_duration = ''5s'', ka_recovery_duration = ''5s'', ka_ramp_down_duration = ''5s'',
      ka_auth_mode = Warm, ka_auth_pool_size = 100, ka_contenders = 4, ka_wave_contenders = 100,
      ka_control_rate = 2, ka_control_vus = 10, ka_wave_control_duration = ''12s'',
      ka_seat_hold_density = 0, ka_public_rate = None, ka_auth_rate = None,
      ka_seat_map_rate = None, ka_checkout_rate = None, ka_payment_rate = None,
      ka_public_target_rate = None, ka_auth_target_rate = None, ka_seat_map_target_rate = None,
      ka_checkout_target_rate = None, ka_payment_target_rate = None,
      ka_login_password = password\<rparr>"

section \<open>Durations\<close>

fun unit_factor :: "string \<Rightarrow> num option" where
  "unit_factor u =
     (if u = ''ms'' then Some (PFloat (fl64 (1/1000)))
      else if u = ''s'' then Some (PInt 1)
      else if u = ''m'' then Some (PInt 60)
      else if u = ''h'' then Some (PInt 3600)
      else None)"

text \<open>\<open>([1-9][0-9]*)(ms|s|m|h)\<close>, matched against the whole text.\<close>

definition parse_duration :: "string \<Rightarrow> num res" where
  "parse_duration value =
     (let ds = takeWhile is_digit value; u = dropWhile is_digit value
      in case (ds, unit_factor u) of
           (d # _, Some f) \<Rightarrow>
             if d = CHR ''0'' then Inl (Exn ValueError (''invalid duration: '' @ value))
             else Inr (num_mul (PInt (int (digits_val ds))) f)
         | _ \<Rightarrow> Inl (Exn ValueError (''invalid duration: '' @ value)))"

section \<open>Planned iterations and pools\<close>

record pool_plan =
  pp_base :: int
  pp_headroom :: int
  pp_required :: int

text \<open>Arithmetic with an argument that was not given raises TypeError.\<close>

fun given :: "int option \<Rightarrow> int res" where
  "given None = Inl (Exn TypeError ''unsupported operand type: NoneType'')"
| "given (Some i) = Inr i"

definition given_sum :: "int option list \<Rightarrow> int res" where
  "given_sum xs = rbind (map_res given xs) (\<lambda>ys. Inr (sum_list ys))"

definition contention :: "k6_workload \<Rightarrow> bool" where
  "contention w = (w \<in> {FormalSeatContention, TemporaryHoldContention})"

definition wave_workload :: "k6_workload \<Rightarrow> bool" where
  "wave_workload w = (w \<in> {FormalHotSeatWave, TemporaryHoldHotWave})"

definition hold_or_5s :: "string option \<Rightarrow> string" where
  "hold_or_5s h = (case h of None \<Rightarrow> ''5s'' | Some s \<Rightarrow> if s = [] then ''5s'' else s)"

definition spike_durations :: "k6_args \<Rightarrow> string list" where
  "spike_durations a = [ka_base_duration a, ka_ramp_duration a, hold_or_5s (ka_hold_duration a),
     ka_recovery_duration a, ka_ramp_down_duration a]"

definition spike_total :: "k6_args \<Rightarrow> num res" where
  "spike_total a = rbind (map_res parse_duration (spike_durations a)) (\<lambda>ds. Inr (num_sum ds))"

definition ramp_total :: "k6_args \<Rightarrow> num res" where
  "ramp_total a =
     rbind (parse_duration (ka_ramp_duration a)) (\<lambda>r.
     rbind (case ka_hold_duration a of
         None \<Rightarrow> Inr (PInt 0)
       | Some h \<Rightarrow> if h = [] then Inr (PInt 0) else parse_duration h) (\<lambda>h.
     Inr (num_add r h)))"

definition ceil_mul :: "int \<Rightarrow> num \<Rightarrow> int" where
  "ceil_mul rate d = num_ceil (num_mul (PInt rate) d)"

definition steady_rates :: "k6_args \<Rightarrow> int option list" where
  "steady_rates a =
     (if ka_workload a = SyntheticMixedRead
      then [ka_public_rate a, ka_auth_rate a, ka_seat_map_rate a]
      else if ka_workload a = SyntheticMixedTransactional
      then [ka_checkout_rate a, ka_payment_rate a]
      else if contention (ka_workload a) then [ka_group_rate a] else [ka_rate a])"

definition target_rates :: "k6_args \<Rightarrow> int option list" where
  "target_rates a =
     (if ka_workload a = SyntheticMixedRead
      then [ka_public_target_rate a, ka_auth_target_rate a, ka_seat_map_target_rate a]
      else if ka_workload a = SyntheticMixedTransactional
      then [ka_checkout_target_rate a, ka_payment_target_rate a]
      else [ka_target_rate a])"

definition planned_iterations_base :: "k6_args \<Rightarrow> int res" where
  "planned_iterations_base a =
     (if ka_mode a = Smoke then Inr 3
      else if ka_mode a = Wave then Inr (ka_wave_contenders a)
      else if ka_mode a \<in> {Steady, Soak} then
        (if ka_workload a \<in> {SyntheticMixedRead, SyntheticMixedTransactional}
         then rbind (given_sum (steady_rates a)) (\<lambda>r.
              rbind (parse_duration (ka_duration a)) (\<lambda>d. Inr (ceil_mul r d)))
         else rbind (parse_duration (ka_duration a)) (\<lambda>d.
              rbind (given_sum (steady_rates a)) (\<lambda>r. Inr (ceil_mul r d))))
      else
        (let total = (if ka_mode a = Spike then spike_total a else ramp_total a) in
         if ka_workload a \<in> {SyntheticMixedRead, SyntheticMixedTransactional}
         then rbind (given_sum (target_rates a)) (\<lambda>t. rbind total (\<lambda>d. Inr (ceil_mul t d)))
         else rbind total (\<lambda>d. rbind (given_sum (target_rates a)) (\<lambda>t. Inr (ceil_mul t d)))))"

definition peak_rates :: "k6_args \<Rightarrow> int option list" where
  "peak_rates a =
     (if ka_workload a = SyntheticMixedRead \<and> ka_mode a = Spike
      then [ka_public_target_rate a, ka_auth_target_rate a, ka_seat_map_target_rate a]
      else if ka_workload a = SyntheticMixedTransactional \<and> ka_mode a = Spike
      then [ka_checkout_target_rate a, ka_payment_target_rate a]
      else if ka_mode a \<in> {Discovery, Spike} then [ka_target_rate a]
      else steady_rates a)"

definition build_pool_plan :: "k6_args \<Rightarrow> pool_plan res" where
  "build_pool_plan a =
     rbind (planned_iterations_base a) (\<lambda>planned.
     rbind (if ka_mode a \<in> {Smoke, Wave} then Inr 0
            else rbind (given_sum (peak_rates a)) (\<lambda>peak.
                 rbind (given (ka_preallocated_vus a)) (\<lambda>v. Inr (max v peak)))) (\<lambda>headroom.
     Inr \<lparr>pp_base = planned, pp_headroom = headroom, pp_required = planned + headroom\<rparr>))"

section \<open>Validation of the arguments\<close>

definition falsy :: "int option \<Rightarrow> bool" where
  "falsy x = (x = None \<or> x = Some 0)"

text \<open>\<open>a and b and c\<close>: the first falsy value, or the last one.\<close>

fun and_chain :: "int option list \<Rightarrow> int option" where
  "and_chain [] = None"
| "and_chain [x] = x"
| "and_chain (x # y # xs) = (if falsy x then x else and_chain (y # xs))"

definition not_positive :: "int option \<Rightarrow> bool" where
  "not_positive x = (case x of None \<Rightarrow> True | Some i \<Rightarrow> i \<le> 0)"

definition check_mode :: "k6_args \<Rightarrow> unit res" where
  "check_mode a =
     rbind (require (\<not> (ka_mode a \<in> {Steady, Discovery, Spike, Soak} \<and> falsy (ka_preallocated_vus a)))
       RunError ''--preallocated-vus is required for arrival-rate modes'') (\<lambda>_.
     rbind (require (\<not> (ka_mode a = Wave \<and> \<not> wave_workload (ka_workload a)))
       RunError ''wave mode is only valid for hot-seat wave workloads'') (\<lambda>_.
     require (\<not> (wave_workload (ka_workload a) \<and> ka_mode a \<noteq> Wave))
       RunError ''hot-seat wave workloads require --mode wave''))"

definition check_steady :: "k6_args \<Rightarrow> unit res" where
  "check_steady a =
     (if ka_mode a \<in> {Steady, Soak} then
        rbind (require (\<not> not_positive (and_chain (steady_rates a)))
          RunError ''steady mode requires a positive --rate/--group-rate'') (\<lambda>_.
        rbind (parse_duration (ka_duration a)) (\<lambda>_. Inr ()))
      else Inr ())"

definition discovery_rates :: "k6_args \<Rightarrow> int option list" where
  "discovery_rates a =
     (if ka_workload a = SyntheticMixedRead
      then [ka_public_rate a, ka_auth_rate a, ka_seat_map_rate a,
            ka_public_target_rate a, ka_auth_target_rate a, ka_seat_map_target_rate a]
      else if ka_workload a = SyntheticMixedTransactional
      then [ka_checkout_rate a, ka_payment_rate a, ka_checkout_target_rate a,
            ka_payment_target_rate a]
      else [ka_start_rate a, ka_target_rate a])"

definition check_discovery :: "k6_args \<Rightarrow> unit res" where
  "check_discovery a =
     (if ka_mode a \<in> {Discovery, Spike} then
        rbind (require (\<not> list_ex falsy (discovery_rates a))
          RunError ''discovery/spike requires positive base and target rates'') (\<lambda>_.
        rbind (map_res parse_duration (filter (\<lambda>v. v \<noteq> [])
          [ka_ramp_duration a, case ka_hold_duration a of None \<Rightarrow> [] | Some h \<Rightarrow> h])) (\<lambda>_.
        if ka_mode a = Spike then
          rbind (map_res parse_duration
            [ka_base_duration a, ka_recovery_duration a, ka_ramp_down_duration a]) (\<lambda>_. Inr ())
        else Inr ()))
      else Inr ())"

definition check_wave :: "k6_args \<Rightarrow> int \<Rightarrow> int \<Rightarrow> unit res" where
  "check_wave a session_count seat_count =
     (if wave_workload (ka_workload a) then
        rbind (require (ka_wave_contenders a \<in> {100, 500, 1000})
          RunError ''--wave-contenders must be 100, 500 or 1000'') (\<lambda>_.
        rbind (require (ka_wave_contenders a \<le> session_count)
          RunError ''hot-seat wave requires one distinct Session/user per contender'') (\<lambda>_.
        require (1 \<le> seat_count)
          RunError ''hot-seat wave requires one available target Seat''))
      else Inr ())"

definition check_auth :: "k6_args \<Rightarrow> pool_plan \<Rightarrow> int \<Rightarrow> unit res" where
  "check_auth a plan session_count =
     (if ka_workload a = AuthRead then
        rbind (require (0 < ka_auth_pool_size a \<and> ka_auth_pool_size a \<le> session_count)
          RunError ''auth pool size exceeds available sessions'') (\<lambda>_.
        require (\<not> (ka_auth_mode a = Cold \<and> pp_required plan > session_count)) RunError
          (''cold run requires '' @ int_str (pp_required plan) @ '' unique offline Sessions (''
           @ int_str (pp_base plan) @ '' planned + '' @ int_str (pp_headroom plan)
           @ '' boundary headroom), but only '' @ int_str session_count @ '' are available''))
      else Inr ())"

definition check_contention :: "k6_args \<Rightarrow> pool_plan \<Rightarrow> int \<Rightarrow> int \<Rightarrow> unit res" where
  "check_contention a plan session_count seat_count =
     (if contention (ka_workload a) then
        rbind (require (2 \<le> ka_contenders a \<and> ka_contenders a \<le> 20)
          RunError ''--contenders must be between 2 and 20'') (\<lambda>_.
        rbind (require (ka_contenders a \<le> session_count)
          RunError ''not enough distinct users for one contention group'') (\<lambda>_.
        rbind (require (pp_required plan \<le> seat_count) RunError
          (workload_name (ka_workload a) @ '' run requires '' @ int_str (pp_required plan)
           @ '' unique Seats ('' @ int_str (pp_base plan) @ '' planned groups + ''
           @ int_str (pp_headroom plan) @ '' boundary headroom), but only ''
           @ int_str seat_count @ '' are available'')) (\<lambda>_.
        let required_sessions = pp_required plan * ka_contenders a in
        require (\<not> (ka_workload a = TemporaryHoldContention \<and> required_sessions > session_count))
          RunError (''temporary hold run requires '' @ int_str required_sessions
            @ '' distinct Sessions/users, but only '' @ int_str session_count @ '' are available''))))
      else Inr ())"

definition check_users :: "k6_args \<Rightarrow> pool_plan \<Rightarrow> int \<Rightarrow> int \<Rightarrow> unit res" where
  "check_users a plan session_count seat_count =
     (if ka_workload a \<in> {Checkout, PaymentStart, PaymentLifecycle, Login} then
        rbind (require (pp_required plan \<le> session_count) RunError
          (workload_name (ka_workload a) @ '' run requires '' @ int_str (pp_required plan)
           @ '' unique users, but only '' @ int_str session_count @ '' are available'')) (\<lambda>_.
        require (\<not> (ka_workload a \<noteq> Login \<and> pp_required plan > seat_count)) RunError
          (workload_name (ka_workload a) @ '' run requires '' @ int_str (pp_required plan)
           @ '' unique Seats, but only '' @ int_str seat_count @ '' are available''))
      else Inr ())"

definition check_supported :: "k6_args \<Rightarrow> unit res" where
  "check_supported a =
     rbind (require (\<not> (ka_workload a = Login \<and> ka_mode a = Soak))
       RunError ''login workload does not support soak mode'') (\<lambda>_.
     rbind (require (\<not> (ka_workload a = SyntheticMixedRead \<and> ka_mode a \<notin> {Steady, Spike, Soak}))
       RunError ''synthetic mixed read supports only steady/spike/soak'') (\<lambda>_.
     require (\<not> (ka_workload a = SyntheticMixedTransactional \<and> ka_mode a \<notin> {Steady, Spike}))
       RunError ''synthetic mixed transactional supports only steady/spike''))"

definition validate_args :: "k6_args \<Rightarrow> int \<Rightarrow> int \<Rightarrow> pool_plan res" where
  "validate_args a session_count seat_count =
     rbind (check_mode a) (\<lambda>_.
     rbind (check_steady a) (\<lambda>_.
     rbind (check_discovery a) (\<lambda>_.
     rbind (build_pool_plan a) (\<lambda>plan.
     rbind (check_wave a session_count seat_count) (\<lambda>_.
     rbind (check_auth a plan session_count) (\<lambda>_.
     rbind (check_contention a plan session_count seat_count) (\<lambda>_.
     rbind (check_users a plan session_count seat_count) (\<lambda>_.
     rbind (check_supported a) (\<lambda>_.
     Inr plan)))))))))"

definition mixed_transactional_plan :: "k6_args \<Rightarrow> (int \<times> int) res" where
  "mixed_transactional_plan a =
     rbind (if ka_mode a = Steady then parse_duration (ka_duration a) else spike_total a) (\<lambda>d.
     let payment = (if ka_mode a = Spike then ka_payment_target_rate a else ka_payment_rate a);
         checkout = (if ka_mode a = Spike then ka_checkout_target_rate a else ka_checkout_rate a)
     in rbind (given payment) (\<lambda>pr.
        rbind (given checkout) (\<lambda>cr.
        rbind (given (ka_preallocated_vus a)) (\<lambda>v.
        Inr (ceil_mul pr d + max v pr, ceil_mul cr d + max v cr)))))"

text \<open>The plan that \<open>main\<close> uses for a transactional mix.\<close>

definition mixed_pool_plan :: "k6_args \<Rightarrow> pool_plan \<Rightarrow> int \<Rightarrow> int \<Rightarrow> (pool_plan \<times> int \<times> int) res" where
  "mixed_pool_plan a plan session_count seat_count =
     (if ka_workload a = SyntheticMixedTransactional then
        rbind (mixed_transactional_plan a) (\<lambda>(payment, checkout).
        let total = payment + checkout in
        if total > session_count \<or> total > seat_count
        then Inl (Exn RunError (''synthetic mixed transactional run requires '' @ int_str total
          @ '' disjoint users/Seats, available users='' @ int_str session_count @ '', seats=''
          @ int_str seat_count))
        else Inr (\<lparr>pp_base = pp_base plan, pp_headroom = total - pp_base plan, pp_required = total\<rparr>,
          payment, checkout))
      else Inr (plan, 0, 0))"

definition one_shot_pool :: "k6_args \<Rightarrow> bool" where
  "one_shot_pool a = (ka_workload a \<in> {FormalSeatContention, TemporaryHoldContention, Checkout,
       PaymentStart, PaymentLifecycle, Login, SyntheticMixedTransactional, FormalHotSeatWave,
       TemporaryHoldHotWave} \<or> (ka_workload a = AuthRead \<and> ka_auth_mode a = Cold))"

definition pool_available :: "k6_args \<Rightarrow> int \<Rightarrow> int \<Rightarrow> int option" where
  "pool_available a session_count seat_count =
     (if ka_workload a \<in> {FormalSeatContention, TemporaryHoldContention, Checkout, PaymentStart,
          PaymentLifecycle, SyntheticMixedTransactional} then Some seat_count
      else if one_shot_pool a then Some session_count else None)"


section \<open>Durations: what is accepted\<close>

lemma takeWhile_digits_append:
  "list_all is_digit ds \<Longrightarrow> u = [] \<or> \<not> is_digit (hd u) \<Longrightarrow>
     takeWhile is_digit (ds @ u) = ds \<and> dropWhile is_digit (ds @ u) = u"
  by (induction ds) (cases u; auto)+

definition duration_factor :: "string \<Rightarrow> int" where
  "duration_factor u = (if u = ''s'' then 1 else if u = ''m'' then 60 else 3600)"

lemma nat_str_leading: "0 < n \<Longrightarrow> hd (nat_str n) \<noteq> CHR ''0''"
proof (induction n rule: nat_str.induct)
  case (1 n)
  show ?case
  proof (cases "n < 10")
    case True
    have "digit_char n \<noteq> CHR ''0''"
    proof
      assume "digit_char n = CHR ''0''"
      then have "digit_val (digit_char n) = 0" by (simp add: digit_val_def)
      with 1 True show False by simp
    qed
    with True show ?thesis by (simp add: nat_str.simps [of n])
  next
    case False
    with 1 have "hd (nat_str (n div 10)) \<noteq> CHR ''0''" by simp
    with False show ?thesis by (simp add: nat_str.simps [of n])
  qed
qed

text \<open>Seconds, minutes and hours are read exactly.\<close>

lemma parse_duration_whole:
  assumes "0 < n" and u: "u \<in> {''s'', ''m'', ''h''}"
  shows "parse_duration (nat_str n @ u) = Inr (PInt (int n * duration_factor u))"
proof -
  have "list_all is_digit (nat_str n)" by (auto simp: list_all_iff dest: nat_str_digits)
  moreover have "\<not> is_digit (hd u)" using u by (auto simp: is_digit_def char_between_def)
  ultimately have parts: "takeWhile is_digit (nat_str n @ u) = nat_str n"
      "dropWhile is_digit (nat_str n @ u) = u"
    using takeWhile_digits_append [of "nat_str n" u] by auto
  obtain d ds where d: "nat_str n = d # ds" by (metis nat_str_not_Nil neq_Nil_conv)
  with nat_str_leading [OF assms(1)] have "d \<noteq> CHR ''0''" by simp
  moreover have "digits_val (d # ds) = n" by (metis d digits_val_nat_str)
  moreover have "unit_factor u = Some (PInt (duration_factor u))"
    using u by (auto simp: duration_factor_def)
  ultimately show ?thesis
    unfolding parse_duration_def parts Let_def by (simp add: d del: unit_factor.simps)
qed

lemma digits_val_pos:
  assumes "d \<noteq> CHR ''0''" "is_digit d" shows "0 < digits_val (d # ds)"
proof -
  have "0 < digit_val d"
  proof (rule ccontr)
    assume "\<not> 0 < digit_val d"
    then have "(of_char d :: nat) = 48"
      using assms(2) by (simp add: digit_val_def is_digit_def char_between_def)
    then have "of_char d = (of_char CHR ''0'' :: nat)" by simp
    with assms(1) show False by (metis char_of_char)
  qed
  moreover have "a \<le> foldl (\<lambda>a c. 10 * a + digit_val c) a ds" for a
  proof (induction ds arbitrary: a)
    case (Cons c ds)
    have "a \<le> 10 * a + digit_val c" by simp
    also have "\<dots> \<le> foldl (\<lambda>a c. 10 * a + digit_val c) (10 * a + digit_val c) ds" by (rule Cons.IH)
    finally show ?case by simp
  qed simp
  ultimately show ?thesis by (simp add: digits_val_def) (meson less_le_trans)
qed

lemma parse_duration_nonneg:
  assumes "parse_duration s = Inr d"
  shows "0 \<le> num_rat d"
proof -
  from assms obtain n f where d: "d = num_mul (PInt (int n)) f"
      and f: "unit_factor (dropWhile is_digit s) = Some f"
    by (auto simp: parse_duration_def Let_def split: list.splits option.splits if_splits)
  from f have "f = PFloat (fl64 (1/1000)) \<or> (\<exists>k \<ge> 0. f = PInt k)"
    by (auto split: if_splits)
  moreover have "0 \<le> fl64 (fl64 (of_int (int n)) * fl64 (1/1000))"
    by (intro fl64_nonneg mult_nonneg_nonneg) simp_all
  ultimately show ?thesis using d by auto
qed

section \<open>Pools: what a validated run finds\<close>

lemma validate_args_parts:
  "validate_args a sc st = Inr plan \<longleftrightarrow>
     check_mode a = Inr () \<and> check_steady a = Inr () \<and> check_discovery a = Inr ()
     \<and> build_pool_plan a = Inr plan \<and> check_wave a sc st = Inr ()
     \<and> check_auth a plan sc = Inr () \<and> check_contention a plan sc st = Inr ()
     \<and> check_users a plan sc st = Inr () \<and> check_supported a = Inr ()"
  by (auto simp: validate_args_def res_simps)

lemma build_pool_plan_sum: "build_pool_plan a = Inr p \<Longrightarrow> pp_required p = pp_base p + pp_headroom p"
  by (auto simp: build_pool_plan_def res_simps)

lemma build_pool_plan_wave:
  "build_pool_plan a = Inr p \<Longrightarrow> ka_mode a = Wave \<Longrightarrow>
     pp_base p = ka_wave_contenders a \<and> pp_required p = ka_wave_contenders a"
  by (auto simp: build_pool_plan_def planned_iterations_base_def)

lemma build_pool_plan_arrival:
  assumes "build_pool_plan a = Inr p" and "ka_mode a \<notin> {Smoke, Wave}"
  shows "\<exists>v peak. ka_preallocated_vus a = Some v \<and> given_sum (peak_rates a) = Inr peak
     \<and> pp_headroom p = max v peak"
proof -
  have given: "given x = Inr i \<longleftrightarrow> x = Some i" for x i by (cases x) auto
  show ?thesis using assms by (auto simp: build_pool_plan_def res_simps given)
qed

lemma plan_within_pool:
  assumes v: "validate_args a sc st = Inr p"
    and m: "mixed_pool_plan a p sc st = Inr (q, payment, checkout)" and "one_shot_pool a"
  shows "\<exists>n. pool_available a sc st = Some n \<and> pp_required q \<le> n
     \<and> pp_required q = pp_base q + pp_headroom q"
proof -
  note parts = v [unfolded validate_args_parts]
  show ?thesis
  proof (cases "ka_workload a = SyntheticMixedTransactional")
    case True
    with m show ?thesis
      by (auto simp: mixed_pool_plan_def pool_available_def Let_def res_simps split: prod.splits if_splits)
  next
    case False
    with m have q: "q = p" by (simp add: mixed_pool_plan_def)
    have wave: "pp_required p \<le> sc" if "wave_workload (ka_workload a)"
      using parts that build_pool_plan_wave [of a p]
      by (auto simp: check_mode_def check_wave_def res_simps)
    show ?thesis
      using assms(3) False parts wave q build_pool_plan_sum [of a p]
      by (auto simp: one_shot_pool_def pool_available_def check_auth_def check_contention_def
          check_users_def res_simps contention_def wave_workload_def)
  qed
qed

text \<open>
  The two pools of the transactional mix are disjoint slices of the users and of the seats: the
  payment orders take the first \<open>payment\<close> of them, the checkouts start at that offset.
\<close>

lemma mixed_pools_fit:
  assumes "mixed_pool_plan a p sc st = Inr (q, payment, checkout)"
    and "ka_workload a = SyntheticMixedTransactional"
  shows "payment + checkout \<le> min sc st \<and> pp_required q = payment + checkout
    \<and> (\<exists>d pr cr v. mixed_transactional_plan a = Inr (payment, checkout)
        \<and> payment = ceil_mul pr d + max v pr \<and> checkout = ceil_mul cr d + max v cr)"
  using assms
  by (auto simp: mixed_pool_plan_def mixed_transactional_plan_def Let_def res_simps
      split: prod.splits if_splits)

subsection \<open>Exact counts in whole seconds\<close>

lemma ceil_mul_PInt [simp]: "ceil_mul r (PInt d) = r * d"
  by (simp add: ceil_mul_def)

lemma planned_steady_exact:
  assumes "ka_mode a \<in> {Steady, Soak}" and "given_sum (steady_rates a) = Inr r"
    and "parse_duration (ka_duration a) = Inr (PInt d)"
  shows "planned_iterations_base a = Inr (r * d)"
  using assms by (auto simp: planned_iterations_base_def)

subsection \<open>Two gaps of the validation\<close>

text \<open>
  A mixed workload in discovery mode without the single target rate ends in a TypeError of
  \<open>build_pool_plan\<close>, which \<open>main\<close> does not catch, before the check that would reject it.
\<close>

lemma mixed_discovery_type_error:
  assumes "ka_workload a \<in> {SyntheticMixedRead, SyntheticMixedTransactional}"
    and "ka_mode a = Discovery" and "ka_target_rate a = None" and "ka_ramp_duration a \<noteq> []"
    and "check_mode a = Inr ()" and "check_discovery a = Inr ()"
  shows "\<exists>m. validate_args a sc st = Inl (Exn TypeError m)"
proof -
  obtain r where r: "given_sum (target_rates a) = Inr r"
    using assms(1,6,2)
    by (auto simp: check_discovery_def discovery_rates_def target_rates_def given_sum_def falsy_def
        res_simps split: if_splits elim!: not_None_eq [THEN iffD1, THEN exE])
  obtain d where d: "ramp_total a = Inr d"
    using assms(6,2,4)
    by (cases "ka_hold_duration a")
       (auto simp: check_discovery_def ramp_total_def res_simps split: if_splits)
  have "planned_iterations_base a = Inr (ceil_mul r d)"
    using assms(1,2) r d by (auto simp: planned_iterations_base_def Let_def)
  moreover have "given_sum (peak_rates a) = Inl (Exn TypeError ''unsupported operand type: NoneType'')"
    using assms(1-3) by (auto simp: peak_rates_def given_sum_def)
  ultimately show ?thesis
    using assms by (auto simp: validate_args_def build_pool_plan_def check_steady_def)
qed


section \<open>Properties\<close>

definition steady_checkout :: k6_args where
  "steady_checkout = (default_args Checkout None)\<lparr>ka_mode := Steady, ka_rate := Some 5,
     ka_preallocated_vus := Some 8\<rparr>"

definition steady_mix :: k6_args where
  "steady_mix = (default_args SyntheticMixedTransactional None)\<lparr>ka_mode := Steady,
     ka_checkout_rate := Some 2, ka_payment_rate := Some 3, ka_preallocated_vus := Some 4\<rparr>"



text \<open>
  The payment orders and the checkouts of the transactional mix take disjoint
  slices of the users and seats: their sizes, each the ceiling of rate times duration plus a
  reserve of at least the preallocated users, add up to no more than either pool.
\<close>

lemma mixed_pools_disjoint:
  assumes "mixed_pool_plan a p sc st = Inr (q, payment, checkout)"
    and "ka_workload a = SyntheticMixedTransactional"
  shows "payment + checkout \<le> min sc st \<and> pp_required q = payment + checkout
    \<and> (\<exists>d pr cr v. mixed_transactional_plan a = Inr (payment, checkout)
        \<and> payment = ceil_mul pr d + max v pr \<and> checkout = ceil_mul cr d + max v cr)"
  using assms by (rule mixed_pools_fit)

lemma mixed_pools_disjoint_witness:
  "\<exists>q payment checkout. mixed_pool_plan steady_mix \<lparr>pp_base = 50, pp_headroom = 5, pp_required = 55\<rparr> 100 100
      = Inr (q, payment, checkout) \<and> payment + checkout \<le> 100"
proof -
  have d: "parse_duration ''10s'' = Inr (PInt 10)" by code_simp
  obtain q payment checkout where
      m: "mixed_pool_plan steady_mix \<lparr>pp_base = 50, pp_headroom = 5, pp_required = 55\<rparr> 100 100 = Inr (q, payment, checkout)"
    by (simp add: mixed_pool_plan_def mixed_transactional_plan_def steady_mix_def default_args_def d)
  have "ka_workload steady_mix = SyntheticMixedTransactional" by (simp add: steady_mix_def default_args_def)
  from mixed_pools_disjoint [OF m this] m show ?thesis by auto
qed

text \<open>
  Durations in whole seconds, minutes or hours are read exactly, so a steady run
  plans exactly its rate times the seconds.
\<close>

lemma steady_plan_exact:
  assumes "0 < n" and "u \<in> {''s'', ''m'', ''h''}" and "ka_duration a = nat_str n @ u"
    and "ka_mode a \<in> {Steady, Soak}" and "given_sum (steady_rates a) = Inr r"
  shows "planned_iterations_base a = Inr (r * (int n * duration_factor u))"
  using parse_duration_whole [OF assms(1,2)] assms by (intro planned_steady_exact) simp_all

lemma steady_plan_exact_witness:
  "planned_iterations_base (steady_checkout\<lparr>ka_duration := nat_str 2 @ ''m''\<rparr>) = Inr (5 * (int 2 * duration_factor ''m''))"
  by (rule steady_plan_exact)
     (simp_all add: steady_checkout_def default_args_def given_sum_def steady_rates_def contention_def)

text \<open>
  \textbf{C27.} A mixed workload in discovery mode, with every rate it is asked for but not the
  single \<open>--target-rate\<close>, ends in a TypeError before the check that would reject the mode.
\<close>

theorem mixed_discovery_crashes:
  assumes "ka_workload a \<in> {SyntheticMixedRead, SyntheticMixedTransactional}"
    and "ka_mode a = Discovery" and "ka_target_rate a = None" and "ka_ramp_duration a \<noteq> []"
    and "check_mode a = Inr ()" and "check_discovery a = Inr ()"
  shows "\<exists>m. validate_args a sc st = Inl (Exn TypeError m)"
  using assms by (rule mixed_discovery_type_error)

definition discovery_mix :: k6_args where
  "discovery_mix = steady_mix\<lparr>ka_mode := Discovery, ka_checkout_target_rate := Some 4,
     ka_payment_target_rate := Some 6\<rparr>"

theorem mixed_discovery_crashes_witness:
  "\<exists>m. validate_args discovery_mix 100 100 = Inl (Exn TypeError m)"
proof (rule mixed_discovery_crashes)
  have "parse_duration ''10s'' = Inr (PInt 10)" by code_simp
  then show "check_discovery discovery_mix = Inr ()"
    by (simp add: discovery_mix_def steady_mix_def default_args_def check_discovery_def
        discovery_rates_def falsy_def require_def)
qed (simp_all add: discovery_mix_def steady_mix_def default_args_def check_mode_def falsy_def
      require_def wave_workload_def)

end
