(* ===== verification/K6_Run.thy ===== *)
theory K6_Run
  imports K6_Plan
begin

text \<open>
  \<open>performance/scripts/run_k6.py\<close>, the effects: commands and HTTP, the fixtures, the k6 process
  with its resource samples, the verification of the run and \<open>main\<close>, whose \<open>finally\<close> block
  restores the payment backend and Redis. The variables that the handlers of \<open>main\<close> read are
  the local state. Messages keep their fixed text; values interpolated as Python objects are
  left out of them.
\<close>

section \<open>Commands and HTTP\<close>

definition utc_now :: "('s, string) io" where
  "utc_now = bnd wall (\<lambda>t. asks (\<lambda>w. w_iso w t))"

definition backend_url :: string where "backend_url = ''http://127.0.0.1:18080''"
definition prometheus_url :: string where "prometheus_url = ''http://127.0.0.1:19090''"
definition k6_image :: string where "k6_image = ''grafana/k6:2.2.0''"

definition k6_compose :: "string \<Rightarrow> string list \<Rightarrow> string list" where
  "k6_compose rt arguments =
     [''docker'', ''compose'', ''-p'', ''ticketing-phase10a'', ''-f'',
      rt @ ''/performance/docker-compose.performance.yml''] @ arguments"

definition run_command :: "string list \<Rightarrow> bool \<Rightarrow> ('s, proc) io" where
  "run_command arguments check =
     bnd (run_proc arguments None []) (\<lambda>completed.
     if check \<and> p_rc completed \<noteq> 0
     then raise (Exn RunError (''command failed ('' @ int_str (p_rc completed) @ ''): ''
       @ join_with '' '' arguments @ [nl] @ p_out completed @ p_err completed))
     else ret completed)"

definition run_compose :: "string list \<Rightarrow> bool \<Rightarrow> ('s, proc) io" where
  "run_compose arguments check = bnd (asks w_root) (\<lambda>rt. run_command (k6_compose rt arguments) check)"

definition read_json :: "string \<Rightarrow> ('s, json) io" where
  "read_json path =
     try_except (caught_by [OSError, JSONDecodeError]) (bnd (read_text path) loads)
       (\<lambda>e. raise (Exn RunError (''cannot read '' @ path @ '': '' @ exn_msg e)))"

definition http_get :: "string \<Rightarrow> (string \<times> string) list \<Rightarrow> ('s, http_result) io" where
  "http_get url headers = send \<lparr>hr_method = ''GET'', hr_url = url, hr_headers = headers,
     hr_body = None, hr_timeout = 10\<rparr>"

definition http_json :: "string \<Rightarrow> (string \<times> string) list \<Rightarrow> ('s, json) io" where
  "http_json url headers =
     try_except (caught_by [URLError, OSError, JSONDecodeError])
       (bnd (http_get url headers) (\<lambda>r. case r of
            Response status body \<Rightarrow> loads body
          | HttpError code body \<Rightarrow> raise (Exn URLError (''HTTP Error '' @ int_str code))))
       (\<lambda>e. raise (Exn RunError (''HTTP request failed for '' @ url @ '': '' @ exn_msg e)))"

definition api_json ::
    "string \<Rightarrow> string \<Rightarrow> (string \<times> string) list \<Rightarrow> json option \<Rightarrow> int list \<Rightarrow> ('s, json) io" where
  "api_json url verb headers body expected =
     bnd (try_except (caught_by [URLError, OSError])
       (send \<lparr>hr_method = verb, hr_url = url, hr_headers = headers, hr_body = body,
         hr_timeout = 15\<rparr>)
       (\<lambda>e. raise (Exn RunError (''HTTP request failed for '' @ url @ '': '' @ exn_msg e)))) (\<lambda>r.
     bnd (ret (case r of Response s t \<Rightarrow> (s, t) | HttpError s t \<Rightarrow> (s, t))) (\<lambda>(status, raw).
     if status \<notin> set expected
     then raise (Exn RunError (verb @ '' '' @ url @ '' returned HTTP '' @ int_str status @ '': ''
       @ take 500 raw))
     else try_except (caught_by [JSONDecodeError]) (loads raw)
       (\<lambda>e. raise (Exn RunError (verb @ '' '' @ url @ '' returned invalid JSON'')))))"

definition prometheus_query :: "string \<Rightarrow> ('s, json list) io" where
  "prometheus_query expression =
     bnd (http_json (prometheus_url @ ''/api/v1/query?'' @ urlencode [(''query'', expression)]) []) (\<lambda>payload.
     bnd (of_res (json_get payload ''status'' JNull)) (\<lambda>status.
     if status \<noteq> JStr ''success''
     then raise (Exn RunError ''Prometheus query failed'')
     else of_res (rbind (json_at payload [''data'', ''result'']) json_to_list)))"

section \<open>Redis and the fixtures\<close>

definition scan_delete_script :: string where
  "scan_delete_script = ''local c='0'; local n=0; repeat local r=redis.call('SCAN',c,'MATCH',ARGV[1],''
     @ '''COUNT',1000); c=r[1]; for _,k in ipairs(r[2]) do n=n+redis.call('DEL',k) end ''
     @ ''until c=='0'; return n''"

definition clear_pattern :: "string \<Rightarrow> ('s, int) io" where
  "clear_pattern pattern =
     bnd (run_compose [''exec'', ''-T'', ''redis'', ''redis-cli'', ''--raw'', ''EVAL'',
       scan_delete_script, ''0'', pattern] True) (\<lambda>completed.
     of_res (py_int (str_or (py_strip (p_out completed)) ''0'')))"

definition clear_auth_cache :: "('s, int) io" where
  "clear_auth_cache = clear_pattern ''ticketing:auth-session:*''"

definition clear_seat_holds :: "('s, int) io" where
  "clear_seat_holds = clear_pattern ''ticketing:seat-hold:*''"

definition auth_cache_count :: "('s, int) io" where
  "auth_cache_count =
     bnd (run_compose [''exec'', ''-T'', ''redis'', ''redis-cli'', ''--raw'', ''--scan'', ''--pattern'',
       ''ticketing:auth-session:*''] True) (\<lambda>completed.
     ret (int (length (filter (\<lambda>line. py_strip line \<noteq> []) (splitlines (p_out completed))))))"

function chunks_of :: "nat \<Rightarrow> 'a list \<Rightarrow> 'a list list" where
  "chunks_of n xs = (if n = 0 \<or> xs = [] then [] else take n xs # chunks_of n (drop n xs))"
  by pat_completeness auto
termination by (relation "measure (\<lambda>(n, xs). length xs)") auto

declare chunks_of.simps [simp del]

definition hold_key :: "string \<Rightarrow> json \<Rightarrow> string res" where
  "hold_key ses item = rbind (rbind (json_index item ''sessionSeatId'') json_to_str) (\<lambda>seat.
     Inr (''ticketing:seat-hold:{'' @ ses @ ''}:'' @ seat))"

definition set_holds_script :: string where
  "set_holds_script =
     ''for _,k in ipairs(KEYS) do redis.call('SET',k,ARGV[1],'EX',ARGV[2]) end return #KEYS''"

definition hold_chunk :: "string \<Rightarrow> string \<Rightarrow> int \<Rightarrow> json list \<Rightarrow> ('s, unit) io" where
  "hold_chunk ses owner ttl chunk =
     bnd (of_res (map_res (hold_key ses) chunk)) (\<lambda>keys.
     bnd (run_compose ([''exec'', ''-T'', ''redis'', ''redis-cli'', ''--raw'', ''EVAL'',
       set_holds_script, int_str (int (length keys))] @ keys @ [owner @ ''|0'', int_str ttl]) True) (\<lambda>_.
     ret ()))"

definition held_count :: "int \<Rightarrow> int \<Rightarrow> int" where
  "held_count n density = \<lfloor>fl64 (of_int (n * density) / 100)\<rfloor>"

definition is_held :: "json \<Rightarrow> bool res" where
  "is_held seat = rbind (json_get seat ''status'' JNull) (\<lambda>s. Inr (s = JStr ''HELD''))"

definition seats_of_session :: "json list \<Rightarrow> string \<Rightarrow> json list res" where
  "seats_of_session seats ses =
     rbind (map_res (\<lambda>item. rbind (json_index item ''sessionId'') (\<lambda>v. Inr (item, v = JStr ses))) seats)
       (\<lambda>ps. Inr (map fst (filter snd ps)))"

definition prepare_seat_map_fixture ::
    "json list \<Rightarrow> string \<Rightarrow> int \<Rightarrow> int \<Rightarrow> string \<Rightarrow> ('s, json) io" where
  "prepare_seat_map_fixture seats ses density ttl owner =
     bnd clear_seat_holds (\<lambda>_.
     bnd (of_res (seats_of_session seats ses)) (\<lambda>target.
     let held = held_count (int (length target)) density;
         selected = take (nat held) target in
     sq (for_io (hold_chunk ses owner ttl) (chunks_of 100 selected))
     (bnd (http_json (backend_url @ ''/sessions/'' @ ses @ ''/seats'') []) (\<lambda>payload.
      bnd (of_res (rbind (json_to_list payload) (map_res is_held))) (\<lambda>flags.
      let actual = int (length (filter (\<lambda>b. b) flags)) in
      if actual \<noteq> held
      then raise (Exn RunError (''seat-map fixture mismatch: expected HELD='' @ int_str held
        @ '', actual='' @ int_str actual))
      else ret (JObj [(''densityPercent'', JInt density), (''seatCount'', JInt (int (length target))),
        (''heldCount'', JInt held), (''ttlSeconds'', JInt ttl)]))))))"

definition mutation_headers :: "json \<Rightarrow> string \<Rightarrow> (string \<times> string) list res" where
  "mutation_headers ses key =
     rbind (rbind (json_index ses ''sessionToken'') json_to_str) (\<lambda>tok.
     rbind (rbind (json_index ses ''csrfToken'') json_to_str) (\<lambda>csrf.
     Inr ([(''Accept'', ''application/json''), (''Content-Type'', ''application/json''),
       (''Cookie'', ''ticketing_session='' @ tok @ ''; ticketing_csrf='' @ csrf),
       (''Origin'', ''http://performance.local''), (''X-CSRF-Token'', csrf)]
       @ (if key = [] then [] else [(''Idempotency-Key'', key)]))))"

definition item_at :: "'a list \<Rightarrow> int \<Rightarrow> 'a res" where
  "item_at xs i = (if 0 \<le> i \<and> nat i < length xs then Inr (xs ! nat i)
     else Inl (Exn IndexError ''list index out of range''))"

definition prepare_order :: "json list \<Rightarrow> json list \<Rightarrow> string \<Rightarrow> int \<Rightarrow> ('s, json) io" where
  "prepare_order sessions seats short_token index =
     bnd (of_res (item_at sessions index)) (\<lambda>ses.
     bnd (of_res (item_at seats index)) (\<lambda>seat.
     bnd (of_res (mutation_headers ses
       (''phase10a-payment-'' @ short_token @ ''-'' @ int_str index))) (\<lambda>headers.
     bnd (of_res (json_index seat ''sessionId'')) (\<lambda>sid.
     bnd (of_res (json_index seat ''sessionSeatId'')) (\<lambda>seat_id.
     bnd (api_json (backend_url @ ''/reservations'') ''POST'' headers
       (Some (JObj [(''sessionId'', sid), (''seatIds'', JList [seat_id])])) [201]) (\<lambda>payload.
     bnd (of_res (json_at payload [''order'', ''id''])) (\<lambda>order_id.
     ret (JObj [(''orderId'', order_id), (''sessionIndex'', JInt index)]))))))))"

definition prepare_payment_orders ::
    "json list \<Rightarrow> json list \<Rightarrow> int \<Rightarrow> string \<Rightarrow> ('s, json list) io" where
  "prepare_payment_orders sessions seats n short_token =
     map_io (prepare_order sessions seats short_token) [0..n - 1]"

section \<open>Polling\<close>

definition settlement_sql :: string where
  "settlement_sql = ''SELECT count(*) FROM payment_attempts AS attempt ''
     @ ''JOIN orders AS ticket_order ON ticket_order.id=attempt.order_id ''
     @ ''WHERE ticket_order.user_id LIKE 'perf-user-%' ''
     @ ''AND attempt.status='PROCESSING';''"

definition settlement_probe :: "int \<Rightarrow> ('s, int \<times> bool) io" where
  "settlement_probe x =
     bnd (run_compose [''exec'', ''-T'', ''postgres'', ''psql'', ''-U'', ''ticketing'', ''-d'',
       ''ticketing'', ''-v'', ''ON_ERROR_STOP=1'', ''-At'', ''-c'', settlement_sql] True) (\<lambda>completed.
     bnd (of_res (py_int (py_strip (p_out completed)))) (\<lambda>n. ret (n, n = 0)))"

definition wait_payment_settlement :: "int \<Rightarrow> ('s, int) io" where
  "wait_payment_settlement timeout_seconds =
     bnd (poll_until (of_int timeout_seconds) 1 settlement_probe (-1)) (\<lambda>(processing, settled).
     if settled then ret 0
     else raise (Exn RunError (''payment settlement did not finish within ''
       @ int_str timeout_seconds @ ''s; processing='' @ int_str processing)))"

definition authenticate_session :: "json \<Rightarrow> ('s, unit) io" where
  "authenticate_session ses =
     bnd (of_res (rbind (json_index ses ''sessionToken'') json_to_str)) (\<lambda>tok.
     bnd (http_json (backend_url @ ''/auth/me'') [(''Cookie'', ''ticketing_session='' @ tok)]) (\<lambda>payload.
     bnd (of_res (json_get payload ''id'' JNull)) (\<lambda>actual.
     bnd (of_res (json_index ses ''userId'')) (\<lambda>expected.
     raise_if (\<not> py_eq actual expected) RunError ''warm-up /auth/me returned the wrong user''))))"

definition py_take :: "int \<Rightarrow> 'a list \<Rightarrow> 'a list" where
  "py_take i xs = (if 0 \<le> i then take (nat i) xs else take (length xs - nat (- i)) xs)"

definition warm_probe :: "int \<Rightarrow> int \<Rightarrow> ('s, int \<times> bool) io" where
  "warm_probe wanted x = bnd auth_cache_count (\<lambda>n. ret (n, wanted \<le> n))"

definition prepare_auth :: "k6_args \<Rightarrow> json list \<Rightarrow> ('s, json) io" where
  "prepare_auth a sessions =
     bnd clear_auth_cache (\<lambda>deleted.
     if ka_auth_mode a = Warm then
       sq (for_io authenticate_session (py_take (ka_auth_pool_size a) sessions))
       (bnd (poll_until 10 (fl64 (1/5)) (warm_probe (ka_auth_pool_size a)) 0) (\<lambda>(n, _).
        if n < ka_auth_pool_size a
        then raise (Exn RunError (''warm auth cache has '' @ int_str n
          @ '' keys, expected at least '' @ int_str (ka_auth_pool_size a)))
        else ret (JObj [(''cacheKeysDeleted'', JInt deleted), (''warmedCacheKeys'', JInt n)])))
     else ret (JObj [(''cacheKeysDeleted'', JInt deleted)]))"

definition k6_version :: "('s, string) io" where
  "k6_version = bnd (run_command [''docker'', ''run'', ''--rm'', k6_image, ''version''] True) (\<lambda>completed.
     ret (py_strip (p_out completed)))"

definition series_name :: "json \<Rightarrow> string res" where
  "series_name item = rbind (json_get item ''__name__'' (JStr [])) (\<lambda>v. case v of
      JStr s \<Rightarrow> Inr s | _ \<Rightarrow> Inl (Exn AttributeError ''startswith''))"

definition remote_probe :: "string \<Rightarrow> json list \<Rightarrow> ('s, json list \<times> bool) io" where
  "remote_probe query x =
     bnd (http_json (prometheus_url @ ''/api/v1/series?'' @ query) []) (\<lambda>payload.
     bnd (of_res (json_get payload ''status'' JNull)) (\<lambda>status.
     bnd (of_res (if status = JStr ''success''
       then rbind (json_get payload ''data'' (JList [])) json_to_list else Inr [])) (\<lambda>series.
     bnd (of_res (map_res series_name series)) (\<lambda>names.
     ret (series, list_ex (\<lambda>n. startswith n ''k6_'') names
       \<and> list_ex (\<lambda>n. contains n ''iterations'' \<or> contains n ''http_reqs''
           \<or> contains n ''ticketing_'') names)))))"

definition forbidden_labels :: "string list" where
  "forbidden_labels = [''url'', ''userId'', ''username'', ''sessionToken'', ''csrfToken'',
     ''authSessionId'', ''seatId'', ''sessionId'', ''reservationId'', ''orderId'',
     ''idempotencyKey'', ''vu'', ''iter'', ''ip'', ''error'']"

definition check_labels :: "(rat \<Rightarrow> string) \<Rightarrow> json \<Rightarrow> unit res" where
  "check_labels fr labels =
     rbind (json_to_dict labels) (\<lambda>d.
     rbind (require (\<not> list_ex (dhas d) forbidden_labels) RunError
       ''high-cardinality label found'') (\<lambda>_.
     let serialized = dump_text '', '' '': '' fr labels in
     require (\<not> list_ex (contains serialized) [''perf-user-'', ''perf-ss-'', ''ticketing_session''])
       RunError ''dynamic identifier leaked into Remote Write labels''))"

definition verify_remote_write :: "string \<Rightarrow> rat \<Rightarrow> ('s, json list) io" where
  "verify_remote_write run_id start_epoch =
     bnd (asks w_float_repr) (\<lambda>fr.
     bnd wall (\<lambda>now.
     let query = urlencode [(''match[]'', ''{testid='' @ [dquot] @ run_id @ [dquot] @ ''}''),
           (''start'', fr start_epoch), (''end'', fr (fl64 (now + 5)))] in
     bnd (poll_until 20 1 (remote_probe query) []) (\<lambda>(series, _).
     sq (raise_if (series = []) RunError ''Prometheus has no Remote Write series for this testid'')
     (bnd (of_res (map_res (check_labels fr) series)) (\<lambda>_. ret series)))))"

definition k6_selector :: string where
  "k6_selector = ''{container_label_com_docker_compose_project='' @ [dquot] @ ''ticketing-phase10a''
     @ [dquot] @ '',container_label_com_docker_compose_service='' @ [dquot] @ ''k6'' @ [dquot] @ ''}''"

definition verify_k6_resources :: "('s, bool \<times> bool) io" where
  "verify_k6_resources =
     bnd (prometheus_query (''container_cpu_usage_seconds_total'' @ k6_selector)) (\<lambda>cpu.
     bnd (prometheus_query (''container_memory_working_set_bytes'' @ k6_selector)) (\<lambda>mem.
     ret (cpu \<noteq> [], mem \<noteq> [])))"

text \<open>Six attempts, five seconds apart; the last failure is printed and its code returned.\<close>

fun observe_attempts :: "nat \<Rightarrow> ('s, int) io" where
  "observe_attempts n =
     bnd (asks w_python) (\<lambda>py.
     bnd (asks w_root) (\<lambda>rt.
     bnd (run_command [py, rt @ ''/performance/scripts/verify_observability.py''] False) (\<lambda>completed.
     if p_rc completed = 0 then sq (say (p_out completed)) (ret 0)
     else case n of
       0 \<Rightarrow> sq (say (p_out completed @ p_err completed)) (ret (p_rc completed))
     | Suc m \<Rightarrow> sq (sleep 5) (observe_attempts m))))"

declare observe_attempts.simps [simp del]

definition run_observability_with_retries :: "('s, int) io" where
  "run_observability_with_retries = observe_attempts 5"


section \<open>The state of main\<close>

record k6_state =
  kr_manifest :: dict
  kr_redis_stopped :: bool
  kr_forced :: bool
  kr_code :: int

definition init_state :: k6_state where
  "init_state = \<lparr>kr_manifest = [], kr_redis_stopped = False, kr_forced = False, kr_code = 1\<rparr>"

definition set_field :: "string \<Rightarrow> json \<Rightarrow> (k6_state, unit) io" where
  "set_field k v = mod_st (\<lambda>s. s\<lparr>kr_manifest := dset (kr_manifest s) k v\<rparr>)"

definition if_some :: "bool \<Rightarrow> json \<Rightarrow> json" where
  "if_some b v = (if b then v else JNull)"

definition initial_manifest ::
    "k6_args \<Rightarrow> string \<Rightarrow> string \<Rightarrow> string \<Rightarrow> string \<Rightarrow> string \<Rightarrow> bool \<Rightarrow> json \<Rightarrow> json \<Rightarrow> json
      \<Rightarrow> pool_plan \<Rightarrow> int option \<Rightarrow> dict" where
  "initial_manifest a run_id short start_utc version head dirty profile sha dhead plan available =
     (let spike = (ka_mode a = Spike); auth = (ka_workload a = AuthRead);
          cont = contention (ka_workload a); wave = (ka_mode a = Wave); shot = one_shot_pool a in
      [(''runId'', JStr run_id), (''shortRunToken'', JStr short), (''startUtc'', JStr start_utc),
       (''endUtc'', JNull), (''gitHead'', JStr head), (''gitDirty'', JBool dirty),
       (''datasetProfile'', profile), (''datasetProfileSha256'', sha), (''datasetGitHead'', dhead),
       (''workload'', JStr (workload_name (ka_workload a))), (''mode'', JStr (mode_name (ka_mode a))),
       (''rate'', json_opt_int (ka_rate a)), (''groupRate'', json_opt_int (ka_group_rate a)),
       (''duration'', JStr (ka_duration a)), (''startRate'', json_opt_int (ka_start_rate a)),
       (''targetRate'', json_opt_int (ka_target_rate a)),
       (''baseDuration'', if_some spike (JStr (ka_base_duration a))),
       (''spikeRampDuration'', if_some spike (JStr (ka_ramp_duration a))),
       (''spikeHoldDuration'', if_some spike (JStr (hold_or_5s (ka_hold_duration a)))),
       (''recoveryDuration'', if_some spike (JStr (ka_recovery_duration a))),
       (''rampDownDuration'', if_some spike (JStr (ka_ramp_down_duration a))),
       (''publicRate'', json_opt_int (ka_public_rate a)),
       (''authRate'', json_opt_int (ka_auth_rate a)),
       (''seatMapRate'', json_opt_int (ka_seat_map_rate a)),
       (''checkoutRate'', json_opt_int (ka_checkout_rate a)),
       (''paymentRate'', json_opt_int (ka_payment_rate a)),
       (''publicTargetRate'', json_opt_int (ka_public_target_rate a)),
       (''authTargetRate'', json_opt_int (ka_auth_target_rate a)),
       (''seatMapTargetRate'', json_opt_int (ka_seat_map_target_rate a)),
       (''checkoutTargetRate'', json_opt_int (ka_checkout_target_rate a)),
       (''paymentTargetRate'', json_opt_int (ka_payment_target_rate a)),
       (''preAllocatedVUs'', json_opt_int (ka_preallocated_vus a)),
       (''authMode'', if_some auth (JStr (auth_mode_name (ka_auth_mode a)))),
       (''authPoolSize'', if_some auth (JInt (ka_auth_pool_size a))),
       (''contendersPerSeat'', if_some cont (JInt (ka_contenders a))),
       (''waveContenders'', if_some wave (JInt (ka_wave_contenders a))),
       (''controlRatePerScenario'', if_some wave (JInt (ka_control_rate a))),
       (''waveControlDuration'', if_some wave (JStr (ka_wave_control_duration a))),
       (''plannedIterations'', JInt (pp_base plan)),
       (''plannedIterationsBase'', if_some (\<not> cont) (JInt (pp_base plan))),
       (''plannedGroupsBase'', if_some cont (JInt (pp_base plan))),
       (''poolRequired'', if_some shot (JInt (pp_required plan))),
       (''poolAvailable'', json_opt_int available),
       (''poolHeadroom'', if_some shot (JInt (pp_headroom plan))),
       (''plannedAttemptRate'', case ka_group_rate a of
          Some r \<Rightarrow> if_some (cont \<and> r \<noteq> 0) (JInt (r * ka_contenders a)) | None \<Rightarrow> JNull),
       (''k6Image'', JStr k6_image), (''k6Version'', JStr version), (''k6ExitCode'', JNull),
       (''k6ExitKind'', JNull), (''remoteWriteVerified'', JBool False),
       (''resourceMetrics'', JObj [(''cpu'', JBool False), (''memory'', JBool False)]),
       (''verifierExitCode'', JNull), (''verdict'', JStr ''running'')])"

section \<open>Preparing a run\<close>

record prepared =
  pr_dataset :: json
  pr_sessions :: "json list"
  pr_seats :: "json list"
  pr_plan :: pool_plan
  pr_payment :: int
  pr_checkout :: int

definition load_inputs :: "k6_args \<Rightarrow> (k6_state, prepared) io" where
  "load_inputs a =
     bnd (asks (\<lambda>w. w_root w @ ''/performance/generated'')) (\<lambda>gen.
     bnd (read_json (gen @ ''/dataset.json'')) (\<lambda>dataset.
     bnd (read_json (gen @ ''/sessions.json'')) (\<lambda>js.
     bnd (read_json (gen @ ''/workload-seats.json'')) (\<lambda>jt.
     bnd (case (js, jt) of (JList sessions, JList seats) \<Rightarrow> ret (sessions, seats)
          | _ \<Rightarrow> raise (Exn RunError ''generated Session/Seat manifests must be arrays'')) (\<lambda>(sessions, seats).
     let sc = int (length sessions); st = int (length seats) in
     bnd (of_res (validate_args a sc st)) (\<lambda>plan.
     bnd (of_res (mixed_pool_plan a plan sc st)) (\<lambda>(plan', payment, checkout).
     ret \<lparr>pr_dataset = dataset, pr_sessions = sessions, pr_seats = seats, pr_plan = plan',
          pr_payment = payment, pr_checkout = checkout\<rparr>)))))))"

definition start_run :: "k6_args \<Rightarrow> prepared \<Rightarrow> string \<Rightarrow> string \<Rightarrow> string \<Rightarrow> string \<Rightarrow> (k6_state, unit) io" where
  "start_run a pr dir run_id short start_utc =
     bnd (http_json (backend_url @ ''/health'') []) (\<lambda>_.
     bnd (exists_path dir) (\<lambda>present.
     sq (raise_if present FileExistsError dir)
     (sq (mkdir dir)
     (bnd k6_version (\<lambda>version.
      bnd (run_command [''git'', ''rev-parse'', ''HEAD''] True) (\<lambda>head.
      bnd (run_command [''git'', ''status'', ''--porcelain''] True) (\<lambda>status.
      bnd (of_res (json_index (pr_dataset pr) ''profile'')) (\<lambda>profile.
      bnd (of_res (json_index (pr_dataset pr) ''profileSha256'')) (\<lambda>sha.
      bnd (of_res (json_index (pr_dataset pr) ''gitHead'')) (\<lambda>dhead.
      mod_st (\<lambda>s. s\<lparr>kr_manifest := initial_manifest a run_id short start_utc version
        (py_strip (p_out head)) (py_strip (p_out status) \<noteq> []) profile sha dhead (pr_plan pr)
        (pool_available a (int (length (pr_sessions pr))) (int (length (pr_seats pr))))\<rparr>)))))))))))"

text \<open>Stopping Redis and forcing the payment outcome, each with the flag that \<open>finally\<close> reads.\<close>

definition stop_redis :: "(k6_state, unit) io" where
  "stop_redis = bnd (run_compose [''stop'', ''redis''] True) (\<lambda>_.
     mod_st (\<lambda>s. s\<lparr>kr_redis_stopped := True\<rparr>))"

definition recreate_backend :: "string option \<Rightarrow> ('s, proc) io" where
  "recreate_backend outcome = bnd (asks w_root) (\<lambda>rt.
     run_proc (k6_compose rt [''up'', ''-d'', ''--force-recreate'', ''--wait'', ''backend'']) None
       [(''TICKETING_PAYMENT_FORCE_OUTCOME'', outcome)])"

definition force_payment :: "(k6_state, unit) io" where
  "force_payment = bnd (recreate_backend (Some ''SUCCESS'')) (\<lambda>forced.
     sq (raise_if (p_rc forced \<noteq> 0) RunError
       (''cannot force payment outcome: '' @ p_out forced @ p_err forced))
     (mod_st (\<lambda>s. s\<lparr>kr_forced := True\<rparr>)))"

definition mutating :: "k6_workload \<Rightarrow> bool" where
  "mutating w = (w \<in> {FormalSeatContention, TemporaryHoldContention, Checkout, PaymentStart,
     PaymentLifecycle, SyntheticMixedTransactional, FormalHotSeatWave, TemporaryHoldHotWave})"

definition paying :: "k6_workload \<Rightarrow> bool" where
  "paying w = (w \<in> {PaymentStart, PaymentLifecycle, SyntheticMixedTransactional})"

definition payment_file :: "string \<Rightarrow> string" where
  "payment_file short = ''payment-orders-'' @ short @ ''.json''"

definition prepare_payments :: "k6_args \<Rightarrow> prepared \<Rightarrow> string \<Rightarrow> (k6_state, unit) io" where
  "prepare_payments a pr short =
     sq force_payment
     (bnd (prepare_payment_orders (pr_sessions pr) (pr_seats pr)
        (if ka_workload a = SyntheticMixedTransactional then pr_payment pr
         else pp_required (pr_plan pr)) short) (\<lambda>orders.
      bnd (asks w_root) (\<lambda>rt.
      sq (write_json_text (rt @ ''/performance/generated/'' @ payment_file short) (JList orders))
         (set_field ''paymentFixtureCount'' (JInt (int (length orders)))))))"

definition record_auth :: "k6_args \<Rightarrow> prepared \<Rightarrow> (k6_state, unit) io" where
  "record_auth a pr =
     bnd (prepare_auth a (pr_sessions pr)) (\<lambda>d. set_field ''authPreparation'' d)"

definition prepare_fixtures :: "k6_args \<Rightarrow> prepared \<Rightarrow> string \<Rightarrow> (k6_state, unit) io" where
  "prepare_fixtures a pr short =
     sq (whenever (ka_workload a = AuthRead)
       (sq (record_auth a pr) (whenever (ka_auth_mode a = RedisDown) stop_redis)))
     (sq (whenever (ka_workload a = SyntheticMixedRead) (record_auth a pr))
     (sq (whenever (wave_workload (ka_workload a)) (record_auth a pr))
     (sq (whenever (ka_workload a \<in> {SeatMapRead, SyntheticMixedRead})
       (bnd (of_res (parse_duration (ka_duration a))) (\<lambda>d.
        bnd (of_res (rbind (json_index (pr_dataset pr) ''seatMapSessionId'') json_to_str)) (\<lambda>ses.
        bnd (prepare_seat_map_fixture (pr_seats pr) ses (ka_seat_hold_density a)
          (num_ceil d + 60) (''fixture-'' @ short)) (\<lambda>fixture.
        set_field ''seatMapFixture'' fixture)))))
     (sq (whenever (mutating (ka_workload a))
       (bnd clear_seat_holds (\<lambda>n. set_field ''seatHoldsDeleted'' (JInt n))))
     (whenever (paying (ka_workload a)) (prepare_payments a pr short))))))"

section \<open>The k6 process\<close>

definition optional_env :: "k6_args \<Rightarrow> (string \<times> string option) list" where
  "optional_env a =
     [(''RATE'', map_option int_str (ka_rate a)), (''GROUP_RATE'', map_option int_str (ka_group_rate a)),
      (''PREALLOCATED_VUS'', map_option int_str (ka_preallocated_vus a)),
      (''START_RATE'', map_option int_str (ka_start_rate a)),
      (''TARGET_RATE'', map_option int_str (ka_target_rate a)),
      (''RAMP_DURATION'', Some (ka_ramp_duration a)), (''HOLD_DURATION'', ka_hold_duration a),
      (''BASE_DURATION'', Some (ka_base_duration a)),
      (''RECOVERY_DURATION'', Some (ka_recovery_duration a)),
      (''RAMP_DOWN_DURATION'', Some (ka_ramp_down_duration a)),
      (''PUBLIC_RATE'', map_option int_str (ka_public_rate a)),
      (''AUTH_RATE'', map_option int_str (ka_auth_rate a)),
      (''SEAT_MAP_RATE'', map_option int_str (ka_seat_map_rate a)),
      (''CHECKOUT_RATE'', map_option int_str (ka_checkout_rate a)),
      (''PAYMENT_RATE'', map_option int_str (ka_payment_rate a)),
      (''PUBLIC_TARGET_RATE'', map_option int_str (ka_public_target_rate a)),
      (''AUTH_TARGET_RATE'', map_option int_str (ka_auth_target_rate a)),
      (''SEAT_MAP_TARGET_RATE'', map_option int_str (ka_seat_map_target_rate a)),
      (''CHECKOUT_TARGET_RATE'', map_option int_str (ka_checkout_target_rate a)),
      (''PAYMENT_TARGET_RATE'', map_option int_str (ka_payment_target_rate a))]"

definition k6_environment :: "k6_args \<Rightarrow> prepared \<Rightarrow> string \<Rightarrow> string \<Rightarrow> (string \<times> string) list res" where
  "k6_environment a pr run_id short =
     (let base = [(''RUN_ID'', run_id), (''SHORT_RUN_TOKEN'', short),
            (''BASE_URL'', ''http://backend:8080''), (''MODE'', mode_name (ka_mode a)),
            (''DURATION'', ka_duration a), (''AUTH_MODE'', auth_mode_name (ka_auth_mode a)),
            (''AUTH_POOL_SIZE'', int_str (ka_auth_pool_size a)),
            (''CONTENDERS_PER_SEAT'', int_str (ka_contenders a)),
            (''WAVE_CONTENDERS'', int_str (ka_wave_contenders a)),
            (''CONTROL_RATE'', int_str (ka_control_rate a)),
            (''CONTROL_VUS'', int_str (ka_control_vus a)),
            (''WAVE_CONTROL_DURATION'', ka_wave_control_duration a)];
          e1 = (if paying (ka_workload a)
            then dset base ''PAYMENT_ORDERS_FILE'' (''/data/'' @ payment_file short) else base);
          e2 = (if ka_workload a = SyntheticMixedTransactional
            then dset e1 ''CHECKOUT_POOL_OFFSET'' (int_str (pr_payment pr)) else e1)
      in rbind (if ka_workload a = Login then
             (case ka_login_password a of
                None \<Rightarrow> Inl (Exn RunError
                  ''login workload requires --login-password or TICKETING_PERF_LOGIN_PASSWORD'')
              | Some pw \<Rightarrow> if pw = [] then Inl (Exn RunError
                  ''login workload requires --login-password or TICKETING_PERF_LOGIN_PASSWORD'')
                else Inr (dset e2 ''LOGIN_PASSWORD'' pw))
           else Inr e2) (\<lambda>e3.
         Inr (foldl (\<lambda>e (k, v). case v of None \<Rightarrow> e | Some x \<Rightarrow> dset e k x) e3 (optional_env a))))"

definition k6_command :: "string \<Rightarrow> k6_args \<Rightarrow> (string \<times> string) list \<Rightarrow> string \<Rightarrow> string \<Rightarrow> string list" where
  "k6_command rt a env run_id short =
     k6_compose rt [''--profile'', ''load'', ''run'', ''--rm'', ''--no-deps'', ''--name'',
       ''ticketing-phase10a-k6-'' @ short]
     @ concat (map (\<lambda>(k, v). [''-e'', k @ ''='' @ v]) env)
     @ [''k6'', ''run'', ''-o'', ''experimental-prometheus-rw'', ''--tag'', ''testid='' @ run_id,
        ''/scripts/workloads/'' @ workload_name (ka_workload a) @ ''.js'']"

definition sample_resources :: "('s, bool \<times> bool) io" where
  "sample_resources = try_except (caught_by [RunError]) verify_k6_resources (\<lambda>_. ret (False, False))"

text \<open>The exit code and the resources seen, sampled until the process ends.\<close>

definition watch_k6 :: "bool \<Rightarrow> rat \<Rightarrow> ('s, int \<times> bool \<times> bool) io" where
  "watch_k6 observing first_sample =
     while_io (\<lambda>(cpu, mem, next_at).
       bnd poll (\<lambda>p. case p of
         Some code \<Rightarrow> ret (Inr (code, cpu, mem))
       | None \<Rightarrow>
           bnd (if observing then bnd clock (\<lambda>now. ret (next_at \<le> now)) else ret False) (\<lambda>due.
           bnd (if due then
                  bnd sample_resources (\<lambda>(c, m).
                  bnd clock (\<lambda>now. ret (cpu \<or> c, mem \<or> m, now + 1)))
                else ret (cpu, mem, next_at)) (\<lambda>x.
           sq (sleep (fl64 (1/5))) (ret (Inl x))))))
     (False, False, first_sample)"

definition observes :: "k6_args \<Rightarrow> bool res" where
  "observes a =
     (if ka_mode a = Steady
      then rbind (parse_duration (ka_duration a)) (\<lambda>d. Inr (10 \<le> num_rat d))
      else Inr (ka_mode a = Wave))"

definition run_k6 :: "k6_args \<Rightarrow> string list \<Rightarrow> string \<Rightarrow> (k6_state, int \<times> bool \<times> bool \<times> bool) io" where
  "run_k6 a command dir =
     sq (write_text (dir @ ''/console.log'') [])
     (sq (spawn command)
     (bnd (of_res (observes a)) (\<lambda>observing.
      bnd clock (\<lambda>now.
      bnd (watch_k6 observing (now + 5)) (\<lambda>(code, cpu, mem).
      ret (code, observing, cpu, mem))))))"

definition exit_kind :: "int \<Rightarrow> string" where
  "exit_kind code = (if code = 0 then ''success''
     else if code = 99 then ''threshold_failure'' else ''execution_failure'')"

section \<open>Verification of the run\<close>

definition check_exit :: "string \<Rightarrow> int \<times> bool \<times> bool \<times> bool \<Rightarrow> (k6_state, unit) io" where
  "check_exit dir x = (case x of (code, observing, cpu, mem) \<Rightarrow>
     sq (set_field ''resourceMetrics'' (JObj [(''cpu'', JBool cpu), (''memory'', JBool mem)]))
     (sq (set_field ''k6ExitCode'' (JInt code))
     (sq (set_field ''k6ExitKind'' (JStr (exit_kind code)))
     (sq (raise_if (code \<notin> {0, 99}) RunError
       (''k6 exited with '' @ int_str code @ '' ('' @ exit_kind code @ '')''))
     (sq (raise_if (observing \<and> \<not> (cpu \<and> mem)) RunError ''k6 cAdvisor metrics missing'')
     (bnd (exists_path (dir @ ''/business-summary.json'')) (\<lambda>written.
      raise_if (\<not> written) RunError ''k6 did not write business-summary.json'')))))))"

definition check_series :: "string \<Rightarrow> rat \<Rightarrow> (k6_state, unit) io" where
  "check_series run_id start_epoch =
     bnd (verify_remote_write run_id start_epoch) (\<lambda>series.
     sq (set_field ''remoteWriteVerified'' (JBool True))
     (sq (set_field ''remoteWriteSeriesCount'' (JInt (int (length series))))
     (bnd (of_res (map_res series_name series)) (\<lambda>names.
      set_field ''remoteWriteMetricNames'' (JList (map JStr (sort (remdups names))))))))"

definition check_cold :: "string \<Rightarrow> (k6_state, unit) io" where
  "check_cold dir =
     bnd (read_json (dir @ ''/business-summary.json'')) (\<lambda>summary.
     bnd (of_res (json_index summary ''iterations'')) (\<lambda>measured.
     bnd auth_cache_count (\<lambda>cached.
     sq (set_field ''coldUniqueSessions'' measured)
     (sq (set_field ''coldCacheKeysAfter'' (JInt cached))
     (bnd (of_res (json_to_num measured)) (\<lambda>m.
      raise_if (of_int cached < num_rat m) RunError
        ''cold run did not create one cache entry per completed iteration''))))))"

definition check_database :: "string \<Rightarrow> (k6_state, unit) io" where
  "check_database dir =
     bnd (asks w_python) (\<lambda>py.
     bnd (asks w_root) (\<lambda>rt.
     bnd (run_command [py, rt @ ''/performance/verification/verify_database.py''] False) (\<lambda>verifier.
     sq (write_text (dir @ ''/verifier.txt'') (p_out verifier @ p_err verifier))
     (sq (set_field ''verifierExitCode'' (JInt (p_rc verifier)))
     (raise_if (p_rc verifier \<noteq> 0) RunError ''PostgreSQL invariant verifier failed'')))))"

definition verify_run ::
    "k6_args \<Rightarrow> string \<Rightarrow> string \<Rightarrow> rat \<Rightarrow> int \<times> bool \<times> bool \<times> bool \<Rightarrow> (k6_state, unit) io" where
  "verify_run a dir run_id start_epoch x =
     sq (check_exit dir x)
     (sq (check_series run_id start_epoch)
     (sq (whenever (ka_workload a = AuthRead \<and> ka_auth_mode a = Cold) (check_cold dir))
     (sq (whenever (paying (ka_workload a))
       (bnd (wait_payment_settlement 30) (\<lambda>n. set_field ''processingAttemptsAfterSettlement'' (JInt n))))
     (sq (whenever (mutating (ka_workload a)) (check_database dir))
     (raise_if (fst x = 99) RunError ''k6 exited with 99 (threshold_failure)'')))))"

section \<open>main\<close>

definition finish_run :: "string \<Rightarrow> (k6_state, unit) io" where
  "finish_run dir =
     sq (set_field ''verdict'' (JStr ''passed''))
     (bnd (read_text (dir @ ''/console.log'')) (\<lambda>console.
      sq (say console) (say (''[PASS] run artifacts: '' @ dir))))"

definition k6_work :: "k6_args \<Rightarrow> string \<Rightarrow> string \<Rightarrow> string \<Rightarrow> rat \<Rightarrow> string \<Rightarrow> (k6_state, unit) io" where
  "k6_work a dir run_id short start_epoch start_utc =
     bnd (load_inputs a) (\<lambda>pr.
     sq (start_run a pr dir run_id short start_utc)
     (sq (prepare_fixtures a pr short)
     (bnd (of_res (k6_environment a pr run_id short)) (\<lambda>env.
      bnd (asks w_root) (\<lambda>rt.
      bnd (run_k6 a (k6_command rt a env run_id short) dir) (\<lambda>x.
      sq (verify_run a dir run_id start_epoch x) (finish_run dir)))))))"

definition k6_body :: "k6_args \<Rightarrow> string \<Rightarrow> string \<Rightarrow> string \<Rightarrow> rat \<Rightarrow> string \<Rightarrow> (k6_state, unit) io" where
  "k6_body a dir run_id short start_epoch start_utc =
     sq (k6_work a dir run_id short start_epoch start_utc) (mod_st (\<lambda>s. s\<lparr>kr_code := 0\<rparr>))"

definition k6_failed :: "exn \<Rightarrow> (k6_state, unit) io" where
  "k6_failed e =
     sq (set_field ''verdict'' (JStr ''failed''))
     (sq (set_field ''error'' (JStr (exn_msg e)))
     (say_err (''[FAIL] '' @ exn_msg e)))"

definition mark_failed :: "string \<Rightarrow> (k6_state, unit) io" where
  "mark_failed t =
     sq (set_field ''verdict'' (JStr ''failed''))
     (sq (set_field ''error'' (JStr t)) (mod_st (\<lambda>s. s\<lparr>kr_code := 1\<rparr>)))"

definition restore_payment :: "(k6_state, unit) io" where
  "restore_payment =
     bnd (get_st kr_forced) (\<lambda>forced.
     whenever forced
       (bnd (recreate_backend None) (\<lambda>restored.
        sq (set_field ''paymentBackendRestoreExitCode'' (JInt (p_rc restored)))
        (whenever (p_rc restored \<noteq> 0) (mark_failed ''payment backend restore failed'')))))"

definition restore_redis :: "(k6_state, unit) io" where
  "restore_redis =
     bnd (get_st kr_redis_stopped) (\<lambda>stopped.
     whenever stopped
       (bnd (run_compose [''up'', ''-d'', ''--wait'', ''redis''] False) (\<lambda>restored.
        sq (set_field ''redisRestoreExitCode'' (JInt (p_rc restored)))
        (bnd run_observability_with_retries (\<lambda>code.
         sq (set_field ''postRedisObservabilityExitCode'' (JInt code))
         (whenever (p_rc restored \<noteq> 0 \<or> code \<noteq> 0)
           (mark_failed ''Redis restore or post-recovery observability failed'')))))))"

definition store_manifest :: "string \<Rightarrow> (k6_state, unit) io" where
  "store_manifest dir =
     bnd (get_st kr_manifest) (\<lambda>m.
     bnd (exists_path dir) (\<lambda>present.
     whenever (m \<noteq> [] \<and> present)
       (bnd utc_now (\<lambda>now.
        sq (set_field ''endUtc'' (JStr now))
        (bnd (get_st kr_manifest) (\<lambda>m'. write_json_text (dir @ ''/run-manifest.json'') (JObj m')))))))"

definition k6_finally :: "string \<Rightarrow> (k6_state, unit) io" where
  "k6_finally dir = sq restore_payment (sq restore_redis (store_manifest dir))"

definition valid_run_id :: "string \<Rightarrow> bool" where
  "valid_run_id s = (s \<noteq> [] \<and> list_all (\<lambda>c. is_lower c \<or> is_upper c \<or> is_digit c
     \<or> c = CHR ''_'' \<or> c = CHR ''-'') s)"

definition k6_guarded :: "k6_args \<Rightarrow> string \<Rightarrow> string \<Rightarrow> string \<Rightarrow> rat \<Rightarrow> string \<Rightarrow> (k6_state, unit) io" where
  "k6_guarded a dir run_id short start_epoch start_utc =
     try_finally
       (try_except (caught_by [RunError, ValueError, KeyError, OSError])
         (k6_body a dir run_id short start_epoch start_utc) k6_failed)
       (k6_finally dir)"

definition k6_main :: "k6_args \<Rightarrow> (k6_state, int) io" where
  "k6_main a =
     sq (mod_st (\<lambda>_. init_state))
     (bnd wall (\<lambda>t0.
      bnd (asks (\<lambda>w. w_compact w t0)) (\<lambda>stamp.
      bnd (token 2) (\<lambda>nonce.
      bnd (token 4) (\<lambda>short.
      let run_id = stamp @ ''-'' @ workload_name (ka_workload a) @ ''-'' @ mode_name (ka_mode a)
            @ ''-'' @ nonce in
      if \<not> valid_run_id run_id then sq (say_err ''invalid generated run id'') (ret 1)
      else
        bnd (asks (\<lambda>w. w_root w @ ''/performance/results/'' @ run_id)) (\<lambda>dir.
        bnd wall (\<lambda>start_epoch.
        bnd utc_now (\<lambda>start_utc.
        sq (k6_guarded a dir run_id short start_epoch start_utc) (get_st kr_code)))))))))"


section \<open>The polling loops end\<close>

lemma halts_run_command [halts_intros]: "halts_on w (run_command argv b)" "halts_on w (run_compose args b)"
  unfolding run_command_def run_compose_def by (intro halts_intros)+

lemma halts_http_json [halts_intros]: "halts_on w (http_json url hs)"
  unfolding http_json_def http_get_def
  by (intro halts_intros) (simp add: halts_intros split: http_result.split)

lemma halts_auth_cache [halts_intros]: "halts_on w auth_cache_count" "halts_on w clear_auth_cache"
  unfolding auth_cache_count_def clear_auth_cache_def clear_pattern_def by (intro halts_intros)+

lemma emits_run_command [emits_intros]:
  "(\<And>r. ok (Ran argv None [] r)) \<Longrightarrow> emits ok (run_command argv b)"
  unfolding run_command_def by (intro emits_intros) auto

lemma emits_run_compose:
  "(\<And>rt r. ok (Ran (k6_compose rt args) None [] r)) \<Longrightarrow> emits ok (run_compose args b)"
  unfolding run_compose_def by (intro emits_intros) auto

lemma emits_http_json:
  "(\<And>rq r. hr_method rq = ''GET'' \<Longrightarrow> hr_url rq = url \<Longrightarrow> ok (Requested rq r)) \<Longrightarrow> emits ok (http_json url hs)"
  unfolding http_json_def http_get_def
  by (intro emits_intros) (auto intro!: emits_intros split: http_result.split)

interpretation settlement: polling settlement_probe
proof unfold_locales
  show "emits (\<lambda>_. True) (settlement_probe x)" for x
    unfolding settlement_probe_def by (intro emits_intros emits_run_compose) auto
  show "halts_on w (settlement_probe x)" for w x
    unfolding settlement_probe_def by (intro halts_intros)
qed

interpretation warming: polling "warm_probe wanted" for wanted
proof unfold_locales
  show "emits (\<lambda>_. True) (warm_probe wanted x)" for x
    unfolding warm_probe_def auth_cache_count_def by (intro emits_intros emits_run_compose) auto
  show "halts_on w (warm_probe wanted x)" for w x
    unfolding warm_probe_def by (intro halts_intros)
qed

interpretation remote: polling "remote_probe query" for query
proof unfold_locales
  show "emits (\<lambda>_. True) (remote_probe query x)" for x
    unfolding remote_probe_def by (intro emits_intros emits_http_json) auto
  show "halts_on w (remote_probe query x)" for w x
    unfolding remote_probe_def by (intro halts_intros)
qed

lemma wait_payment_settlement_halts:
  assumes "clock_fair w" and "0 \<le> n" and "n + 1 \<le> int (w_fuel w)"
  shows "halts_on w (wait_payment_settlement n)"
proof -
  have "(of_int (n + 1) :: rat) \<le> of_int (int (w_fuel w))"
    using assms(3) by (simp only: of_int_le_iff)
  then have "of_int n + 1 \<le> (of_nat (w_fuel w) :: rat) * 1" by simp
  then show ?thesis
    unfolding wait_payment_settlement_def
    using assms by (intro halts_intros settlement.poll_returns) auto
qed

lemma verify_remote_write_halts:
  assumes "clock_fair w" and "21 \<le> w_fuel w"
  shows "halts_on w (verify_remote_write run_id t)"
proof -
  have "20 + 1 \<le> (of_nat (w_fuel w) :: rat) * 1" using assms(2) by simp
  then show ?thesis
    unfolding verify_remote_write_def Let_def
    using assms by (intro halts_intros remote.poll_returns) auto
qed

section \<open>What finally restores\<close>

text \<open>
  A successful start of the backend with a forced outcome, a successful stop of Redis, and the
  commands that undo them.
\<close>

definition forced_argv :: "string list" where
  "forced_argv = [''up'', ''-d'', ''--force-recreate'', ''--wait'', ''backend'']"

text \<open>The arguments of a command of the Performance project; none for other commands.\<close>

definition compose_args :: "string list \<Rightarrow> string list" where
  "compose_args argv =
     (if take 5 argv = [''docker'', ''compose'', ''-p'', ''ticketing-phase10a'', ''-f'']
      then drop 6 argv else [])"

lemma compose_args_compose [simp]: "compose_args (k6_compose rt args) = args"
  by (simp add: compose_args_def k6_compose_def)

definition succeeded :: "proc res \<Rightarrow> bool" where
  "succeeded r = (case r of Inl e \<Rightarrow> False | Inr p \<Rightarrow> p_rc p = 0)"

fun forces_payment :: "event \<Rightarrow> bool" where
  "forces_payment (Ran argv inp env r) =
     (env = [(''TICKETING_PAYMENT_FORCE_OUTCOME'', Some ''SUCCESS'')] \<and> succeeded r)"
| "forces_payment e = False"

fun restores_payment :: "event \<Rightarrow> bool" where
  "restores_payment (Ran argv inp env r) =
     (env = [(''TICKETING_PAYMENT_FORCE_OUTCOME'', None)] \<and> compose_args argv = forced_argv)"
| "restores_payment e = False"

fun stops_redis :: "event \<Rightarrow> bool" where
  "stops_redis (Ran argv inp env r) = (compose_args argv = [''stop'', ''redis''] \<and> succeeded r)"
| "stops_redis e = False"

fun starts_redis :: "event \<Rightarrow> bool" where
  "starts_redis (Ran argv inp env r) = (compose_args argv = [''up'', ''-d'', ''--wait'', ''redis''])"
| "starts_redis e = False"

text \<open>
  The flags of the state record the events: flags are never lowered, an event that needs
  undoing has raised its flag, a flag is raised only by the workload it belongs to, and the
  result code stays as it is.
\<close>

definition flagged :: "k6_workload \<Rightarrow> k6_state \<times> history \<Rightarrow> k6_state \<times> history \<Rightarrow> bool" where
  "flagged wl sh sh' = (kr_code (fst sh') = kr_code (fst sh)
     \<and> (kr_forced (fst sh') \<longrightarrow> kr_forced (fst sh) \<or> paying wl)
     \<and> (kr_redis_stopped (fst sh') \<longrightarrow> kr_redis_stopped (fst sh) \<or> wl = AuthRead)
     \<and> (\<exists>t. snd sh' = snd sh @ t
     \<and> (kr_forced (fst sh) \<longrightarrow> kr_forced (fst sh'))
     \<and> (kr_redis_stopped (fst sh) \<longrightarrow> kr_redis_stopped (fst sh'))
     \<and> (list_ex forces_payment t \<longrightarrow> kr_forced (fst sh'))
     \<and> (list_ex stops_redis t \<longrightarrow> kr_redis_stopped (fst sh'))))"

lemma flaggedI:
  assumes "h' = h @ t" and "kr_code s' = kr_code s"
    and "kr_forced s \<longrightarrow> kr_forced s'" and "kr_redis_stopped s \<longrightarrow> kr_redis_stopped s'"
    and "kr_forced s' \<longrightarrow> kr_forced s \<or> paying wl"
    and "kr_redis_stopped s' \<longrightarrow> kr_redis_stopped s \<or> wl = AuthRead"
    and "list_ex forces_payment t \<longrightarrow> kr_forced s'"
    and "list_ex stops_redis t \<longrightarrow> kr_redis_stopped s'"
  shows "flagged wl (s, h) (s', h')"
  using assms unfolding flagged_def by auto

lemma flaggedE:
  assumes "flagged wl (s, h) (s', h')"
  obtains t where "h' = h @ t" and "kr_code s' = kr_code s"
    and "kr_forced s \<longrightarrow> kr_forced s'" and "kr_redis_stopped s \<longrightarrow> kr_redis_stopped s'"
    and "kr_forced s' \<longrightarrow> kr_forced s \<or> paying wl"
    and "kr_redis_stopped s' \<longrightarrow> kr_redis_stopped s \<or> wl = AuthRead"
    and "list_ex forces_payment t \<longrightarrow> kr_forced s'"
    and "list_ex stops_redis t \<longrightarrow> kr_redis_stopped s'"
  using assms unfolding flagged_def by auto

lemma flagged_trans:
  assumes 1: "flagged wl sh sh1" and 2: "flagged wl sh1 sh2"
  shows "flagged wl sh sh2"
proof -
  obtain s h s1 h1 s2 h2 where sh: "sh = (s, h)" "sh1 = (s1, h1)" "sh2 = (s2, h2)" by fastforce
  from 1 obtain t1 where t1: "h1 = h @ t1" "kr_code s1 = kr_code s"
      "kr_forced s \<longrightarrow> kr_forced s1" "kr_redis_stopped s \<longrightarrow> kr_redis_stopped s1"
      "kr_forced s1 \<longrightarrow> kr_forced s \<or> paying wl"
      "kr_redis_stopped s1 \<longrightarrow> kr_redis_stopped s \<or> wl = AuthRead"
      "list_ex forces_payment t1 \<longrightarrow> kr_forced s1" "list_ex stops_redis t1 \<longrightarrow> kr_redis_stopped s1"
    unfolding flagged_def sh by auto
  from 2 obtain t2 where t2: "h2 = h1 @ t2" "kr_code s2 = kr_code s1"
      "kr_forced s1 \<longrightarrow> kr_forced s2" "kr_redis_stopped s1 \<longrightarrow> kr_redis_stopped s2"
      "kr_forced s2 \<longrightarrow> kr_forced s1 \<or> paying wl"
      "kr_redis_stopped s2 \<longrightarrow> kr_redis_stopped s1 \<or> wl = AuthRead"
      "list_ex forces_payment t2 \<longrightarrow> kr_forced s2" "list_ex stops_redis t2 \<longrightarrow> kr_redis_stopped s2"
    unfolding flagged_def sh by auto
  show ?thesis
    unfolding sh
    by (rule flaggedI [of _ _ "t1 @ t2"]) (use t1 t2 in \<open>simp, blast?\<close>)+
qed

interpretation flags: effect_relation "flagged wl"
  "\<lambda>e. \<not> forces_payment e \<and> \<not> stops_redis e" for wl
proof unfold_locales
  show "flagged wl sh sh" for wl sh by (auto simp: flagged_def)
  show "flagged wl sh sh1 \<Longrightarrow> flagged wl sh1 sh2 \<Longrightarrow> flagged wl sh sh2" for wl sh sh1 sh2
    by (rule flagged_trans)
  show "\<not> forces_payment e \<and> \<not> stops_redis e \<Longrightarrow> flagged wl (s, h) (s, h @ [e])" for wl e s h
    by (auto simp: flagged_def)
qed

lemma flagged_run_command:
  "compose_args argv \<noteq> [''stop'', ''redis''] \<Longrightarrow> runs (flagged wl) (run_command argv b)"
  unfolding run_command_def by (intro flags.runs_rules) auto

lemma flagged_run_compose:
  "args \<noteq> [''stop'', ''redis''] \<Longrightarrow> runs (flagged wl) (run_compose args b)"
  unfolding run_compose_def by (intro flags.runs_rules flagged_run_command) auto

lemma flagged_http_json: "runs (flagged wl) (http_json url hs)"
  unfolding http_json_def http_get_def
  by (intro flags.runs_rules) (auto intro!: flags.runs_rules split: http_result.split)

lemma flagged_api_json: "runs (flagged wl) (api_json url verb hs body expected)"
  unfolding api_json_def by (intro flags.runs_rules) auto

lemma flagged_read_json: "runs (flagged wl) (read_json p)"
  unfolding read_json_def by (intro flags.runs_rules) auto

lemma flagged_set_field: "runs (flagged wl) (set_field k v)"
  unfolding set_field_def by (rule flags.runs_mod_st) (auto simp: flagged_def)

text \<open>The two steps that raise a flag: their event comes before it, inside the step.\<close>

lemma flagged_stop_redis:
  assumes "wl = AuthRead"
  shows "runs (flagged wl) stop_redis"
  unfolding runs_def
proof (intro allI impI)
  fix w r and sh sh' :: "k6_state \<times> history"
  assume run: "stop_redis w sh = (r, sh')"
  obtain s h where sh: "sh = (s, h)" by fastforce
  let ?argv = "k6_compose (w_root w) [''stop'', ''redis'']"
  let ?a = "w_run w h ?argv None"
  let ?e = "Ran ?argv None [] ?a"
  from run have "sh' = (if succeeded ?a then s\<lparr>kr_redis_stopped := True\<rparr> else s, h @ [?e])"
    by (auto simp: sh stop_redis_def run_compose_def run_command_def run_proc_def io_defs
        succeeded_def split: sum.splits if_splits)
  then show "flagged wl sh sh'"
    using assms unfolding sh by (auto intro!: flaggedI)
qed

lemma flagged_force_payment:
  assumes "paying wl"
  shows "runs (flagged wl) force_payment"
  unfolding runs_def
proof (intro allI impI)
  fix w r and sh sh' :: "k6_state \<times> history"
  assume run: "force_payment w sh = (r, sh')"
  obtain s h where sh: "sh = (s, h)" by fastforce
  let ?argv = "k6_compose (w_root w) [''up'', ''-d'', ''--force-recreate'', ''--wait'', ''backend'']"
  let ?a = "w_run w h ?argv None"
  let ?e = "Ran ?argv None [(''TICKETING_PAYMENT_FORCE_OUTCOME'', Some ''SUCCESS'')] ?a"
  from run have "sh' = (if succeeded ?a then s\<lparr>kr_forced := True\<rparr> else s, h @ [?e])"
    by (auto simp: sh force_payment_def recreate_backend_def run_proc_def io_defs
        succeeded_def split: sum.splits if_splits)
  then show "flagged wl sh sh'"
    using assms unfolding sh by (auto intro!: flaggedI)
qed

lemmas flagged_rules = flags.runs_rules flagged_run_compose flagged_http_json flagged_api_json
  flagged_read_json flagged_set_field flagged_stop_redis flagged_force_payment

lemma flagged_prepare_auth: "runs (flagged wl) (prepare_auth a sessions)"
  unfolding prepare_auth_def clear_auth_cache_def clear_pattern_def authenticate_session_def
    warm_probe_def auth_cache_count_def
  by (intro flagged_rules flags.runs_poll_until) auto

lemma flagged_load_inputs: "runs (flagged wl) (load_inputs a)"
  unfolding load_inputs_def Let_def
  by (intro flagged_rules) (auto intro!: flagged_rules split: json.splits)

lemma flagged_start_run: "runs (flagged wl) (start_run a pr dir run_id short start_utc)"
  unfolding start_run_def k6_version_def
  by (intro flagged_rules flagged_run_command flags.runs_mod_st)
     (auto simp: compose_args_def flagged_def)

lemma flagged_fixtures: "runs (flagged (ka_workload a)) (prepare_fixtures a pr short)"
  unfolding prepare_fixtures_def record_auth_def prepare_payments_def prepare_payment_orders_def
    prepare_order_def prepare_seat_map_fixture_def clear_seat_holds_def clear_pattern_def
    hold_chunk_def Let_def
  by (intro flagged_rules flagged_prepare_auth) auto

lemma flagged_run_k6: "runs (flagged wl) (run_k6 a command dir)"
  unfolding run_k6_def watch_k6_def sample_resources_def verify_k6_resources_def prometheus_query_def
  by (intro flagged_rules) auto

lemma flagged_verify_run: "runs (flagged wl) (verify_run a dir run_id t x)"
  unfolding verify_run_def check_exit_def check_series_def verify_remote_write_def remote_probe_def
    check_cold_def auth_cache_count_def wait_payment_settlement_def settlement_probe_def
    check_database_def Let_def
  by (intro flagged_rules flagged_run_command flags.runs_poll_until) (auto simp: compose_args_def)

lemma flagged_work: "runs (flagged (ka_workload a)) (k6_work a dir run_id short start_epoch start_utc)"
  unfolding k6_work_def finish_run_def
  by (intro flagged_rules flagged_load_inputs flagged_start_run flagged_fixtures flagged_run_k6
      flagged_verify_run) auto

lemma flagged_failed: "runs (flagged wl) (k6_failed e)"
  unfolding k6_failed_def by (intro flagged_rules) auto


text \<open>Every event of the first kind is followed by one of the second.\<close>

definition followed_by :: "(event \<Rightarrow> bool) \<Rightarrow> (event \<Rightarrow> bool) \<Rightarrow> history \<Rightarrow> bool" where
  "followed_by P Q t = (\<forall>i < length t. P (t ! i) \<longrightarrow> (\<exists>j < length t. i < j \<and> Q (t ! j)))"

lemma followed_by_none: "\<not> list_ex P t \<Longrightarrow> followed_by P Q t"
  by (auto simp: followed_by_def list_ex_iff)

lemma followed_by_append:
  assumes "list_all (\<lambda>e. \<not> P e) t2" and "list_ex P t1 \<Longrightarrow> list_ex Q t2"
  shows "followed_by P Q (t1 @ t2)"
  unfolding followed_by_def
proof (intro allI impI)
  fix i assume i: "i < length (t1 @ t2)" and P: "P ((t1 @ t2) ! i)"
  have "i < length t1"
    using i P assms(1) by (auto simp: nth_append list_all_length split: if_splits)
  with P have "list_ex P t1" by (auto simp: nth_append list_ex_iff)
  then obtain k where "k < length t2" "Q (t2 ! k)"
    using assms(2) by (auto simp: list_ex_length)
  with \<open>i < length t1\<close> show "\<exists>j < length (t1 @ t2). i < j \<and> Q ((t1 @ t2) ! j)"
    by (intro exI [of _ "length t1 + k"]) auto
qed

definition not_undone :: "event \<Rightarrow> bool" where
  "not_undone e = (\<not> forces_payment e \<and> \<not> stops_redis e)"

lemma emits_set_field: "emits ok (set_field k v)" "emits ok (mark_failed t)"
  unfolding mark_failed_def set_field_def by (intro emits_intros)+

lemma emits_observe: "emits not_undone (observe_attempts n)"
proof (induction n)
  case 0
  show ?case
    by (subst observe_attempts.simps, intro emits_intros)
       (auto simp: not_undone_def compose_args_def intro!: emits_intros)
next
  case (Suc n)
  show ?case
    by (subst observe_attempts.simps, unfold nat.case, intro emits_intros Suc)
       (auto simp: not_undone_def compose_args_def)
qed

lemma emits_restore_payment: "emits not_undone restore_payment"
  unfolding restore_payment_def recreate_backend_def
  by (intro emits_intros emits_set_field) (auto simp: not_undone_def)

lemma emits_finally: "emits not_undone (k6_finally dir)"
  unfolding k6_finally_def restore_redis_def store_manifest_def utc_now_def
    run_observability_with_retries_def
  by (intro emits_intros emits_set_field emits_restore_payment emits_run_compose emits_observe)
     (auto simp: not_undone_def)

lemma restore_payment_event:
  assumes "restore_payment w (s, h) = (r, s', h')" and "kr_forced s"
  shows "\<exists>t. h' = h @ t \<and> list_ex restores_payment t"
proof -
  let ?argv = "k6_compose (w_root w) [''up'', ''-d'', ''--force-recreate'', ''--wait'', ''backend'']"
  let ?e = "Ran ?argv None [(''TICKETING_PAYMENT_FORCE_OUTCOME'', None)] (w_run w h ?argv None)"
  have "h' = h @ [?e]"
    using assms
    by (auto simp: restore_payment_def recreate_backend_def run_proc_def io_defs set_field_def
        mark_failed_def split: sum.splits if_splits)
  moreover have "restores_payment ?e" by (auto simp: forced_argv_def)
  ultimately show ?thesis by (intro exI [of _ "[?e]"]) simp
qed

lemma restore_payment_idle: "\<not> kr_forced s \<Longrightarrow> restore_payment w (s, h) = (Ret (), s, h)"
  by (simp add: restore_payment_def io_defs)

lemma restore_redis_event:
  assumes run: "restore_redis w (s, h) = (r, s', h')" and "kr_redis_stopped s"
  shows "\<exists>t. h' = h @ t \<and> list_ex starts_redis t"
proof -
  let ?argv = "k6_compose (w_root w) [''up'', ''-d'', ''--wait'', ''redis'']"
  let ?a = "w_run w h ?argv None"
  let ?e = "Ran ?argv None [] ?a"
  let ?k = "\<lambda>restored. sq (set_field ''redisRestoreExitCode'' (JInt (p_rc restored)))
        (bnd run_observability_with_retries (\<lambda>code.
         sq (set_field ''postRedisObservabilityExitCode'' (JInt code))
         (whenever (p_rc restored \<noteq> 0 \<or> code \<noteq> 0)
           (mark_failed ''Redis restore or post-recovery observability failed''))))"
  have e: "starts_redis ?e" by auto
  show ?thesis
  proof (cases ?a)
    case (Inl x)
    with run assms(2) have "h' = h @ [?e]"
      by (simp add: restore_redis_def run_compose_def run_command_def run_proc_def io_defs)
    with e show ?thesis by (intro exI [of _ "[?e]"]) simp
  next
    case (Inr p)
    with run assms(2) have "?k p w (s, h @ [?e]) = (r, s', h')"
      by (simp add: restore_redis_def run_compose_def run_command_def run_proc_def ret_def raise_def
          bnd_def whenever_def get_st_def asks_def eff_res_def eff_def of_res_def)
    moreover have "emits not_undone (?k p)"
      unfolding run_observability_with_retries_def
      by (intro emits_intros emits_set_field emits_observe)
    ultimately obtain t where "h' = (h @ [?e]) @ t" by (auto elim: emitsD)
    with e show ?thesis by (intro exI [of _ "?e # t"]) simp
  qed
qed

text \<open>The \<open>finally\<close> block undoes what the flags record.\<close>

lemma finally_undoes:
  assumes run: "k6_finally dir w (s, h) = (r, s', h')"
    and one: "\<not> (kr_forced s \<and> kr_redis_stopped s)"
  obtains t where "h' = h @ t" and "list_all not_undone t"
    and "kr_forced s \<Longrightarrow> list_ex restores_payment t"
    and "kr_redis_stopped s \<Longrightarrow> list_ex starts_redis t"
proof -
  obtain t where t: "h' = h @ t" "list_all not_undone t"
    using emits_finally run by (rule emitsD)
  have tail: "\<exists>u. h' = h1 @ u" if "m w (s1, h1) = (r, s', h')" "emits not_undone m"
    for m :: "(k6_state, unit) io" and s1 h1
    using that by (auto elim: emitsD)
  have rest: "emits not_undone (sq restore_redis (store_manifest dir))"
    unfolding restore_redis_def store_manifest_def utc_now_def run_observability_with_retries_def
    by (intro emits_intros emits_set_field emits_run_compose emits_observe) (auto simp: not_undone_def)
  have store: "emits not_undone (store_manifest dir)"
    unfolding store_manifest_def utc_now_def
    by (intro emits_intros emits_set_field) (auto simp: not_undone_def)
  have "list_ex restores_payment t" if f: "kr_forced s"
  proof -
    obtain r1 s1 h1 where m: "restore_payment w (s, h) = (r1, s1, h1)" by (metis prod_cases3)
    obtain t1 where t1: "h1 = h @ t1" "list_ex restores_payment t1"
      using restore_payment_event [OF m f] by blast
    have "\<exists>u. h' = h1 @ u"
    proof (cases r1)
      case (Ret x)
      with run m have "sq restore_redis (store_manifest dir) w (s1, h1) = (r, s', h')"
        by (simp add: k6_finally_def sq_def [of restore_payment] bnd_def [of restore_payment])
      then show ?thesis using rest by (rule tail)
    qed (use run m in \<open>auto simp: k6_finally_def sq_def bnd_def\<close>)
    with t t1 show ?thesis by auto
  qed
  moreover have "list_ex starts_redis t" if f: "kr_redis_stopped s"
  proof -
    have "\<not> kr_forced s" using one f by blast
    with run have run': "sq restore_redis (store_manifest dir) w (s, h) = (r, s', h')"
      by (simp add: k6_finally_def sq_def [of restore_payment] bnd_def [of restore_payment]
          restore_payment_idle)
    obtain r1 s1 h1 where m: "restore_redis w (s, h) = (r1, s1, h1)" by (metis prod_cases3)
    obtain t1 where t1: "h1 = h @ t1" "list_ex starts_redis t1"
      using restore_redis_event [OF m f] by blast
    have "\<exists>u. h' = h1 @ u"
    proof (cases r1)
      case (Ret x)
      with run' m have "store_manifest dir w (s1, h1) = (r, s', h')"
        by (simp add: sq_def [of restore_redis] bnd_def [of restore_redis])
      then show ?thesis using store by (rule tail)
    qed (use run' m in \<open>auto simp: sq_def bnd_def\<close>)
    with t t1 show ?thesis by auto
  qed
  ultimately show thesis using t that by blast
qed


lemma body_flags:
  assumes run: "try_except p (k6_body a dir run_id short start_epoch start_utc) k6_failed w (s, h) = (r, s', h')"
    and init: "\<not> kr_forced s" "\<not> kr_redis_stopped s" "kr_code s = 1"
  obtains t where "h' = h @ t"
    and "list_ex forces_payment t \<Longrightarrow> kr_forced s'" and "list_ex stops_redis t \<Longrightarrow> kr_redis_stopped s'"
    and "kr_forced s' \<Longrightarrow> paying (ka_workload a)" and "kr_redis_stopped s' \<Longrightarrow> ka_workload a = AuthRead"
    and "kr_code s' = 0 \<Longrightarrow> \<exists>s1. k6_work a dir run_id short start_epoch start_utc w (s, h) = (Ret (), s1, h')
        \<and> s' = s1\<lparr>kr_code := 0\<rparr>"
proof -
  let ?m = "k6_work a dir run_id short start_epoch start_utc"
  obtain r1 s1 h1 where m: "?m w (s, h) = (r1, s1, h1)" by (metis prod_cases3)
  note f1 = runsD [OF flagged_work m]
  show thesis
  proof (cases "\<exists>e. r1 = Raised e \<and> p e")
    case False
    then have "h' = h1" and "s' = s1 \<or> (r1 = Ret () \<and> s' = s1\<lparr>kr_code := 0\<rparr>)"
      using run m by (cases r1; auto simp: try_except_def k6_body_def sq_def bnd_def mod_st_def)+
    from f1 obtain t where "h1 = h @ t" "kr_code s1 = kr_code s"
        "kr_forced s1 \<longrightarrow> kr_forced s \<or> paying (ka_workload a)"
        "kr_redis_stopped s1 \<longrightarrow> kr_redis_stopped s \<or> ka_workload a = AuthRead"
        "list_ex forces_payment t \<longrightarrow> kr_forced s1" "list_ex stops_redis t \<longrightarrow> kr_redis_stopped s1"
      by (rule flaggedE)
    with \<open>h' = h1\<close> \<open>s' = s1 \<or> (r1 = Ret () \<and> s' = s1\<lparr>kr_code := 0\<rparr>)\<close> init m show thesis
      by (intro that [of t]) (simp_all, fastforce+)
  next
    case True
    then obtain e where "r1 = Raised e" "p e" by blast
    with run m have k: "k6_failed e w (s1, h1) = (r, s', h')"
      by (auto simp: try_except_def k6_body_def sq_def bnd_def)
    have "flagged (ka_workload a) (s, h) (s', h')"
      using f1 runsD [OF flagged_failed k] by (rule flagged_trans)
    then obtain t where "h' = h @ t" "kr_code s' = kr_code s"
        "kr_forced s' \<longrightarrow> kr_forced s \<or> paying (ka_workload a)"
        "kr_redis_stopped s' \<longrightarrow> kr_redis_stopped s \<or> ka_workload a = AuthRead"
        "list_ex forces_payment t \<longrightarrow> kr_forced s'" "list_ex stops_redis t \<longrightarrow> kr_redis_stopped s'"
      by (rule flaggedE)
    with init show thesis by (intro that [of t]) simp_all
  qed
qed

lemma k6_guarded_restores:
  assumes run: "k6_guarded a dir run_id short start_epoch start_utc w (s, h) = (r, s', h')"
    and ends: "r \<noteq> Diverged" and init: "\<not> kr_forced s" "\<not> kr_redis_stopped s" "kr_code s = 1"
  shows "\<exists>t. h' = h @ t \<and> followed_by forces_payment restores_payment t
     \<and> followed_by stops_redis starts_redis t"
proof -
  let ?b = "try_except (caught_by [RunError, ValueError, KeyError, OSError])
      (k6_body a dir run_id short start_epoch start_utc) k6_failed"
  obtain r1 s1 h1 where m: "?b w (s, h) = (r1, s1, h1)" by (metis prod_cases3)
  from body_flags [OF m init] obtain t1 where t1: "h1 = h @ t1"
      "list_ex forces_payment t1 \<Longrightarrow> kr_forced s1" "list_ex stops_redis t1 \<Longrightarrow> kr_redis_stopped s1"
      "kr_forced s1 \<Longrightarrow> paying (ka_workload a)" "kr_redis_stopped s1 \<Longrightarrow> ka_workload a = AuthRead"
    by metis
  have "r1 \<noteq> Diverged" using run m ends by (auto simp: k6_guarded_def try_finally_def)
  then obtain r2 where k: "k6_finally dir w (s1, h1) = (r2, s', h')"
    using run m by (cases r1)
      (auto simp: k6_guarded_def try_finally_def split: prod.splits outcome.splits)
  have one: "\<not> (kr_forced s1 \<and> kr_redis_stopped s1)" using t1(4,5) by (auto simp: paying_def)
  from k one obtain t2 where t2: "h' = h1 @ t2" "list_all not_undone t2"
      "kr_forced s1 \<Longrightarrow> list_ex restores_payment t2" "kr_redis_stopped s1 \<Longrightarrow> list_ex starts_redis t2"
    by (rule finally_undoes) blast
  have "followed_by forces_payment restores_payment (t1 @ t2)"
    using t1(2) t2 by (intro followed_by_append) (auto simp: not_undone_def list_all_iff)
  moreover have "followed_by stops_redis starts_redis (t1 @ t2)"
    using t1(3) t2 by (intro followed_by_append) (auto simp: not_undone_def list_all_iff)
  ultimately show ?thesis using t1(1) t2(1) by (intro exI [of _ "t1 @ t2"]) simp
qed

lemma k6_main_restores:
  assumes run: "k6_main a w (s, h) = (r, s', h')" and ends: "r \<noteq> Diverged"
  shows "\<exists>t. h' = h @ t \<and> followed_by forces_payment restores_payment t
     \<and> followed_by stops_redis starts_redis t"
proof -
  let ?quiet = "\<lambda>t. list_all (\<lambda>e. \<not> forces_payment e \<and> \<not> stops_redis e) t"
  have shift: "followed_by P Q (t0 @ t)" if "followed_by P Q t" "list_all (\<lambda>e. \<not> P e) t0" for P Q t0 t
    unfolding followed_by_def
  proof (intro allI impI)
    fix i assume i: "i < length (t0 @ t)" "P ((t0 @ t) ! i)"
    then have "length t0 \<le> i" using that(2) by (auto simp: nth_append list_all_length split: if_splits)
    then obtain k where k: "i = length t0 + k" by (metis le_Suc_ex)
    with i that(1) obtain j where "j < length t" "k < j" "Q (t ! j)"
      by (auto simp: followed_by_def nth_append)
    with k show "\<exists>j < length (t0 @ t). i < j \<and> Q ((t0 @ t) ! j)"
      by (intro exI [of _ "length t0 + j"]) (auto simp: nth_append)
  qed
  let ?r1 = "w_compact w (w_wall w h)"
  let ?h1 = "h @ [WallClocked (w_wall w h)]"
  let ?h2 = "?h1 @ [TokenMade 2 (w_token w ?h1 2)]"
  let ?h3 = "?h2 @ [TokenMade 4 (w_token w ?h2 4)]"
  let ?id = "?r1 @ ''-'' @ workload_name (ka_workload a) @ ''-'' @ mode_name (ka_mode a) @ ''-'' @ w_token w ?h1 2"
  show ?thesis
  proof (cases "valid_run_id ?id")
    case False
    with run have "h' = ?h3 @ [PrintedErr ''invalid generated run id'']"
      by (simp add: k6_main_def Let_def wall_def token_def say_err_def io_defs)
    then show ?thesis
      by (intro exI [of _ "[WallClocked (w_wall w h), TokenMade 2 (w_token w ?h1 2),
            TokenMade 4 (w_token w ?h2 4), PrintedErr ''invalid generated run id'']"])
         (simp add: followed_by_none)
  next
    case True
    let ?h4 = "?h3 @ [WallClocked (w_wall w ?h3)]"
    let ?h5 = "?h4 @ [WallClocked (w_wall w ?h4)]"
    let ?dir = "w_root w @ ''/performance/results/'' @ ?id"
    let ?g = "k6_guarded a ?dir ?id (w_token w ?h2 4) (w_wall w ?h3) (w_iso w (w_wall w ?h4))"
    obtain r2 where "?g w (init_state, ?h5) = (r2, s', h')" and "r2 \<noteq> Diverged"
      using run True ends
      by (auto simp: k6_main_def Let_def wall_def token_def utc_now_def io_defs
          split: prod.splits outcome.splits)
    from k6_guarded_restores [OF this] obtain t where t: "h' = ?h5 @ t"
        "followed_by forces_payment restores_payment t" "followed_by stops_redis starts_redis t"
      by (auto simp: init_state_def)
    let ?t0 = "[WallClocked (w_wall w h), TokenMade 2 (w_token w ?h1 2), TokenMade 4 (w_token w ?h2 4),
      WallClocked (w_wall w ?h3), WallClocked (w_wall w ?h4)]"
    have "h' = h @ (?t0 @ t)" using t(1) by simp
    then show ?thesis using shift [OF t(2), of ?t0] shift [OF t(3), of ?t0]
      by (intro exI [of _ "?t0 @ t"]) simp
  qed
qed


section \<open>What a result code of zero means\<close>

definition field :: "string \<Rightarrow> k6_state \<times> history \<Rightarrow> json option" where
  "field k sh = dget (kr_manifest (fst sh)) k"

definition kept :: "string set \<Rightarrow> k6_state \<times> history \<Rightarrow> k6_state \<times> history \<Rightarrow> bool" where
  "kept ks sh sh' = (\<forall>k \<in> ks. field k sh' = field k sh)"

interpretation keeping: effect_relation "kept ks" "\<lambda>_. True" for ks
  by unfold_locales (auto simp: kept_def field_def)

lemma kept_set_field: "k \<notin> ks \<Longrightarrow> runs (kept ks) (set_field k v)"
  unfolding set_field_def by (rule keeping.runs_mod_st) (auto simp: kept_def field_def)

lemma kept_commands:
  "runs (kept ks) (run_command argv b)" "runs (kept ks) (run_compose args b)"
  "runs (kept ks) (read_json p)" "runs (kept ks) (http_json url hs)"
  unfolding run_command_def run_compose_def read_json_def http_json_def http_get_def
  by (intro keeping.runs_rules TrueI; auto intro!: keeping.runs_rules split: http_result.split)+

lemma kept_after_exit:
  "runs (kept {''k6ExitCode''}) (check_series run_id t)"
  "runs (kept {''k6ExitCode''}) (check_cold dir)"
  "runs (kept {''k6ExitCode''}) (check_database dir)"
  "runs (kept ks) (wait_payment_settlement n)"
  unfolding check_series_def verify_remote_write_def remote_probe_def check_cold_def
    auth_cache_count_def check_database_def wait_payment_settlement_def settlement_probe_def Let_def
  by (intro keeping.runs_rules kept_commands kept_set_field keeping.runs_poll_until TrueI; simp)+

lemma sq_RetE:
  assumes "sq m k w sh = (Ret y, sh')"
  obtains sh1 where "m w sh = (Ret (), sh1)" and "k w sh1 = (Ret y, sh')"
  using assms unfolding sq_def by (auto elim: bnd_RetE)

lemma raise_if_Ret: "raise_if b c t w sh = (Ret u, sh') \<longleftrightarrow> \<not> b \<and> sh' = sh"
  by (auto simp: raise_if_def raise_def ret_def)

lemma set_field_Ret:
  "set_field k v w sh = (Ret u, sh') \<longleftrightarrow>
     sh' = ((fst sh)\<lparr>kr_manifest := dset (kr_manifest (fst sh)) k v\<rparr>, snd sh)"
  by (cases sh) (auto simp: set_field_def mod_st_def)

lemma whenever_Ret: "whenever b m w sh = (Ret (), sh') \<longleftrightarrow> (if b then m w sh = (Ret (), sh') else sh' = sh)"
  by (auto simp: whenever_def ret_def)

lemma check_exit_Ret:
  assumes "check_exit dir x w sh = (Ret (), sh')"
  shows "field ''k6ExitCode'' sh' = Some (JInt (fst x)) \<and> fst x \<in> {0, 99}"
  using assms
  by (auto simp: check_exit_def raise_if_Ret set_field_Ret exists_path_def looks_def field_def
      split: prod.splits elim!: sq_RetE bnd_RetE)

lemma check_database_Ret:
  assumes "check_database dir w sh = (Ret (), sh')"
  shows "field ''verifierExitCode'' sh' = Some (JInt 0)"
  using assms
  by (auto simp: check_database_def raise_if_Ret set_field_Ret field_def elim!: sq_RetE bnd_RetE)

lemma verify_run_Ret:
  assumes "verify_run a dir run_id t x w sh = (Ret (), sh')"
  shows "fst x = 0 \<and> field ''k6ExitCode'' sh' = Some (JInt 0)
     \<and> (mutating (ka_workload a) \<longrightarrow> field ''verifierExitCode'' sh' = Some (JInt 0))"
proof -
  let ?K = "kept {''k6ExitCode''}"
  from assms obtain s1 s2 s3 s4 s5 where
      1: "check_exit dir x w sh = (Ret (), s1)" and 2: "check_series run_id t w s1 = (Ret (), s2)"
    and 3: "whenever (ka_workload a = AuthRead \<and> ka_auth_mode a = Cold) (check_cold dir) w s2 = (Ret (), s3)"
    and 4: "whenever (paying (ka_workload a)) (bnd (wait_payment_settlement 30)
        (\<lambda>n. set_field ''processingAttemptsAfterSettlement'' (JInt n))) w s3 = (Ret (), s4)"
    and 5: "whenever (mutating (ka_workload a)) (check_database dir) w s4 = (Ret (), s5)"
    and 6: "raise_if (fst x = 99) RunError ''k6 exited with 99 (threshold_failure)'' w s5 = (Ret (), sh')"
    by (auto simp: verify_run_def elim!: sq_RetE)
  from 6 have end_state: "fst x \<noteq> 99" "sh' = s5" by (simp_all add: raise_if_Ret)
  have "?K s1 s2" using runsD [OF kept_after_exit(1) 2] .
  moreover have "?K s2 s3" using 3 runsD [OF kept_after_exit(2)]
    by (auto simp: whenever_Ret keeping.rel_refl split: if_splits)
  moreover have "runs ?K (bnd (wait_payment_settlement 30)
        (\<lambda>n. set_field ''processingAttemptsAfterSettlement'' (JInt n)))"
    by (intro keeping.runs_bnd kept_after_exit kept_set_field) simp
  then have "?K s3 s4" using 4 by (auto simp: whenever_Ret keeping.rel_refl dest: runsD split: if_splits)
  moreover have "?K s4 s5" using 5 runsD [OF kept_after_exit(3)]
    by (auto simp: whenever_Ret keeping.rel_refl split: if_splits)
  ultimately have "field ''k6ExitCode'' s5 = field ''k6ExitCode'' s1" by (simp add: kept_def)
  with check_exit_Ret [OF 1] end_state 5 show ?thesis
    by (auto simp: whenever_Ret dest: check_database_Ret split: if_splits)
qed

lemma k6_work_Ret:
  assumes "k6_work a dir run_id short start_epoch start_utc w sh = (Ret (), sh')"
  shows "field ''verdict'' sh' = Some (JStr ''passed'') \<and> field ''k6ExitCode'' sh' = Some (JInt 0)
     \<and> (mutating (ka_workload a) \<longrightarrow> field ''verifierExitCode'' sh' = Some (JInt 0))"
proof -
  from assms obtain x s1 s2 where
      v: "verify_run a dir run_id start_epoch x w s1 = (Ret (), s2)"
    and rest: "finish_run dir w s2 = (Ret (), sh')"
    unfolding k6_work_def by (elim bnd_RetE sq_RetE) blast
  from rest [unfolded finish_run_def] obtain s3 where s3: "set_field ''verdict'' (JStr ''passed'') w s2 = (Ret (), s3)"
    and tail: "bnd (read_text (dir @ ''/console.log'')) (\<lambda>console.
       sq (say console) (say (''[PASS] run artifacts: '' @ dir))) w s3 = (Ret (), sh')"
    by (rule sq_RetE)
  have "runs (kept UNIV) (bnd (read_text (dir @ ''/console.log'')) (\<lambda>console.
       sq (say console) (say (''[PASS] run artifacts: '' @ dir))))"
    by (intro keeping.runs_rules TrueI)
  from runsD [OF this tail] have "field k sh' = field k s3" for k by (simp add: kept_def)
  with verify_run_Ret [OF v] s3 show ?thesis by (auto simp: set_field_Ret field_def)
qed

text \<open>
  The \<open>finally\<close> block either turns the code into a failure or leaves code and verdict alone.
\<close>

definition stays_good :: "k6_state \<times> history \<Rightarrow> k6_state \<times> history \<Rightarrow> bool" where
  "stays_good sh sh' = (kr_code (fst sh') = 0 \<longrightarrow> kr_code (fst sh) = 0
     \<and> (\<forall>k \<in> {''verdict'', ''k6ExitCode'', ''verifierExitCode''}. field k sh' = field k sh))"

interpretation staying: effect_relation stays_good "\<lambda>_. True"
  by unfold_locales (auto simp: stays_good_def field_def)

lemma stays_good_set_field:
  "k \<notin> {''verdict'', ''k6ExitCode'', ''verifierExitCode''} \<Longrightarrow> runs stays_good (set_field k v)"
  unfolding set_field_def by (rule staying.runs_mod_st) (auto simp: stays_good_def field_def)

lemma stays_good_mark_failed: "runs stays_good (mark_failed t)"
  by (auto simp: runs_def mark_failed_def set_field_def io_defs stays_good_def)

lemma stays_good_command: "runs stays_good (run_command argv b)" "runs stays_good (run_compose args b)"
  unfolding run_command_def run_compose_def by (intro staying.runs_rules TrueI)+

lemma stays_good_observe: "runs stays_good (observe_attempts n)"
proof (induction n)
  case 0
  show ?case
    by (subst observe_attempts.simps, unfold nat.case, intro staying.runs_rules stays_good_command TrueI)
next
  case (Suc n)
  show ?case
    by (subst observe_attempts.simps, unfold nat.case,
        intro staying.runs_rules stays_good_command TrueI Suc)
qed

lemma stays_good_finally: "runs stays_good (k6_finally dir)"
  unfolding k6_finally_def restore_payment_def restore_redis_def store_manifest_def utc_now_def
    recreate_backend_def run_observability_with_retries_def
  by (intro staying.runs_rules stays_good_set_field stays_good_mark_failed stays_good_command
      stays_good_observe TrueI) simp_all

lemma k6_guarded_success:
  assumes run: "k6_guarded a dir run_id short start_epoch start_utc w (s, h) = (Ret (), s', h')"
    and init: "\<not> kr_forced s" "\<not> kr_redis_stopped s" "kr_code s = 1" and zero: "kr_code s' = 0"
  shows "dget (kr_manifest s') ''verdict'' = Some (JStr ''passed'')
     \<and> dget (kr_manifest s') ''k6ExitCode'' = Some (JInt 0)
     \<and> (mutating (ka_workload a) \<longrightarrow> dget (kr_manifest s') ''verifierExitCode'' = Some (JInt 0))"
proof -
  let ?b = "try_except (caught_by [RunError, ValueError, KeyError, OSError])
      (k6_body a dir run_id short start_epoch start_utc) k6_failed"
  obtain r1 s1 h1 where m: "?b w (s, h) = (r1, s1, h1)" by (metis prod_cases3)
  then obtain r2 where k: "k6_finally dir w (s1, h1) = (r2, s', h')"
    using run by (cases r1)
      (auto simp: k6_guarded_def try_finally_def split: prod.splits outcome.splits)
  from runsD [OF stays_good_finally k] zero have code: "kr_code s1 = 0"
    and fields: "\<forall>k \<in> {''verdict'', ''k6ExitCode'', ''verifierExitCode''}. field k (s', h') = field k (s1, h1)"
    by (simp_all add: stays_good_def)
  from body_flags [OF m init] code obtain s2 where
      "k6_work a dir run_id short start_epoch start_utc w (s, h) = (Ret (), s2, h1)"
      "s1 = s2\<lparr>kr_code := 0\<rparr>" by metis
  with k6_work_Ret [of a dir run_id short start_epoch start_utc w "(s, h)" "(s2, h1)"] fields
  show ?thesis by (simp add: field_def)
qed

lemma k6_main_success:
  assumes run: "k6_main a w (s, h) = (Ret 0, s', h')"
  shows "dget (kr_manifest s') ''verdict'' = Some (JStr ''passed'')
     \<and> dget (kr_manifest s') ''k6ExitCode'' = Some (JInt 0)
     \<and> (mutating (ka_workload a) \<longrightarrow> dget (kr_manifest s') ''verifierExitCode'' = Some (JInt 0))"
proof -
  from run obtain dir rid short t u h1 where
      "k6_guarded a dir rid short t u w (init_state, h1) = (Ret (), s', h')" and "kr_code s' = 0"
    by (auto simp: k6_main_def Let_def wall_def token_def say_err_def utc_now_def io_defs
        split: if_splits prod.splits outcome.splits)
  then show ?thesis by (intro k6_guarded_success) (auto simp: init_state_def)
qed


section \<open>Properties\<close>

text \<open>
  An outside in which a smoke run succeeds: a file's text is its path, a response's body is its
  URL, and the parser of JSON answers by what the text is about.
\<close>

definition sample_parser :: "string \<Rightarrow> json res" where
  "sample_parser t =
     (if endswith t ''/dataset.json'' then Inr (JObj [(''profile'', JStr ''smoke''),
        (''profileSha256'', JStr ''h''), (''gitHead'', JStr ''g'')])
      else if endswith t ''/sessions.json'' then Inr (JList [JObj [(''userId'', JStr ''u'')]])
      else if endswith t ''/workload-seats.json'' then Inr (JList [])
      else if contains t ''/series'' then Inr (JObj [(''status'', JStr ''success''),
        (''data'', JList [JObj [(''__name__'', JStr ''k6_iterations'')]])])
      else Inr (JObj []))"

definition smoke_world :: world where
  "smoke_world = quiet_world\<lparr>w_read := \<lambda>h p. Inr p, w_loads := sample_parser,
     w_http := \<lambda>h rq. Inr (Response 200 (hr_url rq)),
     w_exists := \<lambda>h p. endswith p ''/business-summary.json''\<rparr>"

definition redis_args :: k6_args where
  "redis_args = (default_args AuthRead None)\<lparr>ka_auth_mode := RedisDown, ka_auth_pool_size := 1\<rparr>"

text \<open>
  \textbf{C16.} However a run ends short of looping forever, every successful start of the
  backend with a forced payment outcome is followed by the command that starts it without one,
  and every successful stop of Redis by the command that starts Redis.
\<close>

theorem k6_restores_services:
  assumes "k6_main a w (s, h) = (r, s', h')" and "r \<noteq> Diverged"
  shows "\<exists>t. h' = h @ t \<and> followed_by forces_payment restores_payment t
     \<and> followed_by stops_redis starts_redis t"
  using assms by (rule k6_main_restores)

lemma redis_run:
  "fst (k6_main redis_args smoke_world (init_state, [])) = Ret 0
     \<and> list_ex stops_redis (snd (snd (k6_main redis_args smoke_world (init_state, []))))"
  by code_simp

theorem k6_restores_services_witness:
  "\<exists>r s' t. k6_main redis_args smoke_world (init_state, []) = (r, s', t) \<and> list_ex stops_redis t
     \<and> list_ex starts_redis t"
proof -
  obtain r s' t where run: "k6_main redis_args smoke_world (init_state, []) = (r, s', t)"
    by (metis prod_cases3)
  with redis_run have r: "r \<noteq> Diverged" and stop: "list_ex stops_redis t" by auto
  from k6_restores_services [OF run r] stop have "list_ex starts_redis t"
    by (auto simp: followed_by_def list_ex_length)
  with run stop show ?thesis by blast
qed

text \<open>
  \textbf{C17.} A result code of zero means that the manifest says passed, that k6 itself exited
  with zero, and, for the workloads that change the database, that the invariant verifier did.
\<close>

theorem k6_success_verified:
  assumes "k6_main a w (s, h) = (Ret 0, s', h')"
  shows "dget (kr_manifest s') ''verdict'' = Some (JStr ''passed'')
     \<and> dget (kr_manifest s') ''k6ExitCode'' = Some (JInt 0)
     \<and> (mutating (ka_workload a) \<longrightarrow> dget (kr_manifest s') ''verifierExitCode'' = Some (JInt 0))"
  using assms by (rule k6_main_success)

theorem k6_success_verified_witness:
  "\<exists>s' h'. k6_main redis_args smoke_world (init_state, []) = (Ret 0, s', h')
     \<and> dget (kr_manifest s') ''verdict'' = Some (JStr ''passed'')"
proof -
  obtain s' h' where run: "k6_main redis_args smoke_world (init_state, []) = (Ret 0, s', h')"
    using redis_run by (metis fst_conv prod_cases3)
  from k6_success_verified [OF this] run show ?thesis by blast
qed

text \<open>
  \textbf{C23.} With a clock that never goes back and a sleep that lasts, waiting for the
  payments to settle ends: it returns zero or raises.
\<close>

theorem settlement_wait_ends:
  assumes "clock_fair w" and "0 \<le> n" and "n + 1 \<le> int (w_fuel w)"
  shows "fst (wait_payment_settlement n w sh) \<noteq> Diverged"
  using wait_payment_settlement_halts [OF assms] unfolding halts_on_def by blast

theorem settlement_wait_ends_witness:
  "fst (wait_payment_settlement 30 quiet_world ((), [])) \<noteq> Diverged"
  by (rule settlement_wait_ends [OF quiet_clock_fair]) (simp_all add: quiet_world_def)

end
