(* ===== verification/Evidence.thy ===== *)
theory Evidence
  imports K6_Run
begin

text \<open>
  \<open>performance/scripts/performance_evidence.py\<close>: the collectors that attach system evidence to
  a measured run: the INFO sections of Redis, the statement, activity and lock views of
  PostgreSQL, the time series of Prometheus, container statistics, service logs and a
  fingerprint of the machine. Each writes its files below the directory of the run.
\<close>

section \<open>Commands\<close>

definition ev_command :: "string list \<Rightarrow> ('s, string) io" where
  "ev_command arguments =
     bnd (run_proc arguments None []) (\<lambda>completed.
     if p_rc completed \<noteq> 0
     then raise (Exn RuntimeError (str_or (py_strip (p_err completed)) (py_strip (p_out completed))))
     else ret (p_out completed))"

definition ev_compose :: "string list \<Rightarrow> ('s, string) io" where
  "ev_compose arguments = bnd (asks w_root) (\<lambda>rt. ev_command (k6_compose rt arguments))"

definition ev_psql :: "string \<Rightarrow> ('s, string) io" where
  "ev_psql sql = ev_compose [''exec'', ''-T'', ''postgres'', ''psql'', ''-U'', ''ticketing'', ''-d'',
     ''ticketing'', ''-v'', ''ON_ERROR_STOP=1'', ''-At'', ''-F'', [tab], ''-c'', sql]"

definition redis_info :: "string \<Rightarrow> ('s, string) io" where
  "redis_info part = ev_compose [''exec'', ''-T'', ''redis'', ''redis-cli'', ''--raw'', ''INFO'', part]"

section \<open>Reading the INFO sections\<close>

text \<open>
  \<open>float(s)\<close> on a decimal text with an optional sign, point and exponent; the texts of infinities
  and of NaN are outside the model. A group is its value and the number of its digits.
\<close>

definition digit_group :: "string \<Rightarrow> (nat \<times> nat) option" where
  "digit_group s = (if s = [] then Some (0, 0)
     else map_option (\<lambda>n. (n, length (filter is_digit s))) (parse_nat s))"

definition mantissa :: "string \<Rightarrow> rat option" where
  "mantissa s = (case split_on CHR ''.'' s of
      [a] \<Rightarrow> map_option of_nat (parse_nat a)
    | [a, b] \<Rightarrow> (if a = [] \<and> b = [] then None else case (digit_group a, digit_group b) of
          (Some (m, _), Some (n, k)) \<Rightarrow> Some (of_nat m + of_nat n / 10 ^ k)
        | _ \<Rightarrow> None)
    | _ \<Rightarrow> None)"

definition signed_int :: "string \<Rightarrow> int option" where
  "signed_int s = (case s of
      [] \<Rightarrow> None
    | c # cs \<Rightarrow> if c = CHR ''-'' then map_option (\<lambda>n. - int n) (parse_nat cs)
               else if c = CHR ''+'' then map_option int (parse_nat cs)
               else map_option int (parse_nat s))"

definition unsigned_float :: "string \<Rightarrow> rat option" where
  "unsigned_float s = (case split_on CHR ''e'' (py_lower s) of
      [a] \<Rightarrow> mantissa a
    | [a, b] \<Rightarrow> (case (mantissa a, signed_int b) of
          (Some x, Some e) \<Rightarrow> Some (if 0 \<le> e then x * 10 ^ nat e else x / 10 ^ nat (- e))
        | _ \<Rightarrow> None)
    | _ \<Rightarrow> None)"

definition py_float :: "string \<Rightarrow> rat option" where
  "py_float s = (case py_strip s of
      [] \<Rightarrow> None
    | c # cs \<Rightarrow> map_option fl64
        (if c = CHR ''-'' then map_option uminus (unsigned_float cs)
         else if c = CHR ''+'' then unsigned_float cs else unsigned_float (c # cs)))"

definition info_number :: "string \<Rightarrow> json" where
  "info_number value = (case py_int value of
      Inr i \<Rightarrow> JInt i
    | Inl _ \<Rightarrow> (case py_float value of Some r \<Rightarrow> JFloat r | None \<Rightarrow> JStr value))"

definition add_field :: "dict \<Rightarrow> string \<Rightarrow> dict" where
  "add_field d item = (case split_max 1 CHR ''='' item of
      [child, child_value] \<Rightarrow> dset d child (info_number child_value)
    | _ \<Rightarrow> d)"

definition info_value :: "string \<Rightarrow> json" where
  "info_value value =
     (if CHR '','' \<in> set value \<and> CHR ''='' \<in> set value
      then JObj (foldl add_field [] (split_on CHR '','' value))
      else info_number value)"

definition add_info_line :: "dict \<Rightarrow> string \<Rightarrow> dict" where
  "add_info_line parsed line =
     (if line = [] \<or> startswith line ''#'' \<or> CHR '':'' \<notin> set line then parsed
      else case split_max 1 CHR '':'' line of
          [key, value] \<Rightarrow> dset parsed key (info_value value)
        | _ \<Rightarrow> parsed)"

definition parse_redis_info :: "string \<Rightarrow> dict" where
  "parse_redis_info raw = foldl add_info_line [] (splitlines raw)"

definition collect_section :: "string \<Rightarrow> string \<Rightarrow> dict \<Rightarrow> string \<Rightarrow> ('s, dict) io" where
  "collect_section dir phase all_parsed part =
     bnd (redis_info part) (\<lambda>raw.
     sq (write_text (dir @ ''/redis-'' @ phase @ ''-'' @ part @ ''.txt'') raw)
     (ret (dset all_parsed part (JObj (parse_redis_info raw)))))"

definition collect_redis :: "string \<Rightarrow> string \<Rightarrow> ('s, unit) io" where
  "collect_redis dir phase =
     bnd (fold_io (collect_section dir phase) []
       [''clients'', ''memory'', ''stats'', ''commandstats'', ''latencystats'']) (\<lambda>all_parsed.
     write_json_text (dir @ ''/redis-'' @ phase @ ''.json'') (JObj all_parsed))"

section \<open>PostgreSQL\<close>

definition reset_statement_stats :: "('s, string) io" where
  "reset_statement_stats =
     bnd (ev_psql ''SELECT pg_stat_statements_reset(); SELECT stats_reset FROM pg_stat_statements_info;'')
       (\<lambda>out. ret (py_strip out))"

definition top_sql_query :: string where
  "top_sql_query = join_with [nl] [
     [],
     ''SELECT calls, total_exec_time, mean_exec_time, rows,'',
     ''       shared_blks_hit, shared_blks_read, temp_blks_written,'',
     ''       regexp_replace(query, E'' @ [quot] @ ''['' @ [CHR 0x5C] @ ''n'' @ [CHR 0x5C] @ ''r'' @ [CHR 0x5C]
       @ ''t]+'' @ [quot] @ '', '' @ [quot] @ '' '' @ [quot] @ '', '' @ [quot] @ ''g'' @ [quot] @ '') AS query'',
     ''FROM pg_stat_statements'',
     ''WHERE dbid = (SELECT oid FROM pg_database WHERE datname='' @ [quot] @ ''ticketing'' @ [quot] @ '')'',
     ''  AND userid = (SELECT oid FROM pg_roles WHERE rolname='' @ [quot] @ ''ticketing'' @ [quot] @ '')'',
     ''ORDER BY total_exec_time DESC'',
     ''LIMIT 20;'',
     []]"

definition activity_query :: string where
  "activity_query = join_with [nl] [
     [],
     ''SELECT COALESCE(state, '' @ [quot] @ ''unknown'' @ [quot] @ ''), COALESCE(wait_event_type, '' @ [quot] @ [quot] @ ''),'',
     ''       COALESCE(wait_event, '' @ [quot] @ [quot] @ ''), count(*)'',
     ''FROM pg_stat_activity'',
     ''WHERE application_name = '' @ [quot] @ ''ticketing_backend_phase10a'' @ [quot],
     ''GROUP BY state, wait_event_type, wait_event'',
     ''ORDER BY state, wait_event_type, wait_event;'',
     []]"

definition locks_query :: string where
  "locks_query = join_with [nl] [
     [],
     ''SELECT locktype, mode, granted, count(*)'',
     ''FROM pg_locks'',
     ''WHERE pid IN ('',
     ''    SELECT pid FROM pg_stat_activity'',
     ''    WHERE application_name = '' @ [quot] @ ''ticketing_backend_phase10a'' @ [quot],
     '')'',
     ''GROUP BY locktype, mode, granted'',
     ''ORDER BY locktype, mode, granted;'',
     []]"

text \<open>
  The lines that split at tabs into as many cells as there are columns (the last cell keeps
  further tabs), each as a dictionary.
\<close>

definition table_rows :: "string list \<Rightarrow> string \<Rightarrow> json" where
  "table_rows columns raw = JList (map (\<lambda>cells. JObj (zip columns (map JStr cells)))
     (filter (\<lambda>cells. length cells = length columns)
       (map (split_max (length columns - 1) tab) (splitlines raw))))"

definition top_columns :: "string list" where
  "top_columns = [''calls'', ''totalExecMs'', ''meanExecMs'', ''rows'', ''sharedHits'', ''sharedReads'',
     ''tempWrites'', ''query'']"

definition collect_postgres :: "string \<Rightarrow> ('s, unit) io" where
  "collect_postgres dir =
     bnd (ev_psql top_sql_query) (\<lambda>raw.
     sq (write_text (dir @ ''/postgres-top-sql.tsv'') raw)
     (sq (write_json_text (dir @ ''/postgres-top-sql.json'') (table_rows top_columns raw))
     (bnd (ev_psql activity_query) (\<lambda>activity.
      sq (write_json_text (dir @ ''/postgres-activity.json'')
        (table_rows [''state'', ''waitEventType'', ''waitEvent'', ''connections''] activity))
      (bnd (ev_psql locks_query) (\<lambda>locks.
       write_json_text (dir @ ''/postgres-locks.json'')
         (table_rows [''lockType'', ''mode'', ''granted'', ''count''] locks)))))))"

section \<open>Prometheus, containers, logs and the machine\<close>

definition hash_quantile :: "string \<Rightarrow> string \<Rightarrow> string" where
  "hash_quantile q metric = ''histogram_quantile('' @ q @ '',sum(rate(ticketing_password_hash_'' @ metric
     @ ''_seconds_bucket[1m])) by (le))''"

definition compose_label :: string where
  "compose_label = ''{container_label_com_docker_compose_project='' @ [dquot] @ ''ticketing-phase10a'' @ [dquot] @ ''}''"

definition prometheus_queries :: "(string \<times> string) list" where
  "prometheus_queries = [
     (''backend-rate'', ''sum(rate(ticketing_http_requests_total[1m])) by (route,method,status_class)''),
     (''backend-p95'', ''histogram_quantile(0.95,sum(rate(ticketing_http_request_duration_seconds_bucket[1m])) by (le,route))''),
     (''password-hash-queue-depth'', ''ticketing_password_hash_queue_depth''),
     (''password-hash-active-workers'', ''ticketing_password_hash_active_workers''),
     (''password-hash-submissions'', ''sum(increase(ticketing_password_hash_submissions_total[1m])) by (outcome)''),
     (''password-hash-queue-wait-p50'', hash_quantile ''0.50'' ''queue_wait''),
     (''password-hash-queue-wait-p95'', hash_quantile ''0.95'' ''queue_wait''),
     (''password-hash-queue-wait-p99'', hash_quantile ''0.99'' ''queue_wait''),
     (''password-hash-execution-p50'', hash_quantile ''0.50'' ''execution''),
     (''password-hash-execution-p95'', hash_quantile ''0.95'' ''execution''),
     (''password-hash-execution-p99'', hash_quantile ''0.99'' ''execution''),
     (''postgres-connections'', ''pg_stat_database_numbackends{datname='' @ [dquot] @ ''ticketing'' @ [dquot] @ ''}''),
     (''postgres-waits'', ''sum(pg_backend_activity_waiting)''),
     (''redis-clients'', ''redis_connected_clients''),
     (''container-cpu'', ''sum(rate(container_cpu_usage_seconds_total'' @ compose_label
        @ ''[1m])) by (container_label_com_docker_compose_service)''),
     (''container-memory'', ''sum(container_memory_working_set_bytes'' @ compose_label
        @ '') by (container_label_com_docker_compose_service)'')]"

definition query_range :: "string \<Rightarrow> rat \<Rightarrow> rat \<Rightarrow> string \<Rightarrow> ('s, json) io" where
  "query_range expression start end_time step =
     bnd (asks w_float_repr) (\<lambda>fr.
     let query = urlencode [(''query'', expression), (''start'', fr start), (''end'', fr end_time), (''step'', step)] in
     bnd (send \<lparr>hr_method = ''GET'', hr_url = ''http://127.0.0.1:19090/api/v1/query_range?'' @ query,
       hr_headers = [], hr_body = None, hr_timeout = 20\<rparr>) (\<lambda>r.
     case r of
       HttpError code body \<Rightarrow> raise (Exn URLError (''HTTP Error '' @ int_str code))
     | Response code body \<Rightarrow>
         bnd (loads body) (\<lambda>payload.
         bnd (of_res (json_get payload ''status'' JNull)) (\<lambda>status.
         if status \<noteq> JStr ''success'' then raise (Exn RuntimeError ''Prometheus query failed'')
         else ret payload))))"

definition collect_prometheus :: "string \<Rightarrow> rat \<Rightarrow> rat \<Rightarrow> ('s, unit) io" where
  "collect_prometheus dir start end_time =
     for_io (\<lambda>q. bnd (query_range (snd q) start end_time ''5s'') (\<lambda>payload.
       write_json_text (dir @ ''/prometheus-'' @ fst q @ ''.json'') payload)) prometheus_queries"

text \<open>
  \<open>re.search\<close> for a word of a list between word boundaries, without regard to case; the word
  characters below 256 are those of Python's \<open>\w\<close>.
\<close>

definition word_char :: "char \<Rightarrow> bool" where
  "word_char c = (is_digit c \<or> is_lower c \<or> is_upper c \<or> c = CHR ''_''
     \<or> (of_char c :: nat) \<in> set [170, 178, 179, 181, 185, 186, 188, 189, 190]
     \<or> (192 \<le> (of_char c :: nat) \<and> (of_char c :: nat) \<noteq> 215 \<and> (of_char c :: nat) \<noteq> 247))"

definition word_here :: "string list \<Rightarrow> string \<Rightarrow> bool" where
  "word_here ws s = list_ex (\<lambda>word. startswith (py_lower s) word
     \<and> (case drop (length word) s of [] \<Rightarrow> True | c # _ \<Rightarrow> \<not> word_char c)) ws"

fun has_word :: "string list \<Rightarrow> bool \<Rightarrow> string \<Rightarrow> bool" where
  "has_word ws boundary [] = (boundary \<and> word_here ws [])"
| "has_word ws boundary (c # cs) =
     ((boundary \<and> word_here ws (c # cs)) \<or> has_word ws (\<not> word_char c) cs)"

definition abnormal_words :: "string list" where
  "abnormal_words = [''error'', ''fatal'', ''panic'', ''deadlock'']"

definition abnormal_lines :: "string \<Rightarrow> string list" where
  "abnormal_lines raw = filter (has_word abnormal_words True) (splitlines raw)"

definition collect_logs :: "string \<Rightarrow> string \<Rightarrow> ('s, unit) io" where
  "collect_logs dir since =
     bnd (ev_compose [''logs'', ''--no-color'', ''--since'', since, ''backend'', ''postgres'', ''redis'']) (\<lambda>raw.
     sq (write_text (dir @ ''/service-logs.txt'') raw)
     (let abnormal = abnormal_lines raw in
      write_text (dir @ ''/abnormal-logs.txt'')
        (join_with [nl] abnormal @ (if abnormal \<noteq> [] then [nl] else []))))"

definition collect_docker_stats :: "string \<Rightarrow> ('s, unit) io" where
  "collect_docker_stats dir =
     bnd (ev_command [''docker'', ''ps'', ''--filter'', ''label=com.docker.compose.project=ticketing-phase10a'',
       ''--format'', ''{{.Names}}'']) (\<lambda>names.
     bnd (ev_command ([''docker'', ''stats'', ''--no-stream'', ''--format'', ''{{json .}}''] @ py_words names)) (\<lambda>raw.
     write_text (dir @ ''/docker-stats.jsonl'') raw))"

text \<open>What the module \<open>platform\<close> says of the machine.\<close>

record host_info =
  host_platform :: string
  host_processor :: string
  host_python :: string

definition environment_fingerprint :: "host_info \<Rightarrow> ('s, json) io" where
  "environment_fingerprint host =
     bnd (asks w_root) (\<lambda>rt.
     bnd (ev_command [''docker'', ''compose'', ''-p'', ''ticketing-phase10a'', ''-f'',
       rt @ ''/performance/docker-compose.performance.yml'', ''images'', ''--format'', ''json'']) (\<lambda>images_text.
     bnd (loads images_text) (\<lambda>images.
     bnd utc_now (\<lambda>now.
     bnd (ev_command [''docker'', ''version'', ''--format'', ''{{json .}}'']) (\<lambda>docker_version.
     bnd (ev_command [''docker'', ''compose'', ''version'', ''--short'']) (\<lambda>compose_version.
     bnd (ev_command [''curl.exe'', ''-sS'', backend_url @ ''/health'']) (\<lambda>health_text.
     bnd (loads health_text) (\<lambda>health.
     ret (JObj [(''collectedAt'', JStr now), (''platform'', JStr (host_platform host)),
       (''processor'', JStr (host_processor host)), (''python'', JStr (host_python host)),
       (''dockerVersion'', JStr docker_version), (''composeVersion'', JStr (py_strip compose_version)),
       (''images'', images), (''backendHealth'', health)])))))))))"

section \<open>Lemmas\<close>

lemma splitlines_crlf:
  assumes "\<forall>c \<in> set s. \<not> is_line_break c"
  shows "splitlines (s @ cr # nl # t) = s # splitlines t"
  using splitlines_from_plain [OF assms, of "[]" "cr # nl # t"] by (simp add: splitlines_def)

definition info_text :: "(string \<times> string) list \<Rightarrow> string" where
  "info_text kvs = concat (map (\<lambda>(k, v). k @ '':'' @ v @ [cr, nl]) kvs)"

definition plain_text :: "string \<Rightarrow> bool" where
  "plain_text s = list_all (\<lambda>c. \<not> is_line_break c) s"

definition info_key :: "string \<Rightarrow> bool" where
  "info_key k = (plain_text k \<and> CHR '':'' \<notin> set k \<and> k \<noteq> [] \<and> hd k \<noteq> CHR ''#'')"

lemma dset_fresh: "k \<notin> set (dkeys d) \<Longrightarrow> dset d k v = d @ [(k, v)]"
  by (induction d) auto

lemma info_line:
  assumes "info_key k"
  shows "add_info_line d (k @ CHR '':'' # v) = dset d k (info_value v)"
proof -
  have "split_max 1 CHR '':'' (k @ CHR '':'' # v) = [k, v]"
    using assms split_max_append [of "CHR '':''" k v] by (simp add: info_key_def)
  with assms show ?thesis
    by (cases k) (auto simp: add_info_line_def info_key_def startswith_def)
qed

lemma parse_info_text:
  assumes "\<forall>(k, v) \<in> set kvs. info_key k \<and> plain_text v" and "distinct (map fst kvs)"
    and "set (dkeys d) \<inter> set (map fst kvs) = {}"
  shows "foldl add_info_line d (splitlines (info_text kvs)) = d @ map (\<lambda>(k, v). (k, info_value v)) kvs"
  using assms
proof (induction kvs arbitrary: d)
  case (Cons kv kvs)
  obtain k v where kv: "kv = (k, v)" by fastforce
  have "\<forall>c \<in> set (k @ '':'' @ v). \<not> is_line_break c"
    using Cons.prems kv by (auto simp: info_key_def plain_text_def list_all_iff is_line_break_def)
  from splitlines_crlf [OF this, of "info_text kvs"]
  have "splitlines (info_text (kv # kvs)) = (k @ '':'' @ v) # splitlines (info_text kvs)"
    by (simp add: info_text_def kv)
  then show ?case using Cons kv by (simp add: info_line dset_fresh)
qed (simp add: info_text_def)

lemma ex_split_Cons:
  "(\<exists>before rest. c # cs = before @ rest \<and> Q before rest) \<longleftrightarrow>
     Q [] (c # cs) \<or> (\<exists>before rest. cs = before @ rest \<and> Q (c # before) rest)"
  unfolding Cons_eq_append_conv by blast

text \<open>A word stands at a position when the text before it, if any, ends in no word character.\<close>

definition word_starts :: "bool \<Rightarrow> string \<Rightarrow> bool" where
  "word_starts b before = (if before = [] then b else \<not> word_char (last before))"

lemma has_word_iff:
  "has_word ws b s \<longleftrightarrow> (\<exists>before rest. s = before @ rest \<and> word_starts b before \<and> word_here ws rest)"
proof (induction s arbitrary: b)
  case (Cons c cs)
  have "word_starts b (c # before) = word_starts (\<not> word_char c) before" for before
    by (simp add: word_starts_def)
  then show ?case
    unfolding ex_split_Cons [where Q = "\<lambda>x y. word_starts b x \<and> word_here ws y"]
    using Cons.IH [of "\<not> word_char c"] by (simp add: word_starts_def)
qed (simp add: word_starts_def)

lemma word_here_iff:
  assumes "\<forall>word \<in> set ws. py_lower word = word"
  shows "word_here ws s \<longleftrightarrow> (\<exists>m rest. s = m @ rest \<and> py_lower m \<in> set ws \<and> (rest = [] \<or> \<not> word_char (hd rest)))"
proof
  assume "word_here ws s"
  then obtain word where w: "word \<in> set ws" "startswith (py_lower s) word"
      "case drop (length word) s of [] \<Rightarrow> True | c # _ \<Rightarrow> \<not> word_char c"
    by (auto simp: word_here_def list_ex_iff)
  have "py_lower (take (length word) s) = word"
    using w(2) by (simp add: py_lower_def startswith_def take_map)
  with w show "\<exists>m rest. s = m @ rest \<and> py_lower m \<in> set ws \<and> (rest = [] \<or> \<not> word_char (hd rest))"
    by (intro exI [of _ "take (length word) s"] exI [of _ "drop (length word) s"])
      (auto split: list.splits)
next
  assume "\<exists>m rest. s = m @ rest \<and> py_lower m \<in> set ws \<and> (rest = [] \<or> \<not> word_char (hd rest))"
  then obtain m rest where "s = m @ rest" "py_lower m \<in> set ws" "rest = [] \<or> \<not> word_char (hd rest)" by blast
  then show "word_here ws s"
    unfolding word_here_def list_ex_iff
    by (intro bexI [of _ "py_lower m"]) (auto simp: py_lower_def startswith_def split: list.splits)
qed

section \<open>Properties\<close>

text \<open>
  A section of INFO that Redis prints, one key and value per line ended by carriage
  return and line feed, is read back: a dictionary with these keys in their order, each with the
  value its text denotes.
\<close>

theorem redis_info_roundtrip:
  assumes "\<forall>(k, v) \<in> set kvs. info_key k \<and> plain_text v" and "distinct (map fst kvs)"
  shows "parse_redis_info (info_text kvs) = map (\<lambda>(k, v). (k, info_value v)) kvs"
  using parse_info_text [OF assms, of "[]"] by (simp add: parse_redis_info_def)

lemma sample_info_values:
  "info_value ''8'' = JInt 8" "info_value ''0.50'' = JFloat (1/2)" "info_value ''jemalloc'' = JStr ''jemalloc''"
  "info_value ''calls=12,usec=5e1'' = JObj [(''calls'', JInt 12), (''usec'', JFloat 50)]"
  by code_simp+

theorem redis_info_roundtrip_witness:
  "parse_redis_info (info_text [(''connected_clients'', ''8''), (''mem_ratio'', ''0.50''),
       (''mem_allocator'', ''jemalloc''), (''cmdstat_get'', ''calls=12,usec=5e1'')])
   = [(''connected_clients'', JInt 8), (''mem_ratio'', JFloat (1/2)), (''mem_allocator'', JStr ''jemalloc''),
      (''cmdstat_get'', JObj [(''calls'', JInt 12), (''usec'', JFloat 50)])]"
proof -
  let ?kvs = "[(''connected_clients'', ''8''), (''mem_ratio'', ''0.50''), (''mem_allocator'', ''jemalloc''),
    (''cmdstat_get'', ''calls=12,usec=5e1'')]"
  have "\<forall>(k, v) \<in> set ?kvs. info_key k \<and> plain_text v"
    by (simp add: info_key_def plain_text_def is_line_break_def Let_def)
  moreover have "distinct (map fst ?kvs)" by simp
  ultimately have "parse_redis_info (info_text ?kvs) = map (\<lambda>(k, v). (k, info_value v)) ?kvs"
    by (rule redis_info_roundtrip)
  then show ?thesis by (simp only: list.map prod.case sample_info_values)
qed

text \<open>
  A line of the service logs is kept as abnormal exactly when it contains, in any
  case, one of the four words with no word character right before or right after it.
\<close>

theorem abnormal_lines_exact:
  "line \<in> set (abnormal_lines raw) \<longleftrightarrow> line \<in> set (splitlines raw)
     \<and> (\<exists>before m after. line = before @ m @ after \<and> py_lower m \<in> set abnormal_words
        \<and> \<not> (before \<noteq> [] \<and> word_char (last before)) \<and> \<not> (after \<noteq> [] \<and> word_char (hd after)))"
proof -
  have "\<forall>word \<in> set abnormal_words. py_lower word = word" by code_simp
  note here = word_here_iff [OF this]
  have starts: "word_starts True before \<longleftrightarrow> before = [] \<or> \<not> word_char (last before)" for before
    by (simp add: word_starts_def)
  show ?thesis
    unfolding abnormal_lines_def set_filter mem_Collect_eq has_word_iff here starts by blast
qed

end
