(* ===== verification/Baseline.thy ===== *)
theory Baseline
  imports Evidence
begin

text \<open>
  \<open>performance/scripts/run_baseline.py\<close>: the runner of a plan of measured runs. Each entry of
  the plan resets the environment, warms the system up, runs k6 once, and attaches the evidence
  of the collectors to the one result directory that the run created.
\<close>

section \<open>The program\<close>

definition ba_execute :: "string list \<Rightarrow> (string \<times> string option) list \<Rightarrow> ('s, proc) io" where
  "ba_execute arguments env =
     bnd (run_proc arguments None env) (\<lambda>completed.
     sq (say (p_out completed))
     (if p_rc completed \<noteq> 0
      then sq (say_err (p_err completed))
        (raise (Exn RuntimeError (''command failed ('' @ int_str (p_rc completed) @ ''): '' @ list2cmdline arguments)))
      else ret completed))"

definition script_path :: "string \<Rightarrow> string \<Rightarrow> string" where
  "script_path rt name = rt @ ''/performance/'' @ name"

definition run_script :: "string \<Rightarrow> string list \<Rightarrow> (string \<times> string option) list \<Rightarrow> ('s, unit) io" where
  "run_script name arguments env =
     bnd (asks w_root) (\<lambda>rt. bnd (asks w_python) (\<lambda>python.
     bnd (ba_execute ([python, script_path rt name] @ arguments) env) (\<lambda>_. ret ())))"

definition logical_reset :: "string \<Rightarrow> ('s, unit) io" where
  "logical_reset profile =
     sq (run_script ''data/generate_dataset.py'' [''--profile'', profile] [])
     (bnd clear_auth_cache (\<lambda>_. bnd clear_seat_holds (\<lambda>_. ret ())))"

definition warmup_system :: "('s, unit) io" where
  "warmup_system =
     bnd (ev_command [''curl.exe'', ''-fsS'', ''http://127.0.0.1:18080/health'']) (\<lambda>_.
     bnd (ev_command [''curl.exe'', ''-fsS'', ''http://127.0.0.1:18080/events'']) (\<lambda>_. ret ()))"

definition ba_reset_environment :: "json \<Rightarrow> json \<Rightarrow> bool \<Rightarrow> ('s, unit) io" where
  "ba_reset_environment kind profile allow_destructive =
     (if kind = JStr ''none'' then ret ()
      else if kind = JStr ''logical'' then bnd (of_res (json_to_str profile)) logical_reset
      else sq (raise_if (\<not> allow_destructive) RuntimeError ''full reset requires --allow-destructive-reset'')
        (bnd (of_res (json_to_str profile)) (\<lambda>p.
         run_script ''scripts/reset_environment.py'' [''--profile'', p, ''--yes''] [])))"

text \<open>The directories directly below a path.\<close>

definition directories :: "string \<Rightarrow> ('s, string list) io" where
  "directories path =
     bnd (list_dir path) (\<lambda>names.
     bnd (map_io (\<lambda>name. bnd (is_dir (path @ ''/'' @ name)) (\<lambda>d. ret (path @ ''/'' @ name, d))) names) (\<lambda>ps.
     ret (map fst (filter snd ps))))"

definition newest_result :: "string \<Rightarrow> string list \<Rightarrow> ('s, string) io" where
  "newest_result results before =
     bnd (directories results) (\<lambda>present.
     case filter (\<lambda>p. p \<notin> set before) present of
       [created] \<Rightarrow> ret created
     | _ \<Rightarrow> raise (Exn RuntimeError ''expected exactly one measured result directory''))"

definition string_list :: "json \<Rightarrow> string list res" where
  "string_list j = rbind (json_to_list j) (map_res json_to_str)"

definition run_warmups :: "json \<Rightarrow> ('s, unit) io" where
  "run_warmups entry =
     bnd (of_res (rbind (json_get entry ''warmup'' (JList [])) json_to_list)) (for_io (\<lambda>warmup.
     bnd (of_res (string_list warmup)) (\<lambda>arguments. run_script ''scripts/run_k6.py'' arguments [])))"

definition password_env :: "string option \<Rightarrow> (string \<times> string option) list" where
  "password_env password = (case password of
      None \<Rightarrow> []
    | Some p \<Rightarrow> if p = [] then [] else [(''TICKETING_PERF_LOGIN_PASSWORD'', Some p)])"

text \<open>
  The measured run inside the temporary directory: the result directory, the start, the end and
  the time from which the logs are collected.
\<close>

definition measured_run ::
    "json \<Rightarrow> string option \<Rightarrow> string \<Rightarrow> string list \<Rightarrow> string \<Rightarrow> ('s, string \<times> rat \<times> rat \<times> string) io" where
  "measured_run entry password results before temporary =
     sq (collect_redis temporary ''before'')
     (bnd wall (\<lambda>start_epoch.
      bnd utc_now (\<lambda>since.
      bnd (of_res (rbind (json_index entry ''args'') string_list)) (\<lambda>arguments.
      sq (run_script ''scripts/run_k6.py'' arguments (password_env password))
      (bnd wall (\<lambda>end_epoch.
       bnd (newest_result results before) (\<lambda>dir.
       bnd (list_dir temporary) (\<lambda>artifacts.
       sq (for_io (\<lambda>artifact. copy_file (temporary @ ''/'' @ artifact) (dir @ ''/'' @ artifact)) artifacts)
       (ret (dir, start_epoch, end_epoch, since))))))))))"

definition in_temporary :: "string \<Rightarrow> (string \<Rightarrow> ('s, 'a) io) \<Rightarrow> ('s, 'a) io" where
  "in_temporary pre body =
     bnd (temp_name pre) (\<lambda>directory.
     sq (mkdir directory)
     (try_finally (body directory) (remove_file directory)))"

definition attach_evidence ::
    "json \<Rightarrow> string \<Rightarrow> host_info \<Rightarrow> string \<times> rat \<times> rat \<times> string \<Rightarrow> ('s, string) io" where
  "attach_evidence entry stats_reset host run = (case run of (dir, start_epoch, end_epoch, since) \<Rightarrow>
     sq (collect_redis dir ''after'')
     (sq (collect_postgres dir)
     (sq (collect_prometheus dir start_epoch end_epoch)
     (sq (collect_docker_stats dir)
     (sq (collect_logs dir since)
     (bnd (environment_fingerprint host) (\<lambda>fingerprint.
      sq (write_json_text (dir @ ''/environment.json'') fingerprint)
      (bnd (of_res (json_index entry ''name'')) (\<lambda>name.
       bnd (of_res (json_get entry ''reset'' (JStr ''logical''))) (\<lambda>kind.
       bnd (of_res (json_get entry ''profile'' (JStr ''baseline''))) (\<lambda>profile.
       sq (write_json_text (dir @ ''/evidence-manifest.json'') (JObj [(''name'', name),
         (''statsReset'', JStr stats_reset), (''startEpoch'', JFloat start_epoch),
         (''endEpoch'', JFloat end_epoch), (''reset'', kind), (''profile'', profile)]))
       (ret dir))))))))))))"

definition run_entry :: "host_info \<Rightarrow> string option \<Rightarrow> bool \<Rightarrow> json \<Rightarrow> ('s, string) io" where
  "run_entry host password allow_destructive entry =
     bnd (of_res (json_get entry ''reset'' (JStr ''logical''))) (\<lambda>kind.
     bnd (of_res (json_get entry ''profile'' (JStr ''baseline''))) (\<lambda>profile.
     sq (ba_reset_environment kind profile allow_destructive)
     (sq warmup_system
     (sq (run_warmups entry)
     (bnd reset_statement_stats (\<lambda>stats_reset.
      bnd (asks (\<lambda>w. w_root w @ ''/performance/results'')) (\<lambda>results.
      bnd (directories results) (\<lambda>before.
      bnd (in_temporary ''phase10a-evidence-'' (measured_run entry password results before))
        (attach_evidence entry stats_reset host)))))))))"

definition entry_name :: "json \<Rightarrow> string res" where
  "entry_name entry = rbind (json_index entry ''name'') json_to_str"

text \<open>The entries of a plan, or those whose names were asked for; every name asked for must occur.\<close>

definition select_entries :: "string list \<Rightarrow> json list \<Rightarrow> json list res" where
  "select_entries only entries =
     (if only = [] then Inr entries
      else rbind (map_res (\<lambda>e. rbind (entry_name e) (\<lambda>n. Inr (e, n))) entries) (\<lambda>named.
        let chosen = filter (\<lambda>p. snd p \<in> set only) named in
        rbind (require (\<forall>n \<in> set only. n \<in> set (map snd chosen)) RuntimeError ''plan entries not found'') (\<lambda>_.
        Inr (map fst chosen))))"

definition baseline_entry :: "host_info \<Rightarrow> string option \<Rightarrow> bool \<Rightarrow> json \<Rightarrow> ('s, unit) io" where
  "baseline_entry host password allow_destructive entry =
     bnd (of_res (entry_name entry)) (\<lambda>name.
     sq (say (''=== '' @ name @ '' ===''))
     (bnd (run_entry host password allow_destructive entry) (\<lambda>dir.
      say (''[PASS] evidence: '' @ dir))))"

record baseline_args =
  ba_plan :: string
  ba_password :: "string option"
  ba_allow :: bool
  ba_only :: "string list"

definition baseline_runs :: "host_info \<Rightarrow> baseline_args \<Rightarrow> ('s, unit) io" where
  "baseline_runs host a =
     bnd (bnd (read_text (ba_plan a)) loads) (\<lambda>plan.
     bnd (of_res (rbind (json_index plan ''runs'') json_to_list)) (\<lambda>entries.
     bnd (of_res (select_entries (ba_only a) entries)) (\<lambda>chosen.
     for_io (baseline_entry host (ba_password a) (ba_allow a)) chosen)))"

definition baseline_main :: "host_info \<Rightarrow> baseline_args \<Rightarrow> ('s, int) io" where
  "baseline_main host a =
     try_except (caught_by [OSError, KeyError, ValueError, RuntimeError, JSONDecodeError])
       (sq (baseline_runs host a) (ret 0))
       (\<lambda>e. sq (say_err (''[FAIL] '' @ exn_msg e)) (ret 1))"

section \<open>What a plan leaves\<close>

text \<open>
  The two kinds of events that matter: a full reset of the stack, and the manifest that ends the
  evidence of an entry.
\<close>

definition full_reset_argv :: "string list \<Rightarrow> bool" where
  "full_reset_argv argv = (2 \<le> length argv \<and> endswith (argv ! 1) ''/scripts/reset_environment.py'')"

fun full_reset :: "event \<Rightarrow> bool" where
  "full_reset (Ran argv i env r) = full_reset_argv argv"
| "full_reset _ = False"

fun manifest_of :: "event \<Rightarrow> json option" where
  "manifest_of (JsonWritten p (JObj d) (Inr u)) =
     (if endswith p ''/evidence-manifest.json'' then dget d ''name'' else None)"
| "manifest_of _ = None"

definition plain :: "event \<Rightarrow> bool" where
  "plain e = (\<not> full_reset e \<and> manifest_of e = None)"

lemma plain_simps [simp]:
  "plain (Ran argv i env r) = (\<not> full_reset_argv argv)"
  "plain (Requested rq hr)" "plain (WallClocked now)" "plain (FileRead p rr)" "plain (FileWritten p t wr)"
  "plain (DirMade p wr)" "plain (Removed p wr)" "plain (Copied p q wr)" "plain (Printed t')" "plain (PrintedErr t')"
  by (simp_all add: plain_def)

lemma plain_json: "\<not> endswith p ''/evidence-manifest.json'' \<Longrightarrow> plain (JsonWritten p j r)"
  by (cases j; cases r) (simp_all add: plain_def)

lemma not_suffix:
  "\<not> startswith (rev name) ''nosj.tsefinam-ecnedive/'' \<Longrightarrow> \<not> endswith name ''/evidence-manifest.json''"
  by (simp add: endswith_def)

lemma emits_ev_command: "\<not> full_reset_argv argv \<Longrightarrow> emits plain (ev_command argv)"
  unfolding ev_command_def by (intro emits_intros) simp

lemma emits_ev_compose: "emits plain (ev_compose argv)"
  unfolding ev_compose_def
  by (intro emits_intros emits_ev_command)
    (simp add: k6_compose_def full_reset_argv_def endswith_def startswith_code)

lemma emits_ev_psql: "emits plain (ev_psql q)"
  unfolding ev_psql_def by (rule emits_ev_compose)

lemma emits_collect_redis:
  "phase \<in> {''before'', ''after''} \<Longrightarrow> emits plain (collect_redis dir phase)"
  unfolding collect_redis_def collect_section_def redis_info_def
  by (intro emits_intros emits_ev_compose plain_json not_suffix; auto simp: startswith_code)

lemma emits_collect_postgres: "emits plain (collect_postgres dir)"
  unfolding collect_postgres_def
  by (intro emits_intros emits_ev_psql plain_json not_suffix; simp add: startswith_code)

lemma prometheus_names: "q \<in> set prometheus_queries \<Longrightarrow> last (fst q) \<noteq> CHR ''t'' \<and> fst q \<noteq> []"
  by (auto simp: prometheus_queries_def)

lemma emits_collect_prometheus: "emits plain (collect_prometheus dir start end_time)"
proof -
  have "\<not> startswith (rev (dir @ ''/prometheus-'' @ fst q @ ''.json'')) ''nosj.tsefinam-ecnedive/''"
    if q: "q \<in> set prometheus_queries" for q
  proof -
    obtain name c where "fst q = name @ [c]" "c \<noteq> CHR ''t''"
      using prometheus_names [OF q] by (cases "fst q" rule: rev_cases) auto
    then show ?thesis by (simp add: startswith_code)
  qed
  then show ?thesis
    unfolding collect_prometheus_def query_range_def Let_def
    by (intro emits_intros plain_json not_suffix) (auto intro: emits_intros split: http_result.split)
qed

lemma emits_collect_rest:
  "emits plain (collect_docker_stats dir)" "emits plain (collect_logs dir since)"
  "emits plain (environment_fingerprint host)" "emits plain reset_statement_stats"
  "emits plain warmup_system"
  unfolding collect_docker_stats_def collect_logs_def environment_fingerprint_def Let_def utc_now_def
    reset_statement_stats_def warmup_system_def
  by (intro emits_intros emits_ev_compose emits_ev_command emits_ev_psql plain_simps;
      simp add: full_reset_argv_def endswith_def startswith_code)+

lemma emits_run_script:
  assumes "\<And>rt. \<not> endswith (script_path rt name) ''/scripts/reset_environment.py''"
  shows "emits plain (run_script name xs env)"
  unfolding run_script_def ba_execute_def
  by (intro emits_intros) (simp_all add: full_reset_argv_def assms)

lemma emits_scripts:
  "emits plain (run_script ''scripts/run_k6.py'' xs env)"
  "emits plain (run_script ''data/generate_dataset.py'' xs env)"
  by (rule emits_run_script, simp add: script_path_def endswith_def startswith_code)+

lemma emits_clear: "emits plain clear_auth_cache" "emits plain clear_seat_holds"
  unfolding clear_auth_cache_def clear_seat_holds_def clear_pattern_def run_compose_def run_command_def
  by (intro emits_intros; simp add: k6_compose_def full_reset_argv_def endswith_def startswith_code)+

lemma emits_guard: "(\<not> b \<Longrightarrow> emits ok k) \<Longrightarrow> emits ok (sq (raise_if b c t) k)"
  by (cases b) (simp_all add: raise_if_def run_sq_ret run_sq_raise emits_def)

lemma emits_gentle_reset:
  assumes "kind = JStr ''none'' \<or> kind = JStr ''logical'' \<or> \<not> allow"
  shows "emits plain (ba_reset_environment kind profile allow)"
  unfolding ba_reset_environment_def logical_reset_def
  by (intro emits_if emits_guard emits_ret emits_bnd emits_of_res emits_sq emits_scripts emits_clear;
      use assms in simp)

lemma emits_directories: "emits plain (directories p)"
  unfolding directories_def by (intro emits_intros)

lemma emits_measured: "emits plain (measured_run entry password results before temporary)"
  unfolding measured_run_def newest_result_def utc_now_def
  by (intro emits_intros emits_collect_redis emits_scripts emits_directories)
    (auto intro: emits_intros split: list.split)

lemma emits_in_temporary: "(\<And>d. emits plain (body d)) \<Longrightarrow> emits plain (in_temporary pre body)"
  unfolding in_temporary_def by (intro emits_intros) auto

lemma gentle_of_plain: "emits plain m \<Longrightarrow> emits (\<lambda>e. \<not> full_reset e) m"
  by (erule emits_mono) (simp add: plain_def)

lemmas emits_evidence = emits_collect_redis [of "''after''"] emits_collect_postgres
  emits_collect_prometheus emits_collect_rest

lemma gentle_attach: "emits (\<lambda>e. \<not> full_reset e) (attach_evidence entry stats host run)"
  unfolding attach_evidence_def
  by (cases run, simp only: prod.case, intro emits_sq emits_bnd emits_ret emits_of_res
      emits_write_json_text gentle_of_plain emits_evidence) simp_all

text \<open>An entry that returns has written its manifest, and no other one.\<close>

lemma yields_plain: "emits plain m \<Longrightarrow> yields manifest_of w [] m"
  by (rule yields_quiet, erule emits_mono) (simp add: plain_def)

lemma yields_attach:
  assumes name: "json_index entry ''name'' = Inr name"
  shows "yields manifest_of w [name] (attach_evidence entry stats host run)"
proof -
  obtain dir start end_time since where run: "run = (dir, start, end_time, since)" by (metis prod_cases4)
  have m: "yields manifest_of w [name] (write_json_text (dir @ ''/evidence-manifest.json'')
      (JObj ((''name'', name') # d)))" if "name' = name" for d name' using that
    by (auto simp: yields_def write_json_text_def io_defs List.map_filter_simps endswith_def startswith_code
        split: sum.splits)
  have env: "emits plain (write_json_text (dir @ ''/environment.json'') j)" for j
    by (intro emits_write_json_text plain_json not_suffix) (simp add: startswith_code)
  have "yields manifest_of w ([] @ [] @ [] @ [] @ [] @ [] @ [] @ [name] @ []) (attach_evidence entry stats host run)"
    unfolding attach_evidence_def run prod.case name
    by (intro yields_of_res m yields_sq yields_bnd yields_plain emits_evidence env emits_ret) auto
  then show ?thesis by simp
qed

lemma warmups_plain: "emits plain (run_warmups entry)"
  unfolding run_warmups_def by (intro emits_intros emits_scripts)

lemma gentle_entry:
  assumes "\<not> allow"
  shows "emits (\<lambda>e. \<not> full_reset e) (run_entry host password allow entry)"
  unfolding run_entry_def
  by (intro emits_sq emits_bnd emits_of_res emits_state gentle_of_plain emits_gentle_reset emits_evidence
      warmups_plain emits_directories emits_in_temporary emits_measured gentle_attach) (simp add: assms)

lemma gentle_baseline:
  assumes "\<not> ba_allow a"
  shows "emits (\<lambda>e. \<not> full_reset e) (baseline_main host a)"
  unfolding baseline_main_def baseline_runs_def baseline_entry_def
  by (intro emits_intros gentle_entry) (simp_all add: assms)

lemma quiet_of_plain: "emits plain m \<Longrightarrow> emits (\<lambda>e. manifest_of e = None) m"
  by (erule emits_mono) (simp add: plain_def)

lemma emits_full_reset_run:
  "emits (\<lambda>e. manifest_of e = None) (ba_reset_environment kind profile allow)"
proof -
  have "emits (\<lambda>e. manifest_of e = None) (run_script name xs env)" for name xs env
    unfolding run_script_def ba_execute_def by (intro emits_intros) simp_all
  then show ?thesis
    unfolding ba_reset_environment_def logical_reset_def
    by (intro emits_if emits_ret emits_bnd emits_of_res emits_sq emits_raise_if quiet_of_plain [OF emits_clear(1)]
        quiet_of_plain [OF emits_clear(2)])
qed

lemma yields_entry:
  assumes "json_index entry ''name'' = Inr name"
  shows "yields manifest_of w [name] (run_entry host password allow entry)"
proof -
  have "yields manifest_of w ([] @ [] @ [] @ [] @ [] @ [] @ [] @ [name]) (run_entry host password allow entry)"
    unfolding run_entry_def
    by (intro yields_of_res yields_attach assms yields_sq yields_bnd yields_plain emits_evidence warmups_plain
        emits_directories emits_in_temporary emits_measured emits_state yields_quiet [OF emits_full_reset_run])
  then show ?thesis by simp
qed

definition entry_label :: "json \<Rightarrow> string" where
  "entry_label entry = (case entry_name entry of Inr n \<Rightarrow> n | Inl _ \<Rightarrow> [])"

lemma yields_baseline_entry:
  "yields manifest_of w [JStr (entry_label entry)] (baseline_entry host password allow entry)"
proof (cases "entry_name entry")
  case (Inr n)
  then have "json_index entry ''name'' = Inr (JStr n)"
    by (auto simp: entry_name_def res_simps elim!: json_to_str.elims)
  then have "yields manifest_of w ([] @ [JStr n] @ []) (baseline_entry host password allow entry)"
    unfolding baseline_entry_def Inr
    by (intro yields_of_res yields_sq yields_bnd yields_entry yields_plain emits_intros) simp_all
  with Inr show ?thesis by (simp add: entry_label_def)
qed (simp add: baseline_entry_def yields_def run_simps)

lemma baseline_manifests:
  assumes "baseline_main host a w (s, h) = (Ret 0, s', h')"
  shows "\<exists>body plan entries chosen t. h' = h @ FileRead (ba_plan a) (Inr body) # t \<and> w_loads w body = Inr plan
     \<and> rbind (json_index plan ''runs'') json_to_list = Inr entries \<and> select_entries (ba_only a) entries = Inr chosen
     \<and> List.map_filter manifest_of t = map (\<lambda>e. JStr (entry_label e)) chosen"
proof -
  obtain body plan entries chosen s1 where 1: "w_loads w body = Inr plan"
      "rbind (json_index plan ''runs'') json_to_list = Inr entries" "select_entries (ba_only a) entries = Inr chosen"
      "for_io (baseline_entry host (ba_password a) (ba_allow a)) chosen w
         (s, h @ [FileRead (ba_plan a) (Inr body)]) = (Ret (), s1, h')"
  proof -
    obtain r1 s1 h1 where run: "baseline_runs host a w (s, h) = (r1, s1, h1)" by (metis prod_cases3)
    with assms have "r1 = Ret ()" "h1 = h'"
      by (auto simp: baseline_main_def say_err_def io_defs split: outcome.splits if_splits)
    with run show ?thesis
      by (auto simp: baseline_runs_def read_text_def loads_def run_simps split: sum.splits intro: that)
  qed
  have "yields manifest_of w (concat (map (\<lambda>e. [JStr (entry_label e)]) chosen))
      (for_io (baseline_entry host (ba_password a) (ba_allow a)) chosen)"
    by (intro yields_for_io yields_baseline_entry)
  from yieldsD [OF this 1(4)] 1(1-3) show ?thesis by auto
qed

section \<open>Properties\<close>

text \<open>
  Without the flag that allows it, a plan never runs the full reset of the stack,
  whatever its entries ask for.
\<close>

theorem baseline_no_full_reset:
  assumes "baseline_main host a w (s, h) = (r, s', h')" and "\<not> ba_allow a"
  shows "\<exists>t. h' = h @ t \<and> \<not> list_ex full_reset t"
proof -
  from gentle_baseline [OF assms(2)] assms(1) obtain t where "h' = h @ t" "list_all (\<lambda>e. \<not> full_reset e) t"
    by (rule emitsD)
  then show ?thesis by (auto simp: list_all_iff list_ex_iff)
qed

text \<open>
  When the runner returns zero, the evidence manifests it has written are those of
  the selected entries of the plan, one for each, in the order of the plan.
\<close>

theorem baseline_manifest_per_entry:
  assumes "baseline_main host a w (s, h) = (Ret 0, s', h')"
  shows "\<exists>body plan entries chosen t. h' = h @ FileRead (ba_plan a) (Inr body) # t \<and> w_loads w body = Inr plan
     \<and> rbind (json_index plan ''runs'') json_to_list = Inr entries \<and> select_entries (ba_only a) entries = Inr chosen
     \<and> List.map_filter manifest_of t = map (\<lambda>e. JStr (entry_label e)) chosen"
  using assms by (rule baseline_manifests)

text \<open>A plan with one entry; the run makes its result directory after the fifth event.\<close>

definition sample_entry :: json where
  "sample_entry = JObj [(''name'', JStr ''one''), (''reset'', JStr ''none''), (''args'', JList [])]"

definition sample_args :: baseline_args where
  "sample_args = \<lparr>ba_plan = ''p'', ba_password = None, ba_allow = False, ba_only = []\<rparr>"

definition sample_host :: host_info where
  "sample_host = \<lparr>host_platform = [], host_processor = [], host_python = []\<rparr>"

definition plan_world :: world where
  "plan_world = quiet_world\<lparr>w_read := \<lambda>h p. Inr p,
     w_loads := \<lambda>t. Inr (if t = ''p'' then JObj [(''runs'', JList [sample_entry])] else JObj [(''status'', JStr ''success'')]),
     w_entries := \<lambda>h p. Inr (if length h \<le> 5 then [] else [''r'']), w_is_dir := \<lambda>h p. True\<rparr>"

lemma sample_entry_fields:
  "json_get sample_entry ''reset'' d = Inr (JStr ''none'')" "json_get sample_entry ''profile'' d = Inr d"
  "json_get sample_entry ''warmup'' d = Inr d" "json_index sample_entry ''args'' = Inr (JList [])"
  "json_index sample_entry ''name'' = Inr (JStr ''one'')" "entry_name sample_entry = Inr ''one''"
  by (simp_all add: sample_entry_def dget_or_def dindex_def entry_name_def)

lemma plan_entries: "json_get (JObj [(''status'', v)]) ''status'' d = Inr v"
    "json_index (JObj [(''runs'', v)]) ''runs'' = Inr v"
  by (simp_all add: dget_or_def dindex_def)

lemma plan_world_sel:
  "w_run plan_world h argv i = Inr \<lparr>p_rc = 0, p_out = [], p_err = []\<rparr>"
  "w_http plan_world h rq = Inr (Response 200 [])" "w_wall plan_world h = 0" "w_read plan_world h p = Inr p"
  "w_write plan_world h p = Inr ()" "w_copy plan_world h p q = Inr ()" "w_mkdir plan_world h p = Inr ()"
  "w_remove plan_world h p = Inr ()" "w_is_dir plan_world h p" "w_root plan_world = ''/repo''"
  "w_python plan_world = ''python3''"
  "w_entries plan_world h p = Inr (if length h \<le> 5 then [] else [''r''])"
  "w_loads plan_world t = Inr (if t = ''p'' then JObj [(''runs'', JList [sample_entry])]
     else JObj [(''status'', JStr ''success'')])"
  by (simp_all add: plan_world_def quiet_world_def)

lemma plan_primitives [returns_intros]:
  "returns n plan_world (ev_command argv)" "returns n plan_world (write_text p t)"
  "returns n plan_world (write_json_text p j)" "returns n plan_world (loads t)"
  "returns n plan_world (copy_file p p')" "returns n plan_world (mkdir p)"
  "returns n plan_world (remove_file p)" "returns n plan_world (list_dir p)"
  by (simp_all add: returns_def ev_command_def prim_defs run_simps plan_world_sel)

lemma plan_query [returns_intros]: "returns n plan_world (query_range e a b c)"
  by (simp add: returns_def query_range_def Let_def prim_defs run_simps plan_world_sel dget_or_def)

lemma plan_evidence [returns_intros]:
  "returns n plan_world (collect_redis dir phase)" "returns n plan_world (collect_postgres dir)"
  "returns n plan_world (collect_prometheus dir a b)" "returns n plan_world (collect_docker_stats dir)"
  "returns n plan_world (collect_logs dir since)" "returns n plan_world (environment_fingerprint host)"
  unfolding collect_redis_def collect_section_def redis_info_def collect_postgres_def ev_psql_def ev_compose_def
    collect_prometheus_def collect_docker_stats_def collect_logs_def environment_fingerprint_def utc_now_def Let_def
  by (intro returns_intros)+

lemma plan_script [returns_intros]: "returns n plan_world (run_script name xs env)"
  by (simp add: returns_def run_script_def ba_execute_def prim_defs run_simps plan_world_sel)

lemma plan_newest [returns_intros]: "returns 6 plan_world (newest_result results [])"
  by (simp add: returns_def newest_result_def directories_def prim_defs run_simps plan_world_sel)

lemma plan_measured [returns_intros]:
  "returns 6 plan_world (measured_run sample_entry None results [] temporary)"
  unfolding measured_run_def sample_entry_fields utc_now_def
  by (simp only: rbind.simps string_list_def json_to_list.simps map_res.simps run_of_res_Inr)
    (intro returns_intros)

lemma plan_attach [returns_intros]: "returns n plan_world (attach_evidence sample_entry stats host run)"
  unfolding attach_evidence_def sample_entry_fields run_of_res_Inr
  by (cases run) (simp only: prod.case, intro returns_intros)

lemma plan_front:
  assumes "length h = 2"
  shows "\<exists>h5 stats results tmp. 5 \<le> length h5 \<and> run_entry host password allow sample_entry plan_world (s, h)
    = bnd (in_temporary tmp (measured_run sample_entry password results []))
        (attach_evidence sample_entry stats host) plan_world (s, h5)"
  using assms
  by (simp add: run_entry_def sample_entry_fields ba_reset_environment_def warmup_system_def run_warmups_def
      reset_statement_stats_def ev_psql_def ev_compose_def ev_command_def directories_def prim_defs run_simps plan_world_sel)
  (rule exI, rule conjI [rotated], (rule exI)+, rule refl, simp)

lemma plan_entry:
  assumes "length h = 2"
  shows "\<exists>x t. run_entry host None allow sample_entry plan_world (s, h) = (Ret x, s, t)"
proof -
  obtain h5 stats results tmp where h5: "5 \<le> length h5" and
    run: "run_entry host None allow sample_entry plan_world (s, h) =
      bnd (in_temporary tmp (measured_run sample_entry None results []))
        (attach_evidence sample_entry stats host) plan_world (s, h5)"
    using plan_front [OF assms, of host None allow s] by blast
  let ?d = "w_temp_name plan_world h5 tmp" and ?h6 = "h5 @ [DirMade (w_temp_name plan_world h5 tmp) (Inr ())]"
  let ?rest = "bnd (try_finally (measured_run sample_entry None results [] ?d) (remove_file ?d))
    (attach_evidence sample_entry stats host)"
  have "returns 6 plan_world ?rest" by (intro returns_intros)
  moreover have "6 \<le> length ?h6" using h5 by simp
  ultimately obtain x t where "?rest plan_world (s, ?h6) = (Ret x, s, ?h6 @ t)" by (rule returnsE)
  moreover have "run_entry host None allow sample_entry plan_world (s, h) = ?rest plan_world (s, ?h6)"
    unfolding run in_temporary_def temp_name_def mkdir_def run_bnd_bnd run_looks run_bnd_sq sq_eff_res plan_world_sel
    by simp
  ultimately show ?thesis by auto
qed

lemma plan_run:
  "\<exists>t. baseline_main sample_host sample_args plan_world ((), []) = (Ret 0, (), t)"
proof -
  obtain x t where "run_entry sample_host None False sample_entry plan_world
      ((), [FileRead ''p'' (Inr ''p''), Printed ''=== one ===''])  = (Ret x, (), t)"
    using plan_entry [of "[FileRead ''p'' (Inr ''p''), Printed ''=== one ==='']" sample_host False "()"] by auto
  then show ?thesis
    by (simp add: baseline_main_def baseline_runs_def baseline_entry_def sample_args_def select_entries_def
        read_text_def loads_def say_def run_simps plan_world_sel dindex_def sample_entry_fields sq_def bnd_def)
qed

theorem baseline_no_full_reset_witness:
  "\<exists>t. baseline_main sample_host sample_args plan_world ((), []) = (Ret 0, (), t) \<and> \<not> list_ex full_reset t"
proof -
  obtain t where run: "baseline_main sample_host sample_args plan_world ((), []) = (Ret 0, (), t)"
    using plan_run by blast
  have "\<not> ba_allow sample_args" by (simp add: sample_args_def)
  from baseline_no_full_reset [OF run this] run show ?thesis by auto
qed

theorem baseline_manifest_per_entry_witness:
  "\<exists>t. baseline_main sample_host sample_args plan_world ((), []) = (Ret 0, (), t)
     \<and> List.map_filter manifest_of t = [JStr ''one'']"
proof -
  obtain t where run: "baseline_main sample_host sample_args plan_world ((), []) = (Ret 0, (), t)"
    using plan_run by blast
  from baseline_manifest_per_entry [OF run] obtain body plan entries chosen u where
      t: "t = FileRead ''p'' (Inr body) # u" and plan: "w_loads plan_world body = Inr plan"
      "rbind (json_index plan ''runs'') json_to_list = Inr entries" "select_entries [] entries = Inr chosen"
      "List.map_filter manifest_of u = map (\<lambda>e. JStr (entry_label e)) chosen"
    by (auto simp: sample_args_def)
  from plan have "chosen = [sample_entry]"
    by (auto simp: plan_world_def select_entries_def plan_entries dindex_def split: if_splits)
  with t plan run show ?thesis
    by (simp add: List.map_filter_simps entry_label_def sample_entry_fields)
qed

end
