(* ===== verification/Login_Experiment.thy ===== *)
theory Login_Experiment
  imports Baseline
begin

text \<open>
  \<open>performance/scripts/run_login_experiment.py\<close>: runs of the login workload against a backend
  with another number of password workers and another queue. The configuration of the experiment
  may differ from its source in these two values only, and the backend is recreated without it
  however the runs end.
\<close>

section \<open>The paths at which two JSON values differ\<close>

text \<open>\<open>type(left) is type(right)\<close>.\<close>

fun json_kind :: "json \<Rightarrow> nat" where
  "json_kind JNull = 0"
| "json_kind (JBool b) = 1"
| "json_kind (JInt i) = 2"
| "json_kind (JFloat r) = 3"
| "json_kind (JStr s) = 4"
| "json_kind (JList xs) = 5"
| "json_kind (JObj d) = 6"

lemma enumerate_zip_size [termination_simp]:
  "(i, x, y) \<in> set (enumerate n (zip xs ys)) \<Longrightarrow> size x < Suc (size_list size xs)"
  by (auto simp: in_set_enumerate_eq less_Suc_eq_le intro!: size_list_estimation' [of x] dest: nth_mem)

lemma entry_size [termination_simp]:
  "p \<in> set d \<Longrightarrow> size (snd p) < Suc (size_list (size_prod (\<lambda>x. 0) size) d)"
  by (induction d) auto

fun changed_paths :: "json \<Rightarrow> json \<Rightarrow> string list \<Rightarrow> string list list" where
  "changed_paths (JObj d) right pre = (case right of
      JObj e \<Rightarrow> concat (map (\<lambda>p. case map_of e (fst p) of
          None \<Rightarrow> [pre @ [fst p]]
        | Some v \<Rightarrow> changed_paths (snd p) v (pre @ [fst p])) d)
        @ map (\<lambda>k. pre @ [k]) (filter (\<lambda>k. \<not> dhas d k) (dkeys e))
    | _ \<Rightarrow> [pre])"
| "changed_paths (JList xs) right pre = (case right of
      JList ys \<Rightarrow> if length xs \<noteq> length ys then [pre]
        else concat (map (\<lambda>(i, x, y). changed_paths x y (pre @ [nat_str i])) (enumerate 0 (zip xs ys)))
    | _ \<Rightarrow> [pre])"
| "changed_paths left right pre = (if json_kind left \<noteq> json_kind right then [pre]
     else if left = right then [] else [pre])"

lemma changed_paths_append: "changed_paths a b (pre0 @ pre1) = map ((@) pre0) (changed_paths a b pre1)"
proof (induction a b "pre0 @ pre1" arbitrary: pre1 rule: changed_paths.induct)
  case (1 d right)
  have step: "(case map_of e (fst p) of None \<Rightarrow> [(pre0 @ pre1) @ [fst p]]
        | Some v \<Rightarrow> changed_paths (snd p) v ((pre0 @ pre1) @ [fst p]))
      = map ((@) pre0) (case map_of e (fst p) of None \<Rightarrow> [pre1 @ [fst p]]
        | Some v \<Rightarrow> changed_paths (snd p) v (pre1 @ [fst p]))"
    if "right = JObj e" "p \<in> set d" for e p
    using 1 [OF that(1,2)] by (auto split: option.split)
  show ?case
    using step by (cases right) (auto simp: map_concat intro!: arg_cong [where f = concat])
next
  case (2 xs right)
  have step: "changed_paths x y ((pre0 @ pre1) @ [nat_str i]) = map ((@) pre0) (changed_paths x y (pre1 @ [nat_str i]))"
    if "right = JList ys" "length xs = length ys" "(i, x, y) \<in> set (enumerate 0 (zip xs ys))" for ys i x y
    using 2 [of ys "(i, x, y)" i "(x, y)" x y "pre1 @ [nat_str i]"] that by auto
  show ?case
    using step by (cases right) (auto simp: map_concat intro!: arg_cong [where f = concat])
qed auto

lemma changed_paths_snoc: "changed_paths a b [k] = map ((#) k) (changed_paths a b [])"
  using changed_paths_append [of a b "[k]" "[]"] by simp

text \<open>Two values whose children are compared one by one.\<close>

fun same_shape :: "json \<Rightarrow> json \<Rightarrow> bool" where
  "same_shape (JObj d) (JObj e) = True"
| "same_shape (JList xs) (JList ys) = (length xs = length ys)"
| "same_shape a b = False"

fun child_change :: "json option \<Rightarrow> json option \<Rightarrow> string list \<Rightarrow> bool" where
  "child_change (Some x) (Some y) q = (q \<in> set (changed_paths x y []))"
| "child_change None None q = False"
| "child_change _ _ q = (q = [])"

lemma set_concat_entries:
  "q \<in> set (concat (map (\<lambda>p. c (fst p) (snd p)) d)) \<longleftrightarrow> (\<exists>k x. (k, x) \<in> set d \<and> q \<in> set (c k x))"
  by force

lemma changed_leaf:
  "\<not> same_shape a b \<Longrightarrow> changed_paths a b [] = (if a = b then [] else [[]])"
  by (cases a; cases b) auto

lemma changed_shape:
  assumes "same_shape a b" and "wf_json a" and "wf_json b"
  shows "q \<in> set (changed_paths a b []) \<longleftrightarrow>
    (\<exists>k q'. q = k # q' \<and> child_change (json_child a k) (json_child b k) q')"
  using assms
proof (induction a b rule: same_shape.induct)
  case (1 d e)
  have get: "(k, x) \<in> set d \<longleftrightarrow> map_of d k = Some x" for k x using 1 by simp
  have "q \<in> set (changed_paths (JObj d) (JObj e) []) \<longleftrightarrow>
      (\<exists>k x. (k, x) \<in> set d \<and> q \<in> set (case map_of e k of None \<Rightarrow> [[k]] | Some v \<Rightarrow> changed_paths x v [k]))
      \<or> (\<exists>k. k \<in> set (dkeys e) \<and> \<not> dhas d k \<and> q = [k])"
    using set_concat_entries [of q "\<lambda>k x. case map_of e k of None \<Rightarrow> [[k]] | Some v \<Rightarrow> changed_paths x v [k]" d]
    by (simp del: set_concat cong: option.case_cong) blast
  also have "\<dots> \<longleftrightarrow> (\<exists>k q'. q = k # q' \<and> child_change (map_of d k) (map_of e k) q')" (is "?l \<or> ?r \<longleftrightarrow> ?x")
  proof
    assume "?l \<or> ?r"
    then show ?x
    proof
      assume ?l
      then obtain k x where kx: "map_of d k = Some x"
        "q \<in> set (case map_of e k of None \<Rightarrow> [[k]] | Some v \<Rightarrow> changed_paths x v [k])" unfolding get by blast
      have "\<exists>q'. q = k # q' \<and> child_change (map_of d k) (map_of e k) q'"
        using kx by (cases "map_of e k") (auto simp: changed_paths_snoc)
      then show ?x by blast
    next
      assume ?r
      then obtain k where k: "k \<in> set (dkeys e)" "\<not> dhas d k" "q = [k]" by blast
      from k(1) have "map_of e k \<noteq> None" by (simp add: map_of_eq_None_iff)
      then obtain v where "map_of e k = Some v" by blast
      moreover have "map_of d k = None" using k(2) by (simp add: dhas_def)
      ultimately have "child_change (map_of d k) (map_of e k) []" by simp
      with k(3) show ?x by blast
    qed
  next
    assume ?x
    then obtain k q' where q: "q = k # q'" "child_change (map_of d k) (map_of e k) q'" by blast
    show "?l \<or> ?r"
    proof (cases "map_of d k")
      case None
      with q have "map_of e k \<noteq> None" "q' = []" by (cases "map_of e k"; auto)+
      then have "k \<in> set (dkeys e)" "\<not> dhas d k" using None by (simp_all add: map_of_eq_None_iff dhas_def)
      with q \<open>q' = []\<close> show ?thesis by blast
    next
      case (Some x)
      with q have "q \<in> set (case map_of e k of None \<Rightarrow> [[k]] | Some v \<Rightarrow> changed_paths x v [k])"
        by (cases "map_of e k") (auto simp: changed_paths_snoc)
      with Some get show ?thesis by blast
    qed
  qed
  finally show ?case by simp
next
  case (2 xs ys)
  have "q \<in> set (changed_paths (JList xs) (JList ys) []) \<longleftrightarrow>
      (\<exists>i < length xs. q \<in> set (changed_paths (xs ! i) (ys ! i) [nat_str i]))"
    using 2 by (auto simp: in_set_enumerate_eq Bex_def)
  also have "\<dots> \<longleftrightarrow> (\<exists>i < length xs. \<exists>q'. q = nat_str i # q' \<and> q' \<in> set (changed_paths (xs ! i) (ys ! i) []))"
    by (auto simp: changed_paths_snoc)
  also have "\<dots> \<longleftrightarrow> (\<exists>k q'. q = k # q' \<and> child_change (json_child (JList xs) k) (json_child (JList ys) k) q')"
  proof -
    have at: "json_child (JList xs) (nat_str i) = Some (xs ! i)" "json_child (JList ys) (nat_str i) = Some (ys ! i)"
      if "i < length xs" for i using that 2 child_list by auto
    have out: "\<exists>i < length xs. k = nat_str i"
      if "child_change (json_child (JList xs) k) (json_child (JList ys) k) q'" for k q'
      using that 2 child_list [of xs k] child_list [of ys k]
      by (cases "json_child (JList xs) k"; cases "json_child (JList ys) k") auto
    show ?thesis
      using at out by (metis child_change.simps(1))
  qed
  finally show ?case .
qed auto

lemma changed_paths_differ:
  "q \<in> set (changed_paths a b []) \<Longrightarrow> wf_json a \<Longrightarrow> wf_json b \<Longrightarrow> json_lookup a q \<noteq> json_lookup b q"
proof (induction q arbitrary: a b)
  case Nil
  then have "\<not> same_shape a b" using changed_shape [of a b "[]"] by auto
  with Nil changed_leaf show ?case by fastforce
next
  case (Cons k q)
  show ?case
  proof (cases "same_shape a b")
    case True
    with Cons.prems have "child_change (json_child a k) (json_child b k) q" using changed_shape by auto
    with Cons show ?thesis
      by (cases "json_child a k"; cases "json_child b k") (auto dest: wf_child)
  next
    case False
    with Cons.prems show ?thesis by (auto simp: changed_leaf split: if_splits)
  qed
qed

lemma changed_paths_frame:
  "\<forall>q \<in> set (changed_paths a b []). \<not> prefix q p \<Longrightarrow> wf_json a \<Longrightarrow> wf_json b \<Longrightarrow> scalar_at a p = scalar_at b p"
proof (induction p arbitrary: a b)
  case Nil
  show ?case
  proof (cases "same_shape a b")
    case True
    then show ?thesis by (cases a; cases b) (auto simp: scalar_at_def)
  next
    case False
    with Nil have "a = b" by (auto simp: changed_leaf split: if_splits)
    then show ?thesis by simp
  qed
next
  case (Cons k p)
  show ?case
  proof (cases "same_shape a b")
    case False
    with Cons.prems have "a = b" by (auto simp: changed_leaf split: if_splits)
    then show ?thesis by simp
  next
    case True
    have none: "\<not> prefix q p" if "child_change (json_child a k) (json_child b k) q" for q
    proof -
      from that True Cons.prems have "k # q \<in> set (changed_paths a b [])" using changed_shape by blast
      with Cons.prems show ?thesis by (auto simp: Cons_prefix_Cons)
    qed
    show ?thesis
    proof (cases "json_child a k")
      case None
      with none [of "[]"] have "json_child b k = None" by (cases "json_child b k") auto
      with None show ?thesis by (simp add: scalar_at_def)
    next
      case (Some x)
      with none [of "[]"] obtain y where y: "json_child b k = Some y" by (cases "json_child b k") auto
      from none Some y have "\<forall>q \<in> set (changed_paths x y []). \<not> prefix q p" by simp
      from Cons.IH [OF this] Cons.prems Some y show ?thesis by (auto simp: scalar_at_def dest: wf_child)
    qed
  qed
qed

section \<open>The program\<close>

record login_args =
  la_workers :: int
  la_queue_capacity :: int
  la_rate :: "int list"
  la_duration :: string
  la_repetitions :: int
  la_preallocated_vus :: int
  la_profile :: string
  la_login_password :: "string option"

definition source_config :: "string \<Rightarrow> string" where
  "source_config rt = rt @ ''/backend/config/config.performance.json''"

definition generated_config :: "string \<Rightarrow> string" where
  "generated_config rt = rt @ ''/performance/generated/auth-experiment-config.json''"

definition compose_override :: "string \<Rightarrow> string" where
  "compose_override rt = rt @ ''/performance/auth-experiment-compose.yml''"

definition workers_path :: "string list" where
  "workers_path = [''custom_config'', ''authentication'', ''password_hash_workers'']"

definition capacity_path :: "string list" where
  "capacity_path = [''custom_config'', ''authentication'', ''password_hash_queue_capacity'']"

definition allowed_changes :: "string list list" where
  "allowed_changes = [workers_path, capacity_path]"

definition build_experiment_config :: "int \<Rightarrow> int \<Rightarrow> ('s, json) io" where
  "build_experiment_config workers queue_capacity =
     sq (raise_if (workers \<le> 0 \<or> queue_capacity \<le> 0) ValueError ''workers and queue capacity must be positive'')
     (bnd (asks (\<lambda>w. source_config (w_root w))) (\<lambda>path.
      bnd (bnd (read_text path) loads) (\<lambda>src.
      bnd (of_res (rbind (json_put_at src workers_path (JInt workers)) (\<lambda>c.
        json_put_at c capacity_path (JInt queue_capacity)))) (\<lambda>candidate.
      sq (raise_if (filter (\<lambda>p. p \<notin> set allowed_changes) (changed_paths src candidate []) \<noteq> [])
        RuntimeError ''auth experiment changed forbidden config paths'')
      (ret candidate)))))"

definition config_sha256 :: "json \<Rightarrow> ('s, string) io" where
  "config_sha256 config = asks (\<lambda>w. w_sha256 w (dumps (w_float_repr w) config))"

definition login_compose :: "string \<Rightarrow> bool \<Rightarrow> string list \<Rightarrow> string list" where
  "login_compose rt experiment arguments =
     [''docker'', ''compose'', ''-p'', ''ticketing-phase10a'', ''-f'',
      rt @ ''/performance/docker-compose.performance.yml'']
     @ (if experiment then [''-f'', compose_override rt] else []) @ arguments"

definition login_execute :: "string list \<Rightarrow> ('s, unit) io" where
  "login_execute arguments =
     bnd (run_proc arguments None []) (\<lambda>completed.
     raise_if (p_rc completed \<noteq> 0) RunError (''command failed ('' @ int_str (p_rc completed) @ ''): ''
       @ join_with '' '' arguments @ [nl] @ p_out completed @ p_err completed))"

definition recreate_argv :: "string \<Rightarrow> bool \<Rightarrow> string list" where
  "recreate_argv rt experiment = login_compose rt experiment
     [''up'', ''-d'', ''--no-deps'', ''--force-recreate'', ''--wait'', ''backend'']"

definition login_recreate_backend :: "bool \<Rightarrow> ('s, unit) io" where
  "login_recreate_backend experiment = bnd (asks w_root) (\<lambda>rt. login_execute (recreate_argv rt experiment))"

definition attach_experiment_metadata :: "string \<Rightarrow> int \<Rightarrow> int \<Rightarrow> string \<Rightarrow> ('s, unit) io" where
  "attach_experiment_metadata dir workers queue_capacity config_hash =
     bnd (bnd (read_text (dir @ ''/evidence-manifest.json'')) loads) (\<lambda>manifest.
     bnd (of_res (json_put manifest ''authExperiment'' (JObj [(''passwordHashWorkers'', JInt workers),
       (''passwordHashQueueCapacity'', JInt queue_capacity), (''configSha256'', JStr config_hash)]))) (\<lambda>m.
     write_json_text (dir @ ''/evidence-manifest.json'') m))"

definition experiment_name :: "login_args \<Rightarrow> int \<Rightarrow> int \<Rightarrow> string" where
  "experiment_name a rate repetition = ''login-w'' @ int_str (la_workers a) @ ''-q'' @ int_str (la_queue_capacity a)
     @ ''-r'' @ int_str rate @ ''-rep'' @ int_str repetition"

definition experiment_entry :: "login_args \<Rightarrow> int \<Rightarrow> int \<Rightarrow> json" where
  "experiment_entry a rate repetition = JObj [(''name'', JStr (experiment_name a rate repetition)),
     (''profile'', JStr (la_profile a)), (''reset'', JStr ''logical''),
     (''args'', JList (map JStr [''login'', ''--mode'', ''steady'', ''--rate'', int_str rate,
       ''--duration'', la_duration a, ''--preallocated-vus'', int_str (la_preallocated_vus a)]))]"

definition experiment_run :: "host_info \<Rightarrow> login_args \<Rightarrow> string \<Rightarrow> int \<times> int \<Rightarrow> ('s, string) io" where
  "experiment_run host a config_hash rr = (case rr of (rate, repetition) \<Rightarrow>
     bnd (run_entry host (la_login_password a) False (experiment_entry a rate repetition)) (\<lambda>dir.
     sq (attach_experiment_metadata dir (la_workers a) (la_queue_capacity a) config_hash)
     (sq (say (''[PASS] '' @ experiment_name a rate repetition @ '': '' @ dir))
     (ret dir))))"

definition login_run :: "host_info \<Rightarrow> login_args \<Rightarrow> ('s, string list) io" where
  "login_run host a =
     bnd (build_experiment_config (la_workers a) (la_queue_capacity a)) (\<lambda>config.
     bnd (config_sha256 config) (\<lambda>config_hash.
     bnd (asks (\<lambda>w. generated_config (w_root w))) (\<lambda>generated.
     sq (write_json_text generated config)
     (sq (login_recreate_backend True)
     (try_finally
       (map_io (experiment_run host a config_hash)
         (concat (map (\<lambda>rate. map (\<lambda>repetition. (rate, repetition)) [1..la_repetitions a]) (la_rate a))))
       (login_recreate_backend False))))))"

definition login_main :: "host_info \<Rightarrow> login_args \<Rightarrow> ('s, int) io" where
  "login_main host a =
     try_except (caught_by [OSError, ValueError, RuntimeError, JSONDecodeError])
       (sq (raise_if (la_login_password a = None \<or> la_login_password a = Some []) ValueError
         ''--login-password or TICKETING_PERF_LOGIN_PASSWORD is required'')
       (sq (raise_if (la_repetitions a \<le> 0 \<or> la_preallocated_vus a \<le> 0) ValueError
         ''repetitions and preallocated VUs must be positive'')
       (sq (raise_if (list_ex (\<lambda>rate. rate \<le> 0) (la_rate a)) ValueError ''rates must be positive'')
       (bnd (login_run host a) (\<lambda>roots. ret 0)))))
       (\<lambda>e. sq (say_err (''[FAIL] '' @ exn_msg e)) (ret 1))"

section \<open>The configuration of an experiment\<close>

text \<open>Documented behaviour of \<open>json.loads\<close>: the keys of an object are distinct.\<close>

definition loads_wf :: "world \<Rightarrow> bool" where
  "loads_wf w = (\<forall>t. case w_loads w t of Inl e \<Rightarrow> True | Inr v \<Rightarrow> wf_json v)"

lemma loads_wfD: "loads_wf w \<Longrightarrow> w_loads w t = Inr v \<Longrightarrow> wf_json v"
  unfolding loads_wf_def by (metis sum.case(2))

lemma build_config_Ret:
  assumes "build_experiment_config workers cap w (s, h) = (Ret c, s', h')"
  obtains body src mid where "h' = h @ [FileRead (source_config (w_root w)) (Inr body)]" "w_loads w body = Inr src"
    "json_put_at src workers_path (JInt workers) = Inr mid" "json_put_at mid capacity_path (JInt cap) = Inr c"
    "set (changed_paths src c []) \<subseteq> set allowed_changes" "0 < workers" "0 < cap"
proof -
  have "\<exists>body src mid. h' = h @ [FileRead (source_config (w_root w)) (Inr body)] \<and> w_loads w body = Inr src \<and>
    json_put_at src workers_path (JInt workers) = Inr mid \<and> json_put_at mid capacity_path (JInt cap) = Inr c \<and>
    set (changed_paths src c []) \<subseteq> set allowed_changes \<and> 0 < workers \<and> 0 < cap"
    using assms
    by (auto simp: build_experiment_config_def read_text_def loads_def run_simps filter_empty_conv not_le
        rbind_Inr_iff split: sum.splits if_splits)
  with that show ?thesis by blast
qed

section \<open>The backend at the end\<close>

definition is_command :: "event \<Rightarrow> bool" where
  "is_command e = (case e of Ran argv i env r \<Rightarrow> True | _ \<Rightarrow> False)"

lemma recreate_event:
  assumes "login_recreate_backend b w (s, h) = (r, s', h')"
  shows "s' = s \<and> (\<exists>p. h' = h @ [Ran (recreate_argv (w_root w) b) None [] p])"
  using assms
  by (auto simp: login_recreate_backend_def login_execute_def run_proc_def run_simps split: sum.splits if_splits)

lemma emits_build: "emits (\<lambda>e. \<not> is_command e) (build_experiment_config workers cap)"
  unfolding build_experiment_config_def by (intro emits_intros) (simp_all add: is_command_def)


definition experiment_up :: "string \<Rightarrow> event \<Rightarrow> bool" where
  "experiment_up rt e = (case e of
      Ran argv i env (Inr p) \<Rightarrow> argv = recreate_argv rt True \<and> p_rc p = 0
    | _ \<Rightarrow> False)"

definition backend_restoring :: "string \<Rightarrow> event \<Rightarrow> bool" where
  "backend_restoring rt e = (case e of
      Ran argv i env r \<Rightarrow> argv = recreate_argv rt False
    | _ \<Rightarrow> False)"

lemma not_command_up: "list_all (\<lambda>e. \<not> is_command e) t \<Longrightarrow> \<not> list_ex (experiment_up rt) t"
  by (induction t) (auto simp: is_command_def experiment_up_def split: event.splits)

text \<open>The \<open>finally\<close> block ends every course of the runs with the command of the plain backend.\<close>

lemma finally_restores:
  assumes "try_finally m (login_recreate_backend False) w (s, h) = (r, s', h')" and "r \<noteq> Diverged"
    and "emits (\<lambda>_. True) m"
  shows "\<exists>t. h' = h @ t \<and> t \<noteq> [] \<and> backend_restoring (w_root w) (last t)"
proof -
  obtain r1 s1 h1 where m: "m w (s, h) = (r1, s1, h1)" by (metis prod_cases3)
  from assms(3) m obtain t where t: "h1 = h @ t" by (rule emitsD)
  obtain r2 s2 h2 where k: "login_recreate_backend False w (s1, h1) = (r2, s2, h2)" by (metis prod_cases3)
  from recreate_event [OF k] obtain p where "h2 = h1 @ [Ran (recreate_argv (w_root w) False) None [] p]" by blast
  moreover have "h' = h2"
    using assms(1,2) m k by (cases r1; cases r2) (auto simp: try_finally_def)
  ultimately show ?thesis using t by (auto simp: backend_restoring_def)
qed

lemma emits_anything: "emits (\<lambda>_. True) (map_io (experiment_run host a hash) xs)"
  unfolding experiment_run_def run_entry_def ba_reset_environment_def logical_reset_def run_script_def ba_execute_def
    attach_experiment_metadata_def
    clear_auth_cache_def clear_seat_holds_def clear_pattern_def run_compose_def run_command_def
    warmup_system_def run_warmups_def reset_statement_stats_def ev_psql_def ev_compose_def ev_command_def directories_def
  by (intro emits_intros; (rule emits_mono [OF emits_in_temporary [OF emits_measured]]
        emits_mono [OF gentle_attach] | rule TrueI)+)

lemma login_run_restores:
  assumes run: "login_run host a w (s, h) = (r, s', h')" and ends: "r \<noteq> Diverged"
  shows "\<exists>t. h' = h @ t \<and> (list_ex (experiment_up (w_root w)) t \<longrightarrow> t \<noteq> [] \<and> backend_restoring (w_root w) (last t))"
proof -
  obtain r1 s1 h1 where build: "build_experiment_config (la_workers a) (la_queue_capacity a) w (s, h) = (r1, s1, h1)"
    by (metis prod_cases3)
  from emits_build build obtain t1 where t1: "h1 = h @ t1" "list_all (\<lambda>e. \<not> is_command e) t1" by (rule emitsD)
  show ?thesis
  proof (cases r1)
    case (Ret c)
    let ?p = "generated_config (w_root w)"
    let ?wr = "JsonWritten ?p c (w_write w h1 ?p)"
    show ?thesis
    proof (cases "w_write w h1 ?p")
      case (Inl e)
      with run build Ret have "h' = h1 @ [?wr]"
        by (simp add: login_run_def bnd_def [of "build_experiment_config _ _"] config_sha256_def write_json_text_def run_simps)
      moreover have "\<not> list_ex (experiment_up (w_root w)) (t1 @ [?wr])"
        using not_command_up [OF t1(2)] by (simp add: experiment_up_def)
      ultimately show ?thesis using t1 by auto
    next
      case (Inr u)
      let ?h2 = "h1 @ [?wr]"
      let ?M = "map_io (experiment_run host a (w_sha256 w (dumps (w_float_repr w) c)))
         (concat (map (\<lambda>rate. map (\<lambda>repetition. (rate, repetition)) [1..la_repetitions a]) (la_rate a)))"
      have rest: "sq (login_recreate_backend True) (try_finally ?M (login_recreate_backend False)) w (s1, ?h2) = (r, s', h')"
        using run build Ret Inr
        by (simp add: login_run_def bnd_def [of "build_experiment_config _ _"] config_sha256_def write_json_text_def run_simps)
      obtain r3 s3 h3 where up: "login_recreate_backend True w (s1, ?h2) = (r3, s3, h3)" by (metis prod_cases3)
      from recreate_event [OF up] obtain p where p: "h3 = ?h2 @ [Ran (recreate_argv (w_root w) True) None [] p]" by blast
      show ?thesis
      proof (cases "\<exists>u. r3 = Ret u")
        case True
        with rest up have "try_finally ?M (login_recreate_backend False) w (s3, h3) = (r, s', h')"
          by (auto simp: sq_def bnd_def)
        from finally_restores [OF this ends emits_anything] p t1 show ?thesis by auto
      next
        case False
        with rest up have "h' = h3" by (cases r3) (auto simp: sq_def bnd_def)
        moreover have "\<not> experiment_up (w_root w) (Ran (recreate_argv (w_root w) True) None [] p)"
          using False up p
          by (auto simp: experiment_up_def login_recreate_backend_def login_execute_def run_proc_def run_simps
              split: sum.splits if_splits)
        ultimately show ?thesis
          using p t1 not_command_up [OF t1(2), of "w_root w"] by (auto simp: experiment_up_def)
      qed
    qed
  qed (use run build t1 not_command_up in \<open>auto simp: login_run_def bnd_def\<close>)
qed

section \<open>Properties\<close>



text \<open>
  A configuration that the script builds holds the two values asked for, which are
  positive, and everywhere else the scalars of the source configuration.
\<close>

theorem experiment_config_frame:
  assumes "build_experiment_config workers queue_capacity w (s, h) = (Ret c, s', h')" and "loads_wf w"
  shows "\<exists>body src. h' = h @ [FileRead (source_config (w_root w)) (Inr body)] \<and> w_loads w body = Inr src
     \<and> 0 < workers \<and> 0 < queue_capacity \<and> json_lookup c capacity_path = Some (JInt queue_capacity)
     \<and> json_lookup c workers_path = Some (JInt workers)
     \<and> (\<forall>p. \<not> prefix workers_path p \<and> \<not> prefix capacity_path p \<longrightarrow> scalar_at c p = scalar_at src p)"
proof -
  from assms(1) obtain body src mid where 1: "h' = h @ [FileRead (source_config (w_root w)) (Inr body)]"
    "w_loads w body = Inr src"
    "json_put_at src workers_path (JInt workers) = Inr mid" "json_put_at mid capacity_path (JInt queue_capacity) = Inr c"
    "set (changed_paths src c []) \<subseteq> set allowed_changes" "0 < workers" "0 < queue_capacity" by (rule build_config_Ret)
  from assms(2) 1 have wf: "wf_json src" "wf_json c" by (auto dest!: loads_wfD wf_put_at)
  have "json_lookup c workers_path = Some (JInt workers)"
    using lookup_put_at [OF 1(3)] 1(4) by (auto simp: workers_path_def capacity_path_def res_simps dest!: child_put child_index)
  moreover have "scalar_at src p = scalar_at c p" if "\<not> prefix workers_path p \<and> \<not> prefix capacity_path p" for p
    using 1(5) that by (intro changed_paths_frame wf) (auto simp: allowed_changes_def)
  ultimately show ?thesis using 1 lookup_put_at [OF 1(4)] by auto
qed

text \<open>
  \textbf{C28.} However an experiment ends, once the backend has been recreated on the
  experiment's configuration, the last thing the script does is to recreate it without.
\<close>

theorem login_restores_backend:
  assumes "login_run host a w (s, h) = (r, s', h')" and "r \<noteq> Diverged"
  shows "\<exists>t. h' = h @ t \<and> (list_ex (experiment_up (w_root w)) t \<longrightarrow> t \<noteq> [] \<and> backend_restoring (w_root w) (last t))"
  using assms by (rule login_run_restores)

text \<open>A world with a small configuration.\<close>

definition sample_config :: json where
  "sample_config = JObj [(''custom_config'', JObj [(''authentication'', JObj [(''password_hash_workers'', JInt 4),
     (''password_hash_queue_capacity'', JInt 64)]), (''port'', JInt 8080)])]"

definition config_world :: world where
  "config_world = quiet_world\<lparr>w_loads := \<lambda>t. Inr sample_config\<rparr>"

definition sample_login :: login_args where
  "sample_login = \<lparr>la_workers = 2, la_queue_capacity = 8, la_rate = [10], la_duration = ''30s'',
     la_repetitions = 1, la_preallocated_vus = 160, la_profile = ''baseline'', la_login_password = Some ''pw''\<rparr>"

definition candidate_config :: json where
  "candidate_config = JObj [(''custom_config'', JObj [(''authentication'', JObj [(''password_hash_workers'', JInt 2),
     (''password_hash_queue_capacity'', JInt 8)]), (''port'', JInt 8080)])]"

lemma candidate_built:
  "rbind (json_put_at sample_config workers_path (JInt 2)) (\<lambda>c. json_put_at c capacity_path (JInt 8)) = Inr candidate_config"
  "filter (\<lambda>p. p \<notin> set allowed_changes) (changed_paths sample_config candidate_config []) = []"
  by code_simp+

lemma config_world_sel:
  "w_loads config_world t = Inr sample_config" "w_read config_world h p = Inr []"
  "w_write config_world h p = Inr ()" "w_run config_world h argv i = Inr \<lparr>p_rc = 0, p_out = [], p_err = []\<rparr>"
  by (simp_all add: config_world_def quiet_world_def)

lemma config_world_builds:
  "build_experiment_config 2 8 config_world (s, h)
     = (Ret candidate_config, s, h @ [FileRead (source_config (w_root config_world)) (Inr [])])"
  by (simp add: build_experiment_config_def read_text_def loads_def run_simps config_world_sel candidate_built
      del: json_put_at.simps)

theorem experiment_config_frame_witness:
  "\<exists>c h'. build_experiment_config 2 8 config_world ((), []) = (Ret c, (), h')
     \<and> scalar_at c [''custom_config'', ''port''] = Some (JInt 8080)"
proof -
  have "loads_wf config_world" by (simp add: loads_wf_def config_world_sel sample_config_def)
  note frame = experiment_config_frame [OF config_world_builds [of "()" "[]"] this]
  have "\<not> prefix workers_path [''custom_config'', ''port''] \<and> \<not> prefix capacity_path [''custom_config'', ''port'']"
    by code_simp
  with frame have "scalar_at candidate_config [''custom_config'', ''port''] = scalar_at sample_config [''custom_config'', ''port'']"
    by (auto simp: config_world_sel)
  also have "\<dots> = Some (JInt 8080)" by code_simp
  finally show ?thesis by (simp add: config_world_builds)
qed

lemma config_world_ends: "halts_on config_world (login_run host a)"
  unfolding login_run_def build_experiment_config_def config_sha256_def login_recreate_backend_def login_execute_def
    experiment_run_def run_entry_def ba_reset_environment_def logical_reset_def run_script_def ba_execute_def
    attach_experiment_metadata_def clear_auth_cache_def clear_seat_holds_def clear_pattern_def run_compose_def
    run_command_def warmup_system_def run_warmups_def reset_statement_stats_def ev_psql_def ev_compose_def
    ev_command_def directories_def in_temporary_def measured_run_def newest_result_def attach_evidence_def
    collect_redis_def collect_section_def redis_info_def collect_postgres_def collect_prometheus_def query_range_def
    collect_docker_stats_def collect_logs_def environment_fingerprint_def utc_now_def Let_def
  by (intro halts_intros; auto intro: halts_intros split: list.split http_result.split)

lemma emits_recreate: "emits (\<lambda>_. True) (login_recreate_backend b)"
  unfolding login_recreate_backend_def login_execute_def by (intro emits_intros TrueI)

lemma config_world_up:
  assumes "login_run host sample_login config_world (s, h) = (r, s', h')"
  shows "list_ex (experiment_up (w_root config_world)) h'"
proof -
  let ?w = config_world
  let ?hash = "w_sha256 ?w (dumps (w_float_repr ?w) candidate_config)"
  let ?M = "map_io (experiment_run host sample_login ?hash)
    (concat (map (\<lambda>rate. map (\<lambda>repetition. (rate, repetition)) [1..la_repetitions sample_login]) (la_rate sample_login)))"
  have args: "la_workers sample_login = 2" "la_queue_capacity sample_login = 8" by (simp_all add: sample_login_def)
  obtain h2 where "sq (login_recreate_backend True) (try_finally ?M (login_recreate_backend False)) ?w (s, h2) = (r, s', h')"
    using assms
    by (simp add: login_run_def args bnd_def [of "build_experiment_config _ _"] config_world_builds config_sha256_def
        write_json_text_def run_simps config_world_sel)
  moreover have "login_recreate_backend True ?w (s, h2) = (Ret (), s, h2 @
      [Ran (recreate_argv (w_root ?w) True) None [] (Inr \<lparr>p_rc = 0, p_out = [], p_err = []\<rparr>)])"
    by (simp add: login_recreate_backend_def login_execute_def run_proc_def run_simps config_world_sel)
  ultimately have "try_finally ?M (login_recreate_backend False) ?w (s, h2 @
      [Ran (recreate_argv (w_root ?w) True) None [] (Inr \<lparr>p_rc = 0, p_out = [], p_err = []\<rparr>)]) = (r, s', h')"
    by (simp add: sq_def bnd_def)
  moreover have "emits (\<lambda>_. True) (try_finally ?M (login_recreate_backend False))"
    by (intro emits_try_finally emits_anything emits_recreate)
  ultimately show ?thesis by (auto elim!: emitsD simp: experiment_up_def)
qed

theorem login_restores_backend_witness:
  "\<exists>r t. login_run sample_host sample_login config_world ((), []) = (r, (), t) \<and> r \<noteq> Diverged
     \<and> backend_restoring (w_root config_world) (last t)"
proof -
  obtain r t where run: "login_run sample_host sample_login config_world ((), []) = (r, (), t)" by (metis prod_cases3 old.unit.exhaust)
  have "halts_on config_world (login_run sample_host sample_login :: (unit, string list) io)"
    by (rule config_world_ends)
  with run have ends: "r \<noteq> Diverged" by (auto dest: halts_onD)
  from login_restores_backend [OF run ends] config_world_up [OF run] run ends show ?thesis by auto
qed

end
