(* ===== verification/Phase14_Model.thy ===== *)
theory Phase14_Model
  imports Dataset_Sql
begin

text \<open>
  \<open>performance/scripts/phase14_model.py\<close>: the frozen inputs of the phase-14 campaign. The
  targets stay the JSON value of the file, read with Python's indexing; a float where the code
  formats or divides an integer raises TypeError in the model. All functions but \<open>load_targets\<close>
  are pure.
\<close>

section \<open>Numbers and values read from the targets\<close>

fun num_neg :: "num \<Rightarrow> num" where
  "num_neg (PInt i) = PInt (- i)"
| "num_neg (PFloat r) = PFloat (- r)"

definition num_sub :: "num \<Rightarrow> num \<Rightarrow> num" where
  "num_sub a b = num_add a (num_neg b)"

definition num_less :: "num \<Rightarrow> num \<Rightarrow> bool" where
  "num_less a b = (num_rat a < num_rat b)"

definition num_eq :: "num \<Rightarrow> num \<Rightarrow> bool" where
  "num_eq a b = (num_rat a = num_rat b)"

text \<open>\<open>x % 100\<close> is not zero.\<close>

fun not_hundreds :: "num \<Rightarrow> bool" where
  "not_hundreds (PInt i) = (i mod 100 \<noteq> 0)"
| "not_hundreds (PFloat r) = (of_int \<lfloor>r / 100\<rfloor> * 100 \<noteq> r)"

definition num_at :: "json \<Rightarrow> string list \<Rightarrow> num res" where
  "num_at t ks = rbind (json_at t ks) json_to_num"

definition int_at :: "json \<Rightarrow> string list \<Rightarrow> int res" where
  "int_at t ks = rbind (json_at t ks) json_to_int"

definition list_at :: "json \<Rightarrow> string list \<Rightarrow> json list res" where
  "list_at t ks = rbind (json_at t ks) json_to_list"

definition dict_at :: "json \<Rightarrow> string list \<Rightarrow> dict res" where
  "dict_at t ks = rbind (json_at t ks) json_to_dict"

definition item :: "json list \<Rightarrow> nat \<Rightarrow> json res" where
  "item xs i = (if i < length xs then Inr (xs ! i) else Inl (Exn IndexError ''list index out of range''))"

definition last_item :: "json list \<Rightarrow> json res" where
  "last_item xs = (if xs = [] then Inl (Exn IndexError ''list index out of range'') else Inr (last xs))"

text \<open>\<open>a, b = xs\<close>.\<close>

fun unpack2 :: "'a list \<Rightarrow> ('a \<times> 'a) res" where
  "unpack2 [a, b] = Inr (a, b)"
| "unpack2 xs = Inl (Exn ValueError ''values to unpack'')"

section \<open>Validation\<close>

definition interval_step :: "num \<Rightarrow> num \<Rightarrow> num list \<Rightarrow> num res" where
  "interval_step limit previous row =
     rbind (unpack2 row) (\<lambda>(a, b).
     if \<not> is_pint a \<or> \<not> is_pint b \<or> num_less a previous \<or> \<not> num_less a b \<or> num_less limit b
     then Inl (Exn ValueError ''invalid, overlapping or exhausted slices'')
     else Inr b)"

definition intervals :: "json list \<Rightarrow> num \<Rightarrow> unit res" where
  "intervals vs limit =
     rbind (map_res (\<lambda>v. rbind (json_to_list v) (map_res json_to_num)) vs) (\<lambda>rows.
     rbind (fold_res (interval_step limit) (PInt 0) (sort_key (map num_rat) rows)) (\<lambda>_. Inr ()))"

definition startup_steps :: json where
  "startup_steps = JObj [(''startup_auth'', JInt 2), (''startup_notifications'', JInt 2),
     (''startup_session'', JInt 1), (''startup_event'', JInt 1), (''startup_layout'', JInt 1),
     (''startup_availability'', JInt 1), (''startup_checkouts'', JInt 1), (''startup_orders'', JInt 1)]"

definition check_window :: "json \<Rightarrow> string \<Rightarrow> unit res" where
  "check_window t key =
     rbind (list_at t [''behavior'', key]) (\<lambda>xs. rbind (unpack2 xs) (\<lambda>(u, v).
     rbind (json_to_num u) (\<lambda>a. rbind (require (num_less (PInt 0) a) ValueError ''invalid behavior window'') (\<lambda>_.
     rbind (json_to_num v) (\<lambda>b. require (\<not> num_less b a) ValueError ''invalid behavior window'')))))"

definition check_startup :: "json \<Rightarrow> unit res" where
  "check_startup t =
     fold_res (\<lambda>_ (key, expected). rbind (json_at t [''pageStartup'', key]) (\<lambda>found.
       require (py_eq found expected) ValueError ''startup differs from calibrated browser contract'')) ()
       [(''stepCounts'', startup_steps), (''requestsPerUser'', JInt 10), (''orderListLimit'', JInt 20)]"

definition check_pools :: "json \<Rightarrow> unit res" where
  "check_pools t =
     rbind (num_at t [''dataset'', ''activeAuthSessions'']) (\<lambda>active.
     rbind (num_at t [''dataset'', ''loginUsers'']) (\<lambda>login.
     rbind (num_at t [''dataset'', ''registeredUsers'']) (\<lambda>registered.
     rbind (require (\<not> num_less registered (num_add active login)) ValueError ''insufficient registered users'') (\<lambda>_.
     rbind (dict_at t [''slices'']) (\<lambda>slices.
     rbind (intervals (map snd slices) registered) (\<lambda>_.
     rbind (intervals (map snd (filter (\<lambda>p. fst p \<noteq> ''login'') slices)) active) (\<lambda>_.
     rbind (list_at t [''slices'', ''login'']) (\<lambda>ls. rbind (rbind (item ls 0) json_to_num) (\<lambda>start.
     require (\<not> num_less start active) ValueError ''login pool contains existing sessions'')))))))))"

definition check_seats :: "json \<Rightarrow> unit res" where
  "check_seats t =
     rbind (dict_at t [''seatSlices'']) (\<lambda>slices.
     rbind (num_at t [''dataset'', ''events'']) (\<lambda>events.
     rbind (num_at t [''dataset'', ''sessionsPerEvent'']) (\<lambda>ses.
     rbind (num_at t [''dataset'', ''seatsPerSession'']) (\<lambda>seats.
     intervals (map snd slices) (num_mul (num_mul events ses) seats)))))"

definition check_hotspot :: "json \<Rightarrow> unit res" where
  "check_hotspot t =
     rbind (num_at t [''hotspot'', ''users'']) (\<lambda>users.
     rbind (num_at t [''hotspot'', ''seats'']) (\<lambda>seats.
     rbind (num_at t [''hotspot'', ''contendersPerSeat'']) (\<lambda>contenders.
     require (num_eq users (num_mul seats contenders)) ValueError ''hotspot is not exact'')))"

definition allocation_keys :: "string list" where
  "allocation_keys = [''browse'', ''hold'', ''order'']"

definition stage_positive :: "json \<Rightarrow> string \<Rightarrow> unit res" where
  "stage_positive stage key = rbind (num_at stage [key]) (\<lambda>n.
     require (num_less (PInt 0) n) ValueError ''invalid online stage'')"

definition check_stage :: "json \<Rightarrow> num \<Rightarrow> json \<Rightarrow> num res" where
  "check_stage t previous stage =
     rbind (num_at stage [''users'']) (\<lambda>n.
     rbind (require (num_less previous n) ValueError ''invalid online stage'') (\<lambda>_.
     rbind (stage_positive stage ''rampSeconds'') (\<lambda>_.
     rbind (stage_positive stage ''holdSeconds'') (\<lambda>_.
     rbind (map_res (\<lambda>k. num_at t [''behavior'', k]) allocation_keys) (\<lambda>shares.
     rbind (require (list_all (\<lambda>share. \<not> not_hundreds (num_mul n share)) shares) ValueError
       ''non-integral behavior allocation'') (\<lambda>_.
     rbind (list_at t [''slices'', ''main'']) (\<lambda>main.
     rbind (rbind (item main 1) json_to_num) (\<lambda>stop.
     rbind (rbind (item main 0) json_to_num) (\<lambda>start.
     rbind (require (\<not> num_less (num_sub stop start) n) ValueError ''main pool exhausted'') (\<lambda>_.
     Inr n))))))))))"

definition check_rounds :: "json \<Rightarrow> unit res" where
  "check_rounds t =
     rbind (list_at t [''online'', ''rounds'']) (fold_res (\<lambda>_ stages.
       rbind (rbind (json_to_list stages) (fold_res (check_stage t) (PInt 0))) (\<lambda>_. Inr ())) ())"

definition check_bursts :: "json \<Rightarrow> unit res" where
  "check_bursts t =
     rbind (list_at t [''burst'', ''windowsSeconds'']) (\<lambda>bursts.
     rbind (list_at t [''login'', ''windowsSeconds'']) (\<lambda>logins.
     fold_res (\<lambda>_ v. rbind (json_to_num v) (\<lambda>n.
       require (num_less (PInt 0) n) ValueError ''invalid burst window'')) () (bursts @ logins)))"

definition check_version :: "json \<Rightarrow> unit res" where
  "check_version t =
     rbind (json_index t ''version'') (\<lambda>version.
     rbind (require (py_eq version (JInt 3)) ValueError ''invalid version or behavior proportions'') (\<lambda>_.
     rbind (map_res (\<lambda>k. num_at t [''behavior'', k]) allocation_keys) (\<lambda>shares.
     require (num_eq (num_sum shares) (PInt 100)) ValueError ''invalid version or behavior proportions'')))"

definition check_guard :: "json \<Rightarrow> unit res" where
  "check_guard t =
     rbind (num_at t [''generator'', ''scheduler_delivery_guard_seconds'']) (\<lambda>guard.
     require (num_less (PInt 0) guard \<and> \<not> num_less (PInt 5) guard) ValueError
       ''invalid non-business scheduler guard'')"

definition check_shards :: "json \<Rightarrow> unit res" where
  "check_shards t =
     rbind (num_at t [''generator'', ''maxShards'']) (\<lambda>n.
     require (\<not> num_less n (PInt 1) \<and> \<not> num_less (PInt 16) n) ValueError ''unbounded shard labels'')"

definition validate_targets :: "json \<Rightarrow> unit res" where
  "validate_targets t =
     rbind (check_version t) (\<lambda>_. rbind (check_window t ''thinkSeconds'') (\<lambda>_.
     rbind (check_window t ''refreshSeconds'') (\<lambda>_. rbind (check_guard t) (\<lambda>_.
     rbind (check_startup t) (\<lambda>_. rbind (check_pools t) (\<lambda>_. rbind (check_seats t) (\<lambda>_.
     rbind (check_hotspot t) (\<lambda>_. rbind (check_rounds t) (\<lambda>_. rbind (check_bursts t) (\<lambda>_.
     check_shards t))))))))))"

section \<open>Loading\<close>

text \<open>The values of the smoke mode: where a value of \<open>smoke\<close> goes.\<close>

definition smoke_behavior :: "(string list \<times> string) list" where
  "smoke_behavior = [([''behavior'', ''thinkSeconds''], ''thinkSeconds''),
     ([''behavior'', ''refreshSeconds''], ''refreshSeconds''),
     ([''dataset'', ''registeredUsers''], ''registeredUsers''),
     ([''dataset'', ''activeAuthSessions''], ''activeAuthSessions''),
     ([''dataset'', ''loginUsers''], ''loginUsers''), ([''dataset'', ''seatsPerSession''], ''seatsPerSession'')]"

definition smoke_workloads :: "(string list \<times> string) list" where
  "smoke_workloads = [([''burst'', ''users''], ''users''), ([''burst'', ''windowsSeconds''], ''burstWindowsSeconds''),
     ([''hotspot'', ''users''], ''users''), ([''hotspot'', ''seats''], ''hotspotSeats''),
     ([''hotspot'', ''windowSeconds''], ''hotspotWindowSeconds''), ([''login'', ''users''], ''loginUsers''),
     ([''login'', ''windowsSeconds''], ''loginWindowsSeconds''),
     ([''login'', ''backgroundWarmSeconds''], ''backgroundWarmSeconds''),
     ([''login'', ''backgroundRecoverySeconds''], ''recoverySeconds''),
     ([''recovery'', ''observeSeconds''], ''recoverySeconds''), ([''expiry'', ''orders''], ''users''),
     ([''expiry'', ''futureSeconds''], ''expiryFutureSeconds''),
     ([''expiry'', ''maxObserveSeconds''], ''expiryObserveSeconds''),
     ([''expiry'', ''afterDrainSeconds''], ''expiryAfterDrainSeconds''), ([''soak'', ''seconds''], ''soakSeconds''),
     ([''generator'', ''releaseLeadSeconds''], ''releaseLeadSeconds''),
     ([''calibration'', ''authSamples''], ''authSamples''), ([''calibration'', ''baselineSeconds''], ''baselineSeconds'')]"

definition smoke_puts :: "json \<Rightarrow> (string list \<times> string) list \<Rightarrow> json \<Rightarrow> json res" where
  "smoke_puts s table t = fold_res (\<lambda>t (path, key). rbind (json_index s key) (json_put_at t path)) t table"

definition smoke_stage :: "json \<Rightarrow> json \<Rightarrow> json res" where
  "smoke_stage s stage = smoke_puts s [([''users''], ''users''), ([''rampSeconds''], ''rampSeconds''),
     ([''holdSeconds''], ''holdSeconds'')] stage"

text \<open>Every stage gets the smoke values, and only the last one of each round stays.\<close>

definition smoke_rounds :: "json \<Rightarrow> json \<Rightarrow> json res" where
  "smoke_rounds s t =
     rbind (list_at t [''online'', ''rounds'']) (\<lambda>rounds.
     rbind (map_res (\<lambda>stages. rbind (json_to_list stages) (map_res (smoke_stage s))) rounds) (\<lambda>staged.
     rbind (map_res last_item staged) (\<lambda>lasts.
     json_put_at t [''online'', ''rounds''] (JList (map (\<lambda>x. JList [x]) lasts)))))"

definition even_slices :: "int \<Rightarrow> dict \<Rightarrow> dict" where
  "even_slices width d = map (\<lambda>(i, name, v). (name, JList [JInt (int i * width), JInt ((int i + 1) * width)]))
     (enumerate 0 d)"

definition smoke_slices :: "json \<Rightarrow> json \<Rightarrow> json res" where
  "smoke_slices s t =
     rbind (dict_at t [''slices'']) (\<lambda>slices.
     let d = filter (\<lambda>p. fst p \<noteq> ''login'') (even_slices 200 slices) in
     rbind (json_index s ''users'') (\<lambda>users.
     let d1 = dset d ''main'' (JList [JInt 0, users]) in
     rbind (rbind (dindex d1 ''calibration'') json_to_list) (\<lambda>cal.
     rbind (rbind (item cal 0) json_to_num) (\<lambda>start.
     rbind (num_at s [''authSamples'']) (\<lambda>samples.
     let d2 = dset d1 ''calibration'' (JList (cal[1 := num_json (num_add start samples)])) in
     rbind (json_index s ''activeAuthSessions'') (\<lambda>first.
     rbind (json_to_num first) (\<lambda>active.
     rbind (num_at s [''loginUsers'']) (\<lambda>login.
     json_put_at t [''slices''] (JObj (dset d2 ''login'' (JList [first, num_json (num_add active login)])))))))))))"

definition smoke_seat_slices :: "json \<Rightarrow> json res" where
  "smoke_seat_slices t = rbind (dict_at t [''seatSlices'']) (\<lambda>slices.
     json_put_at t [''seatSlices''] (JObj (even_slices 250 slices)))"

definition smoke_targets :: "json \<Rightarrow> json res" where
  "smoke_targets t =
     rbind (json_index t ''smoke'') (\<lambda>s.
     rbind (smoke_puts s smoke_behavior t) (\<lambda>t1.
     rbind (smoke_rounds s t1) (\<lambda>t2.
     rbind (smoke_puts s smoke_workloads t2) (\<lambda>t3.
     rbind (smoke_slices s t3) smoke_seat_slices))))"

definition final_stage :: "json \<Rightarrow> nat \<Rightarrow> json res" where
  "final_stage t r = rbind (list_at t [''online'', ''rounds'']) (\<lambda>rounds. rbind (item rounds r) (\<lambda>stages.
     rbind (json_to_list stages) last_item))"

definition finish_targets :: "json \<Rightarrow> string \<Rightarrow> bool \<Rightarrow> json res" where
  "finish_targets t digest smoke =
     rbind (validate_targets t) (\<lambda>_.
     rbind (json_put t ''sourceSha256'' (JStr digest)) (\<lambda>t1.
     rbind (rbind (final_stage t1 0) (\<lambda>stage. json_index stage ''users'')) (\<lambda>users.
     rbind (json_put t1 ''formalActiveUserTarget'' users) (\<lambda>t2.
     rbind (json_put t2 ''mode'' (JStr (if smoke then ''smoke'' else ''formal''))) (\<lambda>t3.
     rbind (if smoke then smoke_targets t3 else Inr t3) (\<lambda>t4.
     rbind (validate_targets t4) (\<lambda>_. Inr t4)))))))"

definition load_targets :: "string \<Rightarrow> bool \<Rightarrow> ('s, json) io" where
  "load_targets path smoke =
     bnd (read_text path) (\<lambda>raw. bnd (loads raw) (\<lambda>t.
     bnd (asks (\<lambda>w. w_sha256 w raw)) (\<lambda>digest. of_res (finish_targets t digest smoke))))"

section \<open>Users, seats and shards\<close>

definition user_group :: "int \<Rightarrow> json \<Rightarrow> string res" where
  "user_group index t =
     rbind (int_at t [''seed'']) (\<lambda>seed.
     let bucket = PInt ((index + seed) mod 20 * 5) in
     rbind (num_at t [''behavior'', ''browse'']) (\<lambda>browse.
     if num_less bucket browse then Inr ''browse''
     else rbind (num_at t [''behavior'', ''hold'']) (\<lambda>hold.
       Inr (if num_less bucket (num_add browse hold) then ''hold'' else ''order''))))"

record seat_ref =
  sr_session :: string
  sr_seat :: string

definition zero_div :: "int \<Rightarrow> unit res" where
  "zero_div n = require (n \<noteq> 0) ZeroDivisionError ''integer division or modulo by zero''"

definition session_total :: "json \<Rightarrow> int option \<Rightarrow> int res" where
  "session_total t session_count = (case session_count of
      Some n \<Rightarrow> if n \<noteq> 0 then Inr n else
        rbind (int_at t [''dataset'', ''events'']) (\<lambda>e. rbind (int_at t [''dataset'', ''sessionsPerEvent'']) (\<lambda>k. Inr (e * k)))
    | None \<Rightarrow> rbind (int_at t [''dataset'', ''events'']) (\<lambda>e. rbind (int_at t [''dataset'', ''sessionsPerEvent'']) (\<lambda>k.
        Inr (e * k))))"

definition seat_for :: "int \<Rightarrow> json \<Rightarrow> int option \<Rightarrow> seat_ref res" where
  "seat_for index t session_count =
     rbind (session_total t session_count) (\<lambda>count.
     rbind (int_at t [''dataset'', ''seatsPerSession'']) (\<lambda>seats.
     rbind (require (0 \<le> index \<and> index < count * seats) ValueError ''seat pool exhausted'') (\<lambda>_.
     rbind (int_at t [''dataset'', ''sessionsPerEvent'']) (\<lambda>per_event.
     rbind (zero_div per_event) (\<lambda>_.
     let ordinal = index mod count; number = index div count + 1;
         event = ordinal div per_event + 1; ses = ordinal mod per_event + 1
     in Inr \<lparr>sr_session = session_id event ses, sr_seat = session_seat_id event ses number\<rparr>)))))"

definition hotspot_seat :: "int \<Rightarrow> json \<Rightarrow> int \<Rightarrow> bool \<Rightarrow> seat_ref res" where
  "hotspot_seat index t session_count single =
     rbind (int_at t [''hotspot'', ''users'']) (\<lambda>users.
     rbind (require (0 \<le> index \<and> index < users) ValueError ''hotspot user exhausted'') (\<lambda>_.
     rbind (if single then Inr 0 else rbind (int_at t [''hotspot'', ''contendersPerSeat'']) (\<lambda>c.
       rbind (zero_div c) (\<lambda>_. Inr (index div c)))) (\<lambda>target.
     rbind (json_get t ''mode'' JNull) (\<lambda>mode.
     rbind (if \<not> single \<and> mode = JStr ''smoke'' then
         rbind (int_at t [''hotspot'', ''seats'']) (\<lambda>seats.
         if seats < session_count then rbind (zero_div seats) (\<lambda>_. Inr (target * (session_count div seats)))
         else Inr target)
       else Inr target) (\<lambda>target.
     seat_for target t (Some session_count))))))"

text \<open>\<open>str(Fraction(p, q))\<close>.\<close>

definition frac_str :: "rat \<Rightarrow> string" where
  "frac_str x = (let (p, q) = quotient_of x in if q = 1 then int_str p else int_str p @ ''/'' @ int_str q)"

record shard_unit =
  su_shard :: string
  su_segment :: string
  su_sequence :: string

definition segment_points :: "int \<Rightarrow> string list" where
  "segment_points n = map (\<lambda>i. frac_str (of_int i / of_int n)) [0..n]"

definition segments :: "int \<Rightarrow> json \<Rightarrow> shard_unit list res" where
  "segments n t =
     rbind (if n < 1 then Inl (Exn ValueError ''invalid shards'') else num_at t [''generator'', ''maxShards'']) (\<lambda>most.
     rbind (require (\<not> num_less most (PInt n)) ValueError ''invalid shards'') (\<lambda>_.
     let points = segment_points n in
     Inr (map (\<lambda>i. \<lparr>su_shard = int_str i, su_segment = points ! nat i @ '':'' @ points ! nat (i + 1),
       su_sequence = join_with '','' points\<rparr>) [0..n - 1])))"

section \<open>The arrival plan\<close>

record plan_step =
  ps_kind :: string
  ps_start :: int
  ps_duration :: int
  ps_previous :: int
  ps_users :: int
  ps_enter :: int
  ps_integral :: string
  ps_rate_start :: int
  ps_rate_end :: int
  ps_time_unit :: int

definition refresh_sum :: "json \<Rightarrow> int res" where
  "refresh_sum t = rbind (list_at t [''behavior'', ''refreshSeconds'']) (\<lambda>xs.
     rbind (map_res json_to_int xs) (\<lambda>ns. Inr (sum_list ns)))"

definition plan_row :: "rat \<Rightarrow> int \<Rightarrow> string \<Rightarrow> int \<Rightarrow> int \<Rightarrow> int \<Rightarrow> plan_step res" where
  "plan_row mean elapsed kind duration a b =
     rbind (require (mean \<noteq> 0) ZeroDivisionError ''Fraction division by zero'') (\<lambda>_.
     Inr \<lparr>ps_kind = kind, ps_start = elapsed, ps_duration = duration, ps_previous = a, ps_users = b,
       ps_enter = b - a, ps_integral = frac_str (of_int (a + b) / 2 * of_int duration / mean),
       ps_rate_start = a, ps_rate_end = b, ps_time_unit = (if mean < 0 then \<lceil>mean\<rceil> else \<lfloor>mean\<rfloor>)\<rparr>)"

text \<open>One stage of the loop: the elapsed seconds, the users so far and the plan.\<close>

definition stage_step ::
    "rat \<Rightarrow> int \<times> int \<times> plan_step list \<Rightarrow> json \<Rightarrow> (int \<times> int \<times> plan_step list) res" where
  "stage_step mean st stage = (case st of (elapsed, previous, plan) \<Rightarrow>
     rbind (int_at stage [''users'']) (\<lambda>n.
     rbind (int_at stage [''rampSeconds'']) (\<lambda>ramp.
     rbind (int_at stage [''holdSeconds'']) (\<lambda>hold.
     rbind (plan_row mean elapsed ''ramp'' ramp previous n) (\<lambda>r.
     rbind (plan_row mean (elapsed + ramp) ''hold'' hold n n) (\<lambda>k.
     Inr (elapsed + ramp + hold, n, plan @ [r, k])))))))"

definition online_plan :: "json \<Rightarrow> nat \<Rightarrow> plan_step list res" where
  "online_plan t round_index =
     rbind (refresh_sum t) (\<lambda>total.
     rbind (list_at t [''online'', ''rounds'']) (\<lambda>rounds.
     rbind (rbind (item rounds round_index) json_to_list) (\<lambda>stages.
     rbind (fold_res (stage_step (of_int total / 2)) (0, 0, []) stages) (\<lambda>(elapsed, previous, plan). Inr plan))))"

record background_plan =
  bp_users :: int
  bp_refresh :: string
  bp_hold :: string
  bp_order :: string

definition num_trunc :: "num \<Rightarrow> int" where
  "num_trunc n = (if num_rat n < 0 then \<lceil>num_rat n\<rceil> else \<lfloor>num_rat n\<rfloor>)"

definition background_users :: "json \<Rightarrow> int \<Rightarrow> int list \<Rightarrow> int list \<Rightarrow> int res" where
  "background_users t target passed_u1 passed_u2 =
     (if target \<in> set passed_u1 \<and> target \<in> set passed_u2 then Inr target
      else if passed_u2 \<noteq> [] then rbind (num_at t [''login'', ''fallbackFraction'']) (\<lambda>fraction.
        Inr (num_trunc (num_mul (PInt (Max (set passed_u2))) fraction)))
      else Inl (Exn ValueError ''no stable U2 input; login and capacity soak are gated''))"

definition first_rate :: "json \<Rightarrow> json \<Rightarrow> rat \<Rightarrow> string \<Rightarrow> string res" where
  "first_rate t stage scale key =
     rbind (int_at stage [''users'']) (\<lambda>users.
     rbind (int_at t [''behavior'', key]) (\<lambda>share.
     rbind (int_at stage [''rampSeconds'']) (\<lambda>ramp.
     rbind (zero_div (ramp * 100)) (\<lambda>_.
     Inr (frac_str (of_int (users * share) / of_int (ramp * 100) * scale))))))"

definition background :: "json \<Rightarrow> int list \<Rightarrow> int list \<Rightarrow> background_plan res" where
  "background t passed_u1 passed_u2 =
     rbind (rbind (final_stage t 0) (\<lambda>stage. int_at stage [''users''])) (\<lambda>target.
     rbind (background_users t target passed_u1 passed_u2) (\<lambda>users.
     rbind (rbind (list_at t [''online'', ''rounds'']) (\<lambda>rounds. rbind (item rounds 0) (\<lambda>stages.
       rbind (json_to_list stages) (\<lambda>xs. item xs 0)))) (\<lambda>first.
     rbind (zero_div target) (\<lambda>_.
     rbind (refresh_sum t) (\<lambda>total.
     rbind (zero_div total) (\<lambda>_.
     rbind (first_rate t first (of_int users / of_int target) ''hold'') (\<lambda>hold.
     rbind (first_rate t first (of_int users / of_int target) ''order'') (\<lambda>order.
     Inr \<lparr>bp_users = users, bp_refresh = frac_str (of_int (users * 2) / of_int total),
       bp_hold = hold, bp_order = order\<rparr>))))))))"

section \<open>Allocation of the users\<close>

definition block :: "int \<Rightarrow> int set" where
  "block start = {start..<start + 20}"

lemma residues: "bij_betw (\<lambda>i. (i + c) mod 20) (block start) {0..<20 :: int}"
proof (rule bij_betw_imageI)
  show "inj_on (\<lambda>i. (i + c) mod 20) (block start)"
  proof (rule inj_onI)
    fix i j
    assume ij: "i \<in> block start" "j \<in> block start" "(i + c) mod 20 = (j + c) mod 20"
    then have "20 dvd (i + c) - (j + c)" by (metis mod_eq_dvd_iff)
    then have "20 dvd i - j" by simp
    moreover have "\<bar>i - j\<bar> < 20" using ij by (auto simp: block_def)
    ultimately show "i = j" by (metis dvd_imp_le_int eq_iff_diff_eq_0 abs_numeral not_less zero_neq_numeral)
  qed
  then have "card ((\<lambda>i. (i + c) mod 20) ` block start) = 20" by (simp add: card_image block_def)
  then show "(\<lambda>i. (i + c) mod 20) ` block start = {0..<20}"
    by (intro card_subset_eq) auto
qed

lemma image_Collect_of: "f ` {i \<in> A. P (f i)} = {k \<in> f ` A. P k}"
  by blast

lemma card_residues:
  "card {i \<in> block start. P ((i + c) mod 20)} = card {k \<in> {0..<20 :: int}. P k}"
proof -
  let ?f = "\<lambda>i. (i + c) mod 20"
  have "bij_betw ?f {i \<in> block start. P (?f i)} {k \<in> {0..<20}. P k}"
  proof (rule bij_betw_imageI)
    show "inj_on ?f {i \<in> block start. P (?f i)}"
      by (rule inj_on_subset [OF bij_betw_imp_inj_on [OF residues]]) blast
    have "?f ` {i \<in> block start. P (?f i)} = {k \<in> ?f ` block start. P k}" by (rule image_Collect_of)
    also have "?f ` block start = {0..<20}" by (rule bij_betw_imp_surj_on [OF residues])
    finally show "?f ` {i \<in> block start. P (?f i)} = {k \<in> {0..<20}. P k}" .
  qed
  then show ?thesis by (rule bij_betw_same_card)
qed

lemma card_below:
  assumes "0 \<le> lo" "lo \<le> hi" "hi \<le> 100"
  shows "card {k \<in> {0..<20 :: int}. lo \<le> k * 5 \<and> k * 5 < hi} = nat ((hi + 4) div 5 - (lo + 4) div 5)"
proof -
  have "{k \<in> {0..<20 :: int}. lo \<le> k * 5 \<and> k * 5 < hi} = {(lo + 4) div 5..<(hi + 4) div 5}"
    using assms by auto
  then show ?thesis by simp
qed

lemma user_group_cases:
  assumes "int_at t [''seed''] = Inr seed" "num_at t [''behavior'', ''browse''] = Inr (PInt b)"
    "num_at t [''behavior'', ''hold''] = Inr (PInt h)"
  shows "user_group i t = Inr (let k = (i + seed) mod 20 in if k * 5 < b then ''browse'' else
    if k * 5 < b + h then ''hold'' else ''order'')"
  using assms by (simp add: user_group_def num_less_def Let_def)

section \<open>Seats\<close>

lemma seat_for_Inr:
  assumes seat: "seat_for i t None = Inr r" and ev: "int_at t [''dataset'', ''events''] = Inr ev"
    and per: "int_at t [''dataset'', ''sessionsPerEvent''] = Inr per"
    and seats: "int_at t [''dataset'', ''seatsPerSession''] = Inr seats" and pos: "0 < ev" "0 < per"
  shows "0 \<le> i \<and> i < ev * per * seats \<and> r = \<lparr>sr_session = session_id (i mod (ev * per) div per + 1) (i mod (ev * per) mod per + 1),
      sr_seat = session_seat_id (i mod (ev * per) div per + 1) (i mod (ev * per) mod per + 1) (i div (ev * per) + 1)\<rparr>
    \<and> i mod (ev * per) div per \<in> {0..<ev} \<and> i mod (ev * per) mod per \<in> {0..<per} \<and> i div (ev * per) \<in> {0..<seats}"
proof -
  have "0 < ev * per" using pos by simp
  let ?F = "\<lparr>sr_session = session_id (i mod (ev * per) div per + 1) (i mod (ev * per) mod per + 1),
      sr_seat = session_seat_id (i mod (ev * per) div per + 1) (i mod (ev * per) mod per + 1) (i div (ev * per) + 1)\<rparr>"
  have "seat_for i t None = rbind (require (0 \<le> i \<and> i < ev * per * seats) ValueError ''seat pool exhausted'')
      (\<lambda>_. rbind (zero_div per) (\<lambda>_. Inr ?F))"
    unfolding seat_for_def session_total_def option.case ev per seats rbind.simps Let_def ..
  with seat have all: "(0 \<le> i \<and> i < ev * per * seats) \<and> ?F = r"
    by (simp only: rbind_Inr_iff require_Inr_iff sum.inject) blast
  then have i: "0 \<le> i" "i < ev * per * seats" and r: "r = ?F" by blast+
  from \<open>0 < ev * per\<close> i(2) have "i div (ev * per) < seats" by (rule int_div_less)
  moreover have "0 \<le> i div (ev * per)" using i(1) \<open>0 < ev * per\<close>
    by (simp only: pos_imp_zdiv_nonneg_iff)
  moreover have "i mod (ev * per) < ev * per" "0 \<le> i mod (ev * per)" using \<open>0 < ev * per\<close> by simp_all
  then have "i mod (ev * per) div per < ev" "0 \<le> i mod (ev * per) div per"
    using pos by (auto simp: pos_imp_zdiv_nonneg_iff mult.commute intro!: int_div_less)
  moreover have "0 \<le> i mod (ev * per) mod per" "i mod (ev * per) mod per < per" using pos by simp_all
  ultimately show ?thesis
    using i r unfolding atLeastLessThan_iff by blast
qed

lemma inventory_member:
  "e \<in> {1..sh_events sh} \<Longrightarrow> s \<in> {1..gp_per_event g} \<Longrightarrow> n \<in> {1..sh_seats sh} \<Longrightarrow>
     (sql_session_seat_id e s n, sql_session_id e s) \<in> (\<lambda>v. (ss_id v, ss_session v)) ` set (new_inventory g sh)"
  by (force simp: new_inventory_def image_iff)

lemma digits_inj:
  fixes i j m :: int
  assumes "i mod m div p = j mod m div p" "i mod m mod p = j mod m mod p" "i div m = j div m"
  shows "i = j"
  by (metis assms div_mult_mod_eq)

section \<open>Slices\<close>

text \<open>The bounds of a slice, and two slices without a common index.\<close>

fun slice_bounds :: "json \<Rightarrow> rat \<times> rat" where
  "slice_bounds (JList [u, v]) = (case (json_num u, json_num v) of (Some a, Some b) \<Rightarrow> (a, b) | _ \<Rightarrow> (0, 0))"
| "slice_bounds _ = (0, 0)"

definition apart :: "rat \<times> rat \<Rightarrow> rat \<times> rat \<Rightarrow> bool" where
  "apart p q = (snd p \<le> fst q \<or> snd q \<le> fst p)"

fun row_bounds :: "num list \<Rightarrow> rat \<times> rat" where
  "row_bounds [a, b] = (num_rat a, num_rat b)"
| "row_bounds _ = (0, 0)"

definition inside :: "rat \<Rightarrow> rat \<times> rat \<Rightarrow> bool" where
  "inside limit p = (0 \<le> fst p \<and> fst p < snd p \<and> snd p \<le> limit)"

lemma interval_step_Inr:
  assumes "interval_step limit previous row = Inr b"
  shows "num_rat previous \<le> fst (row_bounds row) \<and> fst (row_bounds row) < num_rat b
     \<and> snd (row_bounds row) = num_rat b \<and> num_rat b \<le> num_rat limit"
proof -
  obtain u v where "row = [u, v]" using assms
    by (cases row rule: unpack2.cases) (auto simp: interval_step_def)
  with assms show ?thesis by (auto simp: interval_step_def num_less_def not_less split: if_splits)
qed

lemma fold_intervals:
  assumes "fold_res (interval_step limit) previous rows = Inr stop" and "0 \<le> num_rat previous"
  shows "list_all (inside (num_rat limit)) (map row_bounds rows)
     \<and> list_all (\<lambda>p. num_rat previous \<le> fst p) (map row_bounds rows) \<and> sorted_wrt (\<lambda>p q. snd p \<le> fst q) (map row_bounds rows)"
  using assms
proof (induction rows arbitrary: previous)
  case (Cons row rows)
  then obtain b where b: "interval_step limit previous row = Inr b" "fold_res (interval_step limit) b rows = Inr stop"
    by (auto simp: res_simps)
  note step = interval_step_Inr [OF b(1)]
  with Cons.prems have "0 \<le> num_rat b" by linarith
  from Cons.IH [OF b(2) this] step Cons.prems show ?case
    by (fastforce simp: list_all_iff inside_def)
qed simp

lemma chain_apart:
  assumes "list_all (inside limit) ps" and "sorted_wrt (\<lambda>p q. snd p \<le> fst q) ps"
  shows "distinct ps \<and> (\<forall>p \<in> set ps. \<forall>q \<in> set ps. p = q \<or> apart p q)"
  using assms
proof (induction ps)
  case (Cons p ps)
  then have "apart p q \<and> apart q p \<and> p \<noteq> q" if "q \<in> set ps" for q
    using that by (force simp: apart_def inside_def)
  then have "\<forall>q \<in> set ps. apart p q \<and> apart q p \<and> p \<noteq> q" by blast
  with Cons show ?case by (simp del: split_paired_All) blast
qed simp

lemma json_num_of: "json_to_num u = Inr n \<Longrightarrow> json_num u = Some (num_rat n)"
  by (cases u) (auto split: if_splits)

lemma row_of_slice:
  assumes "rbind (json_to_list v) (map_res json_to_num) = Inr row" and "length row = 2"
  shows "slice_bounds v = row_bounds row"
proof -
  from assms(1) obtain xs where xs: "v = JList xs" "map_res json_to_num xs = Inr row" by (cases v) auto
  with assms(2) have "length xs = 2" by (simp flip: map_res_Inr_length)
  then obtain a b where "xs = [a, b]" by (auto simp: numeral_2_eq_2 length_Suc_conv)
  with xs show ?thesis by (auto simp: res_simps dest!: json_num_of)
qed

text \<open>Accepted slices are in the pool and pairwise apart.\<close>

lemma intervals_Inr:
  assumes "intervals vs limit = Inr u"
  shows "list_all (inside (num_rat limit)) (map slice_bounds vs) \<and> distinct (map slice_bounds vs)
     \<and> (\<forall>p \<in> set (map slice_bounds vs). \<forall>q \<in> set (map slice_bounds vs). p = q \<or> apart p q)"
proof -
  from assms obtain rows stop where rows: "map_res (\<lambda>v. rbind (json_to_list v) (map_res json_to_num)) vs = Inr rows"
    and run: "fold_res (interval_step limit) (PInt 0) (sort_key (map num_rat) rows) = Inr stop"
    by (auto simp: intervals_def res_simps)
  let ?s = "map row_bounds (sort_key (map num_rat) rows)"
  from fold_intervals [OF run] have ok: "list_all (inside (num_rat limit)) ?s"
    and ord: "sorted_wrt (\<lambda>p q. snd p \<le> fst q) ?s" by auto
  have two: "length row = 2" if "row \<in> set rows" for row
  proof -
    have "inside (num_rat limit) (row_bounds row)" using ok that by (simp add: list_all_iff)
    then show ?thesis by (cases row rule: row_bounds.cases) (auto simp: inside_def)
  qed
  have "map slice_bounds vs = map row_bounds rows"
  proof (rule nth_equalityI)
    show len: "length (map slice_bounds vs) = length (map row_bounds rows)" using map_res_Inr_length [OF rows] by simp
    fix i
    assume i: "i < length (map slice_bounds vs)"
    then have "rows ! i \<in> set rows" using len by simp
    from row_of_slice [OF map_res_Inr_nth [OF rows] two [OF this]] i len
    show "map slice_bounds vs ! i = map row_bounds rows ! i" by simp
  qed
  then have m: "mset (map slice_bounds vs) = mset ?s" by simp
  note chain_apart [OF ok ord]
  with ok mset_eq_setD [OF m] mset_eq_imp_distinct_iff [OF m] show ?thesis by (simp only: list_all_iff) blast
qed

section \<open>The curve of a plan\<close>

text \<open>
  The abstract plan: the population as a piecewise linear function of time, given by its corner
  points, and for each edge the users that enter and the area below it.
\<close>

fun corners :: "int \<Rightarrow> (int \<times> int \<times> int) list \<Rightarrow> (int \<times> int) list" where
  "corners time [] = []"
| "corners time ((n, ramp, hold) # stages) =
     (time + ramp, n) # (time + ramp + hold, n) # corners (time + ramp + hold) stages"

definition curve :: "(int \<times> int \<times> int) list \<Rightarrow> (int \<times> int) list" where
  "curve stages = (0, 0) # corners 0 stages"

definition edges :: "'a list \<Rightarrow> ('a \<times> 'a) list" where
  "edges ps = zip ps (tl ps)"

definition area :: "(int \<times> int) \<times> (int \<times> int) \<Rightarrow> rat" where
  "area e = of_int (snd (fst e) + snd (snd e)) / 2 * of_int (fst (snd e) - fst (fst e))"

text \<open>What a row of the plan stands for.\<close>

definition row_edge :: "plan_step \<Rightarrow> (int \<times> int) \<times> (int \<times> int)" where
  "row_edge s = ((ps_start s, ps_previous s), (ps_start s + ps_duration s, ps_users s))"

definition row_of_edge :: "rat \<Rightarrow> (int \<times> int) \<times> (int \<times> int) \<Rightarrow> plan_step \<Rightarrow> bool" where
  "row_of_edge mean e s = (row_edge s = e \<and> ps_enter s = snd (snd e) - snd (fst e)
     \<and> ps_integral s = frac_str (area e / mean) \<and> ps_rate_start s = snd (fst e) \<and> ps_rate_end s = snd (snd e))"

definition stage_numbers :: "json \<Rightarrow> (int \<times> int \<times> int) res" where
  "stage_numbers stage = rbind (int_at stage [''users'']) (\<lambda>n. rbind (int_at stage [''rampSeconds'']) (\<lambda>ramp.
     rbind (int_at stage [''holdSeconds'']) (\<lambda>hold. Inr (n, ramp, hold))))"

lemma plan_row_Inr:
  "plan_row mean time kind d a b = Inr s \<Longrightarrow> row_of_edge mean ((time, a), (time + d, b)) s"
  by (auto simp: plan_row_def row_of_edge_def row_edge_def area_def res_simps)

lemma edges_step: "edges (p # q # qs) = (p, q) # edges (q # qs)"
  by (simp add: edges_def)

lemma stage_step_Inr:
  "stage_step mean (time, previous, plan) stage = Inr st \<longleftrightarrow> (\<exists>n ramp hold r k.
     stage_numbers stage = Inr (n, ramp, hold) \<and> plan_row mean time ''ramp'' ramp previous n = Inr r
     \<and> plan_row mean (time + ramp) ''hold'' hold n n = Inr k \<and> st = (time + ramp + hold, n, plan @ [r, k]))"
  by (auto simp: stage_step_def stage_numbers_def res_simps)

lemma fold_stages:
  assumes "fold_res (stage_step mean) (time, previous, plan) stages = Inr (time', last', plan')"
  shows "\<exists>ds new. map_res stage_numbers stages = Inr ds \<and> plan' = plan @ new
     \<and> list_all2 (row_of_edge mean) (edges ((time, previous) # corners time ds)) new"
  using assms
proof (induction stages arbitrary: time previous plan)
  case (Cons stage stages)
  then obtain n ramp hold r k where nums: "stage_numbers stage = Inr (n, ramp, hold)"
    and r: "plan_row mean time ''ramp'' ramp previous n = Inr r"
    and k: "plan_row mean (time + ramp) ''hold'' hold n n = Inr k"
    and rest: "fold_res (stage_step mean) (time + ramp + hold, n, plan @ [r, k]) stages = Inr (time', last', plan')"
    by (auto simp: rbind_Inr_iff stage_step_Inr)
  from Cons.IH [OF rest] obtain ds new where "map_res stage_numbers stages = Inr ds" "plan' = (plan @ [r, k]) @ new"
    "list_all2 (row_of_edge mean) (edges ((time + ramp + hold, n) # corners (time + ramp + hold) ds)) new" by blast
  with nums plan_row_Inr [OF r] plan_row_Inr [OF k] show ?case
    by (intro exI [of _ "(n, ramp, hold) # ds"] exI [of _ "r # k # new"]) (simp add: edges_step)
qed (simp add: edges_def)

lemma fold_stages_total:
  assumes "map_res stage_numbers stages = Inr ds" and "mean \<noteq> 0"
  shows "\<exists>st'. fold_res (stage_step mean) st stages = Inr st'"
  using assms
proof (induction stages arbitrary: st ds)
  case (Cons stage stages)
  then obtain d ds' where d: "stage_numbers stage = Inr d" "map_res stage_numbers stages = Inr ds'" by (auto simp: res_simps)
  have "\<exists>st1. stage_step mean st stage = Inr st1"
  proof -
    obtain time previous plan n ramp hold where "st = (time, previous, plan)" "d = (n, ramp, hold)" by (metis prod_cases3)
    with d(1) Cons.prems(2) show ?thesis by (simp add: stage_step_Inr plan_row_def require_def)
  qed
  then obtain st1 where "stage_step mean st stage = Inr st1" by blast
  with Cons.IH [OF d(2) Cons.prems(2), of st1] show ?case by simp
next
  case Nil
  show ?case by (cases st) auto
qed

section \<open>Plans of validated targets\<close>

lemma int_num_at: "int_at v ks = Inr i \<Longrightarrow> num_at v ks = Inr (PInt i)"
  unfolding int_at_def num_at_def by (auto simp: res_simps elim!: json_to_int.elims)

fun rising :: "int \<Rightarrow> (int \<times> int \<times> int) list \<Rightarrow> bool" where
  "rising p [] = True"
| "rising p ((n, ramp, hold) # ds) = (p < n \<and> 0 < ramp \<and> 0 < hold \<and> rising n ds)"

definition row_ok :: "plan_step \<Rightarrow> bool" where
  "row_ok s = (0 < ps_duration s \<and> 0 \<le> ps_previous s \<and> 0 \<le> ps_enter s \<and> 0 < ps_time_unit s)"

lemma fold_unit_all: "fold_res (\<lambda>_. g) () xs = Inr () \<Longrightarrow> x \<in> set xs \<Longrightarrow> g x = Inr ()"
  by (induction xs) (auto simp: res_simps)

lemma check_stage_rising:
  "fold_res (check_stage t) (PInt p) stages = Inr u \<Longrightarrow> map_res stage_numbers stages = Inr ds \<Longrightarrow> rising p ds"
proof (induction stages arbitrary: p ds)
  case (Cons stage stages)
  then obtain d ds' where d: "stage_numbers stage = Inr d" "map_res stage_numbers stages = Inr ds'" "ds = d # ds'"
    by (auto simp: rbind_Inr_iff)
  obtain n ramp hold where "d = (n, ramp, hold)" by (metis prod_cases3)
  with d have nums: "int_at stage [''users''] = Inr n" "int_at stage [''rampSeconds''] = Inr ramp"
      "int_at stage [''holdSeconds''] = Inr hold"
    and ds: "map_res stage_numbers stages = Inr ds'" "ds = (n, ramp, hold) # ds'"
    by (auto simp: stage_numbers_def rbind_Inr_iff)
  from Cons.prems(1) obtain v where v: "check_stage t (PInt p) stage = Inr v" "fold_res (check_stage t) v stages = Inr u"
    by (auto simp: rbind_Inr_iff)
  from v(1) nums [THEN int_num_at] have "v = PInt n" "p < n" "0 < ramp" "0 < hold"
    by (auto simp: check_stage_def stage_positive_def res_simps num_less_def)
  with Cons.IH [of n ds'] v(2) ds show ?case by simp
qed simp

lemma plan_row_ok:
  "plan_row mean time kind d a b = Inr s \<Longrightarrow> 0 < d \<Longrightarrow> 0 \<le> a \<Longrightarrow> a \<le> b \<Longrightarrow> 1 \<le> mean \<Longrightarrow> row_ok s"
  by (auto simp: plan_row_def row_ok_def res_simps)

lemma fold_rows_ok:
  assumes "fold_res (stage_step mean) (time, p, plan) stages = Inr (time', p', plan')"
    and "map_res stage_numbers stages = Inr ds" and "rising p ds" and "0 \<le> p" and "1 \<le> mean" and "list_all row_ok plan"
  shows "list_all row_ok plan'"
  using assms
proof (induction stages arbitrary: time p plan ds)
  case (Cons stage stages)
  then obtain n ramp hold r k where nums: "stage_numbers stage = Inr (n, ramp, hold)"
    and r: "plan_row mean time ''ramp'' ramp p n = Inr r" and k: "plan_row mean (time + ramp) ''hold'' hold n n = Inr k"
    and rest: "fold_res (stage_step mean) (time + ramp + hold, n, plan @ [r, k]) stages = Inr (time', p', plan')"
    by (auto simp: rbind_Inr_iff stage_step_Inr)
  from Cons.prems(2) nums obtain ds' where ds: "map_res stage_numbers stages = Inr ds'" "ds = (n, ramp, hold) # ds'"
    by (auto simp: rbind_Inr_iff)
  with Cons.prems(3,4) have "p < n" "0 < ramp" "0 < hold" "rising n ds'" "0 \<le> n" by auto
  moreover from this Cons.prems(4,5) have "row_ok r" "row_ok k" using plan_row_ok [OF r] plan_row_ok [OF k] by auto
  ultimately show ?case using Cons.IH [OF rest ds(1)] Cons.prems(5,6) by simp
qed simp

lemma refresh_sum_pos:
  assumes "check_window t ''refreshSeconds'' = Inr u" and "refresh_sum t = Inr tot"
  shows "1 < tot"
proof -
  from assms(1) obtain x y a b where xy: "list_at t [''behavior'', ''refreshSeconds''] = Inr [x, y]"
    "json_to_num x = Inr a" "json_to_num y = Inr b" "num_less (PInt 0) a" "\<not> num_less b a"
    by (auto simp: check_window_def res_simps elim!: unpack2.elims)
  with assms(2) obtain i j where "json_to_int x = Inr i" "json_to_int y = Inr j" "tot = i + j"
    by (auto simp: refresh_sum_def res_simps)
  moreover from this xy have "a = PInt i" "b = PInt j" by (auto elim!: json_to_int.elims split: if_splits)
  ultimately show ?thesis using xy by (simp add: num_less_def)
qed

section \<open>Properties\<close>

text \<open>
  In every block of twenty neighbouring users, whatever the seed, as many browse,
  hold and order as their percentages give in steps of five.
\<close>

theorem user_groups_exact:
  assumes "int_at t [''seed''] = Inr seed" and "num_at t [''behavior'', ''browse''] = Inr (PInt browse)"
    and "num_at t [''behavior'', ''hold''] = Inr (PInt hold)"
    and "0 \<le> browse" and "0 \<le> hold" and "browse + hold \<le> 100"
  shows "card {i \<in> block start. user_group i t = Inr ''browse''} = nat ((browse + 4) div 5)
     \<and> card {i \<in> block start. user_group i t = Inr ''hold''} = nat ((browse + hold + 4) div 5 - (browse + 4) div 5)
     \<and> card {i \<in> block start. user_group i t = Inr ''order''} = nat (20 - (browse + hold + 4) div 5)"
proof -
  note grp = user_group_cases [OF assms(1-3)]
  have "card {i \<in> block start. user_group i t = Inr ''browse''} = card {k \<in> {0..<20}. 0 \<le> k * 5 \<and> k * 5 < browse}"
    unfolding grp by (subst card_residues [symmetric, where c = seed]) (auto simp: Let_def intro!: arg_cong [where f = card])
  moreover have "card {i \<in> block start. user_group i t = Inr ''hold''}
      = card {k \<in> {0..<20}. browse \<le> k * 5 \<and> k * 5 < browse + hold}"
    unfolding grp by (subst card_residues [symmetric, where c = seed]) (auto simp: Let_def intro!: arg_cong [where f = card])
  moreover have "card {i \<in> block start. user_group i t = Inr ''order''}
      = card {k \<in> {0..<20}. browse + hold \<le> k * 5 \<and> k * 5 < 100}"
    unfolding grp by (subst card_residues [symmetric, where c = seed])
      (use assms(5) in \<open>auto simp: Let_def intro!: arg_cong [where f = card]\<close>)
  ultimately show ?thesis
    using card_below [of 0 browse] card_below [of browse "browse + hold"] card_below [of "browse + hold" 100] assms(4-6)
    by simp
qed


text \<open>
  \textbf{C35.} In validated targets the slices of the users lie in the registered users, those
  other than the login pool in the existing sessions, and no two of either kind have an index
  in common.
\<close>

theorem validated_slices_apart:
  assumes "validate_targets t = Inr ()"
  shows "\<exists>slices registered active. dict_at t [''slices''] = Inr slices
     \<and> num_at t [''dataset'', ''registeredUsers''] = Inr registered \<and> num_at t [''dataset'', ''activeAuthSessions''] = Inr active
     \<and> list_all (inside (num_rat registered)) (map (slice_bounds \<circ> snd) slices)
     \<and> list_all (inside (num_rat active)) (map (slice_bounds \<circ> snd) (filter (\<lambda>p. fst p \<noteq> ''login'') slices))
     \<and> distinct (map (slice_bounds \<circ> snd) slices)
     \<and> pairwise (\<lambda>p q. apart (slice_bounds p) (slice_bounds q)) (set (map snd slices))"
proof -
  from assms obtain slices registered active where 1: "dict_at t [''slices''] = Inr slices"
     "num_at t [''dataset'', ''registeredUsers''] = Inr registered" "num_at t [''dataset'', ''activeAuthSessions''] = Inr active"
     "intervals (map snd slices) registered = Inr ()"
     "intervals (map snd (filter (\<lambda>p. fst p \<noteq> ''login'') slices)) active = Inr ()"
    by (auto simp: validate_targets_def check_pools_def res_simps)
  from intervals_Inr [OF 1(4)] have all: "list_all (inside (num_rat registered)) (map (slice_bounds \<circ> snd) slices)"
      "distinct (map (slice_bounds \<circ> snd) slices)"
    and apart: "\<forall>p \<in> set (map snd slices). \<forall>q \<in> set (map snd slices). slice_bounds p = slice_bounds q
      \<or> apart (slice_bounds p) (slice_bounds q)" by auto
  from all(2) have "inj_on slice_bounds (set (map snd slices))"
    by (simp add: distinct_map flip: map_map) 
  with apart have "pairwise (\<lambda>p q. apart (slice_bounds p) (slice_bounds q)) (set (map snd slices))"
    by (auto simp: pairwise_def inj_on_def)
  with 1 all intervals_Inr [OF 1(5)] show ?thesis by (intro exI conjI) (assumption | simp)+
qed

text \<open>
  \textbf{C30.} The rows of an arrival plan are the edges of the population curve of the round's
  stages, in their order, each with the users that enter along it and the area below it over the
  mean refresh interval.
\<close>

theorem online_plan_refines:
  assumes "online_plan t r = Inr plan"
  shows "\<exists>total rounds stages ds. refresh_sum t = Inr total \<and> list_at t [''online'', ''rounds''] = Inr rounds
     \<and> rbind (item rounds r) json_to_list = Inr stages \<and> map_res stage_numbers stages = Inr ds
     \<and> list_all2 (row_of_edge (of_int total / 2)) (edges (curve ds)) plan"
  using assms by (auto simp: online_plan_def res_simps curve_def dest!: fold_stages)

text \<open>
  \textbf{C33.} Validated targets whose stages and refresh intervals are whole numbers have a plan
  for every round, and all its rows are well formed: a positive duration, a population that does
  not fall and a positive time unit.
\<close>

theorem validated_plan_typed:
  assumes "validate_targets t = Inr ()" and "refresh_sum t = Inr tot" and "list_at t [''online'', ''rounds''] = Inr rounds"
    and "r < length rounds" and "json_to_list (rounds ! r) = Inr stages" and "map_res stage_numbers stages = Inr ds"
  shows "\<exists>plan. online_plan t r = Inr plan \<and> list_all row_ok plan"
proof -
  from assms(1) have win: "check_window t ''refreshSeconds'' = Inr ()" and rounds: "check_rounds t = Inr ()"
    by (auto simp: validate_targets_def rbind_Inr_iff)
  from refresh_sum_pos [OF win assms(2)] have mean: "1 \<le> (of_int tot / 2 :: rat)" by simp
  from rounds assms(3) have "fold_res (\<lambda>_ stages. rbind (rbind (json_to_list stages) (fold_res (check_stage t) (PInt 0)))
      (\<lambda>_. Inr ())) () rounds = Inr ()" by (simp add: check_rounds_def)
  from fold_unit_all [OF this nth_mem [OF assms(4)]] assms(5) obtain u where
    "fold_res (check_stage t) (PInt 0) stages = Inr u" by (auto simp: rbind_Inr_iff)
  from check_stage_rising [OF this assms(6)] have rise: "rising 0 ds" .
  obtain st where st: "fold_res (stage_step (of_int tot / 2)) (0, 0, []) stages = Inr st"
    using fold_stages_total [OF assms(6), of "of_int tot / 2" "(0, 0, [])"] mean by auto
  obtain time' p' plan where "st = (time', p', plan)" by (metis prod_cases3)
  with fold_rows_ok [OF st [unfolded this] assms(6) rise _ mean] st assms show ?thesis
    by (auto simp: online_plan_def item_def)
qed

text \<open>A small target file.\<close>

definition mini_targets :: json where
  "mini_targets = JObj [(''version'', JInt 3), (''seed'', JInt 14001),
     (''dataset'', JObj [(''registeredUsers'', JInt 300), (''activeAuthSessions'', JInt 200), (''loginUsers'', JInt 20),
       (''events'', JInt 2), (''sessionsPerEvent'', JInt 3), (''seatsPerSession'', JInt 10)]),
     (''behavior'', JObj [(''browse'', JInt 60), (''hold'', JInt 25), (''order'', JInt 15),
       (''thinkSeconds'', JList [JInt 1, JInt 10]), (''refreshSeconds'', JList [JInt 30, JInt 90])]),
     (''online'', JObj [(''rounds'', JList [JList [JObj [(''users'', JInt 20), (''rampSeconds'', JInt 120),
         (''holdSeconds'', JInt 300)], JObj [(''users'', JInt 40), (''rampSeconds'', JInt 60), (''holdSeconds'', JInt 30)]]])]),
     (''burst'', JObj [(''windowsSeconds'', JList [JInt 60])]),
     (''hotspot'', JObj [(''users'', JInt 20), (''seats'', JInt 2), (''contendersPerSeat'', JInt 10)]),
     (''login'', JObj [(''windowsSeconds'', JList [JInt 60])]),
     (''generator'', JObj [(''scheduler_delivery_guard_seconds'', JInt 1), (''maxShards'', JInt 16)]),
     (''slices'', JObj [(''main'', JList [JInt 0, JInt 100]), (''control'', JList [JInt 100, JInt 200]),
       (''login'', JList [JInt 200, JInt 220])]),
     (''seatSlices'', JObj [(''main'', JList [JInt 0, JInt 40])]),
     (''pageStartup'', JObj [(''stepCounts'', startup_steps), (''requestsPerUser'', JInt 10), (''orderListLimit'', JInt 20)])]"

lemma mini_valid: "validate_targets mini_targets = Inr ()"
  by code_simp

lemma mini_values:
  "int_at mini_targets [''seed''] = Inr 14001" "num_at mini_targets [''behavior'', ''browse''] = Inr (PInt 60)"
  "num_at mini_targets [''behavior'', ''hold''] = Inr (PInt 25)" "int_at mini_targets [''dataset'', ''events''] = Inr 2"
  "int_at mini_targets [''dataset'', ''sessionsPerEvent''] = Inr 3"
  "int_at mini_targets [''dataset'', ''seatsPerSession''] = Inr 10"
  "refresh_sum mini_targets = Inr 120"
  by code_simp+

definition mini_stages :: "json list" where
  "mini_stages = [JObj [(''users'', JInt 20), (''rampSeconds'', JInt 120), (''holdSeconds'', JInt 300)],
     JObj [(''users'', JInt 40), (''rampSeconds'', JInt 60), (''holdSeconds'', JInt 30)]]"

lemma mini_rounds:
  "list_at mini_targets [''online'', ''rounds''] = Inr [JList mini_stages]"
  "map_res stage_numbers mini_stages = Inr [(20, 120, 300), (40, 60, 30)]"
  by code_simp+

theorem user_groups_exact_witness:
  "card {i \<in> block 7. user_group i mini_targets = Inr ''browse''} = 12
     \<and> card {i \<in> block 7. user_group i mini_targets = Inr ''order''} = 3"
  using user_groups_exact [OF mini_values(1-3), of 7] by simp

theorem validated_slices_apart_witness:
  "\<exists>slices. dict_at mini_targets [''slices''] = Inr slices
     \<and> pairwise (\<lambda>p q. apart (slice_bounds p) (slice_bounds q)) (set (map snd slices))"
  using validated_slices_apart [OF mini_valid] by blast

theorem validated_plan_typed_witness:
  "\<exists>plan. online_plan mini_targets 0 = Inr plan \<and> list_all row_ok plan"
  using validated_plan_typed [OF mini_valid mini_values(7) mini_rounds(1) _ _ mini_rounds(2), of 0] by simp

lemma mini_plan:
  "online_plan mini_targets 0 = Inr [
     \<lparr>ps_kind = ''ramp'', ps_start = 0, ps_duration = 120, ps_previous = 0, ps_users = 20, ps_enter = 20,
       ps_integral = ''20'', ps_rate_start = 0, ps_rate_end = 20, ps_time_unit = 60\<rparr>,
     \<lparr>ps_kind = ''hold'', ps_start = 120, ps_duration = 300, ps_previous = 20, ps_users = 20, ps_enter = 0,
       ps_integral = ''100'', ps_rate_start = 20, ps_rate_end = 20, ps_time_unit = 60\<rparr>,
     \<lparr>ps_kind = ''ramp'', ps_start = 420, ps_duration = 60, ps_previous = 20, ps_users = 40, ps_enter = 20,
       ps_integral = ''30'', ps_rate_start = 20, ps_rate_end = 40, ps_time_unit = 60\<rparr>,
     \<lparr>ps_kind = ''hold'', ps_start = 480, ps_duration = 30, ps_previous = 40, ps_users = 40, ps_enter = 0,
       ps_integral = ''20'', ps_rate_start = 40, ps_rate_end = 40, ps_time_unit = 60\<rparr>]"
  by code_simp

theorem online_plan_refines_witness:
  "\<exists>plan. online_plan mini_targets 0 = Inr plan
     \<and> list_all2 (row_of_edge 60) (edges [(0, 0), (120, 20), (420, 20), (480, 40), (510, 40)]) plan"
  using online_plan_refines [OF mini_plan] mini_plan mini_values(7) mini_rounds
  by (auto simp: item_def curve_def)

definition mini_shape :: dataset_shape where
  "mini_shape = \<lparr>sh_registered_users = 300, sh_active_auth_sessions = 200, sh_events = 2, sh_sessions = 6, sh_seats = 10,
     sh_session_seats = 60\<rparr>"

definition mini_params :: gen_params where
  "mini_params = \<lparr>gp_offset_days = 1, gp_spacing_hours = 1, gp_lead_minutes = 1, gp_per_event = 3, gp_per_row = 5,
     gp_zone_names = [], gp_name_clauses = [], gp_price_clauses = []\<rparr>"

lemma mini_seat:
  "seat_for 10 mini_targets None = Inr \<lparr>sr_session = ''perf-session-002-002'', sr_seat = ''perf-ss-002-002-000002''\<rparr>"
  by code_simp


end
