(* ===== verification/Stats_Sampler.thy ===== *)
theory Stats_Sampler
  imports Py_IO
begin

text \<open>
  \<open>performance/scripts/docker_stats_sampler.py\<close>: rows of \<open>docker stats\<close> for the running
  containers of the Performance project, as CSV or JSON lines. The text that waits in the buffer
  of the output file is the local state: a flush appends it to the file, and so does closing the
  file, however the loop ends. The text of a list or an object in a CSV field is the parameter
  \<open>rp\<close> (Python's \<open>str\<close>).
\<close>

section \<open>Containers and samples\<close>

definition stats_fields :: "string list" where
  "stats_fields = [''timestamp'', ''container'', ''cpu_percent'', ''memory_usage'', ''memory_percent'',
     ''network_io'', ''block_io'', ''pids'']"

definition containers_argv :: "string list" where
  "containers_argv = [''docker'', ''ps'', ''--filter'', ''label=com.docker.compose.project=ticketing-phase10a'',
     ''--format'', ''{{.Names}}'']"

definition phase_containers :: "('s, string list) io" where
  "phase_containers =
     bnd (run_proc containers_argv None []) (\<lambda>completed.
     sq (raise_if (p_rc completed \<noteq> 0) RuntimeError (str_or (py_strip (p_err completed)) ''docker ps failed''))
     (let names = filter (\<lambda>n. n \<noteq> []) (map py_strip (splitlines (p_out completed)))
      in sq (raise_if (names = []) RuntimeError ''no running containers found for Compose project ticketing-phase10a'')
        (ret names)))"

definition stats_argv :: "string list \<Rightarrow> string list" where
  "stats_argv names = [''docker'', ''stats'', ''--no-stream'', ''--format'', ''{{json .}}''] @ names"

text \<open>The row of a container: the values of a line of the output, under the names of the fields.\<close>

definition stats_record :: "string \<Rightarrow> json \<Rightarrow> dict res" where
  "stats_record timestamp value =
     rbind (json_get value ''Container'' (JStr [])) (\<lambda>container.
     rbind (json_get value ''Name'' container) (\<lambda>name.
     rbind (map_res (\<lambda>k. json_get value k (JStr [])) [''CPUPerc'', ''MemUsage'', ''MemPerc'', ''NetIO'', ''BlockIO'', ''PIDs''])
       (\<lambda>vs. Inr (zip stats_fields (JStr timestamp # name # vs)))))"

definition stats_sample :: "string list \<Rightarrow> ('s, dict list) io" where
  "stats_sample names =
     bnd (run_proc (stats_argv names) None []) (\<lambda>completed.
     sq (raise_if (p_rc completed \<noteq> 0) RuntimeError (str_or (py_strip (p_err completed)) ''docker stats failed''))
     (bnd wall (\<lambda>now. bnd (asks (\<lambda>w. w_iso w now)) (\<lambda>timestamp.
      bnd (map_io (\<lambda>line. bnd (loads line) (\<lambda>value. of_res (stats_record timestamp value)))
        (filter (\<lambda>line. py_strip line \<noteq> []) (splitlines (p_out completed)))) (\<lambda>records.
      sq (raise_if (length records \<noteq> length names) RuntimeError
        (''docker stats returned '' @ nat_str (length records) @ '' rows for '' @ nat_str (length names) @ '' containers''))
      (ret records))))))"

section \<open>Rows of the output file\<close>

text \<open>A field is quoted when it holds the separator, the quote or a line end; quotes are doubled.\<close>

definition csv_quote :: "string \<Rightarrow> string" where
  "csv_quote s = (if list_ex (\<lambda>c. c \<in> {CHR '','', dquot, nl, cr}) s
     then dquot # concat (map (\<lambda>c. if c = dquot then [dquot, dquot] else [c]) s) @ [dquot] else s)"

fun csv_text :: "(json \<Rightarrow> string) \<Rightarrow> (rat \<Rightarrow> string) \<Rightarrow> json \<Rightarrow> string" where
  "csv_text rp fr JNull = []"
| "csv_text rp fr (JStr s) = s"
| "csv_text rp fr (JInt i) = int_str i"
| "csv_text rp fr (JFloat r) = fr r"
| "csv_text rp fr (JBool b) = (if b then ''True'' else ''False'')"
| "csv_text rp fr v = rp v"

definition csv_row :: "string list \<Rightarrow> string" where
  "csv_row xs = join_with '','' (map csv_quote xs) @ [cr, nl]"

text \<open>\<open>json.dumps(record, ensure_ascii=False)\<close>.\<close>

fun dump_line :: "(rat \<Rightarrow> string) \<Rightarrow> json \<Rightarrow> string" where
  "dump_line fr JNull = ''null''"
| "dump_line fr (JBool b) = (if b then ''true'' else ''false'')"
| "dump_line fr (JInt i) = int_str i"
| "dump_line fr (JFloat r) = fr r"
| "dump_line fr (JStr s) = json_quote s"
| "dump_line fr (JList xs) = ''['' @ join_with '', '' (map (dump_line fr) xs) @ '']''"
| "dump_line fr (JObj d) =
     ''{'' @ join_with '', '' (map (\<lambda>p. json_quote (fst p) @ '': '' @ dump_line fr (snd p)) d) @ ''}''"

definition row_text :: "(json \<Rightarrow> string) \<Rightarrow> (rat \<Rightarrow> string) \<Rightarrow> bool \<Rightarrow> dict \<Rightarrow> string" where
  "row_text rp fr csv r =
     (if csv then csv_row (map (\<lambda>k. csv_text rp fr (dget_or r k (JStr []))) stats_fields)
      else dump_line fr (JObj r) @ [nl])"

section \<open>The sampler\<close>

record sampler_args =
  sa_interval :: rat
  sa_samples :: int
  sa_csv :: bool
  sa_output :: string

definition parent_dir :: "string \<Rightarrow> string" where
  "parent_dir p = (let d = rev (dropWhile (\<lambda>c. c \<noteq> CHR ''/'') (rev p))
     in if d = [] then ''.'' else if d = ''/'' then d else butlast d)"

definition buffer_add :: "string \<Rightarrow> (string, unit) io" where
  "buffer_add t = mod_st (\<lambda>b. b @ t)"

definition flush_to :: "string \<Rightarrow> (string, unit) io" where
  "flush_to path = bnd (get_st (\<lambda>b. b)) (\<lambda>b.
     whenever (b \<noteq> []) (sq (append_text path b) (mod_st (\<lambda>_. []))))"

definition another_sample :: "sampler_args \<Rightarrow> nat \<Rightarrow> bool" where
  "another_sample a k = (sa_samples a = 0 \<or> int k < sa_samples a)"

definition sample_round :: "(json \<Rightarrow> string) \<Rightarrow> sampler_args \<Rightarrow> string list \<Rightarrow> nat \<Rightarrow> (string, nat + nat) io" where
  "sample_round rp a names k =
     (if another_sample a k
      then bnd (stats_sample names) (\<lambda>records.
        bnd (asks w_float_repr) (\<lambda>fr.
        sq (for_io (\<lambda>r. buffer_add (row_text rp fr (sa_csv a) r)) records)
        (sq (flush_to (sa_output a))
        (sq (whenever (another_sample a (Suc k)) (sleep (sa_interval a)))
        (ret (Inl (Suc k)))))))
      else ret (Inr k))"

definition sample_file :: "(json \<Rightarrow> string) \<Rightarrow> sampler_args \<Rightarrow> string list \<Rightarrow> ('s, nat) io" where
  "sample_file rp a names =
     bnd (exists_path (sa_output a)) (\<lambda>there.
     sq (if there then append_text (sa_output a) [] else write_text (sa_output a) [])
     (with_local [] (try_finally
       (sq (whenever (sa_csv a \<and> \<not> there) (buffer_add (csv_row stats_fields)))
         (while_io (sample_round rp a names) 0))
       (flush_to (sa_output a)))))"

definition sampler_work :: "(json \<Rightarrow> string) \<Rightarrow> sampler_args \<Rightarrow> ('s, unit) io" where
  "sampler_work rp a =
     bnd phase_containers (\<lambda>names.
     sq (mkdir (parent_dir (sa_output a)))
     (bnd (sample_file rp a names) (\<lambda>k.
      say (''wrote '' @ nat_str k @ '' sample set(s) for '' @ nat_str (length names) @ '' containers to ''
        @ sa_output a))))"

definition sampler_main :: "(json \<Rightarrow> string) \<Rightarrow> sampler_args \<Rightarrow> ('s, int) io" where
  "sampler_main rp a =
     (if sa_interval a \<le> 0 \<or> sa_samples a < 0
      then sq (say_err ''interval must be positive and samples must be non-negative'') (raise (Exn SystemExit ''2''))
      else try_except (caught_by [OSError, RuntimeError, JSONDecodeError])
        (try_except (caught_by [KeyboardInterrupt]) (sq (sampler_work rp a) (ret 0))
          (\<lambda>e. sq (say ''sampling stopped by user'') (ret 0)))
        (\<lambda>e. sq (say_err (''ERROR: '' @ exn_msg e)) (ret 1)))"

section \<open>The course of a sampling\<close>

text \<open>Samples and sleeps, in their order.\<close>

datatype tick = Sampled | Pause

fun tick_of :: "event \<Rightarrow> tick option" where
  "tick_of (Ran argv i env r) = (if 2 \<le> length argv \<and> argv ! 1 = ''stats'' then Some Sampled else None)"
| "tick_of (Slept d) = Some Pause"
| "tick_of _ = None"

fun ticks :: "nat \<Rightarrow> tick list" where
  "ticks 0 = []"
| "ticks (Suc n) = (if n = 0 then [Sampled] else Sampled # Pause # ticks n)"

lemma halts_loop:
  assumes "\<And>x. halts_on w (f x)" and "\<And>x y w sh sh'. f x w sh = (Ret (Inl y), sh') \<Longrightarrow> m y < (m x :: nat)" and "m x < n"
  shows "halts_on w (loop_io n f x)"
  using assms(3)
proof (induction n arbitrary: x)
  case (Suc n)
  show ?case unfolding halts_on_def
  proof
    fix sh
    obtain r sh1 where r: "f x w sh = (r, sh1)" by (cases "f x w sh")
    show "fst (loop_io (Suc n) f x w sh) \<noteq> Diverged"
    proof (cases r)
      case Diverged
      with r halts_onD [OF assms(1)] show ?thesis by blast
    next
      case (Raised e)
      with r show ?thesis by (simp add: bnd_def)
    next
      case (Ret v)
      show ?thesis
      proof (cases v)
        case (Inl y)
        with r Ret assms(2) have "m y < m x" by blast
        with Suc.prems have "halts_on w (loop_io n f y)" by (intro Suc.IH) simp
        with r Ret Inl show ?thesis by (cases sh1) (simp add: bnd_def halts_on_def)
      qed (use r Ret in \<open>simp add: bnd_def ret_def\<close>)
    qed
  qed
qed simp

lemma sample_yields: "yields tick_of w [Sampled] (stats_sample names)"
proof -
  have rest: "emits (\<lambda>e. tick_of e = None) (map_io (\<lambda>line. bnd (loads line) (\<lambda>v. of_res (stats_record ts v))) xs)" for ts xs
    by (intro emits_intros)
  have run: "yields tick_of w [Sampled] (run_proc (stats_argv names) None [])"
    by (auto simp: yields_def run_proc_def run_simps stats_argv_def List.map_filter_simps split: sum.splits)
  have "yields tick_of w ([Sampled] @ []) (stats_sample names)"
    unfolding stats_sample_def
    by (intro yields_bnd run yields_quiet emits_sq emits_bnd emits_raise_if emits_ret emits_state emits_wall rest) simp
  then show ?thesis by simp
qed

lemma buffer_quiet: "emits ok (buffer_add t)"
  unfolding buffer_add_def by (rule emits_state)

lemma flush_quiet: "(\<And>t r. ok (FileAppended p t r)) \<Longrightarrow> emits ok (flush_to p)"
  unfolding flush_to_def by (intro emits_intros)

lemma round_yields:
  "yields tick_of w (if another_sample a k then Sampled # (if another_sample a (Suc k) then [Pause] else []) else [])
     (sample_round rp a names k)"
proof (cases "another_sample a k")
  case True
  have pause: "yields tick_of w (if another_sample a (Suc k) then [Pause] else [])
      (whenever (another_sample a (Suc k)) (sleep (sa_interval a)))"
    by (simp add: yields_def whenever_def sleep_def eff_def ret_def List.map_filter_simps)
  have "yields tick_of w ([Sampled] @ [] @ [] @ [] @ (if another_sample a (Suc k) then [Pause] else []) @ [])
      (sample_round rp a names k)"
    unfolding sample_round_def using True
    by (simp only: if_True) (intro yields_bnd yields_sq sample_yields pause
      yields_quiet [OF emits_state(3)] yields_quiet [OF emits_ret] yields_quiet [OF emits_for_io] yields_quiet [OF flush_quiet]
      buffer_quiet; simp)
  with True show ?thesis by simp
qed (simp add: sample_round_def yields_quiet [OF emits_ret])

lemma whenever_RetE: "whenever b m w sh = (Ret u, sh') \<Longrightarrow> u = ()"
  by simp

lemma round_ret:
  assumes "sample_round rp a names k w sh = (Ret y, sh')"
  shows "y = (if another_sample a k then Inl (Suc k) else Inr k)"
  using assms by (auto simp: sample_round_def sq_def ret_def elim!: bnd_RetE split: if_splits)

lemma loop_yields:
  assumes "0 < sa_samples a" and "k \<le> nat (sa_samples a)"
  shows "yields tick_of w (ticks (nat (sa_samples a) - k)) (loop_io n (sample_round rp a names) k)"
  using assms(2)
proof (induction n arbitrary: k)
  case (Suc n)
  let ?left = "nat (sa_samples a) - k"
  show ?case
  proof (cases "another_sample a k")
    case True
    then have k: "k < nat (sa_samples a)" using assms(1) by (simp add: another_sample_def)
    have more: "another_sample a (Suc k) \<longleftrightarrow> Suc k < nat (sa_samples a)" using assms(1) by (auto simp: another_sample_def)
    from k obtain j where j: "?left = Suc j" "nat (sa_samples a) - Suc k = j" by (metis Suc_diff_Suc)
    have "yields tick_of w ((Sampled # (if another_sample a (Suc k) then [Pause] else [])) @ ticks j)
        (loop_io (Suc n) (sample_round rp a names) k)"
      unfolding loop_io.simps
    proof (rule yields_bnd_ret)
      show "yields tick_of w (Sampled # (if another_sample a (Suc k) then [Pause] else [])) (sample_round rp a names k)"
        using round_yields [of w a k rp names] True by simp
      fix y assume "may_ret (sample_round rp a names k) w y"
      then have "y = Inl (Suc k)" using True by (auto simp: may_ret_def dest!: round_ret)
      then show "yields tick_of w (ticks j) (case y of Inl x' \<Rightarrow> loop_io n (sample_round rp a names) x' | Inr r \<Rightarrow> ret r)"
        using Suc.IH [of "Suc k"] k j by simp
    qed
    moreover have "ticks (Suc j) = (Sampled # (if another_sample a (Suc k) then [Pause] else [])) @ ticks j"
      using more j by (cases j) auto
    ultimately show ?thesis by (simp only: j)
  next
    case False
    then have "?left = 0" by (auto simp: another_sample_def)
    moreover have "yields tick_of w ([] @ []) (loop_io (Suc n) (sample_round rp a names) k)"
      unfolding loop_io.simps
    proof (rule yields_bnd_ret)
      show "yields tick_of w [] (sample_round rp a names k)" using round_yields [of w a k rp names] False by simp
      fix y assume "may_ret (sample_round rp a names k) w y"
      then have "y = Inr k" using False by (auto simp: may_ret_def dest!: round_ret)
      then show "yields tick_of w [] (case y of Inl x' \<Rightarrow> loop_io n (sample_round rp a names) x' | Inr r \<Rightarrow> ret r)"
        by (simp add: yields_quiet [OF emits_ret])
    qed
    ultimately show ?thesis by simp
  qed
qed (simp add: yields_def diverge_def)

lemma yields_local: "yields f w xs m \<Longrightarrow> yields f w xs (with_local t m)"
  unfolding yields_def with_local_def by (auto split: prod.splits)

lemma work_yields:
  assumes "0 < sa_samples a"
  shows "yields tick_of w (ticks (nat (sa_samples a))) (sampler_work rp a)"
proof -
  have loop: "yields tick_of w (ticks (nat (sa_samples a))) (while_io (sample_round rp a names) 0)" for names
    using loop_yields [OF assms, of 0 w _ rp names] by (simp add: yields_def while_io_def)
  have "yields tick_of w ([] @ [] @ ([] @ ticks (nat (sa_samples a))) @ []) (sampler_work rp a)" if "xs = []" for xs :: "tick list"
  proof -
    have names: "emits (\<lambda>e. tick_of e = None) phase_containers"
      unfolding phase_containers_def Let_def by (intro emits_intros) (simp add: containers_argv_def)
    have fl: "yields tick_of w ([] @ [] @ ([] @ ticks (nat (sa_samples a)))) (sample_file rp a names)" for names
      unfolding sample_file_def
      by (intro yields_bnd yields_sq yields_local yields_finally loop
          yields_quiet [OF emits_exists_path] yields_quiet [OF emits_if] yields_quiet [OF emits_whenever] buffer_quiet flush_quiet
          emits_append_text emits_write_text) simp_all
    show ?thesis
      unfolding sampler_work_def
      by (intro yields_bnd yields_sq yields_quiet [OF names] yields_quiet [OF emits_mkdir] yields_quiet [OF emits_say])
        (use fl in simp_all)
  qed
  then show ?thesis by simp
qed

lemma main_halts:
  assumes "0 < sa_samples a" and "nat (sa_samples a) < w_fuel w"
  shows "halts_on w (sampler_main rp a)"
proof -
  have round: "halts_on w (sample_round rp a names k)" for names k
    unfolding sample_round_def stats_sample_def buffer_add_def flush_to_def by (intro halts_intros)
  have "halts_on w (loop_io (w_fuel w) (sample_round rp a names) 0)" for names
  proof (rule halts_loop [OF round, where m = "\<lambda>k. nat (sa_samples a) - k"])
    show "nat (sa_samples a) - y < nat (sa_samples a) - x"
      if "sample_round rp a names x w' sh = (Ret (Inl y), sh')" for x y w' sh sh'
      using round_ret [OF that] assms(1) by (auto simp: another_sample_def split: if_splits)
    show "nat (sa_samples a) - 0 < w_fuel w" using assms(2) by simp
  qed
  then have loop: "halts_on w (while_io (sample_round rp a names) 0)" for names
    by (simp add: halts_on_def while_io_def)
  show ?thesis
    unfolding sampler_main_def sampler_work_def sample_file_def phase_containers_def Let_def buffer_add_def flush_to_def
    by (intro halts_intros loop)
qed

section \<open>Properties\<close>

text \<open>
  With a positive number of samples the sampler ends, and when its work returns it
  has taken that many samples with one pause between any two.
\<close>

theorem sampler_ends:
  assumes "0 < sa_samples a" and "nat (sa_samples a) < w_fuel w"
  shows "halts_on w (sampler_main rp a) \<and> yields tick_of w (ticks (nat (sa_samples a))) (sampler_work rp a)"
  using main_halts [OF assms] work_yields [OF assms(1)] by blast

text \<open>Two samples of one container.\<close>

definition sampler_world :: world where
  "sampler_world = quiet_world\<lparr>w_run := \<lambda>h argv i. Inr \<lparr>p_rc = 0, p_out = ''c1'', p_err = []\<rparr>\<rparr>"

definition two_samples :: sampler_args where
  "two_samples = \<lparr>sa_interval = 5, sa_samples = 2, sa_csv = True, sa_output = ''out/stats.csv''\<rparr>"

lemma two_samples_taken: "\<exists>t. sampler_work (\<lambda>_. []) two_samples sampler_world ((), []) = (Ret (), (), t)"
proof -
  let ?r = "sampler_work (\<lambda>_. []) two_samples sampler_world ((), [])"
  have "fst ?r = Ret ()" by code_simp
  then show ?thesis by (metis prod.collapse old.unit.exhaust)
qed

theorem sampler_ends_witness:
  "\<exists>t. sampler_work (\<lambda>_. []) two_samples sampler_world ((), []) = (Ret (), (), t)
     \<and> List.map_filter tick_of t = [Sampled, Pause, Sampled]"
proof -
  have "0 < sa_samples two_samples" "nat (sa_samples two_samples) < w_fuel sampler_world"
    by (simp_all add: two_samples_def sampler_world_def quiet_world_def)
  then have "halts_on sampler_world (sampler_main (\<lambda>_. []) two_samples :: (unit, int) io)
     \<and> yields tick_of sampler_world (ticks (nat (sa_samples two_samples))) (sampler_work (\<lambda>_. []) two_samples :: (unit, unit) io)"
    by (rule sampler_ends)
  then have "yields tick_of sampler_world (ticks 2) (sampler_work (\<lambda>_. []) two_samples :: (unit, unit) io)"
    by (simp add: two_samples_def)
  moreover obtain t where t: "sampler_work (\<lambda>_. []) two_samples sampler_world ((), []) = (Ret (), (), t)"
    using two_samples_taken by blast
  ultimately have "List.map_filter tick_of t = ticks 2" by (auto dest: yieldsD)
  with t show ?thesis by (simp add: numeral_2_eq_2)
qed

end
