(* ===== verification/Seat_Diagnosis.thy ===== *)
theory Seat_Diagnosis
  imports Evidence "HOL-Library.Product_Lexorder"
begin

text \<open>
  \<open>performance/scripts/diagnose_seat_map.py\<close>: one bounded, isolated measurement of the seat map.
  A metric value is a finite float; the only infinite bound of a histogram is \<open>+Inf\<close>.
\<close>

section \<open>Clients and metrics\<close>

definition client_field :: "string \<Rightarrow> (string \<times> json) list" where
  "client_field part = (case split_max 1 CHR ''='' part of [k, v] \<Rightarrow> [(k, JStr v)] | _ \<Rightarrow> [])"

definition parse_clients :: "string \<Rightarrow> dict list" where
  "parse_clients raw =
     map (\<lambda>line. foldl (\<lambda>d (k, v). dset d k v) [] (concat (map client_field (py_words line))))
       (filter (\<lambda>line. py_strip line \<noteq> []) (splitlines raw))"

type_synonym metric_values = "(string \<times> rat) list"

text \<open>\<open>line.rsplit(" ", 1)\<close>.\<close>

definition rsplit_blank :: "string \<Rightarrow> (string \<times> string) option" where
  "rsplit_blank s = map_option (\<lambda>(a, b). (rev b, rev a)) (split_once '' '' (rev s))"

definition float_of :: "string \<Rightarrow> rat res" where
  "float_of s = (case py_float s of Some r \<Rightarrow> Inr r
     | None \<Rightarrow> Inl (Exn ValueError (''could not convert string to float: '' @ s)))"

definition add_metric :: "metric_values \<Rightarrow> string \<Rightarrow> metric_values res" where
  "add_metric d line =
     (if startswith line ''ticketing_''
      then (case rsplit_blank line of
          None \<Rightarrow> Inl (Exn ValueError ''not enough values to unpack'')
        | Some (key, value) \<Rightarrow> rbind (float_of value) (\<lambda>r. Inr (dset d key r)))
      else Inr d)"

text \<open>The body of a response with a success status; urllib raises for the others.\<close>

definition open_url :: "string \<Rightarrow> (string \<times> string) list \<Rightarrow> rat \<Rightarrow> ('s, int \<times> string) io" where
  "open_url url headers timeout =
     bnd (send \<lparr>hr_method = ''GET'', hr_url = url, hr_headers = headers, hr_body = None, hr_timeout = timeout\<rparr>) (\<lambda>r.
     case r of
       Response code body \<Rightarrow> ret (code, body)
     | HttpError code body \<Rightarrow> raise (Exn URLError (''HTTP Error '' @ int_str code)))"

definition read_metrics :: "('s, metric_values) io" where
  "read_metrics = bnd (open_url (backend_url @ ''/metrics'') [] 5) (\<lambda>(code, raw).
     of_res (fold_res add_metric [] (splitlines raw)))"

section \<open>Quantiles of a histogram\<close>

datatype bound = Finite rat | Unbounded

instantiation bound :: linorder
begin

fun less_eq_bound :: "bound \<Rightarrow> bound \<Rightarrow> bool" where
  "less_eq_bound (Finite x) (Finite y) = (x \<le> y)"
| "less_eq_bound Unbounded (Finite y) = False"
| "less_eq_bound x Unbounded = True"

definition less_bound :: "bound \<Rightarrow> bound \<Rightarrow> bool" where
  "less_bound x y = (x \<le> y \<and> \<not> y \<le> (x :: bound))"

instance
proof
  fix x y z :: bound
  show "x < y \<longleftrightarrow> x \<le> y \<and> \<not> y \<le> x" by (rule less_bound_def)
  show "x \<le> x" by (cases x) simp_all
  show "x \<le> y \<Longrightarrow> y \<le> z \<Longrightarrow> x \<le> z" by (cases x; cases y; cases z) simp_all
  show "x \<le> y \<Longrightarrow> y \<le> x \<Longrightarrow> x = y" by (cases x; cases y) simp_all
  show "x \<le> y \<or> y \<le> x" by (cases x; cases y) auto
qed

end

fun bound_value :: "bound \<Rightarrow> rat" where
  "bound_value (Finite x) = x"
| "bound_value Unbounded = 0"

definition interpolate :: "rat \<Rightarrow> rat \<Rightarrow> rat \<Rightarrow> rat \<Rightarrow> rat \<Rightarrow> rat res" where
  "interpolate target lower previous upper n =
     (let d = fl64 (n - previous) in
      if d = 0 then Inl (Exn ZeroDivisionError ''float division by zero'')
      else Inr (fl64 (lower + fl64 (fl64 (fl64 (upper - lower) * fl64 (target - previous)) / d))))"

fun quantile_from :: "rat \<Rightarrow> rat \<Rightarrow> rat \<Rightarrow> (bound \<times> rat) list \<Rightarrow> rat option res" where
  "quantile_from target lower previous [] = Inr None"
| "quantile_from target lower previous ((upper, n) # buckets) =
     (if target \<le> n
      then (case upper of
          Unbounded \<Rightarrow> Inr None
        | Finite u \<Rightarrow> rbind (interpolate target lower previous u n) (\<lambda>v. Inr (Some v)))
      else quantile_from target (bound_value upper) n buckets)"

definition quantile :: "(bound \<times> rat) list \<Rightarrow> rat \<Rightarrow> rat option res" where
  "quantile buckets fraction =
     (let bs = sort buckets; total = (if bs = [] then 0 else snd (last bs)) in
      if total = 0 then Inr None else quantile_from (fl64 (total * fraction)) 0 0 bs)"

section \<open>Stages\<close>

definition stage_metric :: string where
  "stage_metric = ''ticketing_seat_map_stage_duration_seconds''"

text \<open>\<open>re.findall(r'(\w+)="([^"]*)"', key)\<close>, reading at most as many characters as there are.\<close>

fun label_pairs :: "nat \<Rightarrow> string \<Rightarrow> (string \<times> string) list" where
  "label_pairs 0 s = []"
| "label_pairs (Suc n) s = (case s of
      [] \<Rightarrow> []
    | c # cs \<Rightarrow>
        let name = takeWhile word_char s; after = dropWhile word_char s;
            value = takeWhile (\<lambda>d. d \<noteq> dquot) (drop 2 after); rest = dropWhile (\<lambda>d. d \<noteq> dquot) (drop 2 after) in
        if name \<noteq> [] \<and> startswith after [CHR ''='', dquot] \<and> rest \<noteq> []
        then (name, value) # label_pairs n (tl rest) else label_pairs n cs)"

definition labels_of :: "string \<Rightarrow> (string \<times> string) list" where
  "labels_of key = foldl (\<lambda>d (k, v). dset d k v) [] (label_pairs (length key) key)"

definition bound_of :: "string \<Rightarrow> bound res" where
  "bound_of s = (if py_lower (py_strip s) \<in> {''inf'', ''+inf'', ''infinity'', ''+infinity''} then Inr Unbounded
     else rbind (float_of s) (\<lambda>r. Inr (Finite r)))"

definition add_bucket ::
    "metric_values \<Rightarrow> (string \<times> (bound \<times> rat) list) list \<Rightarrow> string \<times> rat \<Rightarrow> (string \<times> (bound \<times> rat) list) list res" where
  "add_bucket before grouped kv = (case kv of (key, value) \<Rightarrow>
     if \<not> startswith key (stage_metric @ ''_bucket{'') then Inr grouped
     else let labels = labels_of key; delta = fl64 (value - dget_or before key 0) in
       rbind (require (0 \<le> delta) RuntimeError ''metrics reset during measurement'') (\<lambda>_.
       rbind (dindex labels ''stage'') (\<lambda>stage. rbind (dindex labels ''le'') (\<lambda>le. rbind (bound_of le) (\<lambda>b.
       Inr (dset grouped stage (dget_or grouped stage [] @ [(b, delta)])))))))"

definition opt_float :: "rat option \<Rightarrow> json" where
  "opt_float x = (case x of None \<Rightarrow> JNull | Some r \<Rightarrow> JFloat r)"

definition stage_row :: "string \<times> (bound \<times> rat) list \<Rightarrow> (string \<times> json) res" where
  "stage_row g = (case g of (stage, buckets) \<Rightarrow>
     rbind (map_res (\<lambda>(name, fraction). rbind (quantile buckets fraction) (\<lambda>q. Inr (name, opt_float q)))
       [(''p50Seconds'', fl64 (1/2)), (''p95Seconds'', fl64 (95/100)), (''p99Seconds'', fl64 (99/100))]) (\<lambda>qs.
     Inr (stage, JObj ((''samples'', JFloat (Max (set (map snd buckets)))) # qs))))"

definition stage_summary :: "metric_values \<Rightarrow> metric_values \<Rightarrow> dict res" where
  "stage_summary before after = rbind (fold_res (add_bucket before) [] after) (map_res stage_row)"

section \<open>Resources of a run and the compression probe\<close>

definition hex_token :: "string \<Rightarrow> bool" where
  "hex_token s = (length s = 8 \<and> list_all (\<lambda>c. is_digit c \<or> char_between CHR ''a'' CHR ''f'' c) s)"

definition resource_queries :: "string \<Rightarrow> (string \<times> string) list" where
  "resource_queries name =
     (let sel = ''{container_label_com_docker_compose_project='' @ [dquot] @ ''ticketing-phase10a'' @ [dquot]
        @ '',name='' @ [dquot] @ name @ [dquot] @ ''}'' in
      [(''cpuCores30s'', ''rate(container_cpu_usage_seconds_total'' @ sel @ ''[30s])''),
       (''workingSetBytes'', ''container_memory_working_set_bytes'' @ sel),
       (''networkTransmitBytesPerSecond30s'', ''rate(container_network_transmit_bytes_total'' @ sel @ ''[30s])'')])"

definition service_resources :: "rat \<Rightarrow> rat \<Rightarrow> string \<times> string \<Rightarrow> ('s, string \<times> json) io" where
  "service_resources start end_time sn = (case sn of (service, name) \<Rightarrow>
     bnd (map_io (\<lambda>(key, q). bnd (query_range q start end_time ''5s'') (\<lambda>payload. ret (key, payload)))
       (resource_queries name)) (\<lambda>captured. ret (service, JObj captured)))"

definition collect_run_resources :: "string \<Rightarrow> string \<Rightarrow> rat \<Rightarrow> rat \<Rightarrow> ('s, unit) io" where
  "collect_run_resources dir run_dir start end_time =
     bnd (read_json (run_dir @ ''/run-manifest.json'')) (\<lambda>manifest.
     bnd (of_res (rbind (json_index manifest ''shortRunToken'') json_to_str)) (\<lambda>token.
     sq (raise_if (\<not> hex_token token) ValueError ''invalid k6 container token'')
     (bnd (map_io (service_resources start end_time) [(''backend'', ''ticketing-phase10a-backend-1''),
       (''redis'', ''ticketing-phase10a-redis-1''), (''k6'', ''ticketing-phase10a-k6-'' @ token)]) (\<lambda>captured.
      write_json_text (dir @ ''/scoped-resources.json'') (JObj captured)))))"

record probe_answer =
  pa_info :: dict
  pa_encoding :: "string option"
  pa_body :: string

definition probe_encoding :: "string \<Rightarrow> string \<Rightarrow> string \<Rightarrow> ('s, probe_answer) io" where
  "probe_encoding session_id endpoint encoding =
     bnd (open_url (backend_url @ ''/sessions/'' @ session_id @ ''/'' @ endpoint) [(''Accept-Encoding'', encoding)] 15)
       (\<lambda>(code, body).
     bnd (header ''Content-Encoding'') (\<lambda>coding. bnd (header ''Content-Length'') (\<lambda>size.
     bnd (header ''Transfer-Encoding'') (\<lambda>transfer.
     bnd (if coding = Some ''gzip'' then gunzip body else ret body) (\<lambda>plain.
     ret \<lparr>pa_info = [(''status'', JInt code), (''contentEncoding'', json_opt_str coding),
           (''contentLength'', json_opt_str size), (''transferEncoding'', json_opt_str transfer),
           (''receivedBodyBytes'', JInt (int (length body)))],
         pa_encoding = coding, pa_body = plain\<rparr>)))))"

definition gzip_probe :: "string \<Rightarrow> string \<Rightarrow> ('s, dict) io" where
  "gzip_probe session_id endpoint =
     bnd (probe_encoding session_id endpoint ''identity'') (\<lambda>identity.
     bnd (probe_encoding session_id endpoint ''gzip'') (\<lambda>zipped.
     sq (raise_if (pa_encoding zipped \<noteq> Some ''gzip'') RuntimeError ''gzip contract did not negotiate gzip'')
     (sq (raise_if (pa_body identity \<noteq> pa_body zipped) RuntimeError ''identity/gzip response bodies differ'')
     (bnd (loads (pa_body identity)) (\<lambda>payload.
      bnd (of_res (if endpoint = ''seats'' then Inr payload else json_get payload ''seats'' JNull)) (\<lambda>seats.
      case seats of
        JList (x # xs) \<Rightarrow> ret [(''identity'', JObj (pa_info identity)), (''gzip'', JObj (pa_info zipped)),
          (''rawBodyBytes'', JInt (int (length (pa_body identity)))), (''seatCount'', JInt (int (length (x # xs)))),
          (''endpoint'', JStr endpoint), (''bodyEquality'', JBool True)]
      | _ \<Rightarrow> raise (Exn RuntimeError ''invalid Seat Map contract'')))))))"

section \<open>Samples\<close>

definition metric_or_null :: "metric_values \<Rightarrow> string \<Rightarrow> json" where
  "metric_or_null d k = opt_float (dget d k)"

definition seat_responses :: "metric_values \<Rightarrow> json" where
  "seat_responses values = num_json (num_sum (map (\<lambda>p. PFloat (snd p)) (filter (\<lambda>p.
     startswith (fst p) ''ticketing_http_requests_total{''
     \<and> contains (fst p) (''route='' @ [dquot] @ ''/sessions/{sessionId}/seats'' @ [dquot])) values)))"

definition diag_sample :: "('s, dict) io" where
  "diag_sample =
     bnd wall (\<lambda>started.
     bnd read_metrics (\<lambda>values.
     bnd (ev_compose [''exec'', ''-T'', ''redis'', ''sh'', ''-c'',
       ''redis-cli --raw CLIENT LIST; redis-cli --raw INFO memory'']) (\<lambda>raw.
     bnd (of_res (case split_once ''# Memory'' raw of Some ab \<Rightarrow> Inr ab
       | None \<Rightarrow> Inl (Exn ValueError ''not enough values to unpack''))) (\<lambda>(clients_raw, memory_raw).
     bnd (ev_compose [''exec'', ''-T'', ''backend'', ''sh'', ''-c'',
       ''cat /proc/1/status; cat /sys/fs/cgroup/memory.current; cat /sys/fs/cgroup/memory.stat'']) (\<lambda>backend.
     bnd wall (\<lambda>ended.
     bnd (ev_psql ''SELECT count(*) FROM pg_stat_activity WHERE datname='ticketing';'') (\<lambda>connections.
     bnd (of_res (py_int (py_strip connections))) (\<lambda>n.
     ret [(''epoch'', JFloat started), (''sampleEndEpoch'', JFloat ended),
       (''seatMapCompute'', JObj (map (\<lambda>(k, v). (k, JFloat v)) (filter (\<lambda>p. startswith (fst p) ''ticketing_seat_map_compute_'') values))),
       (''seatMapInFlight'', metric_or_null values ''ticketing_seat_map_requests_in_flight''),
       (''httpInFlight'', metric_or_null values ''ticketing_http_requests_in_flight''),
       (''seatResponses'', seat_responses values), (''clients'', JList (map JObj (parse_clients clients_raw))),
       (''redisMemory'', JObj (parse_redis_info memory_raw)), (''backendProcessAndCgroup'', JStr backend),
       (''postgresConnections'', JInt n)]))))))))"

section \<open>The measurement\<close>

record diag_args =
  da_seats :: int
  da_rate :: int
  da_duration :: int
  da_drain :: int
  da_prepare :: bool

definition script_command :: "string list \<Rightarrow> bool \<Rightarrow> ('s, unit) io" where
  "script_command arguments check = bnd (run_command arguments check) (\<lambda>result. say (p_out result))"

definition generator_argv :: "string \<Rightarrow> string \<Rightarrow> string \<Rightarrow> string list" where
  "generator_argv python rt path = [python, rt @ ''/performance/data/generate_dataset.py'', ''--profile'', path]"

definition verifier_command :: "string \<Rightarrow> string \<Rightarrow> string list" where
  "verifier_command python rt = [python, rt @ ''/performance/verification/verify_database.py'']"

definition prepare_profile :: "int \<Rightarrow> string \<Rightarrow> ('s, unit) io" where
  "prepare_profile seats dir =
     bnd (asks w_root) (\<lambda>rt. bnd (asks w_python) (\<lambda>python.
     bnd (read_json (rt @ ''/performance/data/profiles/scale-100k.json'')) (\<lambda>profile.
     bnd (of_res (rbind (json_put profile ''name'' (JStr (''seat-map-'' @ int_str seats))) (\<lambda>p.
       json_put_at p [''seatLayout'', ''seatsPerRow''] (JInt (seats div 10))))) (\<lambda>named.
     sq (write_json_text (dir @ ''/profile.json'') named)
     (sq (for_io (\<lambda>arguments. script_command arguments True)
        [generator_argv python rt (dir @ ''/profile.json''), verifier_command python rt])
     (bnd clear_auth_cache (\<lambda>_. bnd clear_seat_holds (\<lambda>_. ret ()))))))))"

definition diag_runner_argv :: "string \<Rightarrow> string \<Rightarrow> diag_args \<Rightarrow> string list" where
  "diag_runner_argv python rt a = [python, rt @ ''/performance/scripts/run_k6.py'', ''seat-map-read'', ''--mode'', ''steady'',
     ''--rate'', int_str (da_rate a), ''--duration'', int_str (da_duration a) @ ''s'', ''--preallocated-vus'', ''700'',
     ''--seat-hold-density'', ''0'']"

text \<open>One round of the loop: a sample is appended; after the runner has finished, the drain.\<close>

definition observe_round :: "diag_args \<Rightarrow> string \<Rightarrow> rat option \<Rightarrow> ('s, rat option + rat \<times> int) io" where
  "observe_round a path finished =
     bnd (try_except is_exception diag_sample
       (\<lambda>e. bnd wall (\<lambda>now. ret [(''epoch'', JFloat now), (''samplingError'', JStr (exn_msg e))]))) (\<lambda>current.
     bnd (asks w_float_repr) (\<lambda>fr.
     sq (append_text path (dump_text '', '' '': '' fr (JObj current) @ [nl]))
     (bnd poll (\<lambda>code.
      case code of
        None \<Rightarrow> sq (sleep 1) (ret (Inl finished))
      | Some c \<Rightarrow>
          bnd (case finished of
              Some t \<Rightarrow> ret t
            | None \<Rightarrow> bnd wall (\<lambda>now. sq (say (''Arrival runner finished; observing '' @ int_str (da_drain a)
                @ ''s without restart'')) (ret now))) (\<lambda>done_at.
          bnd wall (\<lambda>now.
          if of_int (da_drain a) \<le> fl64 (now - done_at) then ret (Inr (done_at, c))
          else sq (sleep 1) (ret (Inl (Some done_at)))))))))"

definition run_and_observe :: "diag_args \<Rightarrow> string \<Rightarrow> ('s, rat \<times> int) io" where
  "run_and_observe a dir =
     bnd (asks w_root) (\<lambda>rt. bnd (asks w_python) (\<lambda>python.
     sq (write_text (dir @ ''/runner.log'') [])
     (sq (spawn (diag_runner_argv python rt a))
     (sq (write_text (dir @ ''/samples.jsonl'') [])
     (while_io (observe_round a (dir @ ''/samples.jsonl'')) None)))))"

definition check_target :: "diag_args \<Rightarrow> string \<Rightarrow> ('s, unit) io" where
  "check_target a dir =
     bnd (asks w_root) (\<lambda>rt.
     bnd (read_json (rt @ ''/performance/generated/dataset.json'')) (\<lambda>dataset.
     bnd (of_res (rbind (json_index dataset ''seatMapSessionId'') json_to_str)) (\<lambda>session_id.
     bnd (gzip_probe session_id ''seats'') (\<lambda>probe.
     sq (write_json_text (dir @ ''/gzip.json'') (JObj probe))
     (raise_if (dget probe ''seatCount'' \<noteq> Some (JInt (da_seats a))) RuntimeError
       ''actual Seat Map count does not match experiment'')))))"

definition check_idle :: "string \<Rightarrow> ('s, unit) io" where
  "check_idle dir =
     bnd diag_sample (\<lambda>baseline.
     sq (raise_if (\<not> py_eq (dget_or baseline ''httpInFlight'' JNull) (JInt 0)) RuntimeError
       ''existing in-flight requests; refusing additional load'')
     (write_json_text (dir @ ''/baseline.json'') (JObj baseline)))"

definition metrics_json :: "metric_values \<Rightarrow> json" where
  "metrics_json values = JObj (map (\<lambda>(k, v). (k, JFloat v)) values)"

definition save_metrics :: "string \<Rightarrow> ('s, metric_values) io" where
  "save_metrics path = bnd read_metrics (\<lambda>values. sq (write_json_text path (metrics_json values)) (ret values))"

definition result_paths :: "string \<Rightarrow> ('s, string list) io" where
  "result_paths results = bnd (list_dir results) (\<lambda>names. ret (map (\<lambda>n. results @ ''/'' @ n) names))"

definition collect_created :: "string \<Rightarrow> string list \<Rightarrow> rat \<Rightarrow> ('s, unit) io" where
  "collect_created dir created start = for_io (\<lambda>path.
     bnd (exists_path (path @ ''/run-manifest.json'')) (\<lambda>there.
     whenever there (bnd wall (\<lambda>now. collect_run_resources dir path start now)))) created"

definition args_json :: "diag_args \<Rightarrow> json" where
  "args_json a = JObj [(''seats'', JInt (da_seats a)), (''rate'', JInt (da_rate a)), (''duration'', JInt (da_duration a)),
     (''drain_seconds'', JInt (da_drain a)), (''prepare'', JBool (da_prepare a))]"

definition write_diag_manifest ::
    "diag_args \<Rightarrow> string \<Rightarrow> rat \<Rightarrow> rat \<times> int \<Rightarrow> string list \<Rightarrow> int \<Rightarrow> metric_values \<Rightarrow> ('s, unit) io" where
  "write_diag_manifest a dir start run created verifier_code after =
     bnd wall (\<lambda>ended.
     bnd (run_command [''git'', ''rev-parse'', ''HEAD''] True) (\<lambda>git_head.
     bnd (run_command [''git'', ''status'', ''--porcelain''] True) (\<lambda>git_status.
     write_json_text (dir @ ''/manifest.json'') (JObj [(''arguments'', args_json a), (''startEpoch'', JFloat start),
       (''runnerFinishedEpoch'', JFloat (fst run)), (''endEpoch'', JFloat ended), (''runnerExit'', JInt (snd run)),
       (''runDirectories'', JList (map JStr created)), (''verifierExit'', JInt verifier_code),
       (''finalInFlight'', metric_or_null after ''ticketing_seat_map_requests_in_flight''),
       (''gitHead'', JStr (py_strip (p_out git_head))), (''gitDirty'', JBool (py_strip (p_out git_status) \<noteq> []))]))))"

definition run_verifier :: "string \<Rightarrow> ('s, int) io" where
  "run_verifier dir =
     bnd (asks w_root) (\<lambda>rt. bnd (asks w_python) (\<lambda>python.
     bnd (run_command (verifier_command python rt) False) (\<lambda>verifier.
     sq (write_text (dir @ ''/verifier.txt'') (p_out verifier @ p_err verifier))
     (ret (p_rc verifier)))))"

definition diag_evidence :: "diag_args \<Rightarrow> string \<Rightarrow> string \<Rightarrow> metric_values \<Rightarrow> rat \<Rightarrow> string list \<Rightarrow> rat \<times> int \<Rightarrow> ('s, int) io" where
  "diag_evidence a dir results before start existing run =
     bnd (save_metrics (dir @ ''/metrics-after.json'')) (\<lambda>after.
     bnd (of_res (stage_summary before after)) (\<lambda>stages.
     sq (write_json_text (dir @ ''/stages.json'') (JObj stages))
     (sq (collect_postgres dir)
     (sq (collect_redis dir ''after'')
     (bnd wall (\<lambda>now.
      sq (collect_prometheus dir start now)
      (sq (collect_docker_stats dir)
      (bnd (result_paths results) (\<lambda>present.
       let created = sort (filter (\<lambda>p. p \<notin> set existing) present) in
       sq (collect_created dir created start)
       (bnd (run_verifier dir) (\<lambda>verifier_code.
        sq (write_diag_manifest a dir start run created verifier_code after)
        (sq (say (''Evidence: '' @ dir))
        (ret (if snd run = 0 \<and> verifier_code = 0 then 0 else 1))))))))))))))"

definition diag_work :: "diag_args \<Rightarrow> string \<Rightarrow> string \<Rightarrow> ('s, int) io" where
  "diag_work a dir results =
     sq (whenever (da_prepare a) (prepare_profile (da_seats a) dir))
     (sq (check_target a dir)
     (sq (check_idle dir)
     (bnd (save_metrics (dir @ ''/metrics-before.json'')) (\<lambda>before.
      bnd reset_statement_stats (\<lambda>_.
      bnd wall (\<lambda>start.
      bnd (result_paths results) (\<lambda>existing.
      bnd (run_and_observe a dir) (diag_evidence a dir results before start existing))))))))"

definition diag_main :: "diag_args \<Rightarrow> ('s, int) io" where
  "diag_main a =
     bnd wall (\<lambda>now. bnd (asks (\<lambda>w. w_compact w now)) (\<lambda>stamp.
     bnd (asks (\<lambda>w. w_root w @ ''/performance/results'')) (\<lambda>results.
     let dir = results @ ''/'' @ stamp @ ''-seat-diagnosis-'' @ int_str (da_seats a) @ ''-'' @ int_str (da_rate a) in
     sq (mkdir dir)
     (try_except is_exception (diag_work a dir results)
       (\<lambda>e. sq (write_text (dir @ ''/error.txt'') (exn_msg e))
         (sq (say_err (''[FAIL] '' @ exn_msg e @ ''; evidence='' @ dir)) (ret 1)))))))"

section \<open>The loop of the quantile\<close>

text \<open>
  The bucket that a quantile falls in, without the loop: the first in the order of the bounds
  whose cumulative count reaches the target; the one before it gives the lower end.
\<close>

definition quantile_ref :: "(bound \<times> rat) list \<Rightarrow> rat \<Rightarrow> rat option res" where
  "quantile_ref buckets fraction =
     (let bs = sort buckets; target = fl64 (snd (last bs) * fraction);
          below = takeWhile (\<lambda>b. snd b < target) bs; reached = dropWhile (\<lambda>b. snd b < target) bs;
          lower = (if below = [] then 0 else bound_value (fst (last below)));
          previous = (if below = [] then 0 else snd (last below)) in
      if bs = [] \<or> snd (last bs) = 0 then Inr None
      else case reached of
          (Finite u, n) # _ \<Rightarrow> rbind (interpolate target lower previous u n) (\<lambda>v. Inr (Some v))
        | _ \<Rightarrow> Inr None)"

lemma quantile_from_ref:
  "quantile_from target lower previous bs =
     (let below = takeWhile (\<lambda>b. snd b < target) bs in
      case dropWhile (\<lambda>b. snd b < target) bs of
        (Finite u, n) # _ \<Rightarrow> rbind (interpolate target (if below = [] then lower else bound_value (fst (last below)))
           (if below = [] then previous else snd (last below)) u n) (\<lambda>v. Inr (Some v))
      | _ \<Rightarrow> Inr None)"
proof (induction target lower previous bs rule: quantile_from.induct)
  case (2 target lower previous upper n buckets)
  show ?case
  proof (cases "target \<le> n")
    case True
    then show ?thesis by (auto simp: Let_def split: bound.split)
  next
    case False
    then have IH: "quantile_from target lower previous ((upper, n) # buckets) = quantile_from target (bound_value upper) n buckets"
      by simp
    define T D where "T = takeWhile (\<lambda>b. snd b < target) buckets" and "D = dropWhile (\<lambda>b. snd b < target) buckets"
    from False have tw: "takeWhile (\<lambda>b. snd b < target) ((upper, n) # buckets) = (upper, n) # T"
      and dw: "dropWhile (\<lambda>b. snd b < target) ((upper, n) # buckets) = D" by (simp_all add: T_def D_def)
    show ?thesis
      unfolding IH 2 [OF False] Let_def tw dw T_def [symmetric] D_def [symmetric]
      by (cases "T = []") (simp_all split: list.split bound.split)
  qed
qed simp

section \<open>What a measurement that succeeds has done\<close>

text \<open>
  \<open>leaves P w Q m\<close>: when \<open>m\<close>, facing \<open>w\<close>, returns a result with \<open>Q\<close>, an event with \<open>P\<close> is in
  its course.
\<close>

definition leaves :: "(event \<Rightarrow> bool) \<Rightarrow> world \<Rightarrow> ('a \<Rightarrow> bool) \<Rightarrow> ('s, 'a) io \<Rightarrow> bool" where
  "leaves P w Q m = (\<forall>s h x s' h'. m w (s, h) = (Ret x, s', h') \<and> Q x \<longrightarrow> (\<exists>t. h' = h @ t \<and> list_ex P t))"

abbreviation anything :: "event \<Rightarrow> bool" where "anything \<equiv> \<lambda>_. True"

lemma leavesD: "leaves P w Q m \<Longrightarrow> m w (s, h) = (Ret x, s', h') \<Longrightarrow> Q x \<Longrightarrow> \<exists>t. h' = h @ t \<and> list_ex P t"
  unfolding leaves_def by blast

lemma leaves_first:
  assumes m: "leaves P w R m" and f: "\<And>x. emits anything (f x)"
    and bk: "\<And>x y. may_ret (f x) w y \<Longrightarrow> Q y \<Longrightarrow> R x"
  shows "leaves P w Q (bnd m f)"
  unfolding leaves_def
proof (intro allI impI, elim conjE)
  fix s h y s' h'
  assume "bnd m f w (s, h) = (Ret y, s', h')" and "Q y"
  then obtain x s1 h1 where 1: "m w (s, h) = (Ret x, s1, h1)" "f x w (s1, h1) = (Ret y, s', h')"
    by (metis bnd_RetE prod.collapse)
  from bk [OF may_retI [of "f x" w "(s1, h1)", OF 1(2)] \<open>Q y\<close>] leavesD [OF m 1(1)] obtain t where t: "h1 = h @ t" "list_ex P t" by blast
  from f [of x] 1(2) obtain u where "h' = h1 @ u" by (rule emitsD)
  with t show "\<exists>t. h' = h @ t \<and> list_ex P t" by auto
qed

lemma leaves_then:
  assumes m: "emits anything m" and f: "\<And>x. leaves P w Q (f x)"
  shows "leaves P w Q (bnd m f)"
  unfolding leaves_def
proof (intro allI impI, elim conjE)
  fix s h y s' h'
  assume "bnd m f w (s, h) = (Ret y, s', h')" and "Q y"
  then obtain x s1 h1 where 1: "m w (s, h) = (Ret x, s1, h1)" "f x w (s1, h1) = (Ret y, s', h')"
    by (metis bnd_RetE prod.collapse)
  from m 1(1) obtain u where "h1 = h @ u" by (rule emitsD)
  with leavesD [OF f 1(2) \<open>Q y\<close>] show "\<exists>t. h' = h @ t \<and> list_ex P t" by auto
qed

lemma leaves_try:
  assumes "leaves P w Q m" and "\<And>e y. may_ret (k e) w y \<Longrightarrow> \<not> Q y"
  shows "leaves P w Q (try_except p m k)"
  unfolding leaves_def
proof (intro allI impI, elim conjE)
  fix s h y s' h'
  assume run: "try_except p m k w (s, h) = (Ret y, s', h')" and Q: "Q y"
  obtain r1 s1 h1 where 1: "m w (s, h) = (r1, s1, h1)" by (metis prod_cases3)
  show "\<exists>t. h' = h @ t \<and> list_ex P t"
  proof (cases r1)
    case (Ret x)
    with 1 run have "m w (s, h) = (Ret y, s', h')" by (simp add: try_except_def)
    with assms(1) Q show ?thesis by (auto dest: leavesD)
  next
    case (Raised e)
    with 1 run have "k e w (s1, h1) = (Ret y, s', h')" by (auto simp: try_except_def split: if_splits)
    with assms(2) Q show ?thesis by (auto dest: may_retI)
  qed (use 1 run in \<open>simp add: try_except_def\<close>)
qed

lemma emits_open_url: "emits anything (open_url u hs t)"
  unfolding open_url_def by (intro emits_intros) (auto intro: emits_intros split: http_result.split)

lemma emits_query: "emits anything (query_range q a b c)"
  unfolding query_range_def Let_def by (intro emits_intros) (auto intro: emits_intros split: http_result.split)

lemma emits_evidence_any: "emits anything (collect_postgres d)" "emits anything (collect_redis d p)"
    "emits anything (collect_docker_stats d)" "emits anything reset_statement_stats" "emits anything (ev_compose xs)"
    "emits anything (ev_psql q)"
  unfolding collect_postgres_def collect_redis_def collect_section_def redis_info_def collect_docker_stats_def
    reset_statement_stats_def ev_psql_def ev_compose_def ev_command_def Let_def
  by (intro emits_intros TrueI)+

lemma emits_prometheus_any: "emits anything (collect_prometheus d a b)"
  unfolding collect_prometheus_def by (intro emits_intros emits_query TrueI)

lemma emits_commands_any: "emits anything (run_command xs b)" "emits anything (read_json p)"
    "emits anything clear_auth_cache" "emits anything clear_seat_holds"
  unfolding read_json_def clear_auth_cache_def clear_seat_holds_def clear_pattern_def run_compose_def run_command_def
  by (intro emits_intros TrueI)+

lemma emits_sample_any: "emits anything read_metrics" "emits anything diag_sample" "emits anything (save_metrics p)"
  unfolding save_metrics_def diag_sample_def read_metrics_def
  by (intro emits_intros emits_open_url emits_evidence_any TrueI)+

lemma emits_probe_any: "emits anything (gzip_probe i e)"
  unfolding gzip_probe_def probe_encoding_def
  by (intro emits_intros emits_open_url) (auto intro: emits_intros split: json.split list.split)

lemma emits_steps_any: "emits anything (prepare_profile n d)" "emits anything (check_target a d)"
    "emits anything (check_idle d)" "emits anything (result_paths p)" "emits anything (run_verifier d)"
    "emits anything (write_diag_manifest a d b run c v m)"
  unfolding prepare_profile_def script_command_def check_target_def check_idle_def result_paths_def run_verifier_def
    write_diag_manifest_def
  by (intro emits_intros emits_commands_any emits_probe_any emits_sample_any TrueI)+

lemma emits_created_any: "emits anything (collect_created d ps b)"
  unfolding collect_created_def collect_run_resources_def service_resources_def
  by (intro emits_intros emits_commands_any emits_query TrueI)

lemma emits_observe_any: "emits anything (run_and_observe a d)"
  unfolding run_and_observe_def observe_round_def
  by (intro emits_intros emits_sample_any TrueI)

lemma emits_diag_evidence: "emits anything (diag_evidence a d r m b e run)"
  unfolding diag_evidence_def Let_def
  by (intro emits_intros emits_sample_any emits_evidence_any emits_prometheus_any emits_steps_any emits_created_any TrueI)

text \<open>The events that a measurement with exit code zero has left.\<close>

definition runner_passed :: "event \<Rightarrow> bool" where
  "runner_passed e = (case e of Polled (Some c) \<Rightarrow> c = 0 | _ \<Rightarrow> False)"

definition verifier_passed :: "world \<Rightarrow> event \<Rightarrow> bool" where
  "verifier_passed w e = (case e of
      Ran argv i env (Inr p) \<Rightarrow> argv = verifier_command (w_python w) (w_root w) \<and> p_rc p = 0
    | _ \<Rightarrow> False)"

definition probe_saved :: "int \<Rightarrow> event \<Rightarrow> bool" where
  "probe_saved seats e = (case e of
      JsonWritten p (JObj d) (Inr u) \<Rightarrow> dget d ''seatCount'' = Some (JInt seats) \<and> endswith p ''/gzip.json''
    | _ \<Rightarrow> False)"

lemma diag_evidence_ret:
  assumes "may_ret (diag_evidence a d r m b e run) w c" and "c = 0"
  shows "snd run = 0"
  using assms unfolding may_ret_def diag_evidence_def sq_def Let_def
  by (auto elim!: bnd_RetE simp: ret_def split: if_splits)

lemma verifier_leaves: "leaves (verifier_passed w) w (\<lambda>c. c = 0) (run_verifier dir)"
  by (auto simp: leaves_def run_verifier_def run_command_def run_proc_def write_text_def run_simps verifier_passed_def
      split: sum.splits if_splits)

lemma leaves_evidence: "leaves (verifier_passed w) w (\<lambda>c. c = 0) (diag_evidence a d r m b e run)"
proof -
  have tail: "leaves (verifier_passed w) w (\<lambda>c. c = 0) (bnd (run_verifier d) (\<lambda>v.
      bnd (write_diag_manifest a d b run created v after) (\<lambda>_.
      bnd (say t) (\<lambda>_. ret (if snd run = 0 \<and> v = 0 then 0 else 1 :: int)))))" for created after t
    by (rule leaves_first [OF verifier_leaves])
      (intro emits_intros emits_steps_any TrueI, auto simp: may_ret_def ret_def elim!: bnd_RetE split: if_splits)
  show ?thesis
    unfolding diag_evidence_def sq_def Let_def
    by (intro leaves_then tail emits_of_res emits_sample_any emits_evidence_any emits_prometheus_any emits_steps_any
        emits_created_any emits_write_json_text emits_wall TrueI)
qed

lemma observe_round_ret:
  assumes "observe_round a p fin w (s, h) = (Ret (Inr run), s', h')" and "snd run = 0"
  shows "\<exists>t. h' = h @ t \<and> list_ex runner_passed t"
proof -
  let ?k = "\<lambda>code. case code of
        None \<Rightarrow> sq (sleep 1) (ret (Inl fin))
      | Some c \<Rightarrow> bnd (case fin of Some t \<Rightarrow> ret t
            | None \<Rightarrow> bnd wall (\<lambda>now. sq (say (''Arrival runner finished; observing '' @ int_str (da_drain a)
                @ ''s without restart'')) (ret now))) (\<lambda>done_at. bnd wall (\<lambda>now.
          if of_int (da_drain a) \<le> fl64 (now - done_at) then ret (Inr (done_at, c))
          else sq (sleep 1) (ret (Inl (Some done_at)))))"
  have rest: "emits anything (?k code)" for code by (intro emits_intros TrueI)
  have bk: "code = Some 0" if "may_ret (?k code) w (Inr run)" for code
    using that assms(2) unfolding may_ret_def sq_def
    by (auto elim!: bnd_RetE simp: ret_def split: option.splits if_splits)
  have polled: "leaves runner_passed w (\<lambda>code. code = Some 0) poll"
    by (auto simp: leaves_def poll_def eff_def runner_passed_def)
  have inner: "leaves runner_passed w (\<lambda>y. y = Inr run) (bnd poll ?k)"
    by (rule leaves_first [OF polled rest]) (use bk in simp)
  have "leaves runner_passed w (\<lambda>y. y = Inr run) (observe_round a p fin)"
    unfolding observe_round_def sq_def
    by (intro inner [unfolded sq_def] leaves_then emits_intros emits_sample_any TrueI)
  with assms(1) show ?thesis by (auto dest: leavesD)
qed

lemma leaves_loop:
  assumes "\<And>x. emits anything (f x)"
    and "\<And>x s h y s' h'. f x w (s, h) = (Ret (Inr y), s', h') \<Longrightarrow> Q y \<Longrightarrow> \<exists>t. h' = h @ t \<and> list_ex P t"
  shows "leaves P w Q (loop_io n f x)"
proof (induction n arbitrary: x)
  case (Suc n)
  show ?case unfolding leaves_def
  proof (intro allI impI, elim conjE)
    fix s h y s' h'
    assume "loop_io (Suc n) f x w (s, h) = (Ret y, s', h')" and Q: "Q y"
    then obtain v s1 h1 where v: "f x w (s, h) = (Ret v, s1, h1)"
      "(case v of Inl x' \<Rightarrow> loop_io n f x' | Inr r \<Rightarrow> ret r) w (s1, h1) = (Ret y, s', h')"
      unfolding loop_io.simps by (metis bnd_RetE prod.collapse)
    show "\<exists>t. h' = h @ t \<and> list_ex P t"
    proof (cases v)
      case (Inl x')
      from assms(1) v(1) obtain u where "h1 = h @ u" by (rule emitsD)
      with leavesD [OF Suc.IH _ Q] v(2) Inl show ?thesis by fastforce
    next
      case (Inr r)
      with v assms(2) Q show ?thesis by (auto simp: ret_def)
    qed
  qed
qed (simp add: leaves_def diverge_def)

lemma leaves_while:
  assumes "\<And>x. emits anything (f x)"
    and "\<And>x s h y s' h'. f x w (s, h) = (Ret (Inr y), s', h') \<Longrightarrow> Q y \<Longrightarrow> \<exists>t. h' = h @ t \<and> list_ex P t"
  shows "leaves P w Q (while_io f x)"
  using leaves_loop [OF assms, where n = "w_fuel w" and x = x] by (simp add: leaves_def while_io_def)

lemma leaves_runner: "leaves runner_passed w (\<lambda>run. snd run = 0) (run_and_observe a dir)"
proof -
  have round: "emits anything (observe_round a p x)" for p and x :: "rat option"
    unfolding observe_round_def by (intro emits_intros emits_sample_any TrueI)
  have "leaves runner_passed w (\<lambda>run. snd run = 0) (while_io (observe_round a p) None)" for p
    by (rule leaves_while [OF round]) (rule observe_round_ret)
  then show ?thesis
    unfolding run_and_observe_def sq_def by (intro leaves_then emits_intros TrueI)
qed

lemma check_leaves: "leaves (probe_saved (da_seats a)) w (\<lambda>_. True) (check_target a dir)"
proof -
  have "leaves (probe_saved (da_seats a)) w (\<lambda>_. True)
      (sq (write_json_text (dir @ ''/gzip.json'') (JObj probe))
        (raise_if (dget probe ''seatCount'' \<noteq> Some (JInt (da_seats a))) RuntimeError t))" for probe t
    by (auto simp: leaves_def write_json_text_def run_simps probe_saved_def endswith_def startswith_code
        split: sum.splits if_splits)
  then show ?thesis
    unfolding check_target_def
    by (intro leaves_then emits_intros emits_commands_any emits_probe_any TrueI)
qed

lemma check_first:
  "emits anything m \<Longrightarrow> leaves (probe_saved (da_seats a)) w (\<lambda>c. c = (0 :: int)) (bnd (check_target a dir) (\<lambda>_. m))"
  by (rule leaves_first [OF check_leaves]) simp_all

lemma diag_work_leaves:
  "leaves runner_passed w (\<lambda>c. c = 0) (diag_work a dir results)"
  "leaves (verifier_passed w) w (\<lambda>c. c = 0) (diag_work a dir results)"
  "leaves (probe_saved (da_seats a)) w (\<lambda>c. c = 0) (diag_work a dir results)"
proof -
  note steps = emits_steps_any emits_sample_any emits_evidence_any emits_whenever emits_wall emits_observe_any TrueI
  have runner: "leaves runner_passed w (\<lambda>c. c = 0)
      (bnd (run_and_observe a dir) (diag_evidence a dir results before start existing))" for before start existing
    by (rule leaves_first [OF leaves_runner emits_diag_evidence]) (rule diag_evidence_ret)
  show "leaves runner_passed w (\<lambda>c. c = 0) (diag_work a dir results)"
    unfolding diag_work_def sq_def by (intro runner leaves_then steps)
  show "leaves (verifier_passed w) w (\<lambda>c. c = 0) (diag_work a dir results)"
    unfolding diag_work_def sq_def by (intro leaves_evidence leaves_then steps)
  have rest: "emits anything (sq (check_idle dir) (bnd (save_metrics p) (\<lambda>before. bnd reset_statement_stats (\<lambda>_.
      bnd wall (\<lambda>start. bnd (result_paths results) (\<lambda>existing.
      bnd (run_and_observe a dir) (diag_evidence a dir results before start existing)))))))" for p
    by (intro emits_sq emits_bnd emits_diag_evidence steps)
  show "leaves (probe_saved (da_seats a)) w (\<lambda>c. c = 0) (diag_work a dir results)"
    unfolding diag_work_def sq_def by (intro check_first [OF rest, unfolded sq_def] leaves_then steps)
qed

lemma diag_main_leaves:
  assumes "\<And>dir results. leaves P w (\<lambda>c. c = 0) (diag_work a dir results :: ('s, int) io)"
  shows "leaves P w (\<lambda>c. c = 0) (diag_main a :: ('s, int) io)"
  unfolding diag_main_def Let_def sq_def
  by (intro leaves_then leaves_try assms emits_intros TrueI)
    (auto simp: may_ret_def ret_def elim!: bnd_RetE)

section \<open>Properties\<close>

text \<open>
  The quantile of a histogram is the interpolation in the bucket it falls in; there is
  none without samples and none in the unbounded bucket.
\<close>

lemma quantile_exact: "quantile buckets fraction = quantile_ref buckets fraction"
  unfolding quantile_def quantile_ref_def quantile_from_ref
  by (auto simp: Let_def)

text \<open>
  \textbf{C40.} A measurement returns zero only after it has saved a probe with the number of seats
  asked for, the k6 runner has been seen to exit with zero, and so has the database verifier.
\<close>

theorem diagnosis_success:
  assumes "diag_main a w (s, h) = (Ret 0, s', h')"
  shows "\<exists>t. h' = h @ t \<and> list_ex (probe_saved (da_seats a)) t \<and> list_ex runner_passed t \<and> list_ex (verifier_passed w) t"
proof -
  note leaves = diag_main_leaves [OF diag_work_leaves(1)] diag_main_leaves [OF diag_work_leaves(2)]
    diag_main_leaves [OF diag_work_leaves(3)]
  from leavesD [OF leaves(1) assms refl] leavesD [OF leaves(2) assms refl] leavesD [OF leaves(3) assms refl]
  show ?thesis by auto
qed

text \<open>A stack that is idle, with a seat map of one seat and a runner that has finished.\<close>

definition idle_world :: world where
  "idle_world = quiet_world\<lparr>
     w_run := \<lambda>h argv i. Inr \<lparr>p_rc = 0, p_out = (if list_ex (\<lambda>x. startswith x ''redis-cli --raw CLIENT'') argv
       then ''# Memory'' else ''0''), p_err = []\<rparr>,
     w_http := \<lambda>h rq. Inr (Response 200 (if hr_timeout rq = 5 then ''ticketing_http_requests_in_flight 0''
       else if hr_timeout rq = 15 then ''seats'' else [])),
     w_header := \<lambda>h k. Some ''gzip'',
     w_loads := \<lambda>t. Inr (if t = ''seats'' then JList [JNull]
       else JObj [(''status'', JStr ''success''), (''seatMapSessionId'', JStr ''s'')])\<rparr>"

definition one_seat :: diag_args where
  "one_seat = \<lparr>da_seats = 1, da_rate = 10, da_duration = 15, da_drain = 0, da_prepare = False\<rparr>"

lemma idle_world_sel:
  "w_run idle_world h argv i = Inr \<lparr>p_rc = 0, p_out = (if list_ex (\<lambda>x. startswith x ''redis-cli --raw CLIENT'') argv
     then ''# Memory'' else ''0''), p_err = []\<rparr>"
  "w_http idle_world h rq = Inr (Response 200 (if hr_timeout rq = 5 then ''ticketing_http_requests_in_flight 0''
     else if hr_timeout rq = 15 then ''seats'' else []))"
  "w_header idle_world h k = Some ''gzip''" "w_gunzip idle_world t = Inr t" "w_wall idle_world h = 0"
  "w_loads idle_world t = Inr (if t = ''seats'' then JList [JNull]
     else JObj [(''status'', JStr ''success''), (''seatMapSessionId'', JStr ''s'')])"
  "w_read idle_world h p = Inr []" "w_write idle_world h p = Inr ()" "w_append idle_world h p = Inr ()"
  "w_mkdir idle_world h p = Inr ()" "w_entries idle_world h p = Inr []" "w_poll idle_world h = Some 0"
  "w_spawn idle_world h argv = Inr ()" "w_exists idle_world h p = False" "w_fuel idle_world = 100"
  "w_root idle_world = ''/repo''" "w_python idle_world = ''python3''" "w_compact idle_world r = []"
  "w_float_repr idle_world r = []"
  by (simp_all add: idle_world_def quiet_world_def)

text \<open>\<open>gives x m\<close>: in the idle stack \<open>m\<close> returns \<open>x\<close>.\<close>

definition gives :: "'a \<Rightarrow> (unit, 'a) io \<Rightarrow> bool" where
  "gives x m = (\<forall>h. \<exists>t. m idle_world ((), h) = (Ret x, (), h @ t))"

lemma gives_bnd: "gives x m \<Longrightarrow> gives y (f x) \<Longrightarrow> gives y (bnd m f)"
  unfolding gives_def bnd_def
proof
  fix h
  assume "\<forall>h. \<exists>t. m idle_world ((), h) = (Ret x, (), h @ t)" and f: "\<forall>h. \<exists>t. f x idle_world ((), h) = (Ret y, (), h @ t)"
  then obtain t where t: "m idle_world ((), h) = (Ret x, (), h @ t)" by blast
  from f obtain u where "f x idle_world ((), h @ t) = (Ret y, (), (h @ t) @ u)" by blast
  with t show "\<exists>t. (case m idle_world ((), h) of (Ret x, sh') \<Rightarrow> f x idle_world sh'
      | (Raised e, sh') \<Rightarrow> (Raised e, sh') | (Diverged, sh') \<Rightarrow> (Diverged, sh')) = (Ret y, (), h @ t)" by simp
qed

lemma gives_sq: "gives x m \<Longrightarrow> gives y k \<Longrightarrow> gives y (sq m k)"
  unfolding sq_def by (rule gives_bnd)

lemma gives_ret: "gives x (ret x)"
  by (simp add: gives_def run_simps)

lemma gives_of_res: "r = Inr x \<Longrightarrow> gives x (of_res r)"
  by (simp add: gives_def run_simps)

lemma gives_asks: "gives (f idle_world) (asks f)"
  by (simp add: gives_def asks_def)

lemma gives_try: "gives x m \<Longrightarrow> gives x (try_except p m k)"
  unfolding gives_def
proof
  fix h
  assume "\<forall>h. \<exists>t. m idle_world ((), h) = (Ret x, (), h @ t)"
  then obtain t where "m idle_world ((), h) = (Ret x, (), h @ t)" by blast
  then show "\<exists>t. try_except p m k idle_world ((), h) = (Ret x, (), h @ t)" by (simp add: try_except_def)
qed

lemma gives_raise_if: "\<not> c \<Longrightarrow> gives () (raise_if c k t)"
  by (simp add: gives_def run_simps)

lemma gives_prims:
  "gives 0 wall" "gives () (say t)" "gives () (mkdir p)" "gives () (write_text p t)" "gives () (write_json_text p j)"
  "gives () (append_text p t)" "gives [] (list_dir p)" "gives (Some 0) poll" "gives () (spawn argv)"
  "gives (Some ''gzip'') (header k)" "gives t (gunzip t)" "gives [] (read_text p)"
  "gives (if t = ''seats'' then JList [JNull] else JObj [(''status'', JStr ''success''), (''seatMapSessionId'', JStr ''s'')]) (loads t)"
  by (simp_all add: gives_def prim_defs run_simps looks_def bnd_def of_res_def ret_def idle_world_sel write_json_text_def)


lemma gives_command: "gives (if list_ex (\<lambda>x. startswith x ''redis-cli --raw CLIENT'') argv then ''# Memory'' else ''0'') (ev_command argv)"
  by (simp add: gives_def ev_command_def prim_defs run_simps idle_world_sel)

lemma gives_run: "gives \<lparr>p_rc = 0, p_out = (if list_ex (\<lambda>x. startswith x ''redis-cli --raw CLIENT'') argv then ''# Memory'' else ''0''),
    p_err = []\<rparr> (run_command argv b)"
  by (simp add: gives_def run_command_def prim_defs run_simps idle_world_sel)

lemma gives_open: "gives (200, if t = 5 then ''ticketing_http_requests_in_flight 0''
     else if t = 15 then ''seats'' else []) (open_url u hs t)"
  by (simp add: gives_def open_url_def prim_defs run_simps idle_world_sel)

lemma gives_metrics: "gives [(''ticketing_http_requests_in_flight'', 0)] read_metrics"
  unfolding read_metrics_def
  by (rule gives_bnd [OF gives_open], simp only: prod.case, simp, rule gives_of_res) code_simp

abbreviation works :: "(unit, 'a) io \<Rightarrow> bool" where
  "works \<equiv> returns 0 idle_world"

lemma gives_works: "gives x m \<Longrightarrow> works m"
  unfolding gives_def returns_def by (metis (full_types) old.unit.exhaust)

lemma gives_drop:
  assumes m: "works m" and f: "\<And>x. gives y (f x)"
  shows "gives y (bnd m f)"
  unfolding gives_def
proof
  fix h
  obtain x t where t: "m idle_world ((), h) = (Ret x, (), h @ t)" by (rule returnsE [OF m, of h "()"]) simp
  from f [of x] obtain u where "f x idle_world ((), h @ t) = (Ret y, (), (h @ t) @ u)" unfolding gives_def by blast
  with t show "\<exists>t. bnd m f idle_world ((), h) = (Ret y, (), h @ t)" by (simp add: bnd_def)
qed

lemma gives_drop_sq: "works m \<Longrightarrow> gives y k \<Longrightarrow> gives y (sq m k)"
  unfolding sq_def by (rule gives_drop)

lemma gives_compose: "gives (if list_ex (\<lambda>x. startswith x ''redis-cli --raw CLIENT'') (k6_compose ''/repo'' xs) then ''# Memory'' else ''0'')
    (ev_compose xs)"
  unfolding ev_compose_def
  by (rule gives_bnd [OF gives_asks]) (simp only: idle_world_sel gives_command)

lemmas idle_works [returns_intros] = gives_prims [THEN gives_works] gives_command [THEN gives_works]
  gives_run [THEN gives_works] gives_compose [THEN gives_works]

lemma works_query: "works (query_range e a b c)"
  by (simp add: returns_def query_range_def Let_def prim_defs run_simps idle_world_sel dget_or_def)

lemma works_evidence: "works (collect_postgres dir)" "works (collect_redis dir phase)" "works (collect_docker_stats dir)"
    "works reset_statement_stats" "works (ev_psql q)" "works (write_diag_manifest a dir b run c v m)"
  unfolding collect_postgres_def collect_redis_def collect_section_def redis_info_def collect_docker_stats_def
    reset_statement_stats_def ev_psql_def write_diag_manifest_def
  by (intro returns_intros)+

lemma works_prometheus: "works (collect_prometheus dir a b)"
  unfolding collect_prometheus_def by (intro returns_intros works_query)

lemma gives_save: "gives [(''ticketing_http_requests_in_flight'', 0)] (save_metrics p)"
  unfolding save_metrics_def by (intro gives_bnd [OF gives_metrics] gives_drop_sq gives_ret returns_intros)

lemma gives_verifier: "gives 0 (run_verifier dir)"
  unfolding run_verifier_def
  by (intro gives_bnd [OF gives_asks] gives_bnd [OF gives_run] gives_drop_sq returns_intros) (simp add: gives_ret)

lemma gives_result_paths: "gives [] (result_paths p)"
  unfolding result_paths_def by (rule gives_bnd [OF gives_prims(7)]) (simp add: gives_ret)

lemma gives_evidence: "gives 0 (diag_evidence a dir results [(''ticketing_http_requests_in_flight'', 0)] start [] (t, 0))"
proof -
  have st: "stage_summary [(''ticketing_http_requests_in_flight'', 0)] [(''ticketing_http_requests_in_flight'', 0)] = Inr []"
    by code_simp
  have none: "gives () (collect_created dir [] b)" for b by (simp add: collect_created_def gives_ret)
  show ?thesis
    unfolding diag_evidence_def Let_def
    apply (rule gives_bnd [OF gives_save], rule gives_bnd [OF gives_of_res [OF st]])
    apply (intro gives_drop_sq idle_works works_evidence gives_bnd [OF gives_prims(1)] works_prometheus gives_bnd [OF gives_result_paths])
    apply (simp add: none [THEN gives_works])
    apply (rule gives_bnd [OF gives_verifier])
    apply (intro gives_drop_sq idle_works works_evidence)
    apply (simp add: gives_ret)
    done
qed

lemma gives_sample: "\<exists>d. gives d diag_sample \<and> dget_or d ''httpInFlight'' JNull = JFloat 0"
proof -
  let ?v = "[(''ticketing_http_requests_in_flight'', 0 :: rat)]"
  let ?c = "k6_compose ''/repo''"
  have c1: "gives ''# Memory'' (ev_compose [''exec'', ''-T'', ''redis'', ''sh'', ''-c'',
       ''redis-cli --raw CLIENT LIST; redis-cli --raw INFO memory''])"
    using gives_compose [of "[''exec'', ''-T'', ''redis'', ''sh'', ''-c'',
       ''redis-cli --raw CLIENT LIST; redis-cli --raw INFO memory'']"] by (simp add: k6_compose_def startswith_def)
  have c2: "gives ''0'' (ev_psql ''SELECT count(*) FROM pg_stat_activity WHERE datname='ticketing';'')"
    unfolding ev_psql_def using gives_compose [of "[''exec'', ''-T'', ''postgres'', ''psql'', ''-U'', ''ticketing'', ''-d'',
     ''ticketing'', ''-v'', ''ON_ERROR_STOP=1'', ''-At'', ''-F'', [tab], ''-c'', ''SELECT count(*) FROM pg_stat_activity WHERE datname='ticketing';'']"]
    by (simp add: k6_compose_def startswith_def)
  have sp: "split_once ''# Memory'' ''# Memory'' = Some ([], [])" by code_simp
  have n: "py_int (py_strip ''0'') = Inr 0" by code_simp
  have m: "metric_or_null ?v ''ticketing_http_requests_in_flight'' = JFloat 0" by code_simp
  obtain raw where b: "gives raw (ev_compose [''exec'', ''-T'', ''backend'', ''sh'', ''-c'',
       ''cat /proc/1/status; cat /sys/fs/cgroup/memory.current; cat /sys/fs/cgroup/memory.stat''])"
    using gives_compose by blast
  show ?thesis
    unfolding diag_sample_def
    apply (rule exI, rule conjI)
     apply (rule gives_bnd [OF gives_prims(1)])
     apply (rule gives_bnd [OF gives_metrics])
     apply (rule gives_bnd [OF c1])
     apply (rule gives_bnd [OF gives_of_res])
      apply (simp only: sp option.case)
     apply (simp only: prod.case)
     apply (rule gives_bnd [OF b])
     apply (rule gives_bnd [OF gives_prims(1)])
     apply (rule gives_bnd [OF c2])
     apply (rule gives_bnd [OF gives_of_res [OF n]])
     apply (rule gives_ret)
    apply (simp add: m dget_or_def)
    done
qed

lemma gives_check_idle: "gives () (check_idle dir)"
proof -
  from gives_sample obtain d where d: "gives d diag_sample" "dget_or d ''httpInFlight'' JNull = JFloat 0" by blast
  have "py_eq (JFloat 0) (JInt 0)" by code_simp
  with d(2) show ?thesis
    unfolding check_idle_def by (intro gives_bnd [OF d(1)] gives_sq [OF gives_raise_if] gives_prims) simp_all
qed

lemma gives_observe: "gives (0, 0) (run_and_observe one_seat dir)"
proof -
  from gives_sample obtain d where d: "gives d diag_sample" by blast
  have "gives (Inr (0, 0)) (observe_round one_seat p None)" for p
    unfolding observe_round_def
    apply (rule gives_bnd [OF gives_try [OF d]], rule gives_bnd [OF gives_asks], rule gives_sq [OF gives_prims(6)],
      rule gives_bnd [OF gives_prims(8)], simp only: option.case)
    apply (rule gives_bnd [OF gives_bnd [OF gives_prims(1) gives_sq [OF gives_prims(2) gives_ret]]], rule gives_bnd [OF gives_prims(1)])
    apply (simp add: one_seat_def gives_ret)
    done
  then have "gives (0, 0) (loop_io (Suc n) (observe_round one_seat p) None)" for p n
    unfolding loop_io.simps by (intro gives_bnd) (auto intro: gives_ret)
  from this [of 99] have w: "gives (0, 0) (while_io (observe_round one_seat p) None)" for p
    by (simp add: gives_def while_io_def idle_world_sel)
  show ?thesis
    unfolding run_and_observe_def
    by (intro gives_bnd [OF gives_asks] gives_sq [OF gives_prims(4)] gives_sq [OF gives_prims(9)] w)
qed

lemma gives_probe: "\<exists>p. gives p (gzip_probe ''s'' ''seats'') \<and> dget p ''seatCount'' = Some (JInt 1)"
proof -
  have e: "\<exists>p. gives p (probe_encoding ''s'' ''seats'' enc) \<and> pa_encoding p = Some ''gzip'' \<and> pa_body p = ''seats''" for enc
    unfolding probe_encoding_def
    apply (rule exI, rule conjI)
     apply (rule gives_bnd [OF gives_open], simp only: prod.case, rule gives_bnd [OF gives_prims(10)],
       rule gives_bnd [OF gives_prims(10)], rule gives_bnd [OF gives_prims(10)], simp,
       rule gives_bnd [OF gives_prims(11)], rule gives_ret)
    apply simp
    done
  from e [of "''identity''"] e [of "''gzip''"] obtain i z where i: "gives i (probe_encoding ''s'' ''seats'' ''identity'')" "pa_body i = ''seats''"
    and z: "gives z (probe_encoding ''s'' ''seats'' ''gzip'')" "pa_encoding z = Some ''gzip''" "pa_body z = ''seats''" by blast
  have l: "gives (JList [JNull]) (loads ''seats'')" using gives_prims(13) [of "''seats''"] by simp
  show ?thesis
    unfolding gzip_probe_def
    apply (rule exI, rule conjI)
     apply (rule gives_bnd [OF i(1)], rule gives_bnd [OF z(1)], rule gives_sq [OF gives_raise_if], simp add: z,
       rule gives_sq [OF gives_raise_if], simp add: i z, unfold i(2), rule gives_bnd [OF l], rule gives_bnd [OF gives_of_res], simp,
       simp, rule gives_ret)
    apply simp
    done
qed

lemma gives_check: "gives () (check_target one_seat dir)"
proof -
  from gives_probe obtain p where p: "gives p (gzip_probe ''s'' ''seats'')" "dget p ''seatCount'' = Some (JInt 1)" by blast
  have r: "gives (JObj [(''status'', JStr ''success''), (''seatMapSessionId'', JStr ''s'')]) (read_json f)" for f
    unfolding read_json_def by (rule gives_try, rule gives_bnd [OF gives_prims(12)]) (use gives_prims(13) [of "[]"] in simp)
  show ?thesis
    unfolding check_target_def
    apply (rule gives_bnd [OF gives_asks], rule gives_bnd [OF r], rule gives_bnd [OF gives_of_res])
     apply (simp add: dindex_def)
    apply (rule gives_bnd [OF p(1)], rule gives_sq [OF gives_prims(5)], rule gives_raise_if)
    apply (simp add: p(2) one_seat_def)
    done
qed

lemma idle_measured: "gives 0 (diag_main one_seat)"
  unfolding diag_main_def diag_work_def Let_def
  apply (rule gives_bnd [OF gives_prims(1)], rule gives_bnd [OF gives_asks], rule gives_bnd [OF gives_asks], rule gives_sq [OF gives_prims(3)],
    rule gives_try, rule gives_sq [of "()"], simp add: one_seat_def whenever_def gives_ret, rule gives_sq [OF gives_check],
    rule gives_sq [OF gives_check_idle], rule gives_bnd [OF gives_save], rule gives_drop [OF works_evidence(4)],
    rule gives_bnd [OF gives_prims(1)], rule gives_bnd [OF gives_result_paths], rule gives_bnd [OF gives_observe], rule gives_evidence)
  done

theorem diagnosis_success_witness:
  "\<exists>t. diag_main one_seat idle_world ((), []) = (Ret 0, (), t) \<and> list_ex runner_passed t"
proof -
  obtain t where t: "diag_main one_seat idle_world ((), []) = (Ret 0, (), t)"
    using idle_measured unfolding gives_def by blast
  from diagnosis_success [OF this] t show ?thesis by auto
qed

end
