(* ===== verification/Stop_Projects.thy ===== *)
theory Stop_Projects
  imports Py_IO "HOL-Library.Product_Lexorder"
begin

text \<open>
  \<open>performance/scripts/phase14_stop_approved_projects.py\<close>: the containers of three approved
  Compose projects are stopped, everything else on the host is audited to have stayed as it was,
  and the host is observed until it has come to rest. Whatever docker prints is a JSON value;
  ids, names and sort keys are texts. A sum or a difference of clock readings is exact.
\<close>

section \<open>Combinators that stop at an exception\<close>

fun filter_res :: "('a \<Rightarrow> bool res) \<Rightarrow> 'a list \<Rightarrow> 'a list res" where
  "filter_res p [] = Inr []"
| "filter_res p (x # xs) = rbind (p x) (\<lambda>b. rbind (filter_res p xs) (\<lambda>ys. Inr (if b then x # ys else ys)))"

text \<open>Python's \<open>and\<close> and \<open>all\<close> leave at the first false value.\<close>

fun all_res :: "('a \<Rightarrow> bool res) \<Rightarrow> 'a list \<Rightarrow> bool res" where
  "all_res p [] = Inr True"
| "all_res p (x # xs) = rbind (p x) (\<lambda>b. if b then all_res p xs else Inr False)"

definition and_res :: "bool res \<Rightarrow> bool res \<Rightarrow> bool res" where
  "and_res a b = rbind a (\<lambda>x. if x then b else Inr False)"

section \<open>Containers\<close>

definition approved_projects :: "string list" where
  "approved_projects = [''phase12-2b-gate'', ''phase12-approved'', ''phase12-gate'']"

definition project_key :: string where
  "project_key = ''com.docker.compose.project''"

definition label_of :: "json \<Rightarrow> json \<Rightarrow> string \<Rightarrow> json res" where
  "label_of config missing k =
     rbind (json_get config ''Labels'' missing) (\<lambda>l. json_get (if truthy l then l else JObj []) k JNull)"

definition in_projects :: "json \<Rightarrow> bool res" where
  "in_projects v = (case v of
      JStr s \<Rightarrow> Inr (s \<in> set approved_projects)
    | JList xs \<Rightarrow> Inl (Exn TypeError ''unhashable type'')
    | JObj d \<Rightarrow> Inl (Exn TypeError ''unhashable type'')
    | _ \<Rightarrow> Inr False)"

definition approved :: "json \<Rightarrow> bool res" where
  "approved x = rbind (json_get x ''Config'' (JObj [])) (\<lambda>c. rbind (label_of c JNull project_key) in_projects)"

definition select :: "json list \<Rightarrow> json list res" where
  "select xs = filter_res approved xs"

definition container_id :: "json \<Rightarrow> string res" where
  "container_id x = rbind (json_index x ''Id'') json_to_str"

definition running :: "json \<Rightarrow> bool res" where
  "running x = rbind (json_at x [''State'', ''Running'']) (\<lambda>v. Inr (truthy v))"

definition mount_key :: "json \<Rightarrow> (string \<times> string) res" where
  "mount_key m = rbind (rbind (json_index m ''Destination'') json_to_str) (\<lambda>d.
     rbind (rbind (json_index m ''Source'') json_to_str) (\<lambda>s. Inr (d, s)))"

definition sorted_mounts :: "json list \<Rightarrow> json list res" where
  "sorted_mounts ms = rbind (map_res (\<lambda>m. rbind (mount_key m) (\<lambda>k. Inr (k, m))) ms) (\<lambda>ks.
     Inr (map snd (sort_key fst ks)))"

definition state_keys :: "string list" where
  "state_keys = [''Status'', ''Running'', ''Paused'', ''Restarting'', ''Dead'', ''ExitCode'', ''StartedAt'', ''FinishedAt'']"

definition safe_state :: "json \<Rightarrow> json res" where
  "safe_state x = rbind (json_index x ''State'') (\<lambda>s.
     rbind (map_res (\<lambda>k. rbind (json_get s k JNull) (\<lambda>v. Inr (k, v))) state_keys) (\<lambda>d. Inr (JObj d)))"

text \<open>The part of an inspected container that is kept as evidence and compared.\<close>

definition safe :: "json \<Rightarrow> json res" where
  "safe x =
     rbind (json_index x ''Config'') (\<lambda>config.
     rbind (label_of config JNull project_key) (\<lambda>project.
     rbind (json_index x ''Id'') (\<lambda>i.
     rbind (json_index x ''Name'') (\<lambda>name.
     rbind (json_index config ''Image'') (\<lambda>image.
     rbind (json_index x ''Image'') (\<lambda>image_id.
     rbind (label_of config JNull (project_key @ ''.config_files'')) (\<lambda>files.
     rbind (label_of config JNull (project_key @ ''.working_dir'')) (\<lambda>wdir.
     rbind (safe_state x) (\<lambda>state.
     rbind (rbind (json_index x ''State'') (\<lambda>s. rbind (json_get s ''Health'' (JObj []))
       (\<lambda>h. json_get h ''Status'' JNull))) (\<lambda>health.
     rbind (json_index x ''RestartCount'') (\<lambda>restarts.
     rbind (rbind (json_index x ''NetworkSettings'') (\<lambda>n. json_get n ''Ports'' JNull)) (\<lambda>ports.
     rbind (rbind (json_index x ''HostConfig'') (\<lambda>h. json_get h ''PortBindings'' JNull)) (\<lambda>bindings.
     rbind (rbind (json_index x ''Mounts'') json_to_list) (\<lambda>ms.
     rbind (map_res (\<lambda>m. rbind (json_to_dict m) (\<lambda>d. Inr (JObj d))) ms) (\<lambda>copies.
     rbind (sorted_mounts copies) (\<lambda>mounts.
     Inr (JObj [(''id'', i), (''name'', name), (''image'', image), (''imageId'', image_id), (''project'', project),
       (''composeFiles'', files), (''composeWorkingDirectory'', wdir), (''state'', state), (''health'', health),
       (''restartCount'', restarts), (''ports'', ports), (''portBindings'', bindings),
       (''mounts'', JList mounts)])))))))))))))))))"

section \<open>Audited docker commands\<close>

definition audit_save :: "string \<Rightarrow> string \<Rightarrow> json \<Rightarrow> ('s, unit) io" where
  "audit_save dir name value = write_json_text (dir @ ''/'' @ name) value"

definition prohibited :: "string list" where
  "prohibited = [''down'', ''rm'', ''prune'', ''-v'', ''--volumes'']"

definition audit_docker :: "string \<Rightarrow> string list \<Rightarrow> ('s, string) io" where
  "audit_docker dir args =
     sq (raise_if (list_ex (\<lambda>a. a \<in> set prohibited) args) ValueError ''prohibited Docker operation'')
     (bnd wall (\<lambda>now. bnd (asks (\<lambda>w. w_iso w now)) (\<lambda>stamp. bnd (asks w_float_repr) (\<lambda>fr.
      sq (append_text (dir @ ''/commands.jsonl'')
        (dump_text '', '' '': '' fr (JObj [(''at'', JStr stamp), (''argv'', JList (map JStr (''docker'' # args)))]) @ [nl]))
      (bnd (run_proc (''docker'' # args) None []) (\<lambda>result.
       sq (raise_if (p_rc result \<noteq> 0) RuntimeError (take 1000 (p_err result)))
       (ret (p_out result))))))))"

text \<open>The JSON list that a docker command prints.\<close>

definition docker_list :: "string \<Rightarrow> string list \<Rightarrow> ('s, json list) io" where
  "docker_list dir args = bnd (audit_docker dir args) (\<lambda>t. bnd (loads t) (\<lambda>v. of_res (json_to_list v)))"

definition inventory :: "string \<Rightarrow> ('s, json list) io" where
  "inventory dir =
     bnd (audit_docker dir [''ps'', ''-aq'', ''--no-trunc'']) (\<lambda>t.
     let ids = py_words t in if ids = [] then ret [] else docker_list dir (''inspect'' # ids))"

text \<open>
  One reading of the host: the time of day, the monotonic clock, and the fields in the order in
  which they were printed.
\<close>

record host_sample =
  hs_utc :: string
  hs_mono :: rat
  hs_fields :: dict

definition memory_fields :: "string list" where
  "memory_fields = [''MemTotal:'', ''MemAvailable:'', ''MemFree:'', ''SwapTotal:'', ''SwapFree:'', ''SwapCached:'']"

definition second_int :: "string list \<Rightarrow> int res" where
  "second_int ws = (case ws of _ # v # _ \<Rightarrow> py_int v | _ \<Rightarrow> Inl (Exn IndexError ''list index out of range''))"

definition host_line :: "dict \<Rightarrow> string \<Rightarrow> dict res" where
  "host_line d line = (case py_words line of
      [] \<Rightarrow> Inr d
    | name # values \<Rightarrow>
        if name \<in> set memory_fields
        then rbind (second_int (name # values)) (\<lambda>i. Inr (dset d (butlast name @ ''Bytes'') (JInt (i * 1024))))
        else if name \<in> {''pswpin'', ''pswpout''}
        then rbind (second_int (name # values)) (\<lambda>i. Inr (dset d name (JInt i)))
        else if name = ''cpu''
        then rbind (map_res py_int values) (\<lambda>is. Inr (dset d ''cpuTicks'' (JList (map JInt is))))
        else Inr d)"

definition host_required :: "string list" where
  "host_required = [''cpuTicks'', ''pswpin'', ''pswpout'', ''MemAvailableBytes'', ''SwapFreeBytes'']"

definition host_reading :: "string \<Rightarrow> string \<Rightarrow> ('s, host_sample) io" where
  "host_reading dir sampler =
     bnd (audit_docker dir [''exec'', sampler, ''cat'', ''/proc/meminfo'', ''/proc/vmstat'', ''/proc/stat'']) (\<lambda>raw.
     bnd wall (\<lambda>now. bnd (asks (\<lambda>w. w_iso w now)) (\<lambda>utc. bnd clock (\<lambda>mono.
     bnd (of_res (fold_res host_line [] (splitlines raw))) (\<lambda>d.
     sq (raise_if (list_ex (\<lambda>k. \<not> dhas d k) host_required) RuntimeError ''incomplete host resource evidence'')
     (ret \<lparr>hs_utc = utc, hs_mono = mono, hs_fields = d\<rparr>))))))"

definition host_json :: "host_sample \<Rightarrow> (string \<times> json) list" where
  "host_json s = [(''utc'', JStr (hs_utc s)), (''monotonic'', JFloat (hs_mono s))] @ hs_fields s"

section \<open>Observation\<close>

definition swap_stable :: "host_sample list \<Rightarrow> bool res" where
  "swap_stable samples = (case samples of
      [] \<Rightarrow> Inr False
    | first # _ \<Rightarrow> all_res (\<lambda>x. all_res (\<lambda>k. rbind (dindex (hs_fields x) k) (\<lambda>a.
        rbind (dindex (hs_fields first) k) (\<lambda>b. Inr (py_eq a b)))) [''pswpin'', ''pswpout'']) samples)"

definition cpu_ticks :: "host_sample \<Rightarrow> int list res" where
  "cpu_ticks s = rbind (dindex (hs_fields s) ''cpuTicks'') (\<lambda>v. rbind (json_to_list v) (map_res json_to_int))"

definition idle_fraction :: "host_sample \<Rightarrow> host_sample \<Rightarrow> num res" where
  "idle_fraction previous current =
     rbind (cpu_ticks previous) (\<lambda>as. rbind (cpu_ticks current) (\<lambda>bs.
     let delta = map2 (\<lambda>a b. b - a) as bs; total = sum_list (take 8 delta) in
     if total \<le> 0 then Inr (PInt 0)
     else if length delta < 5 then Inl (Exn IndexError ''list index out of range'')
     else Inr (PFloat (fl64 (of_int (delta ! 3 + delta ! 4) / of_int total)))))"

text \<open>The loop that waits for rest: rows so far, the start of the calm period, the last reading.\<close>

type_synonym settling = "json list \<times> rat option \<times> host_sample"

definition rested :: "rat option \<Rightarrow> host_sample \<Rightarrow> bool" where
  "rested since current = (case since of None \<Rightarrow> False | Some t \<Rightarrow> 30 \<le> hs_mono current - t)"

definition settle_next :: "settling \<Rightarrow> host_sample \<Rightarrow> (settling + settling) res" where
  "settle_next st current = (case st of (idle, since, previous) \<Rightarrow>
     rbind (idle_fraction previous current) (\<lambda>f.
     let row = JObj (dset (host_json current) ''idleFraction'' (num_json f));
         since' = (if fl64 (9/10) \<le> num_rat f then (case since of None \<Rightarrow> Some (hs_mono current) | Some t \<Rightarrow> Some t)
           else None) in
     Inr ((if rested since' current then Inr else Inl) (idle @ [row], since', current))))"

definition settle_round :: "string \<Rightarrow> string \<Rightarrow> rat \<Rightarrow> settling \<Rightarrow> ('s, settling + settling) io" where
  "settle_round dir sampler deadline st =
     bnd clock (\<lambda>now.
     if \<not> now < deadline then ret (Inr st)
     else sq (sleep 5) (bnd (host_reading dir sampler) (\<lambda>current. of_res (settle_next st current))))"

definition window_round ::
    "string \<Rightarrow> string \<Rightarrow> rat \<Rightarrow> host_sample list \<Rightarrow> ('s, host_sample list + host_sample list) io" where
  "window_round dir sampler start samples =
     bnd clock (\<lambda>now.
     if \<not> now - start < 60 then ret (Inr samples)
     else bnd clock (\<lambda>now'.
       sq (sleep (min 5 (max (fl64 (1/100)) (60 - (now' - start)))))
       (bnd (host_reading dir sampler) (\<lambda>s. ret (Inl (samples @ [s]))))))"

record window_record =
  wr_window :: int
  wr_seconds :: rat
  wr_stable :: bool
  wr_samples :: "host_sample list"

definition window_brief :: "window_record \<Rightarrow> (string \<times> json) list" where
  "window_brief r = [(''window'', JInt (wr_window r)), (''seconds'', JFloat (wr_seconds r)), (''stable'', JBool (wr_stable r))]"

definition observe_window :: "string \<Rightarrow> string \<Rightarrow> nat \<Rightarrow> ('s, window_record) io" where
  "observe_window dir sampler index =
     bnd (host_reading dir sampler) (\<lambda>first.
     bnd (while_io (window_round dir sampler (hs_mono first)) [first]) (\<lambda>samples.
     bnd (of_res (swap_stable samples)) (\<lambda>steady.
     let r = \<lparr>wr_window = int index + 1, wr_seconds = hs_mono (last samples) - hs_mono first, wr_stable = steady,
          wr_samples = samples\<rparr> in
     sq (audit_save dir (''window-'' @ nat_str (index + 1) @ ''.json'')
       (JObj (window_brief r @ [(''samples'', JList (map (\<lambda>s. JObj (host_json s)) samples))])))
     (bnd (asks w_float_repr) (\<lambda>fr.
      sq (say (dump_text '', '' '': '' fr (JObj (window_brief r)))) (ret r))))))"

definition settle :: "string \<Rightarrow> string \<Rightarrow> ('s, unit) io" where
  "settle dir sampler =
     bnd clock (\<lambda>now. bnd (host_reading dir sampler) (\<lambda>previous.
     bnd (while_io (settle_round dir sampler (now + 120)) ([], None, previous)) (\<lambda>(idle, since, previous).
     sq (audit_save dir ''settling.json'' (JList idle))
     (sq (raise_if (\<not> rested since previous) RuntimeError
       ''host not idle within settling deadline; no load permitted'')
     (say ''Host idle; starting two fresh 60-second swap windows.'')))))"

definition gate_json :: "bool \<Rightarrow> window_record list \<Rightarrow> json" where
  "gate_json steady windows = JObj [(''passed'', JBool steady),
     (''windows'', JList (map (\<lambda>r. JObj [(''window'', JInt (wr_window r)), (''stable'', JBool (wr_stable r)),
       (''seconds'', JFloat (wr_seconds r))]) windows)),
     (''next'', JStr (if steady then ''resource preflight then G0; local characterization only''
       else ''STOP: no G0/U1; retain evidence and report''))]"

definition observe :: "string \<Rightarrow> string \<Rightarrow> ('s, int) io" where
  "observe dir sampler =
     sq (settle dir sampler)
     (bnd (map_io (observe_window dir sampler) [0, 1]) (\<lambda>windows.
      bnd (of_res (and_res (Inr (list_all wr_stable windows)) (swap_stable (concat (map wr_samples windows))))) (\<lambda>steady.
      sq (audit_save dir ''gate.json'' (gate_json steady windows))
      (ret (if steady then 0 else 2)))))"

section \<open>Stopping the approved projects\<close>

definition is_sampler :: "json \<Rightarrow> bool res" where
  "is_sampler x = rbind (json_index x ''Config'') (\<lambda>c.
     and_res (rbind (label_of c JNull project_key) (\<lambda>v. Inr (v = JStr ''phase14-capacity'')))
       (and_res (rbind (label_of c JNull ''com.docker.compose.service'') (\<lambda>v. Inr (v = JStr ''postgres''))) (running x)))"

definition the_sampler :: "json list \<Rightarrow> string res" where
  "the_sampler before = rbind (filter_res is_sampler before) (\<lambda>found. case found of
      [x] \<Rightarrow> container_id x
    | _ \<Rightarrow> Inl (Exn RuntimeError ''dedicated read-only host sampler missing''))"

definition chosen_projects :: "json list \<Rightarrow> string list res" where
  "chosen_projects chosen = map_res (\<lambda>x. rbind (json_at x [''Config'', ''Labels'', project_key]) json_to_str) chosen"

definition mount_volumes :: "json \<Rightarrow> string list res" where
  "mount_volumes x = rbind (rbind (json_index x ''Mounts'') json_to_list) (\<lambda>ms.
     rbind (filter_res (\<lambda>m. rbind (json_index m ''Type'') (\<lambda>v. Inr (v = JStr ''volume''))) ms)
       (map_res (\<lambda>m. rbind (json_index m ''Name'') json_to_str)))"

definition volume_names :: "json list \<Rightarrow> string list res" where
  "volume_names chosen = rbind (map_res mount_volumes chosen) (\<lambda>vs. Inr (sort (remdups (concat vs))))"

definition inspect_volumes :: "string \<Rightarrow> string list \<Rightarrow> ('s, json list) io" where
  "inspect_volumes dir volumes =
     (if volumes = [] then ret [] else docker_list dir ([''volume'', ''inspect''] @ volumes))"

definition save_safe :: "string \<Rightarrow> string \<Rightarrow> json list \<Rightarrow> ('s, unit) io" where
  "save_safe dir name xs = bnd (of_res (map_res safe xs)) (\<lambda>rows. audit_save dir name (JList rows))"

definition save_host :: "string \<Rightarrow> string \<Rightarrow> string \<Rightarrow> ('s, unit) io" where
  "save_host dir sampler name = bnd (host_reading dir sampler) (\<lambda>s. audit_save dir name (JObj (host_json s)))"

definition identity_changed :: "json list \<Rightarrow> string list \<Rightarrow> json list \<Rightarrow> bool res" where
  "identity_changed chosen ids checked = rbind (select checked) (\<lambda>still.
     if length still \<noteq> length chosen then Inr True
     else rbind (map_res container_id checked) (\<lambda>now. Inr (set now \<noteq> set ids)))"

text \<open>Every id is read again just before the stop; only ids authorize it.\<close>

definition stop_chosen :: "string \<Rightarrow> json list \<Rightarrow> string list \<Rightarrow> ('s, nat) io" where
  "stop_chosen dir chosen ids =
     bnd (docker_list dir (''inspect'' # ids)) (\<lambda>checked.
     bnd (of_res (identity_changed chosen ids checked)) (\<lambda>changed.
     sq (raise_if changed RuntimeError ''container identity/label changed'')
     (sq (save_safe dir ''selected-revalidated.json'' checked)
     (bnd (of_res (rbind (filter_res running checked) (map_res container_id))) (\<lambda>up.
      sq (whenever (up \<noteq> []) (bnd (audit_docker dir (''stop'' # up)) (\<lambda>_. ret ())))
      (ret (length up)))))))"

definition by_id :: "json list \<Rightarrow> (string \<times> json) list res" where
  "by_id xs = rbind (map_res (\<lambda>x. rbind (container_id x) (\<lambda>i. rbind (safe x) (\<lambda>r. Inr (i, r)))) xs)
     (\<lambda>rows. Inr (foldl (\<lambda>d (i, r). dset d i r) [] rows))"

definition same_row :: "json option \<Rightarrow> json \<Rightarrow> bool" where
  "same_row current previous = (case current of None \<Rightarrow> False | Some c \<Rightarrow> py_eq c previous)"

definition difference_of :: "string list \<Rightarrow> (string \<times> json) list \<Rightarrow> json \<Rightarrow> json list res" where
  "difference_of ids after x = rbind (container_id x) (\<lambda>i.
     if i \<in> set ids then Inr []
     else rbind (safe x) (\<lambda>previous. Inr (if same_row (dget after i) previous then []
       else [JObj [(''before'', previous), (''after'', dget_or after i JNull)]])))"

definition is_stopped :: "(string \<times> json) list \<Rightarrow> string \<Rightarrow> bool res" where
  "is_stopped after i = (case dget after i of
      None \<Rightarrow> Inr False
    | Some r \<Rightarrow> rbind (json_at r [''state'', ''Running'']) (\<lambda>v. Inr (\<not> truthy v)))"

definition named_volumes :: "json list \<Rightarrow> string list res" where
  "named_volumes vs = map_res (\<lambda>v. rbind (json_index v ''Name'') json_to_str) vs"

record stop_checks =
  sc_stopped :: bool
  sc_retained :: bool
  sc_unchanged :: bool
  sc_differences :: "json list"
  sc_new_ids :: "string list"

definition audit_checks ::
    "json list \<Rightarrow> string list \<Rightarrow> string list \<Rightarrow> json list \<Rightarrow> json list \<Rightarrow> stop_checks res" where
  "audit_checks before ids volumes after retained =
     rbind (by_id after) (\<lambda>rows.
     rbind (map_res (difference_of ids rows) before) (\<lambda>ds.
     rbind (map_res container_id before) (\<lambda>old.
     rbind (all_res (is_stopped rows) ids) (\<lambda>down.
     rbind (named_volumes retained) (\<lambda>names.
     let new = sort (filter (\<lambda>i. i \<notin> set old) (dkeys rows)) in
     Inr \<lparr>sc_stopped = down, sc_retained = (set names = set volumes), sc_unchanged = (concat ds = [] \<and> new = []),
       sc_differences = concat ds, sc_new_ids = new\<rparr>)))))"

definition verdicts :: "stop_checks \<Rightarrow> (string \<times> json) list" where
  "verdicts c = [(''selectedStopped'', JBool (sc_stopped c)), (''volumesRetained'', JBool (sc_retained c)),
     (''otherContainersUnchanged'', JBool (sc_unchanged c))]"

definition all_good :: "stop_checks \<Rightarrow> bool" where
  "all_good c = (sc_stopped c \<and> sc_retained c \<and> sc_unchanged c)"

definition audit_stop ::
    "string \<Rightarrow> string \<Rightarrow> json list \<Rightarrow> string list \<Rightarrow> string list \<Rightarrow> nat \<Rightarrow> ('s, unit) io" where
  "audit_stop dir sampler before ids volumes stopped =
     bnd (inventory dir) (\<lambda>after.
     sq (save_safe dir ''containers-after.json'' after)
     (sq (save_host dir sampler ''host-after.json'')
     (bnd (inspect_volumes dir volumes) (\<lambda>retained.
      sq (audit_save dir ''volumes-after.json'' (JList retained))
      (bnd (of_res (audit_checks before ids volumes after retained)) (\<lambda>c.
       sq (audit_save dir ''stop-checks.json'' (JObj (verdicts c @
         [(''otherDifferences'', JList (sc_differences c)), (''newContainerIds'', JList (map JStr (sc_new_ids c)))])))
       (bnd (asks w_float_repr) (\<lambda>fr.
        sq (say (dump_text '', '' '': '' fr (JObj ([(''stopped'', JInt (int stopped)), (''volumes'', JInt (int (length volumes)))]
          @ verdicts c))))
        (raise_if (\<not> all_good c) RuntimeError ''post-stop audit mismatch; no load permitted'')))))))))"

definition stop_run :: "string \<Rightarrow> ('s, int) io" where
  "stop_run dir =
     sq (mkdir dir)
     (bnd (inventory dir) (\<lambda>before.
      bnd (of_res (select before)) (\<lambda>chosen.
      bnd (of_res (chosen_projects chosen)) (\<lambda>names.
      sq (raise_if (set names \<noteq> set approved_projects) RuntimeError ''one or more authorized projects absent'')
      (bnd (of_res (the_sampler before)) (\<lambda>sampler.
       sq (save_safe dir ''containers-before.json'' before)
       (sq (save_safe dir ''selected-before.json'' chosen)
       (bnd (of_res (volume_names chosen)) (\<lambda>volumes.
        bnd (inspect_volumes dir volumes) (\<lambda>vs.
        sq (audit_save dir ''volumes-before.json'' (JList vs))
        (sq (save_host dir sampler ''host-before.json'')
        (bnd (of_res (map_res container_id chosen)) (\<lambda>ids.
         bnd (stop_chosen dir chosen ids) (\<lambda>stopped.
         sq (audit_stop dir sampler before ids volumes stopped)
         (observe dir sampler)))))))))))))))"

section \<open>Resuming the observation\<close>

definition stop_results :: "string \<Rightarrow> string" where
  "stop_results rt = rt @ ''/performance/results''"

definition load_list :: "string \<Rightarrow> ('s, json list) io" where
  "load_list p = bnd (read_text p) (\<lambda>t. bnd (loads t) (\<lambda>v. of_res (json_to_list v)))"

text \<open>\<open>row['mounts'] = sorted(row['mounts'], ...)\<close>\<close>

definition normalize_mounts :: "json \<Rightarrow> json res" where
  "normalize_mounts row = rbind (rbind (json_index row ''mounts'') json_to_list) (\<lambda>ms.
     rbind (sorted_mounts ms) (\<lambda>sorted. json_put row ''mounts'' (JList sorted)))"

definition row_id :: "json \<Rightarrow> string res" where
  "row_id r = rbind (json_index r ''id'') json_to_str"

definition keyed_rows :: "json list \<Rightarrow> (string \<times> json) list res" where
  "keyed_rows rows = rbind (map_res (\<lambda>r. rbind (row_id r) (\<lambda>i. Inr (i, r))) rows)
     (\<lambda>ps. Inr (foldl (\<lambda>d (i, r). dset d i r) [] ps))"

definition rows_unchanged :: "string list \<Rightarrow> (string \<times> json) list \<Rightarrow> json list \<Rightarrow> bool res" where
  "rows_unchanged ids rows before =
     and_res (all_res (\<lambda>x. rbind (row_id x) (\<lambda>i. Inr (i \<in> set ids \<or> same_row (dget rows i) x))) before)
       (rbind (map_res row_id before) (\<lambda>is. Inr (set (dkeys rows) = set is)))"

definition row_stopped :: "(string \<times> json) list \<Rightarrow> json \<Rightarrow> bool res" where
  "row_stopped rows x = rbind (row_id x) (\<lambda>i. case dget rows i of
      None \<Rightarrow> Inr False
    | Some r \<Rightarrow> rbind (json_index r ''project'') (\<lambda>p. rbind (json_index x ''project'') (\<lambda>q.
        and_res (Inr (py_eq p q)) (and_res (in_projects q)
          (rbind (json_at r [''state'', ''Running'']) (\<lambda>v. Inr (\<not> truthy v)))))))"

definition is_row_sampler :: "json \<Rightarrow> bool res" where
  "is_row_sampler x =
     and_res (rbind (json_index x ''project'') (\<lambda>v. Inr (v = JStr ''phase14-capacity'')))
       (and_res (rbind (json_index x ''name'') (\<lambda>v. Inr (v = JStr ''/phase14-capacity-postgres-1'')))
         (rbind (json_at x [''state'', ''Running'']) (\<lambda>v. Inr (truthy v))))"

definition row_sampler :: "json list \<Rightarrow> string res" where
  "row_sampler current = rbind (filter_res is_row_sampler current) (\<lambda>found. case found of
      [x] \<Rightarrow> row_id x
    | _ \<Rightarrow> Inl (Exn RuntimeError ''dedicated sampler unavailable''))"

definition revalidate_rows :: "json list \<Rightarrow> json list \<Rightarrow> json list \<Rightarrow> (bool \<times> bool) res" where
  "revalidate_rows before selected current =
     rbind (map_res row_id selected) (\<lambda>ids.
     rbind (keyed_rows current) (\<lambda>rows.
     rbind (rows_unchanged ids rows before) (\<lambda>unchanged.
     rbind (all_res (row_stopped rows) selected) (\<lambda>stopped. Inr (stopped, unchanged)))))"

definition revalidated_json :: "bool \<times> bool \<times> bool \<Rightarrow> json" where
  "revalidated_json c = (case c of (stopped, retained, unchanged) \<Rightarrow>
     JObj [(''selectedStopped'', JBool stopped), (''volumesRetained'', JBool retained),
       (''otherContainersUnchanged'', JBool unchanged),
       (''comparison'', JStr ''mount lists normalized by destination/source; all contents still compared'')])"

definition revalidate :: "string \<Rightarrow> ('s, json \<times> json list) io" where
  "revalidate dir =
     bnd (load_list (dir @ ''/containers-before.json'')) (\<lambda>raw.
     bnd (load_list (dir @ ''/selected-before.json'')) (\<lambda>selected.
     bnd (inventory dir) (\<lambda>found.
     bnd (of_res (map_res safe found)) (\<lambda>current.
     bnd (of_res (map_res normalize_mounts raw)) (\<lambda>before.
     bnd (of_res (revalidate_rows before selected current)) (\<lambda>(stopped, unchanged).
     bnd (load_list (dir @ ''/volumes-before.json'')) (\<lambda>oldvol.
     bnd (of_res (named_volumes oldvol)) (\<lambda>names.
     bnd (inspect_volumes dir names) (\<lambda>newvol.
     bnd (of_res (named_volumes newvol)) (\<lambda>kept.
     let c = (stopped, set kept = set names, unchanged) in
     sq (audit_save dir ''stop-checks-revalidated.json'' (revalidated_json c))
     (sq (audit_save dir ''containers-revalidated.json'' (JList current))
     (sq (audit_save dir ''volumes-revalidated.json'' (JList newvol))
     (sq (raise_if (c \<noteq> (True, True, True)) RuntimeError ''revalidation failed; no load permitted'')
     (ret (revalidated_json c, current)))))))))))))))"

definition resume_observation :: "string \<Rightarrow> ('s, int) io" where
  "resume_observation dir =
     bnd (asks w_root) (\<lambda>rt. bnd (resolve_path dir) (\<lambda>real. bnd (resolve_path (stop_results rt)) (\<lambda>results.
     sq (raise_if (path_parent real \<noteq> results \<or> \<not> startswith (path_name dir) ''phase14-resource-release-'') ValueError
       ''invalid evidence directory'')
     (sq (mkdir dir)
     (bnd (revalidate dir) (\<lambda>(checks, current).
      bnd (of_res (row_sampler current)) (\<lambda>sampler.
      sq (save_host dir sampler ''host-revalidated.json'')
      (bnd (asks w_float_repr) (\<lambda>fr.
       sq (say (dump_text '', '' '': '' fr checks)) (observe dir sampler))))))))))"

section \<open>Main\<close>

definition fail_run :: "string \<Rightarrow> exn \<Rightarrow> ('s, int) io" where
  "fail_run dir e =
     sq (mkdir dir)
     (bnd (asks w_float_repr) (\<lambda>fr.
      sq (write_text (dir @ ''/failure.json'')
        (dump_text '', '' '': '' fr (JObj [(''error'', JStr (exn_msg e)), (''loadPermitted'', JBool False)])))
      (sq (say (''[FAIL] '' @ exn_msg e)) (ret 1))))"

definition stop_main :: "bool \<Rightarrow> string option \<Rightarrow> ('s, int) io" where
  "stop_main yes resume =
     (if \<not> yes
      then sq (say ''Read-only plan: exact authorized project labels, stop exact IDs, audit, idle, two fresh 60-second windows.'')
        (ret 0)
      else bnd (case resume of
          Some dir \<Rightarrow> ret dir
        | None \<Rightarrow> bnd (asks w_root) (\<lambda>rt. bnd wall (\<lambda>now. bnd (asks (\<lambda>w. w_compact w now)) (\<lambda>stamp.
            ret (stop_results rt @ ''/phase14-resource-release-'' @ stamp))))) (\<lambda>dir.
        try_except is_exception (if resume = None then stop_run dir else resume_observation dir) (fail_run dir)))"

section \<open>What may be stopped\<close>

text \<open>The events of the script; \<open>yes\<close> is the flag that allows docker at all.\<close>

fun docker_only :: "bool \<Rightarrow> event \<Rightarrow> bool" where
  "docker_only yes (Ran argv i env r) =
     (yes \<and> argv \<noteq> [] \<and> hd argv = ''docker'' \<and> list_all (\<lambda>a. a \<notin> set prohibited) (tl argv))"
| "docker_only yes (Spawned argv r) = False"
| "docker_only yes (Removed p r) = False"
| "docker_only yes (Renamed p q r) = False"
| "docker_only yes (Copied p q r) = False"
| "docker_only yes e = True"

fun stop_ids :: "event \<Rightarrow> string list" where
  "stop_ids (Ran argv i env r) = (if take 2 argv = [''docker'', ''stop''] then drop 2 argv else [])"
| "stop_ids e = []"

text \<open>A container with \<open>p\<close> is in the output of one of the \<open>docker inspect\<close> of \<open>es\<close>.\<close>

definition listed :: "world \<Rightarrow> event list \<Rightarrow> (json \<Rightarrow> bool) \<Rightarrow> bool" where
  "listed w es p = list_ex (\<lambda>e. case e of
      Ran argv i env (Inr q) \<Rightarrow> take 2 argv = [''docker'', ''inspect'']
        \<and> (case w_loads w (p_out q) of Inr (JList cs) \<Rightarrow> list_ex p cs | _ \<Rightarrow> False)
    | _ \<Rightarrow> False) es"

definition authorized :: "world \<Rightarrow> event list \<Rightarrow> string \<Rightarrow> bool" where
  "authorized w es i = (listed w es (\<lambda>c. container_id c = Inr i \<and> approved c = Inr True)
     \<and> listed w es (\<lambda>c. container_id c = Inr i \<and> running c = Inr True))"

definition backed :: "world \<Rightarrow> event list \<Rightarrow> ('s, 'a) io \<Rightarrow> bool" where
  "backed w es m = (\<forall>s h r s' h'. m w (s, h) = (r, s', h') \<longrightarrow>
     (\<exists>t. h' = h @ t \<and> list_all (\<lambda>e. list_all (authorized w (es @ t)) (stop_ids e)) t))"

abbreviation stops_none :: "event \<Rightarrow> bool" where "stops_none \<equiv> \<lambda>e. stop_ids e = []"

lemma listed_append: "listed w (xs @ ys) p \<longleftrightarrow> listed w xs p \<or> listed w ys p"
  by (simp add: listed_def)

lemma authorized_append: "authorized w xs i \<Longrightarrow> authorized w (xs @ ys) i"
  by (auto simp: authorized_def listed_append)

lemma backed_quiet:
  assumes "emits stops_none m"
  shows "backed w es m"
  unfolding backed_def
proof (intro allI impI)
  fix s h r s' h'
  assume run: "m w (s, h) = (r, s', h')"
  from assms run obtain t where "h' = h @ t" "list_all stops_none t" by (rule emitsD)
  then show "\<exists>t. h' = h @ t \<and> list_all (\<lambda>e. list_all (authorized w (es @ t)) (stop_ids e)) t"
    by (auto simp: list_all_iff)
qed

text \<open>What has been learnt from the result of a quiet step is known to the rest.\<close>

definition gained :: "world \<Rightarrow> ('s, 'a) io \<Rightarrow> 'a \<Rightarrow> event list \<Rightarrow> bool" where
  "gained w m x u = (\<exists>s h s'. m w (s, h) = (Ret x, s', h @ u))"

lemma backed_learn:
  assumes m: "emits stops_none m" and f: "\<And>x u. gained w m x u \<Longrightarrow> backed w (es @ u) (f x)"
  shows "backed w es (bnd m f)"
  unfolding backed_def
proof (intro allI impI)
  fix s h r s' h'
  assume run: "bnd m f w (s, h) = (r, s', h')"
  obtain r1 s1 h1 where 1: "m w (s, h) = (r1, s1, h1)" by (metis prod_cases3)
  from m 1 obtain u where u: "h1 = h @ u" "list_all stops_none u" by (rule emitsD)
  have first: "list_all (\<lambda>e. list_all (authorized w es') (stop_ids e)) u" for es'
    using u(2) by (auto simp: list_all_iff)
  show "\<exists>t. h' = h @ t \<and> list_all (\<lambda>e. list_all (authorized w (es @ t)) (stop_ids e)) t"
  proof (cases r1)
    case (Ret x)
    with run 1 have rest: "f x w (s1, h @ u) = (r, s', h')" by (simp add: bnd_def u)
    from 1 Ret u have "gained w m x u" by (auto simp: gained_def)
    from f [OF this] rest obtain t where "h' = (h @ u) @ t"
      "list_all (\<lambda>e. list_all (authorized w ((es @ u) @ t)) (stop_ids e)) t" unfolding backed_def by blast
    with first show ?thesis by (intro exI [of _ "u @ t"]) simp
  qed (use run 1 u first in \<open>auto simp: bnd_def\<close>)
qed

lemma backed_then: "emits stops_none m \<Longrightarrow> (\<And>x u. backed w (es @ u) (f x)) \<Longrightarrow> backed w es (bnd m f)"
  by (rule backed_learn)

lemma backed_then_sq: "emits stops_none m \<Longrightarrow> (\<And>u. backed w (es @ u) k) \<Longrightarrow> backed w es (sq m k)"
  unfolding sq_def by (rule backed_then)

lemma backed_of_res:
  "(\<And>x. r = Inr x \<Longrightarrow> backed w es (f x)) \<Longrightarrow> backed w es (bnd (of_res r) f)"
  by (cases r) (auto simp: backed_def run_simps)

lemma backed_require: "(\<not> b \<Longrightarrow> backed w es k) \<Longrightarrow> backed w es (sq (raise_if b c t) k)"
  by (cases b) (auto simp: backed_def run_simps)

lemma emits_require: "(\<not> b \<Longrightarrow> emits ok k) \<Longrightarrow> emits ok (sq (raise_if b c t) k)"
  by (cases b) (auto simp: emits_def run_simps)

subsection \<open>The steps that stop nothing\<close>

text \<open>
  An interface for what may be claimed of every event but a stop: it holds for each event that
  starts nothing, and for each docker command with permitted arguments other than \<open>stop\<close>.
\<close>

fun silent :: "event \<Rightarrow> bool" where
  "silent (Ran argv i env r) = False"
| "silent (Spawned argv r) = False"
| "silent (Removed p r) = False"
| "silent (Renamed p q r) = False"
| "silent (Copied p q r) = False"
| "silent e = True"

definition clean_args :: "string list \<Rightarrow> bool" where
  "clean_args args = list_all (\<lambda>a. a \<notin> set prohibited) args"

locale audited =
  fixes ok :: "event \<Rightarrow> bool"
  assumes silent_ok: "silent e \<Longrightarrow> ok e"
    and docker_ok: "clean_args args \<Longrightarrow> args \<noteq> [] \<Longrightarrow> hd args \<noteq> ''stop'' \<Longrightarrow> ok (Ran (''docker'' # args) None [] r)"
begin

lemma quiet_prims:
  "emits ok wall" "emits ok clock" "emits ok (sleep d)" "emits ok (say t)" "emits ok (read_text p)"
  "emits ok (write_text p t)" "emits ok (write_json_text p j)" "emits ok (append_text p t)" "emits ok (mkdir p)"
  by (auto intro!: emits_intros silent_ok)

lemma audit_docker_ok: "args \<noteq> [] \<Longrightarrow> hd args \<noteq> ''stop'' \<Longrightarrow> emits ok (audit_docker dir args)"
  unfolding audit_docker_def
  by (intro emits_require emits_bnd emits_sq quiet_prims emits_intros docker_ok)
    (auto simp: clean_args_def list_ex_iff list_all_iff)

lemma docker_list_ok: "args \<noteq> [] \<Longrightarrow> hd args \<noteq> ''stop'' \<Longrightarrow> emits ok (docker_list dir args)"
  unfolding docker_list_def by (intro emits_intros audit_docker_ok)

lemma audit_save_ok: "emits ok (audit_save dir name v)"
  unfolding audit_save_def by (rule quiet_prims)

lemma inventory_ok: "emits ok (inventory dir)"
  unfolding inventory_def Let_def by (intro emits_intros audit_docker_ok docker_list_ok) simp_all

lemma host_reading_ok: "emits ok (host_reading dir sampler)"
  unfolding host_reading_def by (intro emits_bnd emits_sq quiet_prims emits_intros audit_docker_ok) simp_all

lemma volumes_ok: "emits ok (inspect_volumes dir vs)"
  unfolding inspect_volumes_def by (intro emits_intros docker_list_ok) simp_all

lemma saves_ok: "emits ok (save_safe dir name xs)" "emits ok (save_host dir sampler name)"
  unfolding save_safe_def save_host_def by (intro emits_intros audit_save_ok host_reading_ok)+

lemma settle_ok: "emits ok (settle dir sampler)"
proof -
  have "emits ok (settle_round dir sampler d st)" for d st
    unfolding settle_round_def Let_def by (intro emits_bnd emits_sq quiet_prims host_reading_ok emits_intros)
  then show ?thesis
    unfolding settle_def by (intro emits_bnd emits_sq quiet_prims audit_save_ok host_reading_ok emits_intros)
qed

lemma window_ok: "emits ok (observe_window dir sampler n)"
proof -
  have "emits ok (window_round dir sampler d ss)" for d ss
    unfolding window_round_def by (intro emits_bnd emits_sq quiet_prims host_reading_ok emits_intros)
  then show ?thesis
    unfolding observe_window_def Let_def
    by (intro emits_bnd emits_sq quiet_prims audit_save_ok host_reading_ok emits_intros)
qed

lemma observe_ok: "emits ok (observe dir sampler)"
  unfolding observe_def by (intro emits_intros settle_ok window_ok audit_save_ok)

lemma audit_stop_ok: "emits ok (audit_stop dir sampler before ids volumes n)"
  unfolding audit_stop_def
  by (intro emits_bnd emits_sq quiet_prims inventory_ok saves_ok volumes_ok audit_save_ok emits_intros)

lemma resume_ok: "emits ok (resume_observation dir)"
  unfolding resume_observation_def revalidate_def load_list_def Let_def
  by (intro emits_bnd emits_sq quiet_prims inventory_ok saves_ok volumes_ok audit_save_ok observe_ok emits_intros)

lemma fail_ok: "emits ok (fail_run dir e)"
  unfolding fail_run_def by (intro emits_bnd emits_sq quiet_prims emits_intros)

end

interpretation idle: audited stops_none
proof
  show "silent e \<Longrightarrow> stop_ids e = []" for e by (cases e) simp_all
  show "clean_args args \<Longrightarrow> args \<noteq> [] \<Longrightarrow> hd args \<noteq> ''stop'' \<Longrightarrow> stop_ids (Ran (''docker'' # args) None [] r) = []" for args r
    by (cases args) simp_all
qed

interpretation docker: audited "docker_only True"
proof
  show "silent e \<Longrightarrow> docker_only True e" for e by (cases e) simp_all
qed (simp add: clean_args_def)

subsection \<open>The stop\<close>

lemma gained_bnd:
  assumes "gained w (bnd m f) x u" and "emits (\<lambda>_. True) m" and "\<And>y. emits (\<lambda>_. True) (f y)"
  obtains y u1 u2 where "gained w m y u1" "gained w (f y) x u2" "u = u1 @ u2"
proof -
  from assms(1) obtain s h s' where run: "bnd m f w (s, h) = (Ret x, s', h @ u)" by (auto simp: gained_def)
  then obtain y s1 h1 where 1: "m w (s, h) = (Ret y, s1, h1)" "f y w (s1, h1) = (Ret x, s', h @ u)"
    by (metis bnd_RetE prod.collapse)
  from assms(2) 1(1) obtain u1 where u1: "h1 = h @ u1" by (rule emitsD)
  from assms(3) 1(2) obtain u2 where u2: "h @ u = h1 @ u2" by (rule emitsD)
  from u1 u2 have u: "u = u1 @ u2" by simp
  from 1(1) u1 have "gained w m y u1" unfolding gained_def by blast
  moreover from 1(2) have "f y w (s1, h @ u1) = (Ret x, s', (h @ u1) @ u2)" by (simp add: u1 u)
  then have "gained w (f y) x u2" unfolding gained_def by blast
  ultimately show thesis using u by (rule that)
qed

lemma docker_list_learns:
  fixes dir :: string and ids :: "string list"
  defines "m \<equiv> docker_list dir (''inspect'' # ids) :: ('s, json list) io"
  assumes g: "gained w m cs u" and c: "c \<in> set cs" "p c"
  shows "listed w u p"
proof -
  from g obtain s h s' where run: "m w (s, h) = (Ret cs, s', h @ u)"
    unfolding gained_def by blast
  then obtain out where "Ran (''docker'' # ''inspect'' # ids) None [] (Inr out) \<in> set u" "w_loads w (p_out out) = Inr (JList cs)"
    by (auto simp: m_def docker_list_def audit_docker_def prim_defs run_simps split: sum.splits if_splits elim!: json_to_list.elims)
  with c show ?thesis by (force simp: listed_def list_ex_iff)
qed

lemma inventory_learns:
  assumes "gained w (inventory dir :: ('s, json list) io) cs u" and "c \<in> set cs" and "p c"
  shows "listed w u p"
  using assms(1) unfolding inventory_def
proof (rule gained_bnd)
  show "emits (\<lambda>_. True) (audit_docker dir args)" for args
    unfolding audit_docker_def by (intro emits_intros) simp_all
  then show "emits (\<lambda>_. True) (let ids = py_words y in if ids = [] then ret [] else docker_list dir (''inspect'' # ids))" for y
    unfolding Let_def docker_list_def by (intro emits_intros)
next
  fix y u1 u2
  assume "gained w (let ids = py_words y in if ids = [] then ret [] else docker_list dir (''inspect'' # ids) :: ('s, json list) io) cs u2"
    and u: "u = u1 @ u2"
  with assms(2) have "gained w (docker_list dir (''inspect'' # py_words y) :: ('s, json list) io) cs u2"
    by (auto simp: Let_def gained_def run_simps split: if_splits)
  then have "listed w u2 p" using assms(2,3) by (rule docker_list_learns)
  with u show ?thesis by (simp add: listed_append)
qed

lemma filter_res_Inr: "filter_res p xs = Inr ys \<Longrightarrow> set ys = {x \<in> set xs. p x = Inr True}"
proof (induction xs arbitrary: ys)
  case (Cons x xs)
  then obtain b zs where "p x = Inr b" "filter_res p xs = Inr zs" "ys = (if b then x # zs else zs)"
    by (auto simp: res_simps)
  moreover from Cons.IH [OF this(2)] have "set zs = {y \<in> set xs. p y = Inr True}" .
  ultimately show ?case by (cases b) auto
qed simp

lemma map_res_Inr_set: "map_res f xs = Inr ys \<Longrightarrow> y \<in> set ys \<Longrightarrow> \<exists>x \<in> set xs. f x = Inr y"
  by (induction xs arbitrary: ys) (auto simp: res_simps)

lemma stop_event:
  assumes "\<And>i. i \<in> set up \<Longrightarrow> authorized w es i"
  shows "backed w es (audit_docker dir (''stop'' # up) :: ('s, string) io)"
proof -
  have em: "emits (\<lambda>e. set (stop_ids e) \<subseteq> set up) (audit_docker dir (''stop'' # up) :: ('s, string) io)"
    unfolding audit_docker_def by (intro emits_intros) auto
  show ?thesis unfolding backed_def
  proof (intro allI impI)
    fix s h r s' h'
    assume run: "(audit_docker dir (''stop'' # up) :: ('s, string) io) w (s, h) = (r, s', h')"
    from em run obtain t where "h' = h @ t" "list_all (\<lambda>e. set (stop_ids e) \<subseteq> set up) t" by (rule emitsD)
    with assms show "\<exists>t. h' = h @ t \<and> list_all (\<lambda>e. list_all (authorized w (es @ t)) (stop_ids e)) t"
      by (auto simp: list_all_iff intro!: authorized_append)
  qed
qed

lemma backed_bnd_quiet:
  assumes m: "backed w es m" and f: "\<And>x. emits stops_none (f x)"
  shows "backed w es (bnd m f)"
  unfolding backed_def
proof (intro allI impI)
  fix s h r s' h'
  assume run: "bnd m f w (s, h) = (r, s', h')"
  obtain r1 s1 h1 where 1: "m w (s, h) = (r1, s1, h1)" by (metis prod_cases3)
  with m obtain t where t: "h1 = h @ t" "list_all (\<lambda>e. list_all (authorized w (es @ t)) (stop_ids e)) t"
    unfolding backed_def by blast
  show "\<exists>t. h' = h @ t \<and> list_all (\<lambda>e. list_all (authorized w (es @ t)) (stop_ids e)) t"
  proof (cases r1)
    case (Ret x)
    with run 1 have rest: "f x w (s1, h1) = (r, s', h')" by (simp add: bnd_def)
    from f rest obtain u where u: "h' = h1 @ u" "list_all stops_none u" by (rule emitsD)
    with t show ?thesis
      by (intro exI [of _ "t @ u"]) (auto simp: list_all_iff intro: authorized_append [of w "es @ t" _ u, simplified])
  qed (use run 1 t in \<open>auto simp: bnd_def\<close>)
qed

lemma stop_chosen_backed:
  assumes sel: "select before = Inr chosen" and ids: "map_res container_id chosen = Inr ids"
    and seen: "\<And>c p. c \<in> set before \<Longrightarrow> p c \<Longrightarrow> listed w es p"
  shows "backed w es (stop_chosen dir chosen ids :: ('s, nat) io)"
  unfolding stop_chosen_def
proof (rule backed_learn)
  show "emits stops_none (docker_list dir (''inspect'' # ids))" by (rule idle.docker_list_ok) simp_all
  fix checked u
  assume g: "gained w (docker_list dir (''inspect'' # ids) :: ('s, json list) io) checked u"
  have auth: "authorized w ((es @ u) @ u') i"
    if same: "identity_changed chosen ids checked = Inr False" and up: "rbind (filter_res running checked) (map_res container_id) = Inr up"
      and i: "i \<in> set up" for up u' i
  proof -
    from up obtain cs where cs: "filter_res running checked = Inr cs" "map_res container_id cs = Inr up" by (auto simp: res_simps)
    from map_res_Inr_set [OF cs(2) i] filter_res_Inr [OF cs(1)] obtain c where
      c: "c \<in> set checked" "running c = Inr True" "container_id c = Inr i" by auto
    from same obtain now where now: "map_res container_id checked = Inr now" "set now = set ids"
      by (auto simp: identity_changed_def res_simps split: if_splits)
    from c now have "i \<in> set ids" by (metis in_set_conv_nth map_res_Inr_length map_res_Inr_nth sum.inject(2))
    from map_res_Inr_set [OF ids this] filter_res_Inr [OF sel [unfolded select_def]] obtain b where
      "b \<in> set before" "approved b = Inr True" "container_id b = Inr i" by auto
    then have "listed w es (\<lambda>c. container_id c = Inr i \<and> approved c = Inr True)" by (intro seen) auto
    moreover have "listed w u (\<lambda>c. container_id c = Inr i \<and> running c = Inr True)"
      by (rule docker_list_learns [OF g c(1)]) (use c in simp)
    ultimately show ?thesis by (simp add: authorized_def listed_append)
  qed
  show "backed w (es @ u) (bnd (of_res (identity_changed chosen ids checked)) (\<lambda>changed.
      sq (raise_if changed RuntimeError ''container identity/label changed'')
      (sq (save_safe dir ''selected-revalidated.json'' checked)
      (bnd (of_res (rbind (filter_res running checked) (map_res container_id))) (\<lambda>up.
       sq (whenever (up \<noteq> []) (bnd (audit_docker dir (''stop'' # up)) (\<lambda>_. ret ())))
       (ret (length up)))))) :: ('s, nat) io)"
  proof (rule backed_of_res, rule backed_require, rule backed_then_sq, rule idle.saves_ok, rule backed_of_res)
    fix changed up u'
    assume c: "identity_changed chosen ids checked = Inr changed" "\<not> changed"
      and up: "rbind (filter_res running checked) (map_res container_id) = Inr up"
    have "backed w ((es @ u) @ u') (audit_docker dir (''stop'' # up) :: ('s, string) io)"
      by (rule stop_event) (use auth c up in auto)
    then have "backed w ((es @ u) @ u') (whenever b (bnd (audit_docker dir (''stop'' # up)) (\<lambda>_. ret ())) :: ('s, unit) io)" for b
      by (cases b) (auto simp: whenever_def intro: backed_bnd_quiet backed_quiet emits_ret)
    then show "backed w ((es @ u) @ u') (sq (whenever (up \<noteq> []) (bnd (audit_docker dir (''stop'' # up)) (\<lambda>_. ret ())))
        (ret (length up)) :: ('s, nat) io)"
      unfolding sq_def by (rule backed_bnd_quiet) (rule emits_intros)
  qed
qed


lemma stop_run_backed: "backed w [] (stop_run dir :: ('s, int) io)"
proof -
  have tail: "emits stops_none (sq (audit_stop dir sampler before ids volumes n) (observe dir sampler))"
    for sampler before ids volumes n by (intro emits_sq idle.audit_stop_ok idle.observe_ok)
  have seen: "listed w u p"
    if "gained w (inventory dir :: ('s, json list) io) before u" "c \<in> set before" "p c" for before u c p
    by (rule inventory_learns [where p = p, OF that])
  show ?thesis
    unfolding stop_run_def
    apply (rule backed_then_sq, rule idle.quiet_prims)
    apply (rule backed_learn, rule idle.inventory_ok)
    apply (rule backed_of_res, rule backed_of_res, rule backed_require, rule backed_of_res)
    apply (rule backed_then_sq, rule idle.saves_ok, rule backed_then_sq, rule idle.saves_ok)
    apply (rule backed_of_res, rule backed_then, rule idle.volumes_ok)
    apply (rule backed_then_sq, rule idle.audit_save_ok, rule backed_then_sq, rule idle.saves_ok)
    apply (rule backed_of_res, rule backed_bnd_quiet [OF _ tail])
    apply (rule stop_chosen_backed, assumption, assumption)
    apply (simp only: listed_append append_Nil disj_assoc, rule disjI2, rule disjI1, erule (2) seen)
    done
qed


text \<open>Without the flag nothing runs; with it, the stop is the only command the interface leaves out.\<close>

lemma stop_chosen_docker: "emits (docker_only True) (stop_chosen dir chosen ids)"
proof -
  have "emits (docker_only True) (audit_docker dir (''stop'' # up))" for up
    unfolding audit_docker_def
    by (intro emits_require emits_bnd emits_sq docker.quiet_prims emits_intros)
      (auto simp: list_ex_iff list_all_iff)
  then show ?thesis
    unfolding stop_chosen_def by (intro emits_intros docker.docker_list_ok docker.saves_ok) simp_all
qed

lemma stop_main_docker: "emits (docker_only yes) (stop_main yes resume)"
proof (cases yes)
  case True
  have "emits (docker_only True) (stop_run dir)" for dir
    unfolding stop_run_def
    by (intro emits_intros docker.inventory_ok docker.saves_ok docker.volumes_ok docker.audit_save_ok stop_chosen_docker
        docker.audit_stop_ok docker.observe_ok docker.quiet_prims)
  note run = this
  from True show ?thesis
    unfolding stop_main_def
    by (simp only: not_True_eq_False if_False) (intro emits_intros run docker.resume_ok docker.fail_ok, simp_all)
qed (auto simp: stop_main_def intro!: emits_intros)

lemma backed_try:
  assumes m: "backed w es m" and k: "\<And>e. emits stops_none (k e)"
  shows "backed w es (try_except p m k)"
  unfolding backed_def
proof (intro allI impI)
  fix s h r s' h'
  assume run: "try_except p m k w (s, h) = (r, s', h')"
  obtain r1 s1 h1 where 1: "m w (s, h) = (r1, s1, h1)" by (metis prod_cases3)
  with m obtain t where t: "h1 = h @ t" "list_all (\<lambda>e. list_all (authorized w (es @ t)) (stop_ids e)) t"
    unfolding backed_def by blast
  show "\<exists>t. h' = h @ t \<and> list_all (\<lambda>e. list_all (authorized w (es @ t)) (stop_ids e)) t"
  proof (cases "\<exists>e. r1 = Raised e \<and> p e")
    case True
    with run 1 obtain e where rest: "k e w (s1, h1) = (r, s', h')" by (auto simp: try_except_def)
    from k rest obtain u where u: "h' = h1 @ u" "list_all stops_none u" by (rule emitsD)
    with t show ?thesis
      by (intro exI [of _ "t @ u"]) (auto simp: list_all_iff intro: authorized_append [of w "es @ t" _ u, simplified])
  next
    case False
    with run 1 have "h' = h1" by (auto simp: try_except_def split: outcome.splits)
    with t show ?thesis by blast
  qed
qed

lemma backed_more: "backed w [] m \<Longrightarrow> backed w es m"
  unfolding backed_def by (fastforce simp: list_all_iff authorized_def listed_append)

lemma stop_main_backed: "backed w [] (stop_main yes resume)"
proof (cases yes)
  case True
  have "backed w es (try_except is_exception (if resume = None then stop_run dir else resume_observation dir) (fail_run dir))"
    for es dir
    by (rule backed_more, rule backed_try [OF _ idle.fail_ok]) (simp add: stop_run_backed backed_quiet idle.resume_ok)
  note body = this
  from True show ?thesis
    unfolding stop_main_def
    by (simp only: not_True_eq_False if_False) (rule backed_then [OF _ body], auto intro!: emits_intros)
qed (auto simp: stop_main_def intro!: backed_quiet emits_intros)

section \<open>The observation ends\<close>

text \<open>
  A loop whose body goes on only before a deadline, and then comes closer to it by \<open>d\<close> or
  reaches it, ends.
\<close>

lemma deadline_loop:
  assumes body: "\<And>x. halts_on w (f x)"
    and step: "\<And>x s h y s' h'. f x w (s, h) = (Ret (Inl y), s', h') \<Longrightarrow>
      w_clock w h < deadline \<and> (deadline \<le> w_clock w h' \<or> w_clock w h + d \<le> w_clock w h')"
    and d: "0 < d" and left: "deadline - w_clock w h \<le> of_nat n * d"
  shows "fst (loop_io (Suc n) f x w (s, h)) \<noteq> Diverged"
  using left
proof (induction n arbitrary: x s h)
  case 0
  obtain r s1 h1 where r: "f x w (s, h) = (r, s1, h1)" by (metis prod_cases3)
  have "r \<noteq> Diverged" using r halts_onD [OF body] by blast
  moreover have "r \<noteq> Ret (Inl y)" for y using step [of x s h y s1 h1] r 0 by auto
  ultimately show ?case using r by (auto simp: bnd_def ret_def split: outcome.splits sum.splits)
next
  case (Suc n)
  obtain r s1 h1 where r: "f x w (s, h) = (r, s1, h1)" by (metis prod_cases3)
  show ?case
  proof (cases "\<exists>y. r = Ret (Inl y)")
    case True
    then obtain y where y: "r = Ret (Inl y)" by blast
    from step [of x s h y s1 h1] r y have "deadline \<le> w_clock w h1 \<or> w_clock w h + d \<le> w_clock w h1" by simp
    moreover have "(0 :: rat) \<le> of_nat n * d" using d by simp
    ultimately have "deadline - w_clock w h1 \<le> of_nat n * d" using Suc.prems by (auto simp: algebra_simps)
    from Suc.IH [OF this, of y s1] show ?thesis
      unfolding loop_io.simps(2) [of "Suc n"] by (simp add: bnd_def r y del: loop_io.simps(2))
  next
    case False
    have "r \<noteq> Diverged" using r halts_onD [OF body] by blast
    with False show ?thesis using r by (auto simp: bnd_def ret_def split: outcome.splits sum.splits)
  qed
qed


lemma halts_docker: "halts_on w (audit_docker dir args)" "halts_on w (docker_list dir args)" "halts_on w (inventory dir)"
    "halts_on w (host_reading dir sampler)" "halts_on w (inspect_volumes dir vs)"
  unfolding inventory_def Let_def host_reading_def inspect_volumes_def docker_list_def audit_docker_def
  by (intro halts_intros)+

lemma halts_saves: "halts_on w (audit_save dir n v)" "halts_on w (save_safe dir n xs)" "halts_on w (save_host dir sampler n)"
  unfolding audit_save_def save_safe_def save_host_def by (intro halts_intros halts_docker)+

lemma emits_host: "emits (\<lambda>_. True) (host_reading dir sampler)"
  unfolding host_reading_def audit_docker_def by (intro emits_intros) simp_all

lemma settle_step:
  assumes fair: "clock_fair w" and run: "settle_round dir sampler deadline st w (s, h) = (Ret (Inl st'), s', h')"
  shows "w_clock w h < deadline \<and> (deadline \<le> w_clock w h' \<or> w_clock w h + 5 \<le> w_clock w h')"
proof -
  let ?h1 = "h @ [Clocked (w_clock w h)]" let ?k = "\<lambda>current. of_res (settle_next st current)"
  from run have now: "w_clock w h < deadline" and k: "bnd (host_reading dir sampler) ?k w (s, ?h1 @ [Slept 5]) = (Ret (Inl st'), s', h')"
    by (auto simp: settle_round_def clock_def sleep_def run_simps split: if_splits)
  have "emits (\<lambda>_. True) (bnd (host_reading dir sampler) ?k)" by (intro emits_intros emits_host)
  from emitsD [OF this k] obtain t where t: "h' = (?h1 @ [Slept 5]) @ t" by blast
  have "w_clock w h \<le> w_clock w ?h1" by (rule clock_fair_mono [OF fair])
  also have "\<dots> + 5 \<le> w_clock w (?h1 @ [Slept 5])" using fair unfolding clock_fair_def by blast
  also have "\<dots> \<le> w_clock w h'" unfolding t by (rule clock_fair_mono [OF fair])
  finally show ?thesis using now by simp
qed

lemma window_step:
  assumes fair: "clock_fair w" and run: "window_round dir sampler start ss w (s :: 's, h) = (Ret (Inl ss'), s', h')"
  shows "w_clock w h < start + 60 \<and> (start + 60 \<le> w_clock w h' \<or> w_clock w h + 5 \<le> w_clock w h')"
proof -
  let ?h1 = "h @ [Clocked (w_clock w h)]" let ?c = "w_clock w ?h1" let ?h2 = "?h1 @ [Clocked ?c]"
  let ?d = "min 5 (max (fl64 (1/100)) (60 - (?c - start)))" let ?k = "\<lambda>x. ret (Inl (ss @ [x])) :: ('s, host_sample list + host_sample list) io"
  from run have now: "w_clock w h - start < 60" and k: "bnd (host_reading dir sampler) ?k w (s, ?h2 @ [Slept ?d]) = (Ret (Inl ss'), s', h')"
    by (auto simp: window_round_def clock_def sleep_def run_simps split: if_splits)
  have "emits (\<lambda>_. True) (bnd (host_reading dir sampler) ?k)" by (intro emits_intros emits_host)
  from emitsD [OF this k] obtain t where t: "h' = (?h2 @ [Slept ?d]) @ t" by blast
  have 1: "w_clock w h \<le> ?c" by (rule clock_fair_mono [OF fair])
  have "?c \<le> w_clock w ?h2" by (rule clock_fair_mono [OF fair])
  also have "\<dots> + ?d \<le> w_clock w (?h2 @ [Slept ?d])" using fair unfolding clock_fair_def by blast
  also have "\<dots> \<le> w_clock w h'" unfolding t by (rule clock_fair_mono [OF fair])
  finally have "?c + ?d \<le> w_clock w h'" by simp
  moreover have "?d = 5 \<or> 60 - (?c - start) \<le> ?d" by (auto simp: min_def max_def)
  ultimately show ?thesis using now 1 by (auto simp: algebra_simps)
qed


lemma settle_halts:
  assumes fair: "clock_fair w" and fuel: "25 \<le> w_fuel w"
  shows "halts_on w (settle dir sampler :: ('s, unit) io)"
proof -
  have round: "halts_on w (settle_round dir sampler d st)" for d st
    unfolding settle_round_def by (intro halts_intros halts_docker)
  have loop: "fst (while_io (settle_round dir sampler d) st w (s, h)) \<noteq> Diverged" if "d - w_clock w h \<le> 120" for d st s h
  proof -
    obtain n where n: "w_fuel w = Suc n" "24 \<le> n" using fuel by (cases "w_fuel w") auto
    then have "(24 :: rat) \<le> of_nat n" by simp
    with that have "d - w_clock w h \<le> of_nat n * 5" by simp
    from deadline_loop [of w "settle_round dir sampler d", OF round settle_step [OF fair] _ this] show ?thesis
      by (simp add: while_io_def n)
  qed
  let ?k = "\<lambda>(idle, since, previous). sq (audit_save dir ''settling.json'' (JList idle))
     (sq (raise_if (\<not> rested since previous) RuntimeError ''host not idle within settling deadline; no load permitted'')
     (say ''Host idle; starting two fresh 60-second swap windows.'')) :: ('s, unit) io"
  have rest: "halts_on w (?k x)" for x by (cases x) (simp only: prod.case, intro halts_intros halts_saves)
  show ?thesis
    unfolding settle_def halts_on_def
  proof
    fix sh :: "'s \<times> history"
    obtain s h where sh: "sh = (s, h)" by fastforce
    let ?c = "w_clock w h" let ?h1 = "h @ [Clocked ?c]"
    obtain r s2 h2 where r: "host_reading dir sampler w (s, ?h1) = (r, s2, h2)" by (metis prod_cases3)
    from emitsD [OF emits_host r] obtain t where t: "h2 = ?h1 @ t" by blast
    have "?c \<le> w_clock w h2" unfolding t using clock_fair_mono [OF fair, of h] by (metis append_assoc)
    then have l: "fst (while_io (settle_round dir sampler (?c + 120)) st w (s2, h2)) \<noteq> Diverged" for st
      by (intro loop) simp
    show "fst (bnd clock (\<lambda>now. bnd (host_reading dir sampler) (\<lambda>previous.
        bnd (while_io (settle_round dir sampler (now + 120)) ([], None, previous)) ?k)) w sh) \<noteq> Diverged"
    proof (cases r)
      case (Ret p)
      obtain q s3 h3 where q: "while_io (settle_round dir sampler (?c + 120)) ([], None, p) w (s2, h2) = (q, s3, h3)"
        by (metis prod_cases3)
      with l [of "([], None, p)"] have "q \<noteq> Diverged" by auto
      with q r Ret show ?thesis
        using rest by (cases q) (auto simp: sh clock_def run_simps bnd_def halts_on_def eff_def)
    next
      case Diverged
      with r halts_onD [OF halts_docker(4)] show ?thesis by blast
    qed (use r in \<open>simp add: sh clock_def bnd_def eff_def\<close>)
  qed
qed


lemma host_mono:
  assumes fair: "clock_fair w" and run: "host_reading dir sampler w (s, h) = (Ret x, s', h')"
  shows "hs_mono x \<le> w_clock w h'"
proof -
  obtain raw sh1 where rest: "bnd wall (\<lambda>now. bnd (asks (\<lambda>w. w_iso w now)) (\<lambda>utc. bnd clock (\<lambda>mono.
     bnd (of_res (fold_res host_line [] (splitlines raw))) (\<lambda>d.
     sq (raise_if (list_ex (\<lambda>k. \<not> dhas d k) host_required) RuntimeError ''incomplete host resource evidence'')
     (ret \<lparr>hs_utc = utc, hs_mono = mono, hs_fields = d\<rparr>))))) w sh1 = (Ret x, s', h')"
    using run unfolding host_reading_def by (rule bnd_RetE) (rule that)
  obtain s1 h1 where sh1: "sh1 = (s1, h1)" by fastforce
  let ?h2 = "h1 @ [WallClocked (w_wall w h1)]"
  from rest have "hs_mono x = w_clock w ?h2" "h' = ?h2 @ [Clocked (w_clock w ?h2)]"
    by (auto simp: sh1 wall_def clock_def run_simps split: sum.splits if_splits)
  with clock_fair_mono [OF fair, of ?h2] show ?thesis by simp
qed

lemma window_halts:
  assumes fair: "clock_fair w" and fuel: "25 \<le> w_fuel w"
  shows "halts_on w (observe_window dir sampler n :: ('s, window_record) io)"
proof -
  have round: "halts_on w (window_round dir sampler d ss)" for d ss
    unfolding window_round_def by (intro halts_intros halts_docker)
  have loop: "fst (while_io (window_round dir sampler d) ss w (s, h)) \<noteq> Diverged" if "d \<le> w_clock w h" for d ss s h
  proof -
    obtain m where m: "w_fuel w = Suc m" "24 \<le> m" using fuel by (cases "w_fuel w") auto
    then have "(24 :: rat) \<le> of_nat m" by simp
    with that have "d + 60 - w_clock w h \<le> of_nat m * 5" by simp
    from deadline_loop [of w "window_round dir sampler d", OF round window_step [OF fair] _ this] show ?thesis
      by (simp add: while_io_def m)
  qed
  let ?k = "\<lambda>first samples. bnd (of_res (swap_stable samples)) (\<lambda>steady.
     let r = \<lparr>wr_window = int n + 1, wr_seconds = hs_mono (last samples) - hs_mono first, wr_stable = steady,
          wr_samples = samples\<rparr> in
     sq (audit_save dir (''window-'' @ nat_str (n + 1) @ ''.json'')
       (JObj (window_brief r @ [(''samples'', JList (map (\<lambda>s. JObj (host_json s)) samples))])))
     (bnd (asks w_float_repr) (\<lambda>fr.
      sq (say (dump_text '', '' '': '' fr (JObj (window_brief r)))) (ret r)))) :: ('s, window_record) io"
  have rest: "halts_on w (?k a b)" for a b unfolding Let_def by (intro halts_intros halts_saves)
  show ?thesis
    unfolding observe_window_def halts_on_def
  proof
    fix sh :: "'s \<times> history"
    obtain s h where sh: "sh = (s, h)" by fastforce
    obtain r s2 h2 where r: "host_reading dir sampler w (s, h) = (r, s2, h2)" by (metis prod_cases3)
    show "fst (bnd (host_reading dir sampler) (\<lambda>first.
        bnd (while_io (window_round dir sampler (hs_mono first)) [first]) (?k first)) w sh) \<noteq> Diverged"
    proof (cases r)
      case (Ret p)
      from loop [OF host_mono [OF fair r [unfolded Ret]]] obtain q s3 h3 where
        q: "while_io (window_round dir sampler (hs_mono p)) [p] w (s2, h2) = (q, s3, h3)" "q \<noteq> Diverged"
        by (metis fst_conv prod_cases3)
      with r Ret show ?thesis
        using rest by (cases q) (auto simp: sh bnd_def halts_on_def)
    next
      case Diverged
      with r halts_onD [OF halts_docker(4)] show ?thesis by blast
    qed (use r in \<open>simp add: sh bnd_def\<close>)
  qed
qed

lemma observe_halts: "clock_fair w \<Longrightarrow> 25 \<le> w_fuel w \<Longrightarrow> halts_on w (observe dir sampler)"
  unfolding observe_def by (intro halts_intros halts_saves settle_halts window_halts)

lemma stop_main_halts:
  assumes "clock_fair w" and "25 \<le> w_fuel w"
  shows "halts_on w (stop_main yes resume)"
  unfolding stop_main_def stop_run_def stop_chosen_def audit_stop_def resume_observation_def revalidate_def load_list_def
    fail_run_def Let_def
  by (intro halts_intros halts_docker halts_saves observe_halts assms)

lemma may_ret_bnd: "may_ret (bnd m f) w c \<Longrightarrow> \<exists>x. may_ret (f x) w c"
  unfolding may_ret_def by (metis bnd_RetE)

lemma may_ret_sq: "may_ret (sq m k) w c \<Longrightarrow> may_ret k w c"
  unfolding sq_def by (auto dest: may_ret_bnd)

lemma may_ret_ret: "may_ret (ret x) w c \<Longrightarrow> c = x"
  by (auto simp: may_ret_def ret_def)

lemma may_ret_try: "may_ret (try_except p m k) w c \<Longrightarrow> may_ret m w c \<or> (\<exists>e. may_ret (k e) w c)"
  unfolding may_ret_def
proof (elim exE)
  fix sh sh'
  assume run: "try_except p m k w sh = (Ret c, sh')"
  obtain r sh1 where 1: "m w sh = (r, sh1)" by (metis surj_pair)
  with run have "m w sh = (Ret c, sh') \<or> (\<exists>e. k e w sh1 = (Ret c, sh'))"
    by (cases r) (auto simp: try_except_def split: if_splits)
  then show "(\<exists>sh sh'. m w sh = (Ret c, sh')) \<or> (\<exists>e sh sh'. k e w sh = (Ret c, sh'))" by blast
qed

lemma observe_codes: "may_ret (observe dir sampler) w c \<Longrightarrow> c \<in> {0, 2}"
  unfolding observe_def
  by ((drule may_ret_sq | drule may_ret_bnd | erule exE)+, drule may_ret_ret) (simp split: if_splits)

lemma stop_run_codes: "may_ret (stop_run dir) w c \<Longrightarrow> c \<in> {0, 2}"
  unfolding stop_run_def by ((drule may_ret_sq | drule may_ret_bnd | erule exE)+) (erule observe_codes)

lemma resume_codes: "may_ret (resume_observation dir) w c \<Longrightarrow> c \<in> {0, 2}"
  unfolding resume_observation_def
  by ((drule may_ret_sq | drule may_ret_bnd | erule exE | simp only: split_beta)+) (erule observe_codes)

lemma fail_codes: "may_ret (fail_run dir e) w c \<Longrightarrow> c = 1"
  unfolding fail_run_def by ((drule may_ret_sq | drule may_ret_bnd | erule exE)+) (erule may_ret_ret)

lemma stop_main_codes:
  assumes "may_ret (stop_main yes resume :: ('s, int) io) w c"
  shows "c \<in> {0, 1, 2}"
proof (cases yes)
  case True
  with assms obtain dir where "may_ret (try_except is_exception (if resume = None then stop_run dir else resume_observation dir)
      (fail_run dir) :: ('s, int) io) w c"
    unfolding stop_main_def by (simp only: not_True_eq_False if_False) (drule may_ret_bnd, blast)
  from may_ret_try [OF this] show ?thesis
    using stop_run_codes resume_codes fail_codes by (fastforce split: if_splits)
qed (use assms in \<open>auto simp: stop_main_def dest!: may_ret_sq may_ret_ret\<close>)

section \<open>Properties\<close>


text \<open>
  \textbf{C38.} The script ends when the clock is fair: the settling loop takes at most 25 rounds and
  each window at most 25, and then the exit code is zero, one or two, or an exception is left.
\<close>

theorem stop_observation_ends:
  assumes "clock_fair w" and "25 \<le> w_fuel w"
  shows "case fst ((stop_main yes resume :: ('s, int) io) w sh) of Ret c \<Rightarrow> c \<in> {0, 1, 2} | Raised e \<Rightarrow> True | Diverged \<Rightarrow> False"
proof -
  obtain r sh' where Pair: "(stop_main yes resume :: ('s, int) io) w sh = (r, sh')" by (metis surj_pair)
  have "r \<noteq> Diverged" using Pair halts_onD [OF stop_main_halts [OF assms]] by blast
  moreover have "c \<in> {0, 1, 2}" if "r = Ret c" for c
    using stop_main_codes [OF may_retI] Pair that by blast
  ultimately show ?thesis unfolding Pair by (cases r) simp_all
qed

theorem stop_observation_ends_witness:
  "case fst (stop_main True None quiet_world ((), [])) of Ret c \<Rightarrow> c \<in> {0, 1, 2} | Raised e \<Rightarrow> True | Diverged \<Rightarrow> False"
  by (rule stop_observation_ends [OF quiet_clock_fair]) (simp add: quiet_world_def)

text \<open>A host with one container of each approved project and a running sampler.\<close>

definition sample_container :: "string \<Rightarrow> string \<Rightarrow> string \<Rightarrow> json" where
  "sample_container i project service = JObj [(''Id'', JStr i), (''Name'', JStr i), (''Image'', JStr i),
     (''RestartCount'', JInt 0), (''State'', JObj [(''Running'', JBool True)]), (''Mounts'', JList []),
     (''NetworkSettings'', JObj []), (''HostConfig'', JObj []),
     (''Config'', JObj [(''Image'', JStr i), (''Labels'', JObj [(project_key, JStr project),
       (''com.docker.compose.service'', JStr service)])])]"

definition sample_containers :: "json list" where
  "sample_containers = [sample_container ''a'' ''phase12-2b-gate'' ''x'', sample_container ''b'' ''phase12-approved'' ''x'',
     sample_container ''c'' ''phase12-gate'' ''x'', sample_container ''d'' ''phase14-capacity'' ''postgres'']"

definition gate_world :: world where
  "gate_world = quiet_world\<lparr>
     w_run := \<lambda>h argv i. Inr \<lparr>p_rc = 0, p_out = (if argv ! 1 = ''ps'' then ''a b c d''
       else if argv ! 1 = ''exec'' then join_with [nl] [''cpu 1 1 1 1 1'', ''pswpin 0'', ''pswpout 0'', ''MemAvailable: 1'', ''SwapFree: 1'']
       else if length argv = 5 then ''three'' else ''all''), p_err = []\<rparr>,
     w_loads := \<lambda>t. Inr (JList (if t = ''three'' then take 3 sample_containers else sample_containers))\<rparr>"

definition stops_of :: "history \<Rightarrow> string list list" where
  "stops_of h = filter (\<lambda>is. is \<noteq> []) (map stop_ids h)"

lemma gate_stops: "stops_of (snd (snd (stop_main True None gate_world ((), [])))) = [[''a'', ''b'', ''c'']]"
  by code_simp


end
