(* ===== verification/Topology.thy ===== *)
theory Topology
  imports Evidence Stop_Projects
begin

text \<open>
  \<open>performance/scripts/phase14_topology.py\<close>: the configuration of the two hosts, the commands
  sent to either of them, the records kept of those commands, and the ownership of containers.
  The hash of a value (\<open>digest\<close>) and \<open>datetime.fromisoformat\<close> are parameters. A command is a
  list of texts. The output that goes to a file is appended when the process has ended.
\<close>

section \<open>Redaction\<close>

definition url_mark :: string where "url_mark = ''<redacted-url>''"

definition url_here :: "string \<Rightarrow> string option" where
  "url_here s = (let rest = (if startswith s ''http://'' then drop 7 s else if startswith s ''https://'' then drop 8 s else [])
     in if dropWhile (\<lambda>c. is_space c \<or> c = dquot \<or> c = quot) rest = rest \<and> rest \<noteq> []
        then Some (dropWhile (\<lambda>c. \<not> (is_space c \<or> c = dquot \<or> c = quot)) rest) else None)"

text \<open>A number of one to three digits, and what follows it.\<close>

definition octet_text :: "string \<Rightarrow> string option" where
  "octet_text s = (let d = takeWhile is_digit s in
     if d = [] \<or> 3 < length d then None else Some (dropWhile is_digit s))"

definition dotted :: "string \<Rightarrow> string option" where
  "dotted s = (case octet_text s of Some (c # cs) \<Rightarrow> if c = CHR ''.'' then Some cs else None | _ \<Rightarrow> None)"

definition address_here :: "string \<Rightarrow> string option" where
  "address_here s =
     Option.bind (dotted s) (\<lambda>a. Option.bind (dotted a) (\<lambda>b. Option.bind (dotted b) (\<lambda>c.
     Option.bind (octet_text c) (\<lambda>rest. case rest of [] \<Rightarrow> Some [] | x # _ \<Rightarrow> if word_char x then None else Some rest))))"

definition secret_words :: "string list" where
  "secret_words = [''password'', ''passwd'', ''token'', ''secret'', ''cookie'', ''csrf'']"

text \<open>
  The last \<open>=\<close> or \<open>:\<close> of the text up to the next white space that still has a character behind
  it: the text through it is kept, the rest of the word is the secret.
\<close>

definition last_mark :: "string \<Rightarrow> nat option" where
  "last_mark run = (let is = filter (\<lambda>i. run ! i = CHR ''='' \<or> run ! i = CHR '':'') [0..<length run - 1]
     in if is = [] then None else Some (last is))"

definition secret_at :: "string \<Rightarrow> string \<Rightarrow> (string \<times> string) option" where
  "secret_at s keyword =
     (if startswith (py_lower s) keyword
      then (let run = takeWhile (\<lambda>c. \<not> is_space c) (drop (length keyword) s);
                rest = dropWhile (\<lambda>c. \<not> is_space c) (drop (length keyword) s) in
        map_option (\<lambda>i. (take (length keyword) s @ take (Suc i) run @ ''<redacted>'', rest)) (last_mark run))
      else None)"

definition secret_here :: "string \<Rightarrow> (string \<times> string) option" where
  "secret_here s = (case List.map_filter (secret_at s) secret_words of [] \<Rightarrow> None | p # _ \<Rightarrow> Some p)"

text \<open>
  \<open>re.sub\<close>: at each place the matcher gives the replacement and the rest of the text; it is told
  whether the character before is a word character.
\<close>

fun sub_from :: "nat \<Rightarrow> (bool \<Rightarrow> string \<Rightarrow> (string \<times> string) option) \<Rightarrow> bool \<Rightarrow> string \<Rightarrow> string" where
  "sub_from 0 m b s = []"
| "sub_from (Suc n) m b s = (case s of
      [] \<Rightarrow> []
    | c # cs \<Rightarrow> (case m b s of
          Some (t, rest) \<Rightarrow> t @ sub_from n m (case rest of [] \<Rightarrow> b | _ \<Rightarrow> word_char (s ! (length s - length rest - 1))) rest
        | None \<Rightarrow> c # sub_from n m (word_char c) cs))"

definition re_sub :: "(bool \<Rightarrow> string \<Rightarrow> (string \<times> string) option) \<Rightarrow> string \<Rightarrow> string" where
  "re_sub m s = sub_from (Suc (length s)) m False s"

definition redact :: "string \<Rightarrow> string" where
  "redact s =
     (let a = re_sub (\<lambda>_ t. map_option (Pair url_mark) (url_here t)) s;
          b = re_sub (\<lambda>word t. if word then None else map_option (Pair ''<address>'') (address_here t)) a in
      re_sub (\<lambda>_ t. secret_here t) b)"

section \<open>Topology\<close>

definition workdir :: string where "workdir = ''/srv/phase14/repo''"

definition topology_fields :: "string list" where
  "topology_fields = [''mode'', ''sutSshAlias'', ''sutWorkdir'', ''sutBaseUrl'', ''sutBindAddress'',
     ''sutProject'', ''loadProject'', ''loadDockerPrefix'', ''resultRoot'']"

text \<open>The full match of \<open>phase14-[a-z0-9]+(?:-[a-z0-9]+)*-role\<close>.\<close>

definition role_project :: "string \<Rightarrow> string \<Rightarrow> bool" where
  "role_project role name =
     (startswith name ''phase14-'' \<and> endswith name (CHR ''-'' # role) \<and> 9 + length role < length name
      \<and> list_all (\<lambda>p. p \<noteq> [] \<and> list_all (\<lambda>c. is_lower c \<or> is_digit c) p)
          (split_on CHR ''-'' (take (length name - 9 - length role) (drop 8 name))))"

text \<open>\<open>ipaddress.IPv4Address\<close> of a text or an integer.\<close>

definition octet :: "string \<Rightarrow> nat option" where
  "octet s = (if s = [] \<or> \<not> list_all is_digit s \<or> 3 < length s \<or> (hd s = CHR ''0'' \<and> 1 < length s) then None
     else if digits_val s \<le> 255 then Some (digits_val s) else None)"

fun all_some :: "'a option list \<Rightarrow> 'a list option" where
  "all_some [] = Some []"
| "all_some (None # xs) = None"
| "all_some (Some x # xs) = map_option ((#) x) (all_some xs)"

definition address_value :: "nat list \<Rightarrow> nat" where
  "address_value os = foldl (\<lambda>v d. 256 * v + d) 0 os"

definition ipv4_text :: "string \<Rightarrow> nat option" where
  "ipv4_text s = (let parts = split_on CHR ''.'' s in
     if length parts \<noteq> 4 then None else map_option address_value (all_some (map octet parts)))"

definition ipv4 :: "json \<Rightarrow> nat res" where
  "ipv4 v = (case (case v of
        JStr s \<Rightarrow> ipv4_text s
      | JInt i \<Rightarrow> if 0 \<le> i \<and> i < 2 ^ 32 then Some (nat i) else None
      | JBool b \<Rightarrow> Some (if b then 1 else 0)
      | _ \<Rightarrow> None) of
      Some n \<Rightarrow> Inr n
    | None \<Rightarrow> Inl (Exn ValueError ''not an IPv4 address''))"

definition ipv4_str :: "nat \<Rightarrow> string" where
  "ipv4_str n = join_with ''.'' (map nat_str [n div 2 ^ 24, n div 2 ^ 16 mod 256, n div 2 ^ 8 mod 256, n mod 256])"

definition private_address :: "nat \<Rightarrow> bool" where
  "private_address n = (n div 2 ^ 24 = 10 \<or> n div 2 ^ 20 = 172 * 16 + 1 \<or> n div 2 ^ 16 = 192 * 256 + 168)"

text \<open>
  \<open>urllib.parse.urlsplit\<close>; a host in brackets, which can only be an IPv6 address, raises here.
\<close>

record url_parts =
  up_scheme :: string
  up_netloc :: string
  up_path :: string
  up_query :: string
  up_fragment :: string

definition scheme_char :: "char \<Rightarrow> bool" where
  "scheme_char c = (is_digit c \<or> is_lower c \<or> is_upper c \<or> c \<in> set ''+-.'')"

definition clean_url :: "string \<Rightarrow> string" where
  "clean_url s = filter (\<lambda>c. c \<notin> {tab, cr, nl}) (dropWhile (\<lambda>c. (of_char c :: nat) \<le> 32) s)"

definition split_scheme :: "string \<Rightarrow> string \<times> string" where
  "split_scheme u = (case split_once '':'' u of
      Some (a, b) \<Rightarrow> if a \<noteq> [] \<and> (is_lower (hd a) \<or> is_upper (hd a)) \<and> list_all scheme_char a then (py_lower a, b) else ([], u)
    | None \<Rightarrow> ([], u))"

text \<open>The text before the first occurrence of a mark and the text behind it.\<close>

definition cut :: "string \<Rightarrow> string \<Rightarrow> string \<times> string" where
  "cut mark u = (case split_once mark u of Some ab \<Rightarrow> ab | None \<Rightarrow> (u, []))"

definition urlsplit :: "string \<Rightarrow> url_parts res" where
  "urlsplit s =
     (let (scheme, u) = split_scheme (clean_url s);
          stop = (\<lambda>c. c \<in> set ''/?#'');
          (netloc, v) = (if startswith u ''//'' then (takeWhile (\<lambda>c. \<not> stop c) (drop 2 u), dropWhile (\<lambda>c. \<not> stop c) (drop 2 u))
            else ([], u));
          (v', fragment) = cut ''#'' v; (path, query) = cut ''?'' v' in
      if CHR ''['' \<in> set netloc \<or> CHR '']'' \<in> set netloc then Inl (Exn ValueError ''Invalid IPv6 URL'')
      else Inr \<lparr>up_scheme = scheme, up_netloc = netloc, up_path = path, up_query = query, up_fragment = fragment\<rparr>)"

text \<open>What is before the last \<open>@\<close> of the network location, if there is one, and what is behind it.\<close>

definition user_host :: "string \<Rightarrow> string option \<times> string" where
  "user_host netloc = (let host = rev (takeWhile (\<lambda>c. c \<noteq> CHR ''@'') (rev netloc)) in
     if CHR ''@'' \<in> set netloc then (Some (take (length netloc - length host - 1) netloc), host) else (None, host))"

definition url_host :: "url_parts \<Rightarrow> string" where
  "url_host u = py_lower (fst (cut '':'' (snd (user_host (up_netloc u)))))"

definition url_port :: "url_parts \<Rightarrow> nat option res" where
  "url_port u = (let p = snd (cut '':'' (snd (user_host (up_netloc u)))) in
     if p = [] then Inr None
     else if \<not> list_all is_digit p then Inl (Exn ValueError ''Port could not be cast to integer value'')
     else if digits_val p \<le> 65535 then Inr (Some (digits_val p)) else Inl (Exn ValueError ''Port out of range 0-65535''))"

definition has_user :: "url_parts \<Rightarrow> bool" where
  "has_user u = (case fst (user_host (up_netloc u)) of None \<Rightarrow> False
     | Some info \<Rightarrow> fst (cut '':'' info) \<noteq> [] \<or> snd (cut '':'' info) \<noteq> [])"

definition bare_url :: "string \<Rightarrow> url_parts \<Rightarrow> bool" where
  "bare_url s u = (\<not> has_user u \<and> up_path u = [] \<and> up_query u = [] \<and> up_fragment u = []
     \<and> CHR ''?'' \<notin> set s \<and> CHR ''#'' \<notin> set s)"

definition same_port :: "nat option \<Rightarrow> json \<Rightarrow> bool" where
  "same_port p v = py_eq (case p of None \<Rightarrow> JNull | Some n \<Rightarrow> JInt (int n)) v"

text \<open>Whatever is wrong with the target, the exception is a \<open>ValueError\<close>, but for missing targets.\<close>

definition check_target_url :: "json \<Rightarrow> json \<Rightarrow> json \<Rightarrow> unit res" where
  "check_target_url bind_address base_url targets =
     rbind (ipv4 bind_address) (\<lambda>address.
     rbind (case base_url of JStr s \<Rightarrow> Inr s | _ \<Rightarrow> Inl (Exn ValueError ''invalid target type'')) (\<lambda>s.
     rbind (urlsplit s) (\<lambda>u.
     rbind (require (private_address address \<and> up_scheme u = ''http'' \<and> url_host u = ipv4_str address) ValueError
       ''invalid private target or port'') (\<lambda>_.
     rbind (url_port u) (\<lambda>port.
     rbind (case json_at targets [''environment'', ''localPort''] of
         Inl e \<Rightarrow> Inl (if exn_cls e = TypeError then Exn ValueError ''invalid target type'' else e)
       | Inr v \<Rightarrow> Inr v) (\<lambda>local_port.
     rbind (require (same_port port local_port) ValueError ''invalid private target or port'') (\<lambda>_.
     require (bare_url s u) ValueError ''URL must contain only private host and frozen port'')))))))"

text \<open>\<open>PurePosixPath\<close>: its root and its parts.\<close>

definition path_root :: "string \<Rightarrow> string" where
  "path_root p = (if startswith p ''//'' \<and> \<not> startswith p ''///'' then ''//'' else if startswith p ''/'' then ''/'' else [])"

definition path_parts :: "string \<Rightarrow> string list" where
  "path_parts p = filter (\<lambda>q. q \<noteq> [] \<and> q \<noteq> ''.'') (split_on CHR ''/'' p)"

definition within_path :: "string \<Rightarrow> string \<Rightarrow> bool" where
  "within_path p base = (path_root p \<noteq> [] \<and> ''..'' \<notin> set (path_parts p) \<and> path_root p = path_root base
     \<and> take (length (path_parts base)) (path_parts p) = path_parts base)"

definition check_project :: "dict \<Rightarrow> string \<Rightarrow> unit res" where
  "check_project v role = rbind (dindex v (role @ ''Project'')) (\<lambda>name.
     require (case name of JStr s \<Rightarrow> role_project role s | _ \<Rightarrow> False) ValueError ''invalid role project'')"

definition parse_topology :: "string \<Rightarrow> json \<Rightarrow> json \<Rightarrow> dict res" where
  "parse_topology base values targets = (case values of
      JObj v \<Rightarrow>
        rbind (require (set (dkeys v) = set topology_fields) ValueError ''topology fields missing or unknown'') (\<lambda>_.
        rbind (require (dget v ''mode'' = Some (JStr ''dual'') \<and> dget v ''sutSshAlias'' = Some (JStr ''phase14-sut'')
          \<and> dget v ''sutWorkdir'' = Some (JStr workdir)) ValueError ''invalid fixed topology identity'') (\<lambda>_.
        rbind (dindex v ''loadDockerPrefix'') (\<lambda>pre.
        rbind (require (pre \<in> {JList [], JList [JStr ''sudo'']}) ValueError ''unsafe Docker prefix'') (\<lambda>_.
        rbind (check_project v ''sut'') (\<lambda>_. rbind (check_project v ''load'') (\<lambda>_.
        rbind (require (dget v ''sutProject'' \<noteq> dget v ''loadProject'') ValueError ''role projects overlap'') (\<lambda>_.
        rbind (dindex v ''sutBindAddress'') (\<lambda>a. rbind (dindex v ''sutBaseUrl'') (\<lambda>b.
        rbind (check_target_url a b targets) (\<lambda>_.
        rbind (rbind (dindex v ''resultRoot'') json_to_str) (\<lambda>results.
        rbind (require (within_path results (base @ ''/performance/results'')) ValueError ''results escape repository'') (\<lambda>_.
        Inr v))))))))))))
    | _ \<Rightarrow> Inl (Exn ValueError ''topology fields missing or unknown''))"

definition public_topology :: "(json \<Rightarrow> string) \<Rightarrow> dict \<Rightarrow> dict res" where
  "public_topology digest v =
     rbind (dindex v ''sutSshAlias'') (\<lambda>alias. rbind (dindex v ''sutProject'') (\<lambda>sut.
     rbind (dindex v ''loadProject'') (\<lambda>load. rbind (dindex v ''sutBindAddress'') (\<lambda>address.
     Inr [(''mode'', JStr ''dual''), (''sutRole'', alias), (''loadRole'', JStr ''phase14-load''),
       (''sutProject'', sut), (''loadProject'', load), (''portSource'', JStr ''targets.environment.localPort''),
       (''privateAddressValidated'', JBool True), (''addressSha256'', JStr (digest address)),
       (''fingerprint'', JStr (digest (JObj v)))]))))"

section \<open>Commands\<close>

datatype role = Sut | Load

fun role_name :: "role \<Rightarrow> string" where
  "role_name Sut = ''sut''"
| "role_name Load = ''load''"

text \<open>\<open>shlex.quote\<close> and \<open>shlex.join\<close>.\<close>

definition shell_safe :: "char \<Rightarrow> bool" where
  "shell_safe c = (is_digit c \<or> is_lower c \<or> is_upper c \<or> c \<in> set ''@%+=:,./_-'')"

definition shlex_quote :: "string \<Rightarrow> string" where
  "shlex_quote s = (if s = [] then [quot, quot]
     else if list_all shell_safe s then s
     else quot # concat (map (\<lambda>c. if c = quot then [quot, dquot, quot, dquot, quot] else [c]) s) @ [quot])"

definition shlex_join :: "string list \<Rightarrow> string" where
  "shlex_join xs = join_with '' '' (map shlex_quote xs)"

definition env_words :: "(string \<times> string) list \<Rightarrow> string list" where
  "env_words env = map (\<lambda>(k, v). k @ CHR ''='' # v) env"

definition ssh_options :: "string list" where
  "ssh_options = [''ssh'', ''-o'', ''BatchMode=yes'', ''-o'', ''StrictHostKeyChecking=yes'', ''-o'', ''ConnectTimeout=10'', ''phase14-sut'']"

definition executor_argv :: "role \<Rightarrow> string list \<Rightarrow> (string \<times> string) list \<Rightarrow> string list res" where
  "executor_argv role args env =
     rbind (require (args \<noteq> [] \<and> list_all (\<lambda>a. CHR 0x00 \<notin> set a) args) ValueError ''command requires string argument array'') (\<lambda>_.
     Inr (if role = Sut
       then ssh_options @ [''cd '' @ shlex_quote workdir @ '' && exec '' @ shlex_join (''env'' # env_words env @ args)]
       else if hd args = ''sudo''
       then (let variables = env_words (filter (\<lambda>(k, v). startswith k ''PHASE14_'' \<or> k = ''COMPOSE_IGNORE_ORPHANS'') env) in
         [''sudo'', ''-n''] @ (if variables \<noteq> [] then ''env'' # variables else []) @ tl args)
       else args))"

definition safe_args :: "string list \<Rightarrow> string list" where
  "safe_args args = (let safe = map redact args in
     if list_ex (\<lambda>a. a \<in> {''psql'', ''pg_restore'', ''python3''}) args
     then take 5 safe @ [''<stdin-or-program-omitted>''] else safe)"

text \<open>Neither the input nor the environment of a command is recorded.\<close>

definition executor_record ::
    "role \<Rightarrow> string \<Rightarrow> string list \<Rightarrow> string \<Rightarrow> int option \<Rightarrow> rat \<Rightarrow> dict \<Rightarrow> ('s, unit) io" where
  "executor_record role log_path args began code elapsed extra =
     sq (mkdir (path_parent log_path))
     (bnd (asks w_float_repr) (\<lambda>fr.
      append_text log_path (dump_text '', '' '': '' fr (JObj (foldl (\<lambda>d (k, v). dset d k v)
        [(''role'', JStr (role_name role)), (''argv'', JList (map JStr (safe_args args))), (''startedAt'', JStr began),
         (''exitCode'', json_opt_int code), (''seconds'', JFloat elapsed)] extra)) @ [nl])))"

record command_options =
  co_input :: "string option"
  co_input_file :: "string option"
  co_output_file :: "string option"
  co_check :: bool
  co_env :: "(string \<times> string) list"

definition executor_result ::
    "role \<Rightarrow> string \<Rightarrow> string list \<Rightarrow> command_options \<Rightarrow> string \<Rightarrow> rat \<Rightarrow> string option \<Rightarrow> ('s, proc) io" where
  "executor_result role log_path args opts began start inp =
     bnd (of_res (executor_argv role args (co_env opts))) (\<lambda>argv.
     bnd (run_proc argv inp (if role = Load then map (\<lambda>(k, v). (k, Some v)) (co_env opts) else [])) (\<lambda>result.
     sq (case co_output_file opts of None \<Rightarrow> ret () | Some p \<Rightarrow> append_text p (p_out result))
     (bnd clock (\<lambda>now.
      sq (executor_record role log_path args began (Some (p_rc result)) (now - start)
        [(''errorType'', if p_rc result \<noteq> 0 then JStr ''command_failed'' else JNull)])
      (sq (raise_if (co_check opts \<and> p_rc result \<noteq> 0) RuntimeError
        (role_name role @ '' command failed (exit '' @ int_str (p_rc result) @ ''); sensitive stderr withheld''))
      (ret result))))))"

definition executor_run :: "role \<Rightarrow> string \<Rightarrow> string list \<Rightarrow> command_options \<Rightarrow> ('s, proc) io" where
  "executor_run role log_path args opts =
     bnd wall (\<lambda>t. bnd (asks (\<lambda>w. w_iso w t)) (\<lambda>began. bnd clock (\<lambda>start.
     bnd (case co_input_file opts of None \<Rightarrow> ret (co_input opts) | Some p \<Rightarrow> bnd (read_text p) (\<lambda>s. ret (Some s))) (\<lambda>inp.
     sq (case co_output_file opts of None \<Rightarrow> ret () | Some p \<Rightarrow> write_text p [])
     (try_except (caught_by [TimeoutExpired]) (executor_result role log_path args opts began start inp)
       (\<lambda>e. bnd clock (\<lambda>now.
         sq (executor_record role log_path args began (Some 124) (now - start) [(''errorType'', JStr ''timeout'')])
         (raise (Exn RuntimeError (role_name role @ '' command timed out''))))))))))"

section \<open>Ownership of containers\<close>

record expected =
  ex_run :: "string option"
  ex_name :: "string option"
  ex_image :: "string option"
  ex_created_after :: "rat option"

definition owned_label :: "json \<Rightarrow> string \<Rightarrow> json res" where
  "owned_label item k = rbind (json_get item ''Config'' (JObj [])) (\<lambda>c. label_of c JNull k)"

definition matches :: "string option \<Rightarrow> json res \<Rightarrow> string \<Rightarrow> unit res" where
  "matches wanted found message = (case wanted of
      None \<Rightarrow> Inr ()
    | Some s \<Rightarrow> rbind found (\<lambda>v. require (v = JStr s) ValueError message))"

definition service_in :: "string list \<Rightarrow> json \<Rightarrow> bool res" where
  "service_in services v = (case v of
      JStr s \<Rightarrow> Inr (s \<in> set services)
    | JList xs \<Rightarrow> Inl (Exn TypeError ''unhashable type'')
    | JObj d \<Rightarrow> Inl (Exn TypeError ''unhashable type'')
    | _ \<Rightarrow> Inr False)"

definition created_time :: "(string \<Rightarrow> rat res) \<Rightarrow> json \<Rightarrow> rat res" where
  "created_time fromiso item = rbind (rbind (json_index item ''Created'') (\<lambda>v. case v of
      JStr s \<Rightarrow> Inr s | _ \<Rightarrow> Inl (Exn AttributeError ''replace''))) (\<lambda>s. fromiso (py_replace ''Z'' ''+00:00'' s))"

definition verify_container ::
    "(string \<Rightarrow> rat res) \<Rightarrow> json \<Rightarrow> string \<Rightarrow> string list \<Rightarrow> expected \<Rightarrow> json res" where
  "verify_container fromiso item project services ex =
     rbind (owned_label item project_key) (\<lambda>p.
     rbind (and_res (Inr (p = JStr project)) (rbind (owned_label item ''com.docker.compose.service'') (service_in services))) (\<lambda>own.
     rbind (require own ValueError ''container role ownership mismatch'') (\<lambda>_.
     rbind (matches (ex_run ex) (owned_label item ''ticketing.phase14.run'') ''generator run mismatch'') (\<lambda>_.
     rbind (matches (ex_name ex) (rbind (json_index item ''Name'') (\<lambda>v. case v of
         JStr s \<Rightarrow> Inr (JStr (dropWhile (\<lambda>c. c = CHR ''/'') s)) | _ \<Rightarrow> Inl (Exn AttributeError ''lstrip'')))
       ''generator name mismatch'') (\<lambda>_.
     rbind (matches (ex_image ex) (json_index item ''Image'') ''generator image mismatch'') (\<lambda>_.
     rbind (case ex_created_after ex of
         None \<Rightarrow> Inr ()
       | Some t \<Rightarrow> rbind (created_time fromiso item) (\<lambda>c. require (t \<le> c) ValueError ''generator creation precedes run'')) (\<lambda>_.
     json_index item ''Id'')))))))"

section \<open>How a shell reads a command line\<close>

text \<open>
  The words of a line by the quoting rules of the POSIX shell: a quoted part is literal, a blank
  outside quotes ends a word, and a line that holds any other special character is not read.
\<close>

function sh_read :: "string option \<Rightarrow> string \<Rightarrow> string list option" where
  "sh_read w [] = Some (case w of None \<Rightarrow> [] | Some v \<Rightarrow> [v])"
| "sh_read w (c # cs) =
     (if c = CHR '' '' then (case w of
          None \<Rightarrow> sh_read None cs
        | Some v \<Rightarrow> map_option ((#) v) (sh_read None cs))
      else if c = quot \<or> c = dquot
      then (let part = takeWhile (\<lambda>d. d \<noteq> c) cs; rest = dropWhile (\<lambda>d. d \<noteq> c) cs in
        if rest = [] \<or> (c = dquot \<and> list_ex (\<lambda>d. d \<in> {CHR ''$'', CHR 0x60, CHR 0x5C}) part) then None
        else sh_read (Some ((case w of None \<Rightarrow> [] | Some v \<Rightarrow> v) @ part)) (tl rest))
      else if shell_safe c then sh_read (Some ((case w of None \<Rightarrow> [] | Some v \<Rightarrow> v) @ [c])) cs
      else None)"
  by pat_completeness auto

termination
proof (relation "measure (\<lambda>(w, s). length s)", goal_cases)
  case (4 w c cs part rest)
  then show ?case using length_dropWhile_le [of "\<lambda>d. d \<noteq> c" cs] by (cases rest) auto
qed simp_all

definition sh_words :: "string \<Rightarrow> string list option" where
  "sh_words s = sh_read None s"

definition word_of :: "string option \<Rightarrow> string" where
  "word_of w = (case w of None \<Rightarrow> [] | Some v \<Rightarrow> v)"

lemma quote_facts [simp]: "quot \<noteq> dquot" "\<not> shell_safe quot" "\<not> shell_safe dquot" "\<not> shell_safe CHR '' ''"
    "quot \<noteq> CHR '' ''" "dquot \<noteq> CHR '' ''"
  by (simp_all add: shell_safe_def is_digit_def is_lower_def is_upper_def char_between_def)

lemma read_safe:
  "list_all shell_safe s \<Longrightarrow> s \<noteq> [] \<or> w \<noteq> None \<Longrightarrow>
   sh_read w (s @ t) = sh_read (if s = [] then w else Some (word_of w @ s)) t"
proof (induction s arbitrary: w)
  case (Cons c s)
  then have c: "shell_safe c" "c \<noteq> CHR '' ''" "c \<noteq> quot" "c \<noteq> dquot" by auto
  have "sh_read w ((c # s) @ t) = sh_read (Some (word_of w @ [c])) (s @ t)"
    using c by (simp add: word_of_def)
  also have "\<dots> = sh_read (Some (word_of w @ c # s)) t"
    using Cons.IH [of "Some (word_of w @ [c])"] Cons.prems by (cases s) (auto simp: word_of_def)
  finally show ?case by simp
qed simp

definition reads :: "string option \<Rightarrow> string \<Rightarrow> string list \<Rightarrow> bool" where
  "reads w s ws = (sh_read w s = Some ws)"

lemma reads_end: "reads w [] (case w of None \<Rightarrow> [] | Some v \<Rightarrow> [v])"
  by (simp add: reads_def)

lemma reads_blank: "reads None s ws \<Longrightarrow> reads (Some v) (CHR '' '' # s) (v # ws)"
  by (simp add: reads_def)

lemma reads_safe: "list_all shell_safe s \<Longrightarrow> s \<noteq> [] \<Longrightarrow> reads (Some (word_of w @ s)) t ws \<Longrightarrow> reads w (s @ t) ws"
  by (simp add: reads_def read_safe)

lemma reads_quoted:
  assumes "q = quot \<or> q = dquot" and "q \<notin> set p" and "q = dquot \<Longrightarrow> \<not> list_ex (\<lambda>d. d \<in> {CHR ''$'', CHR 0x60, CHR 0x5C}) p"
    and "reads (Some (word_of w @ p)) t ws"
  shows "reads w (q # p @ q # t) ws"
proof -
  have "takeWhile (\<lambda>d. d \<noteq> q) (p @ q # t) = p" "dropWhile (\<lambda>d. d \<noteq> q) (p @ q # t) = q # t"
    using assms(2) by (induction p) auto
  with assms(1,3,4) show ?thesis by (auto simp: reads_def word_of_def Let_def)
qed

definition escaped :: "string \<Rightarrow> string" where
  "escaped s = concat (map (\<lambda>c. if c = quot then [quot, dquot, quot, dquot, quot] else [c]) s)"

lemma escaped_plain: "quot \<notin> set s \<Longrightarrow> escaped s = s"
  by (induction s) (auto simp: escaped_def)

lemma reads_escaped: "reads (Some (word_of w @ s)) t ws \<Longrightarrow> reads w (quot # escaped s @ quot # t) ws"
proof (induction "length s" arbitrary: s w rule: less_induct)
  case less
  show ?case
  proof (cases "quot \<in> set s")
    case False
    then show ?thesis using reads_quoted [of quot s w t ws] less.prems by (simp add: escaped_plain)
  next
    case True
    then obtain p r where s: "s = p @ quot # r" "quot \<notin> set p" by (meson split_list_first)
    have "reads (Some (word_of w @ p @ [quot])) (quot # escaped r @ quot # t) ws"
      using less.hyps [of r "Some (word_of w @ p @ [quot])"] less.prems by (simp add: s word_of_def)
    then have "reads (Some (word_of w @ p)) (dquot # [quot] @ dquot # quot # escaped r @ quot # t) ws"
      by - (rule reads_quoted, auto simp: word_of_def)
    then have "reads w (quot # p @ quot # dquot # [quot] @ dquot # quot # escaped r @ quot # t) ws"
      by - (rule reads_quoted, use s in auto)
    moreover have "escaped s = p @ [quot, dquot, quot, dquot, quot] @ escaped r"
      using escaped_plain [OF s(2)] by (simp add: s escaped_def)
    ultimately show ?thesis by simp
  qed
qed

lemma reads_quote: "reads (Some s) t ws \<Longrightarrow> reads None (shlex_quote s @ t) ws"
  using reads_quoted [of quot "[]" None t ws] reads_safe [of s None t ws] reads_escaped [of None s t ws]
  by (auto simp: shlex_quote_def word_of_def escaped_def [symmetric])

lemma reads_join: "reads None (shlex_join xs) xs"
proof -
  have "reads None (join_with '' '' (map shlex_quote xs)) xs"
  proof (induction xs rule: induct_list012)
    case 1
    then show ?case using reads_end [of None] by simp
  next
    case (2 x)
    then show ?case using reads_quote [OF reads_end [of "Some x"]] by simp
  next
    case (3 x y zs)
    then show ?case using reads_quote [OF reads_blank [of _ "y # zs" x]] by simp
  qed
  then show ?thesis by (simp add: shlex_join_def)
qed

lemma sh_words_join: "sh_words (shlex_join xs) = Some xs"
  using reads_join [of xs] by (simp add: reads_def sh_words_def)

section \<open>The accepted target\<close>

lemma cut_parts: "cut [m] u = (a, b) \<Longrightarrow> m \<notin> set a \<and> (u = a \<and> b = [] \<or> u = a @ m # b)"
proof -
  assume c: "cut [m] u = (a, b)"
  have once: "split_once [m] u = Some (a, b) \<Longrightarrow> m \<notin> set a" for a b
    by (induction u arbitrary: a b) (auto simp: startswith_def split: if_splits)
  have none: "split_once [m] u = None \<Longrightarrow> m \<notin> set u"
    by (induction u) (auto simp: startswith_def split: if_splits option.splits)
  from c show ?thesis
    using split_once_Some [of "[m]" u a b] once none by (auto simp: cut_def split: option.splits)
qed

lemma user_host_parts: "user_host n = (i, h) \<Longrightarrow> n = (case i of None \<Rightarrow> [] | Some s \<Rightarrow> s @ ''@'') @ h"
proof -
  assume u: "user_host n = (i, h)"
  let ?t = "takeWhile (\<lambda>c. c \<noteq> CHR ''@'') (rev n)" let ?d = "dropWhile (\<lambda>c. c \<noteq> CHR ''@'') (rev n)"
  have split: "rev n = ?t @ ?d" by simp
  then have n: "n = rev ?d @ rev ?t" by (metis rev_append rev_rev_ident)
  show ?thesis
  proof (cases "CHR ''@'' \<in> set n")
    case True
    then have "?d \<noteq> []" by simp
    then obtain c e where d: "?d = c # e" by (cases "?d") auto
    then have "c = CHR ''@''" by (simp add: dropWhile_eq_Cons_conv)
    with n d have eq: "n = rev e @ CHR ''@'' # rev ?t" by simp
    then have "length n = length e + (1 + length ?t)" by (metis length_append length_Cons length_rev plus_1_eq_Suc)
    then have "length n - length (rev ?t) - 1 = length (rev e)" by simp
    moreover from eq have "take (length (rev e)) n = rev e" by (metis append_eq_conv_conj)
    ultimately have "user_host n = (Some (rev e), rev ?t)" unfolding user_host_def Let_def if_P [OF True] by (simp only:)
    with u have "i = Some (rev e)" "h = rev ?t" by simp_all
    with eq show ?thesis by simp
  next
    case False
    then have "?t = rev n" by (intro takeWhile_eq_all_conv [THEN iffD2]) auto
    then have "user_host n = (None, n)" unfolding user_host_def Let_def if_not_P [OF False] by (simp only: rev_rev_ident)
    with u show ?thesis by simp
  qed
qed

definition address_char :: "char \<Rightarrow> bool" where
  "address_char c = (is_digit c \<or> c = CHR ''.'')"

lemma to_lower_address:
  assumes "address_char (to_lower c)"
  shows "to_lower c = c"
proof (cases "is_upper c")
  case True
  define n where "n = (of_char c :: nat)"
  from True have n: "65 \<le> n" "n \<le> 90 \<or> 192 \<le> n" "n \<le> 222" by (auto simp: is_upper_def char_between_def n_def)
  then have "(of_char (to_lower c) :: nat) = n + 32" using True by (simp add: to_lower_def n_def)
  with n assms show ?thesis by (auto simp: address_char_def is_digit_def char_between_def)
qed (simp add: to_lower_def)

lemma lower_address: "list_all address_char (py_lower s) \<Longrightarrow> py_lower s = s"
  unfolding py_lower_def by (induction s) (auto dest: to_lower_address)

lemma ipv4_str_chars: "list_all address_char (ipv4_str n)"
  using nat_str_digits by (auto simp: ipv4_str_def address_char_def list_all_iff)

lemma split_scheme_parts:
  assumes "split_scheme u = (sc, r)" and "sc \<noteq> []"
  obtains a where "u = a @ CHR '':'' # r" and "py_lower a = sc"
  using assms split_once_Some [of "'':''" u] by (auto simp: split_scheme_def split: option.splits if_splits)

lemma bare_target:
  assumes u: "urlsplit s = Inr u" and bare: "bare_url s u" and sc: "up_scheme u = ''http''"
    and host: "url_host u = ipv4_str a" and port: "url_port u = Inr p"
  shows "\<exists>scheme user port. clean_url s = scheme @ ''://'' @ user @ ipv4_str a @ port \<and> py_lower scheme = ''http''
    \<and> user \<in> {[], ''@'', '':@''} \<and> (port = [] \<or> (\<exists>ds. port = CHR '':'' # ds \<and> list_all is_digit ds))"
proof -
  obtain scheme r where sp: "split_scheme (clean_url s) = (scheme, r)" by fastforce
  let ?stop = "\<lambda>c. c \<in> set ''/?#''" let ?n = "takeWhile (\<lambda>c. \<not> ?stop c) (drop 2 r)" let ?v = "dropWhile (\<lambda>c. \<not> ?stop c) (drop 2 r)"
  have clean: "set (clean_url s) \<subseteq> set s" by (auto simp: clean_url_def dest: set_dropWhileD)
  have scheme: "scheme = ''http''" using u sc by (auto simp: urlsplit_def sp Let_def split: prod.splits if_splits)
  from split_scheme_parts [OF sp] scheme obtain b where b: "clean_url s = b @ CHR '':'' # r" "py_lower b = ''http''" by blast
  with clean bare have no: "CHR ''?'' \<notin> set r" "CHR ''#'' \<notin> set r" by (auto simp: bare_url_def)
  have slashes: "startswith r ''//''"
  proof (rule ccontr)
    assume "\<not> startswith r ''//''"
    with u have "up_netloc u = []" by (auto simp: urlsplit_def sp Let_def split: prod.splits if_splits)
    then have "url_host u = []" by (simp add: url_host_def user_host_def cut_def py_lower_def)
    with host show False by (simp add: ipv4_str_def)
  qed
  then have "take 2 r = ''//''" by (simp add: startswith_def numeral_2_eq_2)
  then have r: "r = ''//'' @ ?n @ ?v" by (metis append_take_drop_id takeWhile_dropWhile_id)
  from u slashes obtain v' where parts: "up_netloc u = ?n" "cut ''#'' ?v = (v', up_fragment u)" "cut ''?'' v' = (up_path u, up_query u)"
    by (auto simp: urlsplit_def sp Let_def split: prod.splits if_splits)
  have sub: "set ?v \<subseteq> set r" using set_dropWhileD [of _ _ "drop 2 r"] by (auto dest: in_set_dropD)
  from cut_parts [OF parts(2)] bare no sub have "?v = v'" by (auto simp: bare_url_def)
  moreover from cut_parts [OF parts(3)] bare no sub \<open>?v = v'\<close> have "v' = []" by (auto simp: bare_url_def)
  ultimately have "?v = []" by simp
  with r parts(1) have "r = ''//'' @ up_netloc u" by (metis append_Nil2)
  then have clean_eq: "clean_url s = b @ ''://'' @ up_netloc u" using b(1) by simp
  obtain i h where uh: "user_host (up_netloc u) = (i, h)" by fastforce
  obtain hn hp where c: "cut '':'' h = (hn, hp)" by fastforce
  from host have "py_lower hn = ipv4_str a" by (simp add: url_host_def uh c)
  with ipv4_str_chars [of a] lower_address [of hn] have hn: "hn = ipv4_str a" by simp
  have user: "(case i of None \<Rightarrow> [] | Some x \<Rightarrow> x @ ''@'') \<in> {[], ''@'', '':@''}"
  proof (cases i)
    case (Some x)
    obtain x1 x2 where x: "cut '':'' x = (x1, x2)" by fastforce
    with bare Some uh have "x1 = []" "x2 = []" by (auto simp: bare_url_def has_user_def)
    with cut_parts [OF x] Some show ?thesis by auto
  qed simp
  have port_text: "(hp = [] \<or> list_all is_digit hp)"
    using port by (auto simp: url_port_def uh c split: if_splits)
  from cut_parts [OF c] hn have "\<exists>port. h = ipv4_str a @ port \<and> (port = [] \<or> (\<exists>ds. port = CHR '':'' # ds \<and> list_all is_digit ds))"
    using port_text by auto
  then obtain t where t: "h = ipv4_str a @ t" "t = [] \<or> (\<exists>ds. t = CHR '':'' # ds \<and> list_all is_digit ds)" by blast
  have "clean_url s = b @ ''://'' @ (case i of None \<Rightarrow> [] | Some x \<Rightarrow> x @ ''@'') @ ipv4_str a @ t"
    using clean_eq user_host_parts [OF uh] t(1) by simp
  with user t(2) b(2) show ?thesis by blast
qed

text \<open>
  An accepted topology sends its requests to an address of a private network: the URL is
  that address with an optional port behind \<open>http://\<close>, and nothing else but an empty user.
\<close>

theorem target_private:
  assumes "parse_topology base values targets = Inr v"
  shows "\<exists>bind s a scheme user port. dget v ''sutBindAddress'' = Some bind \<and> ipv4 bind = Inr a \<and> private_address a
    \<and> dget v ''sutBaseUrl'' = Some (JStr s) \<and> clean_url s = scheme @ ''://'' @ user @ ipv4_str a @ port
    \<and> py_lower scheme = ''http'' \<and> user \<in> {[], ''@'', '':@''}
    \<and> (port = [] \<or> (\<exists>ds. port = CHR '':'' # ds \<and> list_all is_digit ds))"
proof -
  from assms obtain bind url where d: "dget v ''sutBindAddress'' = Some bind" "dget v ''sutBaseUrl'' = Some url"
    and c: "check_target_url bind url targets = Inr ()"
    by (auto simp: parse_topology_def res_simps split: json.splits)
  from c obtain s a u p where "ipv4 bind = Inr a" "url = JStr s" "urlsplit s = Inr u" "private_address a"
    "up_scheme u = ''http''" "url_host u = ipv4_str a" "url_port u = Inr p" "bare_url s u"
    by (auto simp: check_target_url_def res_simps split: json.splits)
  with d bare_target [of s u a p] show ?thesis by blast
qed

definition lab_topology :: json where
  "lab_topology = JObj [(''mode'', JStr ''dual''), (''sutSshAlias'', JStr ''phase14-sut''), (''sutWorkdir'', JStr workdir),
     (''sutBaseUrl'', JStr ''http://10.0.0.5:18080''), (''sutBindAddress'', JStr ''10.0.0.5''),
     (''sutProject'', JStr ''phase14-lab-sut''), (''loadProject'', JStr ''phase14-lab-load''),
     (''loadDockerPrefix'', JList []), (''resultRoot'', JStr ''/srv/phase14/repo/performance/results/a'')]"

definition lab_targets :: json where
  "lab_targets = JObj [(''environment'', JObj [(''localPort'', JInt 18080)])]"

lemma lab_address: "ipv4 (JStr ''10.0.0.5'') = Inr 167772165" "private_address 167772165" "ipv4_str 167772165 = ''10.0.0.5''"
proof -
  show "ipv4 (JStr ''10.0.0.5'') = Inr 167772165"
    by (simp add: ipv4_def ipv4_text_def octet_def address_value_def is_digit_def char_between_def digits_val_def digit_val_def)
  show "private_address 167772165" by (simp add: private_address_def)
  have "nat_str 10 = ''10''" "nat_str 0 = ''0''" "nat_str 5 = ''5''" by code_simp+
  then show "ipv4_str 167772165 = ''10.0.0.5''" by (simp add: ipv4_str_def)
qed

definition lab_url :: url_parts where
  "lab_url = \<lparr>up_scheme = ''http'', up_netloc = ''10.0.0.5:18080'', up_path = [], up_query = [], up_fragment = []\<rparr>"

lemma lab_url_read: "urlsplit ''http://10.0.0.5:18080'' = Inr lab_url" "url_host lab_url = ''10.0.0.5''"
  "bare_url ''http://10.0.0.5:18080'' lab_url" "url_port lab_url = Inr (Some 18080)"
proof -
  show "urlsplit ''http://10.0.0.5:18080'' = Inr lab_url" by code_simp
  show "url_host lab_url = ''10.0.0.5''" by code_simp
  show "bare_url ''http://10.0.0.5:18080'' lab_url" by code_simp
  have "snd (cut '':'' (snd (user_host (up_netloc lab_url)))) = ''18080''" by code_simp
  then show "url_port lab_url = Inr (Some 18080)"
    by (simp add: url_port_def is_digit_def char_between_def digits_val_def digit_val_def)
qed

lemma lab_accepted: "parse_topology workdir lab_topology lab_targets = Inr (case lab_topology of JObj d \<Rightarrow> d)"
proof -
  have "check_target_url (JStr ''10.0.0.5'') (JStr ''http://10.0.0.5:18080'') lab_targets = Inr ()"
    by (simp add: check_target_url_def lab_address lab_url_read require_def lab_url_def [THEN arg_cong, of up_scheme]
        lab_targets_def dindex_def same_port_def)
  moreover have "role_project ''sut'' ''phase14-lab-sut''" "role_project ''load'' ''phase14-lab-load''"
    "within_path ''/srv/phase14/repo/performance/results/a'' (workdir @ ''/performance/results'')" by code_simp+
  ultimately show ?thesis
    by (simp add: parse_topology_def lab_topology_def topology_fields_def require_def check_project_def dindex_def)
qed

theorem target_private_witness:
  "\<exists>v a. parse_topology workdir lab_topology lab_targets = Inr v \<and> ipv4 (JStr ''10.0.0.5'') = Inr a \<and> private_address a"
proof -
  obtain v where v: "parse_topology workdir lab_topology lab_targets = Inr v" and b: "dget v ''sutBindAddress'' = Some (JStr ''10.0.0.5'')"
    using lab_accepted by (auto simp: lab_topology_def)
  from target_private [OF v] v b show ?thesis by auto
qed

text \<open>
  \textbf{C36.} The command line sent to the other host changes to the repository and then executes, by the
  quoting rules of the shell, exactly the environment and the arguments that were asked for.
\<close>

theorem remote_words:
  assumes "executor_argv Sut args env = Inr argv"
  shows "\<exists>line. argv = ssh_options @ [''cd /srv/phase14/repo && exec '' @ line]
    \<and> sh_words line = Some (''env'' # env_words env @ args)"
proof -
  have "shlex_quote workdir = workdir" by code_simp
  with assms show ?thesis
    by (auto simp: executor_argv_def res_simps workdir_def sh_words_join intro!: exI)
qed

theorem remote_words_witness:
  "\<exists>argv line. executor_argv Sut [''psql'', ''-c'', ''SELECT 'a' AS b''] [(''K'', ''x y'')] = Inr argv
    \<and> argv = ssh_options @ [''cd /srv/phase14/repo && exec '' @ line]
    \<and> sh_words line = Some [''env'', ''K=x y'', ''psql'', ''-c'', ''SELECT 'a' AS b'']"
proof -
  have "\<exists>argv. executor_argv Sut [''psql'', ''-c'', ''SELECT 'a' AS b''] [(''K'', ''x y'')] = Inr argv"
    by (simp add: executor_argv_def require_def)
  then obtain argv where argv: "executor_argv Sut [''psql'', ''-c'', ''SELECT 'a' AS b''] [(''K'', ''x y'')] = Inr argv" ..
  from remote_words [OF this] argv show ?thesis by (auto simp: env_words_def)
qed

end
