(* ===== verification/Load_Init.thy ===== *)
theory Load_Init
  imports Py_Json
begin

text \<open>
  \<open>performance/scripts/phase14_initialization.py\<close>: load generators are started one after the other
  while a sampler thread keeps observing. The two threads share the stop flag, the error of the
  sampler and the list of ready shards; a step of either is one statement on the shared state, and
  the steps interleave freely. What a round of waiting reads (the exit code of the generator, the
  clock, the end of its log), what an observation and the abort raise, and what the body of the
  \<open>with\<close> statement raises are arbitrary: they are read off the step, not computed.
\<close>

section \<open>State\<close>

record init_config =
  ic_run_id :: string
  ic_shards :: "string list"
  ic_release_ms :: rat
  ic_deadline_ms :: rat
  ic_serial :: bool
  ic_abort :: bool

datatype sampler_pc = Idle | Observing | Failing | Ended

record shared_state =
  is_stop :: bool
  is_error :: "exn option"
  is_ready :: "(string \<times> rat) list"
  is_sampler :: sampler_pc

definition init_start :: shared_state where
  "init_start = \<lparr>is_stop = False, is_error = None, is_ready = [], is_sampler = Idle\<rparr>"

record init_record =
  ir_serial :: bool
  ir_run_id :: string
  ir_shards :: "string list"
  ir_release_ms :: rat
  ir_deadline_ms :: rat
  ir_ready :: "(string \<times> rat) list"
  ir_error :: "string option"

definition passed :: "init_record \<Rightarrow> bool" where
  "passed r = (ir_error r = None)"

text \<open>
  The main thread: it registers the remaining shards, waits for the one it has registered, has
  left the body of the \<open>with\<close> (with the exception of the body, if any), has set the stop flag and
  run the abort (with the failure so far), or has written the record and raised or not.
\<close>

datatype main_pc =
    Registering "string list"
  | Waiting string "string list"
  | Leaving "exn option"
  | Stopped "exn option"
  | Joining "exn option" "exn option"
  | Closed init_record "exn option"

section \<open>Waiting for a shard\<close>

record wait_view =
  wv_poll :: "int option"
  wv_now :: rat
  wv_tail :: string
  wv_ready_at :: rat

definition ready_marker :: "init_config \<Rightarrow> string \<Rightarrow> string" where
  "ready_marker c shard = ''PHASE14_INIT_READY|'' @ ic_run_id c @ ''|'' @ shard @ ''|''"

definition begin_wait :: "init_config \<Rightarrow> string \<Rightarrow> shared_state \<Rightarrow> unit res" where
  "begin_wait c shard st =
     (if length (ic_shards c) \<le> length (is_ready st) then Inl (Exn IndexError ''list index out of range'')
      else require (shard = ic_shards c ! length (is_ready st)) ValueError ''initialization shard order changed'')"

text \<open>One round: the shard is ready (the time of the record in milliseconds), or the wait goes on.\<close>

definition wait_round :: "init_config \<Rightarrow> string \<Rightarrow> wait_view \<Rightarrow> shared_state \<Rightarrow> rat option res" where
  "wait_round c shard v st = (case is_error st of
      Some e \<Rightarrow> Inl (Exn RuntimeError (''initialization sampler failed: '' @ exn_msg e))
    | None \<Rightarrow>
        if wv_poll v \<noteq> None then Inl (Exn RuntimeError ''generator exited before initialization readiness'')
        else if ic_deadline_ms c \<le> fl64 (wv_now v * 1000)
        then Inl (Exn RuntimeError ''initialization missed frozen release point'')
        else Inr (if contains (wv_tail v) (ready_marker c shard) then Some (fl64 (wv_ready_at v * 1000)) else None))"

section \<open>Leaving\<close>

definition or_else :: "'a option \<Rightarrow> 'a option \<Rightarrow> 'a option" where
  "or_else a b = (case a of None \<Rightarrow> b | Some x \<Rightarrow> Some x)"

text \<open>The failure once the abort has run; the abort is only called when there is a failure.\<close>

definition after_abort :: "init_config \<Rightarrow> exn option \<Rightarrow> exn option \<Rightarrow> exn option" where
  "after_abort c failure abort_error = (case failure of
      None \<Rightarrow> None
    | Some f \<Rightarrow> if ic_abort c then (case abort_error of
          None \<Rightarrow> Some f
        | Some a \<Rightarrow> Some (Exn RuntimeError (exn_msg f @ ''; abort failed: '' @ exn_msg a))) else Some f)"

definition final_failure :: "init_config \<Rightarrow> exn option \<Rightarrow> shared_state \<Rightarrow> exn option" where
  "final_failure c failure st =
     (let f = (if is_sampler st \<noteq> Ended then Some (Exn RuntimeError ''initialization sampler did not stop'') else failure) in
      if f = None \<and> length (is_ready st) \<noteq> length (ic_shards c)
      then Some (Exn RuntimeError ''incomplete initialization'') else f)"

definition init_record_of :: "init_config \<Rightarrow> exn option \<Rightarrow> shared_state \<Rightarrow> init_record" where
  "init_record_of c failure st = \<lparr>ir_serial = ic_serial c, ir_run_id = ic_run_id c, ir_shards = ic_shards c,
     ir_release_ms = ic_release_ms c, ir_deadline_ms = ic_deadline_ms c, ir_ready = is_ready st,
     ir_error = map_option exn_msg failure\<rparr>"

definition record_json :: "init_record \<Rightarrow> json" where
  "record_json r = JObj [
     (''mode'', JStr (if ir_serial r then ''serial_initialization'' else ''concurrent_smoke_initialization'')),
     (''runId'', JStr (ir_run_id r)), (''shards'', JList (map JStr (ir_shards r))),
     (''releaseAtMs'', JFloat (ir_release_ms r)), (''deadlineAtMs'', JFloat (ir_deadline_ms r)),
     (''ready'', JList (map (\<lambda>(s, t). JObj [(''shard'', JStr s), (''readyAtMs'', JFloat t)]) (ir_ready r))),
     (''safetySampling'', JBool True), (''status'', JStr (if passed r then ''pass'' else ''fail'')),
     (''error'', json_opt_str (ir_error r))]"

section \<open>Steps\<close>

text \<open>The sampler: \<open>while not self.stop.is_set(): self.observe()\<close> and its handler.\<close>

inductive sampler_step :: "shared_state \<Rightarrow> shared_state \<Rightarrow> bool" where
  observe: "is_sampler st = Idle \<Longrightarrow> \<not> is_stop st \<Longrightarrow> sampler_step st (st\<lparr>is_sampler := Observing\<rparr>)"
| stopped: "is_sampler st = Idle \<Longrightarrow> is_stop st \<Longrightarrow> sampler_step st (st\<lparr>is_sampler := Ended\<rparr>)"
| observed: "is_sampler st = Observing \<Longrightarrow> sampler_step st (st\<lparr>is_sampler := Idle\<rparr>)"
| failed: "is_sampler st = Observing \<Longrightarrow> is_exception e \<Longrightarrow>
    sampler_step st (st\<lparr>is_error := Some e, is_sampler := Failing\<rparr>)"
| failing: "is_sampler st = Failing \<Longrightarrow> sampler_step st (st\<lparr>is_stop := True, is_sampler := Ended\<rparr>)"

text \<open>
  The main thread. In the concurrent mode the waits happen in \<open>finish\<close>, after all generators have
  been started, but in the same order and by the same statements. The join may time out.
\<close>

inductive main_step :: "init_config \<Rightarrow> main_pc \<times> shared_state \<Rightarrow> main_pc \<times> shared_state \<Rightarrow> bool" for c where
  begin_ok: "begin_wait c s st = Inr () \<Longrightarrow> main_step c (Registering (s # ss), st) (Waiting s ss, st)"
| out_of_order: "begin_wait c s st = Inl e \<Longrightarrow> main_step c (Registering (s # ss), st) (Leaving (Some e), st)"
| ready: "wait_round c s v st = Inr (Some t) \<Longrightarrow>
    main_step c (Waiting s ss, st) (Registering ss, st\<lparr>is_ready := is_ready st @ [(s, t)]\<rparr>)"
| not_ready: "wait_round c s v st = Inr None \<Longrightarrow> main_step c (Waiting s ss, st) (Waiting s ss, st)"
| wait_failed: "wait_round c s v st = Inl e \<Longrightarrow> main_step c (Waiting s ss, st) (Leaving (Some e), st)"
| body_raised: "main_step c (Registering ss, st) (Leaving (Some e), st)"
| body_done: "main_step c (Registering [], st) (Leaving None, st)"
| set_stop: "main_step c (Leaving e, st) (Stopped e, st\<lparr>is_stop := True\<rparr>)"
| abort: "f = after_abort c (or_else e (is_error st)) a \<Longrightarrow> main_step c (Stopped e, st) (Joining e f, st)"
| close: "f' = final_failure c f st \<Longrightarrow>
    main_step c (Joining e f, st) (Closed (init_record_of c f' st) (if e = None then f' else e), st)"

inductive init_step :: "init_config \<Rightarrow> main_pc \<times> shared_state \<Rightarrow> main_pc \<times> shared_state \<Rightarrow> bool" for c where
  main: "main_step c x y \<Longrightarrow> init_step c x y"
| sampler: "sampler_step st st' \<Longrightarrow> init_step c (m, st) (m, st')"

definition reachable :: "init_config \<Rightarrow> string list \<Rightarrow> main_pc \<times> shared_state \<Rightarrow> bool" where
  "reachable c order x = (init_step c)\<^sup>*\<^sup>* (Registering order, init_start) x"


section \<open>Invariant\<close>

text \<open>
  The ready shards are the first of the configured ones, in their order, while registering and
  ever after; the shard waited for is the next; a failure that has been noted stays.
\<close>

definition ready_names :: "shared_state \<Rightarrow> string list" where
  "ready_names st = map fst (is_ready st)"

fun main_inv :: "init_config \<Rightarrow> main_pc \<times> shared_state \<Rightarrow> bool" where
  "main_inv c (Waiting s ss, st) = (prefix (ready_names st @ [s]) (ic_shards c))"
| "main_inv c (Joining e f, st) = (prefix (ready_names st) (ic_shards c) \<and> is_stop st \<and> (e \<noteq> None \<longrightarrow> f \<noteq> None))"
| "main_inv c (Closed r e, st) = (prefix (ready_names st) (ic_shards c) \<and> is_stop st \<and> ir_shards r = ic_shards c
     \<and> ir_ready r = is_ready st
     \<and> (passed r \<longrightarrow> e = None \<and> is_sampler st = Ended \<and> length (ir_ready r) = length (ic_shards c))
     \<and> (e = None \<longrightarrow> passed r))"
| "main_inv c (Stopped e, st) = (prefix (ready_names st) (ic_shards c) \<and> is_stop st)"
| "main_inv c (_, st) = prefix (ready_names st) (ic_shards c)"

lemma begin_wait_next:
  assumes "begin_wait c s st = Inr ()" and "prefix (ready_names st) (ic_shards c)"
  shows "prefix (ready_names st @ [s]) (ic_shards c)"
proof -
  from assms(2) obtain zs where zs: "ic_shards c = ready_names st @ zs" by (auto elim: prefixE)
  from assms(1) have "length (ready_names st) < length (ic_shards c)" "s = ic_shards c ! length (ready_names st)"
    by (auto simp: begin_wait_def require_def ready_names_def split: if_splits)
  with zs show ?thesis by (cases zs) auto
qed

lemma sampler_ready: "sampler_step st st' \<Longrightarrow> is_ready st' = is_ready st"
  by (induction rule: sampler_step.induct) simp_all

lemma sampler_stop: "sampler_step st st' \<Longrightarrow> is_stop st \<Longrightarrow> is_stop st'"
  by (induction rule: sampler_step.induct) simp_all

lemma sampler_ended: "sampler_step st st' \<Longrightarrow> is_sampler st \<noteq> Ended"
  by (induction rule: sampler_step.induct) simp_all

lemma sampler_inv: "sampler_step st st' \<Longrightarrow> main_inv c (m, st) \<Longrightarrow> main_inv c (m, st')"
  using sampler_ready [of st st'] sampler_stop [of st st'] sampler_ended [of st st']
  by (cases m) (auto simp: ready_names_def)

lemma main_step_inv: "main_step c x y \<Longrightarrow> main_inv c x \<Longrightarrow> main_inv c y"
proof (induction rule: main_step.induct)
  case (begin_ok s st ss)
  then show ?case by (simp add: begin_wait_next)
next
  case (ready s v st t ss)
  then show ?case by (simp add: ready_names_def)
next
  case (close f' f st e)
  then show ?case
    by (auto simp: final_failure_def init_record_of_def passed_def Let_def split: if_splits)
qed (auto simp: ready_names_def after_abort_def or_else_def dest: append_prefixD split: option.splits)

lemma reachable_inv: "reachable c order x \<Longrightarrow> main_inv c x"
  unfolding reachable_def
proof (induction rule: rtranclp_induct)
  case base
  then show ?case by (simp add: init_start_def ready_names_def)
next
  case (step y z)
  from step(2) show ?case using step(3)
    by (cases rule: init_step.cases) (auto intro: main_step_inv sampler_inv)
qed

section \<open>Properties\<close>

text \<open>
  \textbf{C39.} However the threads interleave, an initialization is recorded as passed only when every
  shard has become ready, in the order of the configuration, the body raised nothing, the sampler
  thread has ended, and nothing is raised; an initialization that failed is never left quietly.
\<close>

theorem init_passed_complete:
  assumes "reachable c order (Closed r e, st)"
  shows "passed r = (e = None) \<and> prefix (map fst (ir_ready r)) (ic_shards c)
    \<and> (passed r \<longrightarrow> map fst (ir_ready r) = ic_shards c \<and> is_sampler st = Ended)"
proof -
  have inv: "main_inv c (Closed r e, st)" using assms by (rule reachable_inv)
  then have "prefix (map fst (ir_ready r)) (ic_shards c)" by (simp add: ready_names_def)
  moreover from this inv have "map fst (ir_ready r) = ic_shards c" if "passed r"
    using that by (auto elim!: prefixE)
  ultimately show ?thesis using inv by auto
qed


section \<open>Two courses\<close>

definition one_shard :: init_config where
  "one_shard = \<lparr>ic_run_id = ''r'', ic_shards = [''0''], ic_release_ms = 2000, ic_deadline_ms = 1000, ic_serial = True, ic_abort = True\<rparr>"

definition ready_view :: wait_view where
  "ready_view = \<lparr>wv_poll = None, wv_now = 0, wv_tail = ''PHASE14_INIT_READY|r|0|'', wv_ready_at = 0\<rparr>"

definition ready_state :: shared_state where
  "ready_state = \<lparr>is_stop = False, is_error = None, is_ready = [(''0'', 0)], is_sampler = Observing\<rparr>"

lemma ready_reached: "reachable one_shard [''0''] (Registering [], ready_state)"
proof -
  let ?o = "init_start\<lparr>is_sampler := Observing\<rparr>"
  have "init_step one_shard (Registering [''0''], init_start) (Registering [''0''], ?o)"
    by (intro init_step.sampler sampler_step.observe) (simp_all add: init_start_def)
  moreover have "init_step one_shard (Registering [''0''], ?o) (Waiting ''0'' [], ?o)"
    by (intro init_step.main main_step.begin_ok) (simp add: begin_wait_def one_shard_def init_start_def require_def)
  moreover have "wait_round one_shard ''0'' ready_view ?o = Inr (Some 0)" by code_simp
  from main_step.ready [OF this, of "[]"] have "init_step one_shard (Waiting ''0'' [], ?o) (Registering [], ready_state)"
    by (intro init_step.main) (simp add: init_start_def ready_state_def)
  ultimately show ?thesis unfolding reachable_def by (meson rtranclp.intros)
qed

lemma reachable_step: "reachable c order x \<Longrightarrow> init_step c x y \<Longrightarrow> reachable c order y"
  unfolding reachable_def by (rule rtranclp.rtrancl_into_rtrancl)

definition passed_record :: init_record where
  "passed_record = init_record_of one_shard None ready_state"

lemma leave_ready:
  "reachable one_shard [''0''] (Joining None None, ready_state\<lparr>is_stop := True\<rparr>)"
proof -
  note reach = reachable_step [OF _ init_step.main]
  have "reachable one_shard [''0''] (Stopped None, ready_state\<lparr>is_stop := True\<rparr>)"
    by (rule reach [OF reach [OF ready_reached main_step.body_done] main_step.set_stop])
  from reach [OF this main_step.abort [where a = None, OF refl]] show ?thesis
    by (simp add: or_else_def after_abort_def ready_state_def)
qed

lemma close_ready:
  assumes "sampler_step\<^sup>*\<^sup>* (ready_state\<lparr>is_stop := True\<rparr>) st" and "is_sampler st = Ended"
  shows "reachable one_shard [''0''] (Closed (init_record_of one_shard None st) None, st)"
proof -
  have "reachable one_shard [''0''] (Joining None None, st) \<and> is_ready st = [(''0'', 0)]"
    using assms(1)
  proof (induction rule: rtranclp_induct)
    case base
    show ?case using leave_ready by (simp add: ready_state_def)
  next
    case (step y z)
    then show ?case using reachable_step init_step.sampler sampler_ready by metis
  qed
  moreover from this assms(2) have "final_failure one_shard None st = None"
    by (simp add: final_failure_def one_shard_def)
  ultimately show ?thesis using reachable_step init_step.main main_step.close [where c = one_shard and f = None and e = None and st = st, OF refl] by fastforce
qed

theorem init_passed_complete_witness:
  "\<exists>r st. reachable one_shard [''0''] (Closed r None, st) \<and> passed r \<and> map fst (ir_ready r) = [''0'']"
proof -
  let ?s = "ready_state\<lparr>is_stop := True\<rparr>" let ?e = "?s\<lparr>is_sampler := Idle\<rparr>\<lparr>is_sampler := Ended\<rparr>"
  have "sampler_step ?s (?s\<lparr>is_sampler := Idle\<rparr>)" by (rule sampler_step.observed) (simp add: ready_state_def)
  moreover have "sampler_step (?s\<lparr>is_sampler := Idle\<rparr>) ?e" by (rule sampler_step.stopped) simp_all
  ultimately have "sampler_step\<^sup>*\<^sup>* ?s ?e" by (meson rtranclp.intros)
  from close_ready [OF this] have run: "reachable one_shard [''0''] (Closed (init_record_of one_shard None ?e) None, ?e)" by simp
  from init_passed_complete [OF run] run show ?thesis by (auto simp: one_shard_def)
qed

text \<open>
  The failure is read before the join: an observation that is under way then and fails leaves its
  error unseen, and the record says that the initialization passed.
\<close>

lemma late_sampler_error_lost:
  "\<exists>r st. reachable one_shard [''0''] (Closed r None, st) \<and> passed r \<and> is_error st \<noteq> None"
proof -
  let ?s = "ready_state\<lparr>is_stop := True\<rparr>" let ?x = "Exn RuntimeError ''resource stop''"
  let ?f = "?s\<lparr>is_error := Some ?x, is_sampler := Failing\<rparr>" let ?e = "?f\<lparr>is_stop := True, is_sampler := Ended\<rparr>"
  have "sampler_step ?s ?f" by (rule sampler_step.failed) (simp_all add: ready_state_def is_exception_def)
  moreover have "sampler_step ?f ?e" by (rule sampler_step.failing) simp
  ultimately have "sampler_step\<^sup>*\<^sup>* ?s ?e" by (meson rtranclp.intros)
  from close_ready [OF this] have "reachable one_shard [''0''] (Closed (init_record_of one_shard None ?e) None, ?e)" by simp
  moreover have "passed (init_record_of one_shard None ?e)" by (simp add: passed_def init_record_of_def)
  moreover have "is_error ?e \<noteq> None" by simp
  ultimately show ?thesis by blast
qed

end
