(* ===== verification/Monitors.thy ===== *)
theory Monitors
  imports Py_Prelude
begin

text \<open>
  The guards of a measurement watch a sequence of samples and act on the current run: the longest
  stretch of samples up to now that all show the condition and of which each is linked to the one
  before (close enough in time, say). The locale states when a guard that keeps only a summary of
  that run is right about it.
\<close>

section \<open>Runs\<close>

definition is_run :: "('x \<Rightarrow> bool) \<Rightarrow> ('x \<Rightarrow> 'x \<Rightarrow> bool) \<Rightarrow> 'x list \<Rightarrow> bool" where
  "is_run holds linked r = (list_all holds r \<and> successively linked r)"

definition next_run :: "('x \<Rightarrow> bool) \<Rightarrow> ('x \<Rightarrow> 'x \<Rightarrow> bool) \<Rightarrow> 'x list \<Rightarrow> 'x \<Rightarrow> 'x list" where
  "next_run holds linked r x =
     (if \<not> holds x then [] else if r \<noteq> [] \<and> \<not> linked (last r) x then [x] else r @ [x])"

definition current_run :: "('x \<Rightarrow> bool) \<Rightarrow> ('x \<Rightarrow> 'x \<Rightarrow> bool) \<Rightarrow> 'x list \<Rightarrow> 'x list" where
  "current_run holds linked xs = foldl (next_run holds linked) [] xs"

lemma is_run_Nil [simp]: "is_run holds linked []"
  by (simp add: is_run_def)

lemma successively_True [simp]: "successively (\<lambda>_ _. True) r"
  by (induction r rule: induct_list012) simp_all

lemma is_run_unlinked [simp]: "is_run holds (\<lambda>_ _. True) r \<longleftrightarrow> list_all holds r"
  by (simp add: is_run_def)

lemma is_run_next: "is_run holds linked r \<Longrightarrow> is_run holds linked (next_run holds linked r x)"
  by (auto simp: is_run_def next_run_def successively_append_iff)

lemma current_run_Nil [simp]: "current_run holds linked [] = []"
  by (simp add: current_run_def)

lemma current_run_snoc [simp]:
  "current_run holds linked (xs @ [x]) = next_run holds linked (current_run holds linked xs) x"
  by (simp add: current_run_def)

lemma is_run_current [simp]: "is_run holds linked (current_run holds linked xs)"
  by (induction xs rule: rev_induct) (simp_all add: is_run_next)

lemma current_run_suffix: "suffix (current_run holds linked xs) xs"
proof (induction xs rule: rev_induct)
  case (snoc x xs)
  then show ?case by (auto simp: next_run_def suffix_def)
qed simp

text \<open>It is the longest run that ends with the sequence.\<close>

lemma is_run_snoc:
  "is_run holds linked (q @ [x]) \<longleftrightarrow> is_run holds linked q \<and> holds x \<and> (q = [] \<or> linked (last q) x)"
  by (auto simp: is_run_def successively_append_iff)

lemma current_run_longest:
  "suffix q xs \<Longrightarrow> is_run holds linked q \<Longrightarrow> suffix q (current_run holds linked xs)"
proof (induction xs arbitrary: q rule: rev_induct)
  case (snoc x xs)
  show ?case
  proof (cases q rule: rev_cases)
    case (snoc p y)
    with snoc.prems have q: "q = p @ [x]" "suffix p xs" by (auto simp: suffix_def)
    with snoc.prems(2) have p: "is_run holds linked p" "holds x" "p = [] \<or> linked (last p) x"
      by (simp_all add: is_run_snoc)
    from snoc.IH [OF q(2) p(1)] obtain z where z: "current_run holds linked xs = z @ p" by (auto simp: suffix_def)
    then show ?thesis using p q by (cases "p = []") (auto simp: next_run_def suffix_def)
  qed simp
qed simp

definition trailing :: "('x \<Rightarrow> bool) \<Rightarrow> 'x list \<Rightarrow> 'x list" where
  "trailing holds xs = rev (takeWhile holds (rev xs))"

lemma trailing_Nil [simp]: "trailing holds [] = []"
  by (simp add: trailing_def)

lemma trailing_snoc [simp]: "trailing holds (xs @ [x]) = (if holds x then trailing holds xs @ [x] else [])"
  by (simp add: trailing_def)

lemma current_run_trailing: "current_run holds (\<lambda>_ _. True) xs = trailing holds xs"
  by (induction xs rule: rev_induct) (simp_all add: next_run_def)

section \<open>Guards that keep a summary of the current run\<close>

locale run_monitor =
  fixes holds :: "'x \<Rightarrow> bool"
    and linked :: "'x \<Rightarrow> 'x \<Rightarrow> bool"
    and start :: 's
    and step :: "'s \<Rightarrow> 'x \<Rightarrow> 's"
    and knows :: "'s \<Rightarrow> 'x list \<Rightarrow> bool"
  assumes start_knows: "knows start []"
    and step_knows: "knows s r \<Longrightarrow> is_run holds linked r \<Longrightarrow> knows (step s x) (next_run holds linked r x)"
begin

lemma steps_know: "knows (foldl step start xs) (current_run holds linked xs)"
  by (induction xs rule: rev_induct) (simp_all add: start_knows step_knows)

text \<open>
  The guard goes off when its summary says that the run is long enough; by then some run up to now
  is, provided that longer runs are.
\<close>

lemma fires_iff:
  assumes "\<And>s r. knows s r \<Longrightarrow> is_run holds linked r \<Longrightarrow> fires s \<longleftrightarrow> enough r"
    and "\<And>p q. enough q \<Longrightarrow> is_run holds linked (p @ q) \<Longrightarrow> enough (p @ q)"
  shows "fires (foldl step start xs) \<longleftrightarrow> (\<exists>q. suffix q xs \<and> is_run holds linked q \<and> enough q)"
proof -
  have "fires (foldl step start xs) \<longleftrightarrow> enough (current_run holds linked xs)"
    by (rule assms(1) [OF steps_know is_run_current])
  moreover have "enough (current_run holds linked xs)" if "suffix q xs" "is_run holds linked q" "enough q" for q
  proof -
    from current_run_longest [OF that(1,2)] obtain p where "current_run holds linked xs = p @ q" by (auto simp: suffix_def)
    with assms(2) [OF that(3), of p] is_run_current [of holds linked xs] show ?thesis by simp
  qed
  ultimately show ?thesis using current_run_suffix is_run_current by blast
qed

end

section \<open>A guard over a sequence of samples\<close>

text \<open>The state at the end and what was returned for each sample; an exception ends it.\<close>

definition outputs :: "('s \<Rightarrow> 'x \<Rightarrow> ('s \<times> 'r) res) \<Rightarrow> 's \<Rightarrow> 'x list \<Rightarrow> ('s \<times> 'r list) res" where
  "outputs f s xs = fold_res (\<lambda>(s, rs) x. rbind (f s x) (\<lambda>(s', r). Inr (s', rs @ [r]))) (s, []) xs"

lemma rbind_Inr_right [simp]: "rbind m Inr = m"
  by (cases m) simp_all

lemma outputs_Nil [simp]: "outputs f s [] = Inr (s, [])"
  by (simp add: outputs_def)

lemma outputs_snoc_Inr:
  "outputs f s (xs @ [x]) = Inr (s', rs') \<longleftrightarrow>
     (\<exists>s1 rs r. outputs f s xs = Inr (s1, rs) \<and> f s1 x = Inr (s', r) \<and> rs' = rs @ [r])"
  by (auto simp: outputs_def fold_res_append res_simps)

lemma outputs_length: "outputs f s xs = Inr (s', rs) \<Longrightarrow> length rs = length xs"
  by (induction xs arbitrary: s' rs rule: rev_induct) (auto simp: outputs_snoc_Inr)

end
