(* ===== verification/Stop_Rules.thy ===== *)
theory Stop_Rules
  imports Phase14_Model Monitors
begin

text \<open>
  The rules that stop a phase-14 run: \<open>StopGuard\<close> and the swap policy of
  \<open>performance/scripts/phase14_evidence.py\<close>, the limits of open files of \<open>phase14_fd.py\<close>, the
  preflight and the progress of the raw files of \<open>run_phase14.py\<close>, and the sampling gaps of
  \<open>phase14_campaign.py\<close>. A sample is the dictionary the samplers make: a missing field raises
  KeyError, as the guard wants it. A guard that raised is not used again.
\<close>

section \<open>Numbers\<close>

fun num_div :: "num \<Rightarrow> num \<Rightarrow> num res" where
  "num_div (PInt a) (PInt b) = (if b = 0 then Inl (Exn ZeroDivisionError ''division by zero'')
     else Inr (PFloat (fl64 (of_int a / of_int b))))"
| "num_div a b = (if num_rat b = 0 then Inl (Exn ZeroDivisionError ''float division by zero'')
     else Inr (PFloat (fl64 (num_float a / num_float b))))"

fun num_abs :: "num \<Rightarrow> num" where
  "num_abs (PInt i) = PInt \<bar>i\<bar>"
| "num_abs (PFloat r) = PFloat \<bar>r\<bar>"

definition num_max :: "num \<Rightarrow> num \<Rightarrow> num" where
  "num_max a b = (if num_less a b then b else a)"

abbreviation at_least :: "num \<Rightarrow> num \<Rightarrow> bool" where
  "at_least a b \<equiv> \<not> num_less a b"

definition flag_at :: "json \<Rightarrow> string \<Rightarrow> bool res" where
  "flag_at x key = rbind (json_index x key) (\<lambda>v. Inr (truthy v))"

text \<open>\<open>a >= b\<close> and \<open>a > b\<close> of a field of the sample and a limit of the targets.\<close>

definition reaches :: "json \<Rightarrow> json \<Rightarrow> string \<Rightarrow> string list \<Rightarrow> bool res" where
  "reaches t x key path = rbind (num_at x [key]) (\<lambda>v. rbind (num_at t path) (\<lambda>n. Inr (at_least v n)))"

definition exceeds :: "json \<Rightarrow> json \<Rightarrow> string \<Rightarrow> string list \<Rightarrow> bool res" where
  "exceeds t x key path = rbind (num_at x [key]) (\<lambda>v. rbind (num_at t path) (\<lambda>n. Inr (num_less n v)))"

text \<open>\<open>p and q\<close>, \<open>p or q\<close>: the second is evaluated when the first does not decide.\<close>

definition res_and :: "bool res \<Rightarrow> bool res \<Rightarrow> bool res" where
  "res_and p q = rbind p (\<lambda>b. if b then q else Inr False)"

definition res_or :: "bool res \<Rightarrow> bool res \<Rightarrow> bool res" where
  "res_or p q = rbind p (\<lambda>b. if b then Inr True else q)"

section \<open>Swapping\<close>

definition smoke_policy :: "json \<Rightarrow> bool res" where
  "smoke_policy t =
     rbind (map_res (num_at t) [[''burst'', ''users''], [''hotspot'', ''users''], [''login'', ''users'']]) (\<lambda>fixed.
     rbind (list_at t [''online'', ''rounds'']) (\<lambda>rounds.
     rbind (map_res (\<lambda>stages. rbind (json_to_list stages) (map_res (\<lambda>s. num_at s [''users'']))) rounds) (\<lambda>users.
     rbind (json_get t ''mode'' JNull) (\<lambda>mode.
     if mode \<noteq> JStr ''smoke'' then Inr False
     else rbind (num_at t [''formalActiveUserTarget'']) (\<lambda>target.
       Inr (num_less (foldl num_max (hd fixed) (tl fixed @ concat users)) target))))))"

definition swap_in_only :: "json \<Rightarrow> bool res" where
  "swap_in_only x =
     rbind (rbind (json_get x ''swapInDelta'' (JInt 0)) json_to_num) (\<lambda>n.
     if \<not> num_less (PInt 0) n then Inr False
     else rbind (json_get x ''swapOutDelta'' JNull) (\<lambda>v. Inr (py_eq v (JInt 0))))"

text \<open>The reason to stop, and the warning.\<close>

definition swap_policy :: "json \<Rightarrow> json \<Rightarrow> (string option \<times> json option) res" where
  "swap_policy x t =
     rbind (flag_at x ''swapping'') (\<lambda>swapping.
     if \<not> swapping then Inr (None, None)
     else rbind (res_and (smoke_policy t) (swap_in_only x)) (\<lambda>exempt.
       if exempt then
         rbind (json_index x ''time'') (\<lambda>time. rbind (json_index x ''swapInDelta'') (\<lambda>delta.
         Inr (None, Some (JObj [(''code'', JStr ''host_swap_activity''), (''time'', time), (''swapInDelta'', delta),
           (''swapOutDelta'', JInt 0)]))))
       else Inr (Some ''invalid generator/host: swapping'', None)))"

section \<open>StopGuard\<close>

record stop_guard =
  sg_since :: "(string \<times> num) list"
  sg_windows :: "bool list"
  sg_warnings :: "json list"

definition stop_guard_start :: stop_guard where
  "stop_guard_start = \<lparr>sg_since = [], sg_windows = [], sg_warnings = []\<rparr>"

definition sustained :: "(string \<times> num) list \<Rightarrow> string \<Rightarrow> bool \<Rightarrow> num \<Rightarrow> num \<Rightarrow> (string \<times> num) list \<times> bool" where
  "sustained since name condition now seconds =
     (if \<not> condition then (AList.delete name since, False)
      else (if dhas since name then since else dset since name now,
        at_least (num_sub now (dget_or since name now)) seconds))"

text \<open>\<open>xs[-n:]\<close>.\<close>

definition last_items :: "int \<Rightarrow> 'a list \<Rightarrow> 'a list" where
  "last_items n xs = (if n \<le> 0 then drop (nat (- n)) xs else drop (length xs - nat n) xs)"

definition window_bad :: "json \<Rightarrow> num \<Rightarrow> num \<Rightarrow> bool res" where
  "window_bad t done_n errors =
     rbind (num_at t [''stop'', ''minErrorSamples'']) (\<lambda>m.
     if num_less done_n m then Inr False
     else rbind (num_div errors done_n) (\<lambda>q. rbind (num_at t [''stop'', ''errorFraction'']) (\<lambda>f. Inr (num_less f q))))"

definition error_window :: "json \<Rightarrow> bool list \<Rightarrow> num \<Rightarrow> num \<Rightarrow> (bool list \<times> bool) res" where
  "error_window t windows done_n errors =
     rbind (window_bad t done_n errors) (\<lambda>bad.
     let ws = windows @ [bad] in
     rbind (num_at t [''stop'', ''minErrorSamples'']) (\<lambda>m.
     rbind (res_or
       (if num_less done_n m
        then rbind (num_at t [''stop'', ''smallWindowErrors'']) (\<lambda>k. Inr (at_least errors k)) else Inr False)
       (rbind (num_at t [''stop'', ''consecutiveErrorWindows'']) (\<lambda>k.
        if num_less (PInt (int (length ws))) k then Inr False
        else rbind (int_at t [''stop'', ''consecutiveErrorWindows'']) (\<lambda>n. Inr (list_all id (last_items n ws)))))) (\<lambda>stop.
     Inr (ws, stop))))"

type_synonym stop_check = "stop_guard \<Rightarrow> (stop_guard \<times> string list) res"

definition note_if :: "bool res \<Rightarrow> string \<Rightarrow> stop_check" where
  "note_if condition reason g = rbind condition (\<lambda>b. Inr (g, if b then [reason] else []))"

definition swap_check :: "json \<Rightarrow> json \<Rightarrow> stop_check" where
  "swap_check t x g = rbind (swap_policy x t) (\<lambda>(err, warning).
     Inr (g\<lparr>sg_warnings := sg_warnings g @ (case warning of None \<Rightarrow> [] | Some w \<Rightarrow> [w])\<rparr>,
       case err of None \<Rightarrow> [] | Some e \<Rightarrow> [e]))"

text \<open>A rule: the name it is kept under, its reason, its condition and where its seconds are.\<close>

type_synonym sustained_rule = "string \<times> string \<times> (json \<Rightarrow> bool res) \<times> string list"

definition rule_check :: "json \<Rightarrow> json \<Rightarrow> num \<Rightarrow> sustained_rule \<Rightarrow> stop_check" where
  "rule_check t x now rule g = (case rule of (name, reason, condition, path) \<Rightarrow>
     rbind (condition x) (\<lambda>b. rbind (num_at t path) (\<lambda>seconds.
     let (since, stop) = sustained (sg_since g) name b now seconds in
     Inr (g\<lparr>sg_since := since\<rparr>, if stop then [reason] else []))))"

definition cpu_rule :: "json \<Rightarrow> sustained_rule" where
  "cpu_rule t = (''generatorCpu'', ''invalid generator cpu'',
     \<lambda>x. reaches t x ''generatorCpuFraction'' [''generator'', ''cpuFraction''], [''generator'', ''cpuContinuousSeconds''])"

definition tx_rule :: "json \<Rightarrow> sustained_rule" where
  "tx_rule t = (''tx'', ''transaction waiters'',
     \<lambda>x. exceeds t x ''transactionWaiters'' [''stop'', ''transactionWaiters''], [''stop'', ''transactionWaitSeconds''])"

definition stalled_rule :: "json \<Rightarrow> sustained_rule" where
  "stalled_rule t = (''stalled'', ''stalled HTTP'',
     \<lambda>x. res_and (exceeds t x ''httpInflight'' [''stop'', ''stalledInflight''])
       (rbind (json_index x ''completionsSinceLast'') (\<lambda>v. Inr (py_eq v (JInt 0)))), [''stop'', ''stallSeconds''])"

definition queue_rule :: "json \<Rightarrow> bool \<Rightarrow> string \<Rightarrow> sustained_rule" where
  "queue_rule t login_protection key = (key, key,
     \<lambda>x. if login_protection \<and> key = ''hashQueueFraction'' then Inr False
       else reaches t x key [''stop'', ''queueFraction''], [''stop'', ''queueSeconds''])"

definition bad_schedule :: "json \<Rightarrow> json \<Rightarrow> bool res" where
  "bad_schedule t x = res_or
     (rbind (num_at x [''clockSkewMs'']) (\<lambda>v. rbind (num_at t [''generator'', ''maxClockSkewMs'']) (\<lambda>n.
      Inr (num_less n (num_abs v)))))
     (exceeds t x ''dropped'' [''generator'', ''dropped''])"

definition guard_checks :: "json \<Rightarrow> bool \<Rightarrow> json \<Rightarrow> num \<Rightarrow> stop_check list" where
  "guard_checks t login_protection x now =
     map (\<lambda>key. note_if (flag_at x key) key)
       [''correctnessFailure'', ''restarted'', ''oom'', ''unhealthy'', ''wrongEnvironment''] @
     [swap_check t x] @
     map (\<lambda>key. note_if (flag_at x key) (''invalid generator/host: '' @ key)) [''networkExhausted'', ''fdExhausted''] @
     [note_if (reaches t x ''generatorMemoryFraction'' [''generator'', ''memoryFraction'']) ''invalid generator memory'',
      rule_check t x now (cpu_rule t),
      note_if (bad_schedule t x) ''invalid scheduling'',
      note_if (exceeds t x ''memoryFraction'' [''stop'', ''memoryFraction'']) ''SUT memory'',
      note_if (exceeds t x ''transactionOldestSeconds'' [''stop'', ''oldestTransactionSeconds'']) ''transaction oldest'',
      rule_check t x now (tx_rule t),
      rule_check t x now (stalled_rule t),
      rule_check t x now (queue_rule t login_protection ''hashQueueFraction''),
      rule_check t x now (queue_rule t login_protection ''seatQueueFraction'')]"

fun guard_checks_run :: "stop_check list \<Rightarrow> stop_check" where
  "guard_checks_run [] g = Inr (g, [])"
| "guard_checks_run (c # cs) g = rbind (c g) (\<lambda>(g1, r). rbind (guard_checks_run cs g1) (\<lambda>(g2, rs). Inr (g2, r @ rs)))"

definition guard_sample :: "json \<Rightarrow> bool \<Rightarrow> stop_guard \<Rightarrow> json \<Rightarrow> (stop_guard \<times> string list) res" where
  "guard_sample t login_protection g x =
     rbind (json_index t ''stop'') (\<lambda>_. rbind (json_index t ''generator'') (\<lambda>_.
     rbind (num_at x [''time'']) (\<lambda>now. guard_checks_run (guard_checks t login_protection x now) g)))"

text \<open>A guard over a sequence of samples, with the reasons of each.\<close>

definition guard_run :: "json \<Rightarrow> bool \<Rightarrow> json list \<Rightarrow> (stop_guard \<times> string list list) res" where
  "guard_run t login_protection xs = outputs (guard_sample t login_protection) stop_guard_start xs"

section \<open>Open files\<close>

definition fd_limit :: int where "fd_limit = 65535"

text \<open>
  \<open>^Max open files\s+(\d+)\s+(\d+)\s+files\s*$\<close>, searched for at the start of every line. White
  space includes line breaks, so the end of the line may follow some of it.
\<close>

definition skip_space :: "string \<Rightarrow> string option" where
  "skip_space s = (case s of [] \<Rightarrow> None | c # cs \<Rightarrow> if is_space c then Some (dropWhile is_space cs) else None)"

definition line_end_ahead :: "string \<Rightarrow> bool" where
  "line_end_ahead s = (dropWhile is_space s = [] \<or> nl \<in> set (takeWhile is_space s))"

definition limits_here :: "string \<Rightarrow> (int \<times> int) option" where
  "limits_here s =
     (if \<not> startswith s ''Max open files'' then None
      else Option.bind (skip_space (drop 14 s)) (\<lambda>a. let soft = takeWhile is_digit a in
        if soft = [] then None
        else Option.bind (skip_space (dropWhile is_digit a)) (\<lambda>b. let hard = takeWhile is_digit b in
          if hard = [] then None
          else Option.bind (skip_space (dropWhile is_digit b)) (\<lambda>c.
            if startswith c ''files'' \<and> line_end_ahead (drop 5 c)
            then Some (int (digits_val soft), int (digits_val hard)) else None))))"

text \<open>The first match at the start of the text, or after a line feed of it.\<close>

fun first_limits :: "bool \<Rightarrow> string \<Rightarrow> (int \<times> int) option" where
  "first_limits at_start [] = None"
| "first_limits at_start (c # cs) = (case (if at_start then limits_here (c # cs) else None) of
      Some r \<Rightarrow> Some r
    | None \<Rightarrow> first_limits (c = nl) cs)"

definition parse_limits :: "string \<Rightarrow> (int \<times> int) res" where
  "parse_limits s = (case first_limits True s of
      None \<Rightarrow> Inl (Exn ValueError ''backend process nofile unavailable'')
    | Some r \<Rightarrow> Inr r)"

definition validate_limits :: "json \<Rightarrow> unit res" where
  "validate_limits rec =
     rbind (json_index rec ''soft'') (\<lambda>soft. rbind (json_index rec ''hard'') (\<lambda>hard.
     rbind (require (py_eq soft (JInt fd_limit) \<and> py_eq hard (JInt fd_limit)) ValueError
       ''backend process nofile must be 65535/65535'') (\<lambda>_.
     rbind (json_index rec ''dockerUlimits'') (\<lambda>limits.
     require (py_eq limits (JList [JObj [(''Name'', JStr ''nofile''), (''Soft'', JInt fd_limit), (''Hard'', JInt fd_limit)]]))
       ValueError ''Docker nofile differs from process contract''))))"

text \<open>The pattern of the log lines, without regard to case; the lines have no line feed.\<close>

definition log_event :: "string \<Rightarrow> bool" where
  "log_event line = (let s = py_lower line in
     contains s ''too many open files'' \<or> contains s ''emfile'' \<or>
     (case split_once ''acceptor'' s of None \<Rightarrow> False | Some (_, after) \<Rightarrow> contains after ''fail'' \<or> contains after ''errno'') \<or>
     list_ex (\<lambda>w. case split_once w s of None \<Rightarrow> False | Some (_, after) \<Rightarrow> contains after ''acceptor'') [''fatal'', ''error''])"

definition process_sample :: "json \<Rightarrow> (string list \<Rightarrow> ('s, string) io) \<Rightarrow> ('s, json) io" where
  "process_sample container docker =
     bnd (of_res (int_at container [''State'', ''Pid''])) (\<lambda>pid.
     bnd (of_res (rbind (json_at container [''State'']) (\<lambda>s. flag_at s ''Running''))) (\<lambda>running.
     sq (raise_if (\<not> running \<or> pid \<le> 0) ValueError ''backend process stopped'')
     (bnd (read_text (''/proc/'' @ int_str pid @ ''/limits'')) (\<lambda>text.
     bnd (of_res (parse_limits text)) (\<lambda>(soft, hard).
     bnd (list_dir (''/proc/'' @ int_str pid @ ''/fd'')) (\<lambda>fds.
     bnd (of_res (rbind (json_index container ''Id'') json_to_str)) (\<lambda>ident.
     bnd (docker [''logs'', ''--timestamps'', ''--since'', ''5s'', ident]) (\<lambda>logs.
     of_res (rbind (num_div (PInt (int (length fds))) (PInt soft)) (\<lambda>fraction.
       rbind (json_at container [''State'', ''StartedAt'']) (\<lambda>started.
       rbind (rbind (json_index container ''HostConfig'') (\<lambda>h. json_get h ''Ulimits'' JNull)) (\<lambda>ulimits.
       Inr (JObj [(''soft'', JInt soft), (''hard'', JInt hard), (''open'', JInt (int (length fds))),
         (''fraction'', num_json fraction), (''containerId'', JStr ident), (''startedAt'', started),
         (''dockerUlimits'', ulimits),
         (''errorTimestamps'', JList (map (\<lambda>l. JStr (hd (split_max 1 CHR '' '' l))) (filter log_event (splitlines logs)))),
         (''logWindowSeconds'', JInt 5)])))))))))))))"

text \<open>\<open>FdGuard\<close>: the state is the number of consecutive samples at 85 per cent or more.\<close>

definition fd_high :: "json \<Rightarrow> bool res" where
  "fd_high rec = rbind (num_at rec [''fraction'']) (\<lambda>f. Inr (at_least f (PFloat (fl64 (85/100)))))"

definition fd_sample :: "int \<Rightarrow> json \<Rightarrow> (int \<times> bool) res" where
  "fd_sample high rec =
     rbind (validate_limits rec) (\<lambda>_.
     rbind (fd_high rec) (\<lambda>h. let high' = (if h then high + 1 else 0) in
     rbind (flag_at rec ''errorTimestamps'') (\<lambda>e. Inr (high', e \<or> 3 \<le> high'))))"

definition fd_run :: "json list \<Rightarrow> (int \<times> bool list) res" where
  "fd_run recs = outputs fd_sample 0 recs"

section \<open>Checks of a list of samples\<close>

definition preflight_sample :: "json \<Rightarrow> string list \<times> json list \<Rightarrow> json \<Rightarrow> (string list \<times> json list) res" where
  "preflight_sample t acc x = (case acc of (errors, warnings) \<Rightarrow>
     rbind (swap_policy x t) (\<lambda>(reason, warning).
     rbind (map_res (\<lambda>key. rbind (flag_at x key) (\<lambda>b. Inr (if b then [key] else [])))
       [''oom'', ''restarted'', ''unhealthy'', ''networkExhausted'', ''fdExhausted'']) (\<lambda>flags.
     rbind (reaches t x ''memoryFraction'' [''stop'', ''memoryFraction'']) (\<lambda>memory.
     rbind (rbind (num_at x [''clockSkewMs'']) (\<lambda>v. rbind (num_at t [''generator'', ''maxClockSkewMs'']) (\<lambda>n.
       Inr (num_less n (num_abs v))))) (\<lambda>skew.
     Inr (errors @ (case reason of None \<Rightarrow> [] | Some r \<Rightarrow> [r]) @ concat flags @
         (if memory then [''SUT memory limit''] else []) @ (if skew then [''clock skew''] else []),
       warnings @ (case warning of None \<Rightarrow> [] | Some w \<Rightarrow> [w])))))))"

record preflight_result =
  pf_passed :: bool
  pf_errors :: "string list"
  pf_warnings :: "json list"
  pf_samples :: nat
  pf_formal :: json

definition resource_preflight :: "json \<Rightarrow> json \<Rightarrow> preflight_result res" where
  "resource_preflight cal t =
     rbind (rbind (json_get cal ''idleSamples'' (JList [])) json_to_list) (\<lambda>samples.
     rbind (fold_res (preflight_sample t)
       (if length samples < 2 then [''insufficient fresh idle samples''] else [], []) samples) (\<lambda>(errors, warnings).
     rbind (json_get cal ''formalReady'' (JBool False)) (\<lambda>formal.
     Inr \<lparr>pf_passed = (errors = []), pf_errors = sort (remdups errors), pf_warnings = warnings,
       pf_samples = length samples, pf_formal = formal\<rparr>)))"

definition role_errors :: "bool \<Rightarrow> json \<Rightarrow> string list res" where
  "role_errors load_only x =
     rbind (json_get x ''loadHost'' JNull) (\<lambda>load.
     rbind (if \<not> truthy load then Inr True
       else if load_only then Inr False
       else rbind (json_get x ''sutHost'' JNull) (\<lambda>sut.
         if \<not> truthy sut then Inr True
         else rbind (json_get x ''sutContainers'' JNull) (\<lambda>c. Inr (\<not> truthy c)))) (\<lambda>missing.
     rbind (json_get x ''swapping'' JNull) (\<lambda>swapping.
     Inr ((if missing then [''missing role samples''] else []) @ (if truthy swapping then [''host swap activity''] else [])))))"

definition sample_errors :: "json list \<Rightarrow> json \<Rightarrow> bool \<Rightarrow> string list res" where
  "sample_errors samples t load_only =
     (if length samples < 2 then Inr [''insufficient role samples'']
      else rbind (map_res (role_errors load_only) samples) (\<lambda>errors.
        rbind (map_res (\<lambda>x. num_at x [''time'']) samples) (\<lambda>times.
        rbind (num_at t [''generator'', ''sampleSeconds'']) (\<lambda>period.
        let missing = map (\<lambda>(a, b). num_less (num_mul (PInt 2) period) (num_sub b a)) (zip times (tl times)) in
        Inr (sort (remdups (concat errors @
          (if list_ex (\<lambda>(a, b). a \<and> b) (zip missing (tl missing)) then [''consecutive sampling gaps''] else []))))))))"

section \<open>The current run of a sustained condition\<close>

text \<open>
  Whatever the other rules do, the entry of a rule in \<open>since\<close> is the time of the first sample of
  the current run of its condition.
\<close>

definition sample_time :: "json \<Rightarrow> num" where
  "sample_time x = (case num_at x [''time''] of Inr n \<Rightarrow> n | Inl _ \<Rightarrow> PInt 0)"

definition holds_at :: "(json \<Rightarrow> bool res) \<Rightarrow> json \<Rightarrow> bool" where
  "holds_at condition x = (condition x = Inr True)"

definition since_step :: "(json \<Rightarrow> bool res) \<Rightarrow> num option \<Rightarrow> json \<Rightarrow> num option" where
  "since_step condition since x =
     (if holds_at condition x then (case since of None \<Rightarrow> Some (sample_time x) | Some n \<Rightarrow> Some n) else None)"

definition run_start :: "num option \<Rightarrow> json list \<Rightarrow> bool" where
  "run_start since r = (since = (case r of [] \<Rightarrow> None | x # _ \<Rightarrow> Some (sample_time x)))"

interpretation since: run_monitor "holds_at condition" "\<lambda>_ _. True" None "since_step condition" run_start
  for condition
  by unfold_locales (auto simp: run_start_def since_step_def next_run_def split: list.splits)

definition sustained_rules :: "json \<Rightarrow> bool \<Rightarrow> sustained_rule list" where
  "sustained_rules t login_protection = [cpu_rule t, tx_rule t, stalled_rule t,
     queue_rule t login_protection ''hashQueueFraction'', queue_rule t login_protection ''seatQueueFraction'']"

text \<open>A check that touches neither the entry of a name nor reports its reason.\<close>

definition neutral :: "string \<Rightarrow> string \<Rightarrow> stop_check \<Rightarrow> bool" where
  "neutral name reason c = (\<forall>g g' rs. c g = Inr (g', rs) \<longrightarrow>
     map_of (sg_since g') name = map_of (sg_since g) name \<and> reason \<notin> set rs)"

lemma neutral_note_if [simp]: "r \<noteq> reason \<Longrightarrow> neutral name reason (note_if b r)"
  by (auto simp: neutral_def note_if_def res_simps)

lemma swap_policy_reason:
  "swap_policy x t = Inr (Some r, w) \<Longrightarrow> r = ''invalid generator/host: swapping''"
  by (auto simp: swap_policy_def res_simps split: if_splits)

lemma neutral_swap [simp]:
  assumes "reason \<noteq> ''invalid generator/host: swapping''"
  shows "neutral name reason (swap_check t x)"
  unfolding neutral_def
proof (intro allI impI)
  fix g g' rs assume "swap_check t x g = Inr (g', rs)"
  then obtain e w where 1: "swap_policy x t = Inr (e, w)" "sg_since g' = sg_since g"
      "rs = (case e of None \<Rightarrow> [] | Some r \<Rightarrow> [r])"
    by (auto simp: swap_check_def res_simps)
  with assms swap_policy_reason [of x t] show "map_of (sg_since g') name = map_of (sg_since g) name \<and> reason \<notin> set rs"
    by (cases e) auto
qed

lemma sustained_since:
  "sustained d n b now secs = (d', stop) \<Longrightarrow>
     map_of d' k = (if k \<noteq> n then map_of d k else if \<not> b then None else Some (dget_or d n now))"
  by (auto simp: sustained_def delete_conv' dhas_def dget_or_def split: if_splits option.splits)

lemma rule_checkE:
  assumes "rule_check t x now (name, reason, b, path) g = Inr (g', r)"
  obtains c secs d stop where "b x = Inr c" "num_at t path = Inr secs"
    "sustained (sg_since g) name c now secs = (d, stop)" "sg_since g' = d" "r = (if stop then [reason] else [])"
proof -
  from assms obtain c secs where 1: "b x = Inr c" "num_at t path = Inr secs"
      "(let (since, stop) = sustained (sg_since g) name c now secs in
        Inr (g\<lparr>sg_since := since\<rparr>, if stop then [reason] else []) :: (stop_guard \<times> string list) res) = Inr (g', r)"
    unfolding rule_check_def by (auto simp del: Let_def simp: res_simps)
  obtain d stop where "sustained (sg_since g) name c now secs = (d, stop)" by fastforce
  with 1 that show ?thesis by auto
qed

lemma neutral_rule [simp]:
  assumes "n \<noteq> name" "r \<noteq> reason"
  shows "neutral name reason (rule_check t x now (n, r, b, p))"
  unfolding neutral_def
proof (intro allI impI)
  fix g g' rs assume "rule_check t x now (n, r, b, p) g = Inr (g', rs)"
  then obtain c secs d stop where "sustained (sg_since g) n c now secs = (d, stop)" "sg_since g' = d"
      "rs = (if stop then [r] else [])"
    by (rule rule_checkE)
  with assms sustained_since [of "sg_since g" n c now secs d stop name]
  show "map_of (sg_since g') name = map_of (sg_since g) name \<and> reason \<notin> set rs" by auto
qed

lemma guard_checks_run_neutral:
  "list_all (neutral name reason) cs \<Longrightarrow> neutral name reason (guard_checks_run cs)"
proof (induction cs)
  case Nil
  then show ?case by (simp add: neutral_def)
next
  case (Cons c cs)
  then have c: "neutral name reason c" and cs: "neutral name reason (guard_checks_run cs)" by simp_all
  show ?case unfolding neutral_def
  proof (intro allI impI)
    fix g g' rs assume "guard_checks_run (c # cs) g = Inr (g', rs)"
    then obtain g1 r rs' where 1: "c g = Inr (g1, r)" "guard_checks_run cs g1 = Inr (g', rs')" "rs = r @ rs'"
      by (auto simp: res_simps)
    with c cs show "map_of (sg_since g') name = map_of (sg_since g) name \<and> reason \<notin> set rs"
      by (fastforce simp: neutral_def)
  qed
qed

lemma guard_checks_run_append:
  "guard_checks_run (cs @ ds) g = rbind (guard_checks_run cs g) (\<lambda>(g1, r). rbind (guard_checks_run ds g1) (\<lambda>(g2, rs). Inr (g2, r @ rs)))"
proof (induction cs arbitrary: g)
  case Nil
  then show ?case by (cases "guard_checks_run ds g") auto
next
  case (Cons c cs)
  then show ?case by (cases "c g") (auto simp: rbind_assoc split_def)
qed

lemma guard_checks_run_rule:
  assumes run: "guard_checks_run (cs @ rule_check t x now (name, reason, b, path) # ds) g = Inr (g', rs)"
    and "list_all (neutral name reason) cs" and "list_all (neutral name reason) ds"
  shows "\<exists>secs stop. num_at t path = Inr secs
    \<and> map_of (sg_since g') name = (if holds_at b x then Some (dget_or (sg_since g) name now) else None)
    \<and> (reason \<in> set rs \<longleftrightarrow> holds_at b x \<and> at_least (num_sub now (dget_or (sg_since g) name now)) secs)"
proof -
  have ncs: "neutral name reason (guard_checks_run cs)" and nds: "neutral name reason (guard_checks_run ds)"
    using assms(2,3) by (simp_all add: guard_checks_run_neutral)
  from run obtain g1 r1 g2 r2 r3
    where 1: "guard_checks_run cs g = Inr (g1, r1)" and 2: "rule_check t x now (name, reason, b, path) g1 = Inr (g2, r2)"
      and 3: "guard_checks_run ds g2 = Inr (g', r3)" and rs: "rs = r1 @ r2 @ r3"
    by (auto simp: guard_checks_run_append res_simps)
  have since1: "map_of (sg_since g1) name = map_of (sg_since g) name" "reason \<notin> set r1"
    using ncs 1 by (auto simp: neutral_def)
  have since3: "map_of (sg_since g') name = map_of (sg_since g2) name" "reason \<notin> set r3"
    using nds 3 by (auto simp: neutral_def)
  from 2 obtain c secs d stop where c: "b x = Inr c" "num_at t path = Inr secs"
      "sustained (sg_since g1) name c now secs = (d, stop)" "sg_since g2 = d" "r2 = (if stop then [reason] else [])"
    by (rule rule_checkE)
  have "dget_or (sg_since g1) name now = dget_or (sg_since g) name now" by (simp add: dget_or_def since1)
  moreover have "stop \<longleftrightarrow> c \<and> at_least (num_sub now (dget_or (sg_since g1) name now)) secs"
    using c(3) by (auto simp: sustained_def split: if_splits)
  ultimately show ?thesis using c since1 since3 rs sustained_since [OF c(3), of name] by (auto simp: holds_at_def)
qed

lemma rule_split:
  assumes "(name, reason, b, path) \<in> set (sustained_rules t login_protection)"
  shows "\<exists>cs ds. guard_checks t login_protection x now = cs @ rule_check t x now (name, reason, b, path) # ds
    \<and> list_all (neutral name reason) cs \<and> list_all (neutral name reason) ds"
proof -
  let ?all = "guard_checks t login_protection x now"
  from assms consider "(name, reason, b, path) = cpu_rule t" | "(name, reason, b, path) = tx_rule t"
    | "(name, reason, b, path) = stalled_rule t"
    | "(name, reason, b, path) = queue_rule t login_protection ''hashQueueFraction''"
    | "(name, reason, b, path) = queue_rule t login_protection ''seatQueueFraction''"
    by (auto simp: sustained_rules_def)
  then have "\<exists>i < length ?all. ?all ! i = rule_check t x now (name, reason, b, path)
      \<and> list_all (neutral name reason) (take i ?all) \<and> list_all (neutral name reason) (drop (Suc i) ?all)"
  proof cases
    case 1
    then show ?thesis by (intro exI [of _ 9])
        (simp add: guard_checks_def cpu_rule_def tx_rule_def stalled_rule_def queue_rule_def)
  next
    case 2
    then show ?thesis by (intro exI [of _ 13])
        (simp add: guard_checks_def cpu_rule_def tx_rule_def stalled_rule_def queue_rule_def)
  next
    case 3
    then show ?thesis by (intro exI [of _ 14])
        (simp add: guard_checks_def cpu_rule_def tx_rule_def stalled_rule_def queue_rule_def)
  next
    case 4
    then show ?thesis by (intro exI [of _ 15])
        (simp add: guard_checks_def cpu_rule_def tx_rule_def stalled_rule_def queue_rule_def)
  next
    case 5
    then show ?thesis by (intro exI [of _ 16])
        (simp add: guard_checks_def cpu_rule_def tx_rule_def stalled_rule_def queue_rule_def)
  qed
  then show ?thesis by (metis id_take_nth_drop)
qed

lemma guard_sample_rule:
  assumes "guard_sample t login_protection g x = Inr (g', rs)"
    and "(name, reason, b, path) \<in> set (sustained_rules t login_protection)"
  shows "\<exists>secs. num_at t path = Inr secs
    \<and> map_of (sg_since g') name = since_step b (map_of (sg_since g) name) x
    \<and> (reason \<in> set rs \<longleftrightarrow> holds_at b x
        \<and> at_least (num_sub (sample_time x) (dget_or (sg_since g) name (sample_time x))) secs)"
proof -
  from assms(1) obtain now where now: "num_at x [''time''] = Inr now"
      "guard_checks_run (guard_checks t login_protection x now) g = Inr (g', rs)"
    by (auto simp: guard_sample_def res_simps)
  moreover from this have "sample_time x = now" by (simp add: sample_time_def)
  ultimately show ?thesis using rule_split [OF assms(2), of x now] guard_checks_run_rule [of _ t x now name reason b path _ g g' rs]
    by (fastforce simp: since_step_def dget_or_def split: option.splits)
qed

lemma guard_run_since:
  assumes "guard_run t login_protection xs = Inr (g, rss)"
    and "(name, reason, b, path) \<in> set (sustained_rules t login_protection)"
  shows "map_of (sg_since g) name = foldl (since_step b) None xs"
  using assms(1)
proof (induction xs arbitrary: g rss rule: rev_induct)
  case Nil
  then show ?case by (auto simp: guard_run_def stop_guard_start_def)
next
  case (snoc x xs)
  then obtain g1 rss1 rs where 1: "guard_run t login_protection xs = Inr (g1, rss1)"
      "guard_sample t login_protection g1 x = Inr (g, rs)"
    by (auto simp: guard_run_def outputs_snoc_Inr)
  with snoc.IH [OF 1(1)] guard_sample_rule [OF 1(2) assms(2)] show ?case by auto
qed

text \<open>
  \textbf{C18.} A sustained rule (processor, transaction waiters, stalled requests, either queue)
  stops the run at a sample exactly when its condition holds there and the first sample of the
  unbroken row of samples that ends there and all show it is at least the rule's seconds old.
\<close>

theorem stop_guard_sustained:
  assumes run: "guard_run t login_protection xs = Inr (g, rss)" and xs: "xs \<noteq> []"
    and rule: "(name, reason, b, path) \<in> set (sustained_rules t login_protection)"
  shows "\<exists>secs. num_at t path = Inr secs \<and> (reason \<in> set (last rss) \<longleftrightarrow> b (last xs) = Inr True
    \<and> at_least (num_sub (sample_time (last xs)) (sample_time (hd (trailing (\<lambda>x. b x = Inr True) xs)))) secs)"
proof -
  obtain ys x where xs: "xs = ys @ [x]" using xs by (cases xs rule: rev_cases) auto
  from run obtain g1 rss1 rs where 1: "guard_run t login_protection ys = Inr (g1, rss1)"
      "guard_sample t login_protection g1 x = Inr (g, rs)" "last rss = rs"
    by (auto simp: xs guard_run_def outputs_snoc_Inr)
  have "run_start (map_of (sg_since g1) name) (trailing (holds_at b) ys)"
    using guard_run_since [OF 1(1) rule] since.steps_know [of b ys] by (simp add: current_run_trailing)
  then have "dget_or (sg_since g1) name (sample_time x) = sample_time (hd (trailing (holds_at b) ys @ [x]))"
    by (cases "trailing (holds_at b) ys") (simp_all add: run_start_def dget_or_def)
  with guard_sample_rule [OF 1(2) rule] 1(3) show ?thesis
    by (auto simp: xs holds_at_def [abs_def])
qed

definition stop_targets :: json where
  "stop_targets = JObj
    [(''mode'', JStr ''formal''), (''formalActiveUserTarget'', JInt 10000),
     (''burst'', JObj [(''users'', JInt 10000)]), (''hotspot'', JObj [(''users'', JInt 10000)]),
     (''login'', JObj [(''users'', JInt 10000)]),
     (''online'', JObj [(''rounds'', JList [JList [JObj [(''users'', JInt 10000)]]])]),
     (''stop'', JObj [(''minErrorSamples'', JInt 100), (''errorFraction'', JFloat (fl64 (1/100))),
        (''consecutiveErrorWindows'', JInt 2), (''smallWindowErrors'', JInt 3), (''windowSeconds'', JInt 10),
        (''stalledInflight'', JInt 100), (''stallSeconds'', JInt 10), (''queueFraction'', JFloat (fl64 (9/10))),
        (''queueSeconds'', JInt 10), (''transactionWaiters'', JInt 100), (''transactionWaitSeconds'', JInt 10),
        (''oldestTransactionSeconds'', JInt 3), (''memoryFraction'', JFloat (fl64 (9/10)))]),
     (''generator'', JObj [(''cpuFraction'', JFloat (fl64 (8/10))), (''cpuContinuousSeconds'', JInt 10),
        (''memoryFraction'', JFloat (fl64 (9/10))), (''maxClockSkewMs'', JInt 100), (''dropped'', JInt 0),
        (''sampleSeconds'', JInt 1)])]"

definition busy_sample :: "int \<Rightarrow> json" where
  "busy_sample time = JObj
    ([(''time'', JInt time), (''generatorCpuFraction'', JFloat (fl64 (85/100)))] @
     map (\<lambda>k. (k, JBool False)) [''correctnessFailure'', ''restarted'', ''oom'', ''unhealthy'', ''wrongEnvironment'',
       ''swapping'', ''networkExhausted'', ''fdExhausted''] @
     map (\<lambda>k. (k, JInt 0)) [''generatorMemoryFraction'', ''clockSkewMs'', ''dropped'', ''memoryFraction'',
       ''transactionOldestSeconds'', ''transactionWaiters'', ''httpInflight'', ''hashQueueFraction'', ''seatQueueFraction''])"

lemma busy_run:
  "case guard_run stop_targets False [busy_sample 0, busy_sample 10] of Inr (g, rss) \<Rightarrow> sg_warnings g = [] | Inl _ \<Rightarrow> False"
  by code_simp

theorem stop_guard_sustained_witness:
  "\<exists>g rss. guard_run stop_targets False [busy_sample 0, busy_sample 10] = Inr (g, rss)
     \<and> ''invalid generator cpu'' \<in> set (last rss)"
proof -
  from busy_run obtain g rss where run: "guard_run stop_targets False [busy_sample 0, busy_sample 10] = Inr (g, rss)"
    by (auto split: sum.splits)
  have rule: "(''generatorCpu'', ''invalid generator cpu'',
      \<lambda>x. reaches stop_targets x ''generatorCpuFraction'' [''generator'', ''cpuFraction''],
      [''generator'', ''cpuContinuousSeconds'']) \<in> set (sustained_rules stop_targets False)"
    by (simp add: sustained_rules_def cpu_rule_def)
  have "num_at stop_targets [''generator'', ''cpuContinuousSeconds''] = Inr (PInt 10)" by code_simp
  moreover have "trailing (\<lambda>x. reaches stop_targets x ''generatorCpuFraction'' [''generator'', ''cpuFraction''] = Inr True)
      [busy_sample 0, busy_sample 10] = [busy_sample 0, busy_sample 10]" by code_simp
  moreover have "reaches stop_targets (busy_sample 10) ''generatorCpuFraction'' [''generator'', ''cpuFraction''] = Inr True"
    by code_simp
  moreover have "sample_time (busy_sample 10) = PInt 10" "sample_time (busy_sample 0) = PInt 0" by code_simp+
  ultimately show ?thesis using run stop_guard_sustained [OF run _ rule]
    by (auto simp: num_sub_def num_less_def)
qed

section \<open>FdGuard\<close>

definition fd_step :: "int \<Rightarrow> json \<Rightarrow> int" where
  "fd_step high rec = (if holds_at fd_high rec then high + 1 else 0)"

interpretation fd: run_monitor "holds_at fd_high" "\<lambda>_ _. True" 0 fd_step "\<lambda>high r. high = int (length r)"
  by unfold_locales (auto simp: fd_step_def next_run_def)

lemma fd_sample_Inr:
  "fd_sample high rec = Inr (high', r) \<Longrightarrow> validate_limits rec = Inr () \<and> high' = fd_step high rec
     \<and> (r \<longleftrightarrow> flag_at rec ''errorTimestamps'' = Inr True \<or> 3 \<le> high')"
  by (auto simp: fd_sample_def res_simps fd_step_def holds_at_def Let_def)

lemma fd_run_high:
  "fd_run recs = Inr (high, rs) \<Longrightarrow> high = foldl fd_step 0 recs \<and> list_all (\<lambda>r. validate_limits r = Inr ()) recs"
proof (induction recs arbitrary: high rs rule: rev_induct)
  case (snoc x xs)
  then show ?case by (fastforce simp: fd_run_def outputs_snoc_Inr dest: fd_sample_Inr)
qed (auto simp: fd_run_def)

text \<open>
  As long as every record has the limits of open files that were rolled out, the guard
  of the open files goes off exactly when the last record reports errors or the last three or more
  records in a row are at 85 per cent of the limit.
\<close>

theorem fd_guard_exact:
  assumes run: "fd_run recs = Inr (high, rs)" and "recs \<noteq> []"
  shows "list_all (\<lambda>r. validate_limits r = Inr ()) recs \<and> (last rs \<longleftrightarrow>
    flag_at (last recs) ''errorTimestamps'' = Inr True \<or>
    (\<exists>q. suffix q recs \<and> list_all (\<lambda>r. fd_high r = Inr True) q \<and> 3 \<le> length q))"
proof -
  obtain ys x where recs: "recs = ys @ [x]" using assms(2) by (cases recs rule: rev_cases) auto
  from run obtain h rs1 r where 1: "fd_run ys = Inr (h, rs1)" "fd_sample h x = Inr (high, r)" "rs = rs1 @ [r]"
    by (auto simp: recs fd_run_def outputs_snoc_Inr)
  have "3 \<le> foldl fd_step 0 recs \<longleftrightarrow> (\<exists>q. suffix q recs \<and> list_all (holds_at fd_high) q \<and> 3 \<le> length q)"
    using fd.fires_iff [of "\<lambda>n. 3 \<le> n" "\<lambda>r. 3 \<le> length r" recs] by simp
  with fd_run_high [OF run] fd_sample_Inr [OF 1(2)] 1(3) show ?thesis
    by (simp add: holds_at_def [abs_def] recs)
qed

definition fd_record :: "rat \<Rightarrow> json" where
  "fd_record fraction = JObj [(''soft'', JInt 65535), (''hard'', JInt 65535), (''fraction'', JFloat fraction),
     (''dockerUlimits'', JList [JObj [(''Name'', JStr ''nofile''), (''Soft'', JInt 65535), (''Hard'', JInt 65535)]]),
     (''errorTimestamps'', JList [])]"

lemma fd_lab: "fd_run [fd_record (1/2), fd_record (7/8), fd_record (9/10), fd_record (7/8)] = Inr (3, [False, False, False, True])"
  by code_simp

theorem fd_guard_exact_witness:
  "\<exists>q. suffix q [fd_record (1/2), fd_record (7/8), fd_record (9/10), fd_record (7/8)]
     \<and> list_all (\<lambda>r. fd_high r = Inr True) q \<and> 3 \<le> length q"
  using fd_guard_exact [OF fd_lab] by (auto simp: flag_at_def fd_record_def dindex_def)

end
