(* ===== verification/Raw_Points.thy ===== *)
theory Raw_Points
  imports Stop_Rules "HOL-Library.Product_Lexorder"
begin

text \<open>
  The raw samples of the load generators: \<open>timestamp\<close>, \<open>percentile\<close> and \<open>aggregate\<close> of
  \<open>performance/scripts/phase14_evidence.py\<close>. \<open>json.loads\<close> and \<open>datetime.fromisoformat\<close> are parameters. The SQLite
  table of the points is the list of its rows, and the tags of a point are texts.
\<close>

section \<open>Times and quantiles\<close>

text \<open>\<open>Z\<close>, or an offset at the very end of the text.\<close>

definition zone_ahead :: "string \<Rightarrow> bool" where
  "zone_ahead s = (case s of
      [] \<Rightarrow> False
    | c # _ \<Rightarrow> c = CHR ''Z'' \<or> ((c = CHR ''+'' \<or> c = CHR ''-'') \<and>
        (case drop 1 s of [a, b, k, d, e] \<Rightarrow> list_all is_digit [a, b, d, e] \<and> k = CHR '':'' | _ \<Rightarrow> False)))"

function six_digits :: "string \<Rightarrow> string" where
  "six_digits [] = []"
| "six_digits (c # cs) =
     (let d = takeWhile is_digit cs; rest = dropWhile is_digit cs in
      if c = CHR ''.'' \<and> d \<noteq> [] \<and> zone_ahead rest
      then CHR ''.'' # take 6 d @ replicate (6 - length d) CHR ''0'' @ six_digits rest
      else c # six_digits cs)"
  by pat_completeness auto

termination
  by (relation "measure length") (auto simp: length_dropWhile_le le_imp_less_Suc)

definition timestamp :: "(string \<Rightarrow> rat res) \<Rightarrow> string \<Rightarrow> rat res" where
  "timestamp fromiso value = fromiso (py_replace ''Z'' ''+00:00'' (six_digits value))"

definition value_at :: "rat list \<Rightarrow> nat \<Rightarrow> rat res" where
  "value_at xs k = (if k < length xs then Inr (xs ! k) else Inl (Exn TypeError ''not subscriptable''))"

text \<open>The quantile of a sorted list between its neighbours.\<close>

definition quantile_of :: "rat list \<Rightarrow> rat \<Rightarrow> rat res" where
  "quantile_of xs p =
     (let pos = fl64 (of_int (int (length xs) - 1) * p); lo = \<lfloor>pos\<rfloor>; hi = \<lceil>pos\<rceil> in
      rbind (value_at xs (nat lo)) (\<lambda>a. rbind (value_at xs (nat hi)) (\<lambda>b.
      Inr (fl64 (a + fl64 (fl64 (b - a) * fl64 (pos - of_int lo)))))))"

definition percentile :: "rat list \<Rightarrow> rat \<Rightarrow> rat option res" where
  "percentile xs p = (if xs = [] then Inr None else rbind (quantile_of (sort xs) p) (\<lambda>v. Inr (Some v)))"

section \<open>Aggregation\<close>

type_synonym tag_key = "string \<times> string \<times> string"

definition key_text :: "tag_key \<Rightarrow> string" where
  "key_text k = (case k of (scenario, step, result) \<Rightarrow>
     ''['' @ json_quote_ascii scenario @ '','' @ json_quote_ascii step @ '','' @ json_quote_ascii result @ '']'')"

definition allowed_tags :: "string list" where
  "allowed_tags = [''scenario'', ''step'', ''result'', ''shard'', ''status'', ''method'', ''name'', ''expected_response'',
     ''error_code'', ''group'', ''check'']"

definition result_classes :: "string list" where
  "result_classes = [''business_success'', ''business_conflict'', ''capacity_rejection'', ''system_error'', ''unexpected_contract'']"

record agg_state =
  ag_types :: "(string \<times> string) list"
  ag_counters :: "((string \<times> tag_key) \<times> rat) list"
  ag_points :: "((string \<times> tag_key) \<times> rat) list"
  ag_windows :: "(string \<times> rat \<times> rat) list"
  ag_saw :: bool

definition agg_start :: agg_state where
  "agg_start = \<lparr>ag_types = [], ag_counters = [], ag_points = [], ag_windows = [], ag_saw = False\<rparr>"

record point =
  pt_metric :: string
  pt_value :: rat
  pt_time :: string
  pt_key :: tag_key

text \<open>The checks of a point; None when it lies outside of the interval asked for.\<close>

definition finite_value :: "json \<Rightarrow> rat res" where
  "finite_value v = (case v of JInt i \<Rightarrow> Inr (of_int i) | JFloat r \<Rightarrow> Inr r | JBool b \<Rightarrow> Inr (if b then 1 else 0)
     | _ \<Rightarrow> Inl (Exn ValueError ''invalid point''))"

definition tag_of :: "dict \<Rightarrow> string \<Rightarrow> string \<Rightarrow> string res" where
  "tag_of tags k d = json_to_str (dget_or tags k (JStr d))"

definition check_tags :: "string \<Rightarrow> string \<Rightarrow> dict \<Rightarrow> unit res" where
  "check_tags shard metric tags =
     rbind (require (set (dkeys tags) \<subseteq> set allowed_tags) ValueError ''unbounded metric labels'') (\<lambda>_.
     rbind (tag_of tags ''shard'' shard) (\<lambda>s.
     rbind (require (s = shard) ValueError ''wrong shard label'') (\<lambda>_.
     require (\<not> (startswith metric ''phase14_'' \<and> \<not> dhas tags ''shard'')) ValueError ''missing shard label'')))"

definition before :: "(string \<Rightarrow> rat res) \<Rightarrow> string \<Rightarrow> string option \<Rightarrow> (rat \<Rightarrow> rat \<Rightarrow> bool) \<Rightarrow> bool res" where
  "before fromiso time bound out = (case bound of None \<Rightarrow> Inr False
     | Some b \<Rightarrow> rbind (timestamp fromiso time) (\<lambda>x. rbind (timestamp fromiso b) (\<lambda>y. Inr (out x y))))"

definition point_tags :: "json \<Rightarrow> dict res" where
  "point_tags data = rbind (json_get data ''tags'' JNull) (\<lambda>tags. if truthy tags then json_to_dict tags else Inr [])"

definition read_point ::
  "(string \<Rightarrow> rat res) \<Rightarrow> string \<Rightarrow> (string \<times> num option) list \<Rightarrow> string option \<Rightarrow> string option \<Rightarrow> json \<Rightarrow> point option res" where
  "read_point fromiso shard plan since until line =
     rbind (json_index line ''data'') (\<lambda>data.
     rbind (point_tags data) (\<lambda>tags.
     rbind (rbind (json_index line ''metric'') json_to_str) (\<lambda>metric.
     rbind (rbind (json_index data ''value'') finite_value) (\<lambda>value.
     rbind (check_tags shard metric tags) (\<lambda>_.
     rbind (rbind (json_index data ''time'') json_to_str) (\<lambda>time.
     rbind (res_or (before fromiso time since (<)) (before fromiso time until (\<ge>))) (\<lambda>outside.
     if outside then Inr None
     else
       rbind (tag_of tags ''scenario'' []) (\<lambda>scenario. rbind (tag_of tags ''step'' []) (\<lambda>step.
       rbind (tag_of tags ''result'' []) (\<lambda>result.
       rbind (require (\<not> (startswith metric ''phase14_'' \<and> \<not> dhas plan scenario)) ValueError
         ''unbounded or missing scenario label'') (\<lambda>_.
       rbind (require (\<not> (metric = ''phase14_results'' \<and> result \<notin> set result_classes)) ValueError
         ''invalid result classification'') (\<lambda>_.
       Inr (Some \<lparr>pt_metric = metric, pt_value = value, pt_time = time, pt_key = (scenario, step, result)\<rparr>)))))))))))))"

definition add_to :: "('k \<times> rat) list \<Rightarrow> 'k \<Rightarrow> rat \<Rightarrow> ('k \<times> rat) list" where
  "add_to d k v = dset d k (fl64 (dget_or d k 0 + fl64 v))"

definition add_window :: "(string \<times> rat \<times> rat) list \<Rightarrow> point \<Rightarrow> (string \<times> rat \<times> rat) list" where
  "add_window ws p = (let bucket = take 19 (pt_time p); (n, e) = dget_or ws bucket (0, 0) in
     dset ws bucket (fl64 (n + fl64 (pt_value p)),
       if snd (snd (pt_key p)) \<in> {''system_error'', ''unexpected_contract''} then fl64 (e + fl64 (pt_value p)) else e))"

definition add_point :: "agg_state \<Rightarrow> point \<Rightarrow> agg_state" where
  "add_point s p =
     (let metric = pt_metric p; kind = dget (ag_types s) metric; entry = (metric, pt_key p) in
      s\<lparr>ag_saw := True,
        ag_counters := (if kind = Some ''counter'' then add_to (ag_counters s) entry (pt_value p) else ag_counters s),
        ag_points := (if kind \<in> {Some ''trend'', Some ''gauge''} \<and> startswith metric ''phase14_''
          then ag_points s @ [(entry, pt_value p)] else ag_points s),
        ag_windows := (if metric = ''phase14_results'' then add_window (ag_windows s) p else ag_windows s)\<rparr>)"

definition agg_line ::
  "(string \<Rightarrow> rat res) \<Rightarrow> string \<Rightarrow> (string \<times> num option) list \<Rightarrow> string option \<Rightarrow> string option \<Rightarrow> agg_state \<Rightarrow> json \<Rightarrow> agg_state res" where
  "agg_line fromiso shard plan since until s line =
     rbind (json_get line ''type'' JNull) (\<lambda>type.
     if type = JStr ''Metric'' then
       rbind (rbind (json_index line ''metric'') json_to_str) (\<lambda>metric.
       rbind (rbind (json_at line [''data'', ''type'']) json_to_str) (\<lambda>kind.
       Inr (s\<lparr>ag_types := dset (ag_types s) metric kind\<rparr>)))
     else if type \<noteq> JStr ''Point'' then Inl (Exn ValueError ''unknown raw record'')
     else rbind (read_point fromiso shard plan since until line) (\<lambda>p. Inr (case p of None \<Rightarrow> s | Some q \<Rightarrow> add_point s q)))"

text \<open>The evidence of a shard: its number, the checksum on file and the real one, its size and its lines.\<close>

record shard_evidence =
  se_shard :: string
  se_expected :: string
  se_sha256 :: string
  se_bytes :: int
  se_lines :: "string list"

definition agg_shard ::
  "(string \<Rightarrow> rat res) \<Rightarrow> (string \<Rightarrow> json res) \<Rightarrow> (string \<times> num option) list \<Rightarrow> string option \<Rightarrow> string option \<Rightarrow>
    agg_state \<Rightarrow> shard_evidence \<Rightarrow> agg_state res" where
  "agg_shard fromiso parse plan since until s ev =
     rbind (require (se_sha256 ev = se_expected ev) ValueError ''shard checksum mismatch'') (\<lambda>_.
     rbind (fold_res (\<lambda>s line. rbind (parse line) (agg_line fromiso (se_shard ev) plan since until s))
       (s\<lparr>ag_saw := False\<rparr>) (se_lines ev)) (\<lambda>s'.
     rbind (require (ag_saw s') ValueError ''empty shard evidence'') (\<lambda>_. Inr s')))"

type_synonym count_row = "string \<times> tag_key \<times> rat"

record trend_row =
  tr_metric :: string
  tr_key :: tag_key
  tr_count :: nat
  tr_p50 :: rat
  tr_p95 :: rat
  tr_p99 :: rat
  tr_max :: rat

definition points_of :: "((string \<times> tag_key) \<times> rat) list \<Rightarrow> string \<times> tag_key \<Rightarrow> rat list" where
  "points_of rows g = sort (map snd (filter (\<lambda>r. fst r = g) rows))"

definition trend_of :: "((string \<times> tag_key) \<times> rat) list \<Rightarrow> string \<times> tag_key \<Rightarrow> trend_row res" where
  "trend_of rows g = (let vs = points_of rows g in
     rbind (quantile_of vs (fl64 (5/10))) (\<lambda>p50. rbind (quantile_of vs (fl64 (95/100))) (\<lambda>p95.
     rbind (quantile_of vs (fl64 (99/100))) (\<lambda>p99. rbind (value_at vs (length vs - 1)) (\<lambda>m.
     Inr \<lparr>tr_metric = fst g, tr_key = snd g, tr_count = length vs, tr_p50 = p50, tr_p95 = p95, tr_p99 = p99, tr_max = m\<rparr>)))))"

definition group_order :: "string \<times> tag_key \<Rightarrow> string \<times> string" where
  "group_order g = (fst g, key_text (snd g))"

definition trends_of :: "((string \<times> tag_key) \<times> rat) list \<Rightarrow> trend_row list res" where
  "trends_of rows = map_res (trend_of rows) (sort_key group_order (remdups (map fst rows)))"

definition rows_of :: "((string \<times> tag_key) \<times> rat) list \<Rightarrow> count_row list" where
  "rows_of counters = map (\<lambda>((m, k), v). (m, k, v)) (sort_key (\<lambda>(g, v). group_order g) counters)"

text \<open>\<open>count(metric, scenario, step)\<close>; what is not given is not asked for.\<close>

definition selects :: "'a option \<Rightarrow> 'a \<Rightarrow> bool" where
  "selects wanted x = (wanted = None \<or> wanted = Some x)"

definition rows_count :: "count_row list \<Rightarrow> string \<Rightarrow> string option \<Rightarrow> string option \<Rightarrow> string option \<Rightarrow> rat" where
  "rows_count rows metric scenario step result =
     foldl (\<lambda>a r. fl64 (a + r)) 0 (map (\<lambda>(_, _, v). v) (filter (\<lambda>(m, (sc, st, re), v).
       m = metric \<and> selects scenario sc \<and> selects step st \<and> selects result re) rows))"

record delivery_row =
  dl_scenario :: string
  dl_planned :: "num option"
  dl_started :: rat
  dl_completed :: rat
  dl_interrupted :: rat

definition delivery_of :: "count_row list \<Rightarrow> string \<times> num option \<Rightarrow> delivery_row" where
  "delivery_of rows p = (case p of (scenario, planned) \<Rightarrow>
     let a = rows_count rows ''phase14_iterations_started'' (Some scenario) None None;
         b = rows_count rows ''phase14_iterations_completed'' (Some scenario) None None
     in \<lparr>dl_scenario = scenario, dl_planned = planned, dl_started = a, dl_completed = b, dl_interrupted = fl64 (a - b)\<rparr>)"

definition delivery_errors :: "delivery_row \<Rightarrow> string list" where
  "delivery_errors d =
     (if dl_planned d \<noteq> None \<and> dl_started d \<noteq> num_rat (the (dl_planned d))
      then [dl_scenario d @ '': planned != started''] else []) @
     (if dl_started d = 0 \<or> dl_started d \<noteq> dl_completed d
      then [dl_scenario d @ '': missing/interrupted iterations''] else [])"

text \<open>The scenarios and steps that were started: a set in the code, in the order of the rows here.\<close>

definition started_steps :: "count_row list \<Rightarrow> (string \<times> string) list" where
  "started_steps rows = remdups (map (\<lambda>(_, (sc, st, _), _). (sc, st)) (filter (\<lambda>(m, _). m = ''phase14_started'') rows))"

definition step_errors :: "count_row list \<Rightarrow> string list" where
  "step_errors rows = concat (map (\<lambda>(sc, st).
     if rows_count rows ''phase14_started'' (Some sc) (Some st) None \<noteq> rows_count rows ''phase14_results'' (Some sc) (Some st) None
     then [sc @ ''/'' @ st @ '': classification not conserved''] else []) (started_steps rows))"

record agg_summary =
  as_inputs :: "(string \<times> string \<times> int) list"
  as_counts :: "count_row list"
  as_trends :: "trend_row list"
  as_delivery :: "delivery_row list"
  as_dropped :: rat
  as_errors :: "string list"
  as_seconds :: "(string \<times> rat \<times> rat) list"

definition summary_of :: "shard_evidence list \<Rightarrow> (string \<times> num option) list \<Rightarrow> agg_state \<Rightarrow> agg_summary res" where
  "summary_of evs plan s =
     rbind (trends_of (ag_points s)) (\<lambda>trends.
     let rows = rows_of (ag_counters s); delivery = map (delivery_of rows) plan;
         dropped = rows_count rows ''dropped_iterations'' None None None
     in Inr \<lparr>as_inputs = map (\<lambda>e. (se_shard e, se_expected e, se_bytes e)) evs, as_counts = rows, as_trends = trends,
       as_delivery = delivery, as_dropped = dropped,
       as_errors = concat (map delivery_errors delivery) @ step_errors rows @
         (if dropped \<noteq> 0 then [''dropped iterations''] else []),
       as_seconds = ag_windows s\<rparr>)"

definition aggregate ::
  "(string \<Rightarrow> rat res) \<Rightarrow> (string \<Rightarrow> json res) \<Rightarrow> shard_evidence list \<Rightarrow> (string \<times> num option) list \<Rightarrow>
    string option \<Rightarrow> string option \<Rightarrow> agg_summary res" where
  "aggregate fromiso parse evs plan since until =
     rbind (require (evs \<noteq> [] \<and> distinct (map se_shard evs)) ValueError ''missing or duplicate shard'') (\<lambda>_.
     rbind (fold_res (agg_shard fromiso parse plan since until) agg_start evs) (summary_of evs plan))"

section \<open>Sums of whole numbers are exact\<close>

lemma bit_len_power: "n < 2 ^ k \<Longrightarrow> bit_len n \<le> k"
proof (induction n arbitrary: k rule: bit_len.induct)
  case (1 n)
  show ?case
  proof (cases "n = 0")
    case False
    with 1(2) obtain j where k: "k = Suc j" by (cases k) auto
    with 1(2) have "n div 2 < 2 ^ j" by auto
    with 1(1) [OF False] have "bit_len (n div 2) \<le> j" by blast
    with k show ?thesis by (subst bit_len.simps) simp
  qed (simp add: bit_len.simps)
qed

lemma round_scaled:
  assumes "k \<le> 0"
  shows "of_int (round_even (of_nat n / pow2 k)) * pow2 k = of_nat n"
proof -
  from assms have p: "pow2 k = 1 / of_int (2 ^ nat (- k))" by (auto simp: pow2_def)
  have "of_nat n / pow2 k = of_int (int n * 2 ^ nat (- k))" by (simp add: p)
  then have "round_even (of_nat n / pow2 k) = int n * 2 ^ nat (- k)" by (simp only: round_even_of_int)
  then show ?thesis by (simp add: p)
qed

lemma fl64_nat:
  assumes "n < 2 ^ 53"
  shows "fl64 (of_nat n) = of_nat n"
proof (cases "n = 0")
  case False
  have q: "quotient_of (of_nat n) = (int n, 1)"
    using quotient_of_int [of "int n"] by (simp add: quotient_of_rat_of_int)
  have one: "bit_len (Suc 0) = 1" by (simp add: bit_len.simps)
  from assms have "bit_len n \<le> 53" by (rule bit_len_power)
  then have "fl_exp (of_nat n) \<le> 0" by (simp add: fl_exp_def q one Let_def)
  with False show ?thesis by (simp add: fl64_def fl_pos_def Let_def round_scaled)
qed simp

lemma fl64_whole: "x \<in> \<nat> \<Longrightarrow> x < 2 ^ 53 \<Longrightarrow> fl64 x = x"
  by (elim Nats_cases) (simp add: fl64_nat)

text \<open>Whole numbers with a sum that fits.\<close>

definition countable_values :: "rat list \<Rightarrow> bool" where
  "countable_values vs = (set vs \<subseteq> \<nat> \<and> sum_list vs < 2 ^ 53)"

lemma sum_list_Nats: "set vs \<subseteq> \<nat> \<Longrightarrow> sum_list vs \<in> (\<nat> :: rat set)"
  by (induction vs) simp_all

lemma Nats_nonneg: "x \<in> \<nat> \<Longrightarrow> 0 \<le> (x :: rat)"
  by (elim Nats_cases) simp

lemma countable_values_append:
  assumes "countable_values (vs @ ws)"
  shows "countable_values vs" and "countable_values ws"
proof -
  have "0 \<le> sum_list vs" "0 \<le> sum_list ws"
    using assms sum_list_Nats [of vs] sum_list_Nats [of ws] by (auto simp: countable_values_def intro: Nats_nonneg)
  with assms show "countable_values vs" "countable_values ws" by (auto simp: countable_values_def)
qed

lemma countable_values_mset:
  assumes "mset vs = mset ws"
  shows "countable_values vs \<longleftrightarrow> countable_values ws"
proof -
  have "set vs = set ws" using assms by (rule mset_eq_setD)
  moreover have "sum_list vs = sum_list ws" using assms by (metis sum_mset_sum_list)
  ultimately show ?thesis by (simp only: countable_values_def)
qed

lemma countable_sum: "countable_values vs \<Longrightarrow> fl64 (sum_list vs) = sum_list vs"
  by (simp add: countable_values_def fl64_whole sum_list_Nats)

lemma float_sum: "countable_values vs \<Longrightarrow> foldl (\<lambda>a r. fl64 (a + r)) 0 vs = sum_list vs"
proof (induction vs rule: rev_induct)
  case (snoc v vs)
  then have "foldl (\<lambda>a r. fl64 (a + r)) 0 vs = sum_list vs" using countable_values_append(1) by blast
  then show ?case using countable_sum [OF snoc.prems] by simp
qed simp

section \<open>Counters\<close>

definition tally_all :: "('k \<times> rat) list \<Rightarrow> ('k \<times> rat) list" where
  "tally_all xs = foldl (\<lambda>d (k, v). add_to d k v) [] xs"

lemma tally_all_snoc [simp]: "tally_all (xs @ [(k, v)]) = add_to (tally_all xs) k v"
  by (simp add: tally_all_def)

lemma tally_all_keys: "set (dkeys (tally_all xs)) = fst ` set xs"
proof (induction xs rule: rev_induct)
  case (snoc x xs)
  then show ?case by (cases x) (simp add: add_to_def dom_update)
qed (simp add: tally_all_def)

lemma tally_all_distinct: "distinct (dkeys (tally_all xs))"
proof (induction xs rule: rev_induct)
  case (snoc x xs)
  then show ?case by (cases x) (simp add: add_to_def distinct_update)
qed (simp add: tally_all_def)

definition values_for :: "('k \<times> rat) list \<Rightarrow> 'k \<Rightarrow> rat list" where
  "values_for xs k = map snd (filter (\<lambda>x. fst x = k) xs)"

lemma values_for_snoc [simp]: "values_for (xs @ [(j, v)]) k = (if j = k then values_for xs k @ [v] else values_for xs k)"
  by (simp add: values_for_def)

lemma countable_filter:
  assumes "countable_values (map f xs)"
  shows "countable_values (map f (filter P xs))"
proof -
  have "mset (map f xs) = mset (map f (filter P xs) @ map f (filter (\<lambda>x. \<not> P x) xs))"
    by (induction xs) auto
  then show ?thesis using assms countable_values_mset countable_values_append(1) by blast
qed

lemma countable_values_for: "countable_values (map snd xs) \<Longrightarrow> countable_values (values_for xs k)"
  by (simp add: values_for_def countable_filter)

lemma tally_all_value:
  "countable_values (map snd xs) \<Longrightarrow>
     map_of (tally_all xs) k = (if k \<in> fst ` set xs then Some (sum_list (values_for xs k)) else None)"
proof (induction xs arbitrary: k rule: rev_induct)
  case (snoc x xs)
  obtain j v where x: "x = (j, v)" by (cases x)
  from snoc.prems have c: "countable_values (map snd xs @ [v])" by (simp add: x)
  note IH = snoc.IH [OF countable_values_append(1) [OF c]]
  have v: "fl64 v = v" using countable_sum [OF countable_values_append(2) [OF c]] by simp
  have "countable_values (values_for (xs @ [(j, v)]) j)" using snoc.prems by (intro countable_values_for) (simp add: x)
  then have s: "fl64 (sum_list (values_for xs j) + v) = sum_list (values_for xs j) + v"
    using countable_sum by fastforce
  have "values_for xs j = []" if "j \<notin> fst ` set xs"
    using that by (force simp: values_for_def filter_empty_conv)
  then have "dget_or (tally_all xs) j 0 = sum_list (values_for xs j)"
    by (cases "j \<in> fst ` set xs") (simp_all add: dget_or_def IH)
  then show ?case using IH by (auto simp: x add_to_def v s)
qed (simp add: tally_all_def)

lemma tally_all_get:
  assumes "countable_values (map snd xs)"
  shows "dget_or (tally_all xs) k 0 = sum_list (values_for xs k)"
proof -
  have "values_for xs k = []" if "k \<notin> fst ` set xs"
    using that by (force simp: values_for_def filter_empty_conv)
  then show ?thesis by (cases "k \<in> fst ` set xs") (simp_all add: dget_or_def tally_all_value [OF assms])
qed

lemma sum_values_update:
  "distinct (dkeys d) \<Longrightarrow> sum_list (map snd (dset d k v)) = sum_list (map snd d) - dget_or d k 0 + (v :: rat)"
proof (induction d)
  case (Cons p d)
  have "dget_or d k 0 = 0" if "k \<notin> fst ` set d"
    using that by (simp add: dget_or_def map_of_eq_None_iff [THEN iffD2])
  with Cons show ?case by (cases p) (auto simp: dget_or_def)
qed (simp add: dget_or_def)

lemma tally_all_total:
  assumes "countable_values (map snd xs)"
  shows "countable_values (map snd (tally_all xs)) \<and> sum_list (map snd (tally_all xs)) = sum_list (map snd xs)"
  using assms
proof (induction xs rule: rev_induct)
  case (snoc x xs)
  obtain j v where x: "x = (j, v)" by (cases x)
  from snoc.prems have c: "countable_values (map snd xs @ [v])" by (simp add: x)
  note IH = snoc.IH [OF countable_values_append(1) [OF c]]
  let ?new = "dget_or (tally_all (xs @ [x])) j 0"
  have "tally_all (xs @ [x]) = dset (tally_all xs) j ?new"
    by (simp add: x add_to_def dget_or_def)
  moreover have "?new = dget_or (tally_all xs) j 0 + v"
  proof -
    have "?new = sum_list (values_for (xs @ [x]) j)" by (rule tally_all_get [OF snoc.prems])
    moreover have "dget_or (tally_all xs) j 0 = sum_list (values_for xs j)"
      by (rule tally_all_get [OF countable_values_append(1) [OF c]])
    ultimately show ?thesis by (simp add: x)
  qed
  ultimately have sum: "sum_list (map snd (tally_all (xs @ [x]))) = sum_list (map snd (xs @ [x]))"
    using sum_values_update [OF tally_all_distinct [of xs], of j ?new] IH by (simp add: x)
  have "r \<in> \<nat>" if "(k, r) \<in> set (tally_all (xs @ [x]))" for k r
  proof -
    from that have "map_of (tally_all (xs @ [x])) k = Some r" by (rule map_of_is_SomeI [OF tally_all_distinct])
    then have "r = sum_list (values_for (xs @ [x]) k)" using tally_all_value [OF snoc.prems, of k] by (simp split: if_splits)
    then show ?thesis
      using countable_values_for [OF snoc.prems, of k] by (simp add: countable_values_def sum_list_Nats)
  qed
  with sum snoc.prems show ?case by (auto simp: countable_values_def)
qed (simp add: tally_all_def)

lemma map_of_mset:
  assumes "map_of d = map_of e" and "distinct (dkeys d)" and "distinct (dkeys e)"
  shows "mset d = mset e"
proof -
  have "set d = set e" using assms by (metis map_of_eq_Some_iff subrelI subset_antisym)
  moreover have "distinct d" "distinct e" using assms by (auto simp: distinct_map)
  ultimately show ?thesis by (simp add: set_eq_iff_mset_eq_distinct)
qed

text \<open>Counting in another order gives the same counters.\<close>

lemma tally_all_perm:
  assumes "mset xs = mset ys" and "countable_values (map snd xs)"
  shows "mset (tally_all xs) = mset (tally_all ys)"
proof -
  have c: "countable_values (map snd ys)"
    using assms countable_values_mset [of "map snd xs" "map snd ys"] by (metis mset_map)
  have "map_of (tally_all xs) = map_of (tally_all ys)"
  proof
    fix k
    have "mset (values_for xs k) = mset (values_for ys k)" using assms(1) by (simp add: values_for_def)
    then have "sum_list (values_for xs k) = sum_list (values_for ys k)" by (metis sum_mset_sum_list)
    then show "map_of (tally_all xs) k = map_of (tally_all ys) k"
      using mset_eq_setD [OF assms(1)] by (simp add: tally_all_value assms(2) c)
  qed
  then show ?thesis by (rule map_of_mset [OF _ tally_all_distinct tally_all_distinct])
qed

section \<open>What a shard contributes\<close>

text \<open>
  The point of a line, if it has one that counts, and the kind of metric a line declares: both
  without regard to what was read before.
\<close>

definition line_point ::
  "(string \<Rightarrow> rat res) \<Rightarrow> string \<Rightarrow> (string \<times> num option) list \<Rightarrow> string option \<Rightarrow> string option \<Rightarrow> json \<Rightarrow> point option res" where
  "line_point fromiso shard plan since until line =
     rbind (json_get line ''type'' JNull) (\<lambda>type.
     if type = JStr ''Metric'' then
       rbind (rbind (json_index line ''metric'') json_to_str) (\<lambda>_.
       rbind (rbind (json_at line [''data'', ''type'']) json_to_str) (\<lambda>_. Inr None))
     else if type \<noteq> JStr ''Point'' then Inl (Exn ValueError ''unknown raw record'')
     else read_point fromiso shard plan since until line)"

definition declared :: "json \<Rightarrow> (string \<times> string) option" where
  "declared line =
     (case rbind (json_get line ''type'' JNull) (\<lambda>type. if type \<noteq> JStr ''Metric'' then Inl (Exn ValueError []) else
        rbind (rbind (json_index line ''metric'') json_to_str) (\<lambda>m.
        rbind (rbind (json_at line [''data'', ''type'']) json_to_str) (\<lambda>k. Inr (m, k)))) of
      Inr d \<Rightarrow> Some d | Inl _ \<Rightarrow> None)"

lemma agg_line_point:
  "agg_line fromiso shard plan since until s line =
     rbind (line_point fromiso shard plan since until line) (\<lambda>r. Inr (case r of
        Some p \<Rightarrow> add_point s p
      | None \<Rightarrow> (case declared line of None \<Rightarrow> s | Some (m, k) \<Rightarrow> s\<lparr>ag_types := dset (ag_types s) m k\<rparr>)))"
proof (cases "json_get line ''type'' JNull")
  case (Inr type)
  show ?thesis
  proof (cases "type = JStr ''Metric''")
    case True
    then show ?thesis using Inr
      by (cases "rbind (json_index line ''metric'') json_to_str"; cases "rbind (json_at line [''data'', ''type'']) json_to_str")
        (simp_all add: agg_line_def line_point_def declared_def)
  next
    case False
    then show ?thesis using Inr
      by (cases "read_point fromiso shard plan since until line")
        (auto simp: agg_line_def line_point_def declared_def split: option.splits)
  qed
qed (simp add: agg_line_def line_point_def)

lemma point_not_declared: "line_point fromiso shard plan since until line = Inr (Some p) \<Longrightarrow> declared line = None"
  by (auto simp: line_point_def declared_def res_simps split: sum.splits if_splits)

text \<open>
  A shard declares its metrics before their points, each with the kind that \<open>kinds\<close> gives it, as
  k6 writes them.
\<close>

definition well_declared :: "(string \<Rightarrow> string option) \<Rightarrow> (json \<Rightarrow> point option res) \<Rightarrow> json list \<Rightarrow> bool" where
  "well_declared kinds read lines =
     ((\<forall>line \<in> set lines. \<forall>m k. declared line = Some (m, k) \<longrightarrow> kinds m = Some k) \<and>
      (\<forall>pre line post. lines = pre @ line # post \<longrightarrow> (\<forall>p. read line = Inr (Some p) \<longrightarrow>
         (\<exists>d \<in> set pre. \<exists>k. declared d = Some (pt_metric p, k)))))"

text \<open>What is kept of points whose metrics have these kinds: counter entries and trend points.\<close>

definition entry :: "point \<Rightarrow> (string \<times> tag_key) \<times> rat" where
  "entry p = ((pt_metric p, pt_key p), pt_value p)"

definition counter_entries :: "(string \<Rightarrow> string option) \<Rightarrow> point list \<Rightarrow> ((string \<times> tag_key) \<times> rat) list" where
  "counter_entries kinds ps = map entry (filter (\<lambda>p. kinds (pt_metric p) = Some ''counter'') ps)"

definition trend_entries :: "(string \<Rightarrow> string option) \<Rightarrow> point list \<Rightarrow> ((string \<times> tag_key) \<times> rat) list" where
  "trend_entries kinds ps = map entry (filter (\<lambda>p. kinds (pt_metric p) \<in> {Some ''trend'', Some ''gauge''}
     \<and> startswith (pt_metric p) ''phase14_'') ps)"

definition holds_entries :: "(string \<Rightarrow> string option) \<Rightarrow> agg_state \<Rightarrow> point list \<Rightarrow> bool" where
  "holds_entries kinds s ps = (ag_counters s = tally_all (counter_entries kinds ps) \<and> ag_points s = trend_entries kinds ps)"

lemma holds_entries_add:
  assumes "holds_entries kinds s ps" and "map_of (ag_types s) (pt_metric p) = kinds (pt_metric p)"
  shows "holds_entries kinds (add_point s p) (ps @ [p])"
  using assms by (auto simp: holds_entries_def add_point_def counter_entries_def trend_entries_def entry_def Let_def)

definition some_points :: "point option list \<Rightarrow> point list" where
  "some_points os = concat (map (\<lambda>r. case r of None \<Rightarrow> [] | Some p \<Rightarrow> [p]) os)"

lemma some_points_snoc [simp]: "some_points (os @ [r]) = some_points os @ (case r of None \<Rightarrow> [] | Some p \<Rightarrow> [p])"
  by (simp add: some_points_def)

lemma map_res_append:
  "map_res f (xs @ ys) = rbind (map_res f xs) (\<lambda>us. rbind (map_res f ys) (\<lambda>vs. Inr (us @ vs)))"
proof (induction xs)
  case (Cons x xs)
  then show ?case by (cases "f x"; cases "map_res f xs"; cases "map_res f ys") simp_all
qed simp

lemma agg_lines:
  assumes read: "read = line_point fromiso shard plan since until"
    and "holds_entries kinds s ps" and "well_declared kinds read lines"
    and "fold_res (agg_line fromiso shard plan since until) (s\<lparr>ag_saw := False\<rparr>) lines = Inr s'"
  shows "\<exists>os. map_res read lines = Inr os \<and> holds_entries kinds s' (ps @ some_points os)
    \<and> (ag_saw s' \<longleftrightarrow> some_points os \<noteq> [])
    \<and> (\<forall>d \<in> set lines. \<forall>m k. declared d = Some (m, k) \<longrightarrow> map_of (ag_types s') m = kinds m)"
  using assms(2-)
proof (induction lines arbitrary: s' rule: rev_induct)
  case Nil
  then show ?case by (auto simp: some_points_def holds_entries_def)
next
  case (snoc line lines)
  from snoc.prems(3) obtain s1 where 1: "fold_res (agg_line fromiso shard plan since until) (s\<lparr>ag_saw := False\<rparr>) lines = Inr s1"
      and 2: "agg_line fromiso shard plan since until s1 line = Inr s'"
    by (auto simp: fold_res_append res_simps)
  have wd: "well_declared kinds read lines"
    using snoc.prems(2) unfolding well_declared_def by (metis Un_iff append.assoc append_Cons set_append)
  from snoc.IH [OF snoc.prems(1) wd 1] obtain os where os: "map_res read lines = Inr os"
      "holds_entries kinds s1 (ps @ some_points os)" "ag_saw s1 \<longleftrightarrow> some_points os \<noteq> []"
      "\<forall>d \<in> set lines. \<forall>m k. declared d = Some (m, k) \<longrightarrow> map_of (ag_types s1) m = kinds m" by blast
  from 2 obtain r where o: "read line = Inr r" "s' = (case r of Some p \<Rightarrow> add_point s1 p
      | None \<Rightarrow> (case declared line of None \<Rightarrow> s1 | Some (m, k) \<Rightarrow> s1\<lparr>ag_types := dset (ag_types s1) m k\<rparr>))"
    by (auto simp: agg_line_point res_simps read)
  have kinds: "kinds m = Some k" if "declared line = Some (m, k)" for m k
    using snoc.prems(2) that by (auto simp: well_declared_def)
  show ?case
  proof (cases r)
    case None
    then show ?thesis using o os kinds
      by (intro exI [of _ "os @ [None]"]) (auto simp: map_res_append holds_entries_def split: option.splits)
  next
    case (Some p)
    then obtain d k where "d \<in> set lines" "declared d = Some (pt_metric p, k)"
      using snoc.prems(2) o(1) unfolding well_declared_def by blast
    then have "map_of (ag_types s1) (pt_metric p) = kinds (pt_metric p)" using os(4) by blast
    with os(2) have "holds_entries kinds s' (ps @ some_points (os @ [r]))"
      using holds_entries_add [of kinds s1 "ps @ some_points os" p] o(2) Some by simp
    moreover have "ag_saw s'" "ag_types s' = ag_types s1" using o(2) Some by (simp_all add: add_point_def Let_def)
    moreover have "map_res read (lines @ [line]) = Inr (os @ [r])" using os(1) o(1) by (simp add: map_res_append)
    moreover have "declared line = None" using o(1) Some point_not_declared by (simp add: read)
    ultimately show ?thesis using os(4) Some
      by (intro exI [of _ "os @ [r]"]) auto
  qed
qed

definition shard_points ::
  "(string \<Rightarrow> rat res) \<Rightarrow> (string \<Rightarrow> json res) \<Rightarrow> (string \<times> num option) list \<Rightarrow> string option \<Rightarrow> string option \<Rightarrow>
    shard_evidence \<Rightarrow> point list res" where
  "shard_points fromiso parse plan since until ev =
     rbind (map_res parse (se_lines ev)) (\<lambda>js.
     rbind (map_res (line_point fromiso (se_shard ev) plan since until) js) (\<lambda>os. Inr (some_points os)))"

definition declares_first ::
  "(string \<Rightarrow> rat res) \<Rightarrow> (string \<Rightarrow> json res) \<Rightarrow> (string \<times> num option) list \<Rightarrow> string option \<Rightarrow> string option \<Rightarrow>
    (string \<Rightarrow> string option) \<Rightarrow> shard_evidence \<Rightarrow> bool" where
  "declares_first fromiso parse plan since until kinds ev = (case map_res parse (se_lines ev) of
      Inl _ \<Rightarrow> True
    | Inr js \<Rightarrow> well_declared kinds (line_point fromiso (se_shard ev) plan since until) js)"

lemma fold_parse:
  "fold_res (\<lambda>s l. rbind (parse l) (f s)) s ls = Inr s' \<longleftrightarrow> (\<exists>js. map_res parse ls = Inr js \<and> fold_res f s js = Inr s')"
proof (induction ls arbitrary: s)
  case (Cons l ls)
  then show ?case by (cases "parse l"; cases "map_res parse ls") (auto simp: res_simps)
qed simp

lemma line_folds:
  "map_res (line_point fromiso shard plan since until) js = Inr os \<Longrightarrow>
     \<exists>s'. fold_res (agg_line fromiso shard plan since until) s js = Inr s'"
proof (induction js arbitrary: s os)
  case (Cons j js)
  from Cons.prems obtain r rs where "line_point fromiso shard plan since until j = Inr r"
      "map_res (line_point fromiso shard plan since until) js = Inr rs" by (auto simp: res_simps)
  with Cons.IH show ?case by (simp add: agg_line_point)
qed simp

lemma agg_shard_points:
  assumes "declares_first fromiso parse plan since until kinds ev" and "holds_entries kinds s ps"
  shows "agg_shard fromiso parse plan since until s ev = Inr s' \<Longrightarrow> se_sha256 ev = se_expected ev \<and>
      (\<exists>qs. shard_points fromiso parse plan since until ev = Inr qs \<and> qs \<noteq> [] \<and> holds_entries kinds s' (ps @ qs))"
    and "se_sha256 ev = se_expected ev \<Longrightarrow> shard_points fromiso parse plan since until ev = Inr qs \<Longrightarrow> qs \<noteq> [] \<Longrightarrow>
      \<exists>s'. agg_shard fromiso parse plan since until s ev = Inr s'"
proof -
  let ?read = "line_point fromiso (se_shard ev) plan since until"
  show "se_sha256 ev = se_expected ev \<and>
      (\<exists>qs. shard_points fromiso parse plan since until ev = Inr qs \<and> qs \<noteq> [] \<and> holds_entries kinds s' (ps @ qs))"
    if "agg_shard fromiso parse plan since until s ev = Inr s'"
  proof -
    from that obtain js where 1: "se_sha256 ev = se_expected ev" "map_res parse (se_lines ev) = Inr js" "ag_saw s'"
        "fold_res (agg_line fromiso (se_shard ev) plan since until) (s\<lparr>ag_saw := False\<rparr>) js = Inr s'"
      by (auto simp: agg_shard_def res_simps fold_parse)
    with assms agg_lines [OF refl assms(2) _ 1(4)] show ?thesis
      by (fastforce simp: declares_first_def shard_points_def)
  qed
  show "\<exists>s'. agg_shard fromiso parse plan since until s ev = Inr s'"
    if ok: "se_sha256 ev = se_expected ev" "shard_points fromiso parse plan since until ev = Inr qs" "qs \<noteq> []"
  proof -
    from ok obtain js os where 1: "map_res parse (se_lines ev) = Inr js" "map_res ?read js = Inr os" "some_points os = qs"
      by (auto simp: shard_points_def res_simps)
    from line_folds [OF 1(2)] obtain s1 where
        2: "fold_res (agg_line fromiso (se_shard ev) plan since until) (s\<lparr>ag_saw := False\<rparr>) js = Inr s1" by blast
    from agg_lines [OF refl assms(2) _ 2] assms(1) 1 ok(3) have "ag_saw s1"
      by (auto simp: declares_first_def)
    with 2 have "agg_shard fromiso parse plan since until s ev = Inr s1"
      using ok(1) 1(1) by (auto simp: agg_shard_def res_simps fold_parse)
    then show ?thesis by blast
  qed
qed

lemma holds_entries_start: "holds_entries kinds agg_start []"
  by (simp add: holds_entries_def agg_start_def tally_all_def counter_entries_def trend_entries_def)

lemma agg_shards:
  assumes "list_all (declares_first fromiso parse plan since until kinds) evs"
  shows "fold_res (agg_shard fromiso parse plan since until) agg_start evs = Inr s \<Longrightarrow>
      list_all (\<lambda>ev. se_sha256 ev = se_expected ev) evs \<and>
      (\<exists>pss. map_res (shard_points fromiso parse plan since until) evs = Inr pss \<and> [] \<notin> set pss \<and> holds_entries kinds s (concat pss))"
    and "list_all (\<lambda>ev. se_sha256 ev = se_expected ev) evs \<Longrightarrow>
      map_res (shard_points fromiso parse plan since until) evs = Inr pss \<Longrightarrow> [] \<notin> set pss \<Longrightarrow>
      \<exists>s. fold_res (agg_shard fromiso parse plan since until) agg_start evs = Inr s"
proof -
  show "list_all (\<lambda>ev. se_sha256 ev = se_expected ev) evs \<and>
      (\<exists>pss. map_res (shard_points fromiso parse plan since until) evs = Inr pss \<and> [] \<notin> set pss \<and> holds_entries kinds s (concat pss))"
    if "fold_res (agg_shard fromiso parse plan since until) agg_start evs = Inr s"
    using that assms
  proof (induction evs arbitrary: s rule: rev_induct)
    case Nil
    then show ?case using holds_entries_start by auto
  next
    case (snoc ev evs)
    then obtain s1 where 1: "fold_res (agg_shard fromiso parse plan since until) agg_start evs = Inr s1"
        "agg_shard fromiso parse plan since until s1 ev = Inr s"
      by (auto simp: fold_res_append res_simps)
    from snoc.IH [OF 1(1)] snoc.prems(2) obtain pss where 2: "list_all (\<lambda>ev. se_sha256 ev = se_expected ev) evs"
        "map_res (shard_points fromiso parse plan since until) evs = Inr pss" "[] \<notin> set pss" "holds_entries kinds s1 (concat pss)"
      by auto
    from agg_shard_points(1) [OF _ 2(4) 1(2)] snoc.prems(2) obtain qs where "se_sha256 ev = se_expected ev"
        "shard_points fromiso parse plan since until ev = Inr qs" "qs \<noteq> []" "holds_entries kinds s (concat pss @ qs)" by auto
    with 2 show ?case by (auto simp: map_res_append intro!: exI [of _ "pss @ [qs]"])
  qed
  show "\<exists>s. fold_res (agg_shard fromiso parse plan since until) agg_start evs = Inr s"
    if "list_all (\<lambda>ev. se_sha256 ev = se_expected ev) evs"
      "map_res (shard_points fromiso parse plan since until) evs = Inr pss" "[] \<notin> set pss"
  proof -
    have "\<exists>s'. fold_res (agg_shard fromiso parse plan since until) s evs = Inr s'" if "holds_entries kinds s ps" for s ps
      using that assms \<open>list_all (\<lambda>ev. se_sha256 ev = se_expected ev) evs\<close>
        \<open>map_res (shard_points fromiso parse plan since until) evs = Inr pss\<close> \<open>[] \<notin> set pss\<close>
    proof (induction evs arbitrary: s ps pss)
      case (Cons ev evs)
      then obtain qs pss' where 1: "shard_points fromiso parse plan since until ev = Inr qs" "qs \<noteq> []" "pss = qs # pss'"
          "map_res (shard_points fromiso parse plan since until) evs = Inr pss'" by (auto simp: res_simps)
      from agg_shard_points(2) [OF _ Cons.prems(1) _ 1(1,2)] Cons.prems obtain s1 where
          2: "agg_shard fromiso parse plan since until s ev = Inr s1" by auto
      from agg_shard_points(1) [OF _ Cons.prems(1) 2] Cons.prems 1(1) have "holds_entries kinds s1 (ps @ qs)" by auto
      from Cons.IH [OF this _ _ 1(4)] Cons.prems 1(3) 2 show ?case by auto
    qed simp
    with holds_entries_start show ?thesis by blast
  qed
qed

section \<open>Counts\<close>

lemma tally_all_filter:
  assumes "countable_values (map snd xs)"
  shows "countable_values (map snd (filter (\<lambda>x. P (fst x)) (tally_all xs)))"
    and "sum_list (map snd (filter (\<lambda>x. P (fst x)) (tally_all xs))) = sum_list (map snd (filter (\<lambda>x. P (fst x)) xs))"
proof -
  let ?ys = "filter (\<lambda>x. P (fst x)) xs"
  have c: "countable_values (map snd ?ys)" using assms by (rule countable_filter)
  have get: "map_of (filter (\<lambda>x. P (fst x)) d) k = (if P k then map_of d k else None)" for d :: "('a \<times> rat) list" and k
    by (induction d) auto
  have "map_of (filter (\<lambda>x. P (fst x)) (tally_all xs)) = map_of (tally_all ?ys)"
  proof
    fix k
    have "values_for ?ys k = values_for xs k" if "P k"
      using that by (auto simp: values_for_def intro!: arg_cong [of _ _ "map snd"] filter_cong)
    then show "map_of (filter (\<lambda>x. P (fst x)) (tally_all xs)) k = map_of (tally_all ?ys) k"
      by (auto simp: get tally_all_value assms c)
  qed
  moreover have "distinct (dkeys (filter (\<lambda>x. P (fst x)) (tally_all xs)))"
    using tally_all_distinct [of xs] by (simp add: distinct_map_filter)
  ultimately have "mset (filter (\<lambda>x. P (fst x)) (tally_all xs)) = mset (tally_all ?ys)"
    using tally_all_distinct [of ?ys] by (metis map_of_mset)
  then have m: "mset (map snd (filter (\<lambda>x. P (fst x)) (tally_all xs))) = mset (map snd (tally_all ?ys))" by (metis mset_map)
  show "countable_values (map snd (filter (\<lambda>x. P (fst x)) (tally_all xs)))"
    using countable_values_mset [OF m] tally_all_total [OF c] by simp
  show "sum_list (map snd (filter (\<lambda>x. P (fst x)) (tally_all xs))) = sum_list (map snd ?ys)"
    using tally_all_total [OF c] m by (metis sum_mset_sum_list)
qed

definition selected :: "string \<Rightarrow> string option \<Rightarrow> string option \<Rightarrow> string option \<Rightarrow> string \<times> tag_key \<Rightarrow> bool" where
  "selected metric scenario step result g = (case g of (m, sc, st, re) \<Rightarrow>
     m = metric \<and> selects scenario sc \<and> selects step st \<and> selects result re)"

lemma row_values_mset:
  "mset (map (\<lambda>(_, _, v). v) (filter (\<lambda>(m, (sc, st, re), v).
      m = metric \<and> selects scenario sc \<and> selects step st \<and> selects result re) (rows_of d)))
   = mset (map snd (filter (\<lambda>x. selected metric scenario step result (fst x)) d))"
proof -
  have "map (\<lambda>(_, _, v). v) (filter (\<lambda>(m, (sc, st, re), v).
      m = metric \<and> selects scenario sc \<and> selects step st \<and> selects result re) (map (\<lambda>((m, k), v). (m, k, v)) e))
    = map snd (filter (\<lambda>x. selected metric scenario step result (fst x)) e)" for e :: "((string \<times> tag_key) \<times> rat) list"
    by (induction e) (auto simp: selected_def)
  then show ?thesis by (simp add: rows_of_def)
qed

lemma count_rows_tally:
  assumes "countable_values (map snd xs)"
  shows "rows_count (rows_of (tally_all xs)) metric scenario step result =
    sum_list (map snd (filter (\<lambda>x. selected metric scenario step result (fst x)) xs))"
proof -
  let ?P = "selected metric scenario step result"
  note m = row_values_mset [of metric scenario step result "tally_all xs"]
  have "countable_values (map snd (filter (\<lambda>x. ?P (fst x)) (tally_all xs)))" using tally_all_filter(1) [OF assms, of ?P] .
  with m have "rows_count (rows_of (tally_all xs)) metric scenario step result
      = sum_list (map snd (filter (\<lambda>x. ?P (fst x)) (tally_all xs)))"
    unfolding rows_count_def by (subst float_sum) (metis countable_values_mset sum_mset_sum_list)+
  with tally_all_filter(2) [OF assms, of ?P] show ?thesis by simp
qed

text \<open>What a successful aggregation returns, in terms of the points of its shards.\<close>

definition summarizes ::
  "(string \<Rightarrow> string option) \<Rightarrow> shard_evidence list \<Rightarrow> (string \<times> num option) list \<Rightarrow> point list list \<Rightarrow> agg_summary \<Rightarrow> bool" where
  "summarizes kinds evs plan pss s =
     ([] \<notin> set pss \<and> list_all (\<lambda>ev. se_sha256 ev = se_expected ev) evs \<and> evs \<noteq> [] \<and> distinct (map se_shard evs)
      \<and> as_counts s = rows_of (tally_all (counter_entries kinds (concat pss)))
      \<and> trends_of (trend_entries kinds (concat pss)) = Inr (as_trends s)
      \<and> as_delivery s = map (delivery_of (as_counts s)) plan
      \<and> as_dropped s = rows_count (as_counts s) ''dropped_iterations'' None None None
      \<and> as_errors s = concat (map delivery_errors (as_delivery s)) @ step_errors (as_counts s) @
          (if as_dropped s \<noteq> 0 then [''dropped iterations''] else []))"

lemma aggregate_summarizes:
  assumes "aggregate fromiso parse evs plan since until = Inr s"
    and "list_all (declares_first fromiso parse plan since until kinds) evs"
  obtains pss where "map_res (shard_points fromiso parse plan since until) evs = Inr pss" and "summarizes kinds evs plan pss s"
proof -
  from assms(1) obtain st where 1: "evs \<noteq> [] \<and> distinct (map se_shard evs)"
      "fold_res (agg_shard fromiso parse plan since until) agg_start evs = Inr st" "summary_of evs plan st = Inr s"
    by (auto simp: aggregate_def res_simps)
  from agg_shards(1) [OF assms(2) 1(2)] obtain pss where 2: "list_all (\<lambda>ev. se_sha256 ev = se_expected ev) evs"
      "map_res (shard_points fromiso parse plan since until) evs = Inr pss" "[] \<notin> set pss" "holds_entries kinds st (concat pss)"
    by blast
  with 1 have "summarizes kinds evs plan pss s"
    by (auto simp: summarizes_def summary_of_def Let_def res_simps holds_entries_def)
  with 2(2) show ?thesis by (rule that)
qed

lemma aggregate_known:
  assumes "aggregate fromiso parse evs plan since until = Inr s"
    and "list_all (declares_first fromiso parse plan since until kinds) evs"
    and "map_res (shard_points fromiso parse plan since until) evs = Inr pss"
  shows "summarizes kinds evs plan pss s"
proof -
  from assms(1,2) obtain qs where "map_res (shard_points fromiso parse plan since until) evs = Inr qs" "summarizes kinds evs plan qs s"
    by (rule aggregate_summarizes)
  with assms(3) show ?thesis by simp
qed

definition sum_of_points ::
  "(string \<Rightarrow> string option) \<Rightarrow> point list \<Rightarrow> string \<Rightarrow> string option \<Rightarrow> string option \<Rightarrow> string option \<Rightarrow> rat" where
  "sum_of_points kinds ps metric scenario step result =
     sum_list (map pt_value (filter (\<lambda>p. kinds (pt_metric p) = Some ''counter'' \<and>
       selected metric scenario step result (pt_metric p, pt_key p)) ps))"

lemma count_rows_points:
  assumes "countable_values (map snd (counter_entries kinds ps))"
  shows "rows_count (rows_of (tally_all (counter_entries kinds ps))) metric scenario step result
    = sum_of_points kinds ps metric scenario step result"
proof -
  have "sum_list (map snd (filter (\<lambda>x. selected metric scenario step result (fst x)) (counter_entries kinds ps)))
      = sum_of_points kinds ps metric scenario step result"
    unfolding sum_of_points_def counter_entries_def by (induction ps) (auto simp: entry_def)
  with count_rows_tally [OF assms] show ?thesis by simp
qed

lemma aggregate_count:
  assumes "aggregate fromiso parse evs plan since until = Inr s"
    and "list_all (declares_first fromiso parse plan since until kinds) evs"
    and "map_res (shard_points fromiso parse plan since until) evs = Inr pss"
    and "countable_values (map snd (counter_entries kinds (concat pss)))"
  shows "rows_count (as_counts s) metric scenario step result = sum_of_points kinds (concat pss) metric scenario step result"
proof -
  from assms(1-3) have "summarizes kinds evs plan pss s" by (rule aggregate_known)
  then show ?thesis using count_rows_points [OF assms(4)] by (simp add: summarizes_def)
qed

lemma clean_summary:
  assumes "aggregate fromiso parse evs plan since until = Inr s" and "as_errors s = []"
  shows "\<forall>(sc, planned) \<in> set plan. let a = rows_count (as_counts s) ''phase14_iterations_started'' (Some sc) None None in
      a \<noteq> 0 \<and> a = rows_count (as_counts s) ''phase14_iterations_completed'' (Some sc) None None
      \<and> (\<forall>n. planned = Some n \<longrightarrow> a = num_rat n)"
    and "\<forall>(sc, st) \<in> set (started_steps (as_counts s)).
      rows_count (as_counts s) ''phase14_started'' (Some sc) (Some st) None
      = rows_count (as_counts s) ''phase14_results'' (Some sc) (Some st) None"
    and "rows_count (as_counts s) ''dropped_iterations'' None None None = 0"
proof -
  from assms(1) have "as_errors s = concat (map delivery_errors (map (delivery_of (as_counts s)) plan)) @ step_errors (as_counts s) @
      (if rows_count (as_counts s) ''dropped_iterations'' None None None \<noteq> 0 then [''dropped iterations''] else [])"
    by (auto simp: aggregate_def summary_of_def Let_def res_simps rbind_Inr_iff)
  with assms(2) show "\<forall>(sc, planned) \<in> set plan. let a = rows_count (as_counts s) ''phase14_iterations_started'' (Some sc) None None in
      a \<noteq> 0 \<and> a = rows_count (as_counts s) ''phase14_iterations_completed'' (Some sc) None None
      \<and> (\<forall>n. planned = Some n \<longrightarrow> a = num_rat n)"
    and "\<forall>(sc, st) \<in> set (started_steps (as_counts s)).
      rows_count (as_counts s) ''phase14_started'' (Some sc) (Some st) None
      = rows_count (as_counts s) ''phase14_results'' (Some sc) (Some st) None"
    and "rows_count (as_counts s) ''dropped_iterations'' None None None = 0"
    by (auto simp: delivery_errors_def delivery_of_def step_errors_def Let_def split: if_splits)
qed

text \<open>
  \textbf{C6.} When every shard declares its metrics before their points and all counted values are
  whole numbers that a float holds, a count of the summary is the exact sum over the points of all
  shards, and a summary without errors means that every scenario was started as planned, that every
  started iteration was completed, that every started step was classified, and nothing was dropped.
\<close>

theorem aggregate_counts_exact:
  assumes agg: "aggregate fromiso parse evs plan since until = Inr s"
    and kinds: "list_all (declares_first fromiso parse plan since until kinds) evs"
    and points: "map_res (shard_points fromiso parse plan since until) evs = Inr pss"
    and whole: "countable_values (map snd (counter_entries kinds (concat pss)))"
  shows "rows_count (as_counts s) metric scenario step result = sum_of_points kinds (concat pss) metric scenario step result
    \<and> (as_errors s = [] \<longrightarrow>
        (\<forall>(sc, planned) \<in> set plan.
           let a = sum_of_points kinds (concat pss) ''phase14_iterations_started'' (Some sc) None None in
           a \<noteq> 0 \<and> a = sum_of_points kinds (concat pss) ''phase14_iterations_completed'' (Some sc) None None
           \<and> (\<forall>n. planned = Some n \<longrightarrow> a = num_rat n))
        \<and> (\<forall>(sc, st) \<in> set (started_steps (as_counts s)).
             sum_of_points kinds (concat pss) ''phase14_started'' (Some sc) (Some st) None
             = sum_of_points kinds (concat pss) ''phase14_results'' (Some sc) (Some st) None)
        \<and> sum_of_points kinds (concat pss) ''dropped_iterations'' None None None = 0)"
  using clean_summary [OF agg] by (simp add: aggregate_count [OF assms])

text \<open>The result depends on the shards, not on their order.\<close>

lemma map_res_mset:
  assumes "mset xs = mset ys" and "map_res f xs = Inr us"
  shows "\<exists>vs. map_res f ys = Inr vs \<and> mset vs = mset us"
proof -
  have map_res_Inr: "map_res f zs = Inr ws \<longleftrightarrow> (\<forall>z \<in> set zs. \<exists>w. f z = Inr w) \<and> ws = map (\<lambda>z. projr (f z)) zs" for zs ws
  proof (induction zs arbitrary: ws)
    case (Cons z zs)
    then show ?case by (cases "f z") (auto simp: res_simps)
  qed auto
  from assms show ?thesis using mset_eq_setD [OF assms(1)] by (auto simp: map_res_Inr)
qed

lemma trends_of_perm:
  assumes "mset xs = mset ys" and "trends_of xs = Inr us"
  shows "\<exists>vs. trends_of ys = Inr vs \<and> mset vs = mset us"
proof -
  have "points_of xs = points_of ys"
    using assms(1) by (auto simp: points_of_def fun_eq_iff intro!: properties_for_sort)
  then have "trend_of xs = trend_of ys" by (simp add: trend_of_def fun_eq_iff)
  moreover have "mset (remdups (map fst xs)) = mset (remdups (map fst ys))"
    using mset_eq_setD [OF assms(1)] by (simp add: set_eq_iff_mset_eq_distinct [symmetric])
  ultimately show ?thesis using assms(2) unfolding trends_of_def by (intro map_res_mset) simp_all
qed

lemma summarizes_same:
  assumes sum: "summarizes kinds evs plan pss s" and sum': "summarizes kinds evs' plan pss' s'"
    and ce: "mset (counter_entries kinds (concat pss')) = mset (counter_entries kinds (concat pss))"
    and whole: "countable_values (map snd (counter_entries kinds (concat pss)))"
  shows "mset (as_counts s') = mset (as_counts s) \<and> as_delivery s' = as_delivery s
    \<and> as_dropped s' = as_dropped s \<and> set (as_errors s') = set (as_errors s)"
proof -
  have whole': "countable_values (map snd (counter_entries kinds (concat pss')))"
    using whole ce by (metis countable_values_mset mset_map)
  have counts: "as_counts s = rows_of (tally_all (counter_entries kinds (concat pss)))"
    and counts': "as_counts s' = rows_of (tally_all (counter_entries kinds (concat pss')))"
    using sum sum' by (simp_all add: summarizes_def)
  have cnt: "rows_count (as_counts s') m sc st re = rows_count (as_counts s) m sc st re" for m sc st re
  proof -
    have "mset (map snd (filter (\<lambda>x. selected m sc st re (fst x)) (counter_entries kinds (concat pss'))))
        = mset (map snd (filter (\<lambda>x. selected m sc st re (fst x)) (counter_entries kinds (concat pss))))" using ce by simp
    then show ?thesis unfolding counts counts' count_rows_tally [OF whole] count_rows_tally [OF whole']
      by (metis sum_mset_sum_list)
  qed
  have rows: "mset (as_counts s') = mset (as_counts s)"
    using tally_all_perm [OF ce whole'] by (simp add: counts counts' rows_of_def)
  have "set (started_steps (as_counts s')) = set (started_steps (as_counts s))"
    using mset_eq_setD [OF rows] by (auto simp: started_steps_def)
  then have "set (step_errors (as_counts s')) = set (step_errors (as_counts s))" by (simp add: step_errors_def cnt)
  moreover have "delivery_of (as_counts s') = delivery_of (as_counts s)"
    by (simp add: delivery_of_def cnt fun_eq_iff)
  ultimately show ?thesis using sum sum' rows cnt by (simp add: summarizes_def)
qed

text \<open>
  \textbf{C21.} Under the same conditions the aggregation of the shards in another order succeeds as
  well, and the counts, the quantiles of the trends, the delivery, the dropped iterations and the
  errors are the same.
\<close>

theorem aggregate_shard_order:
  assumes agg: "aggregate fromiso parse evs plan since until = Inr s"
    and perm: "mset evs' = mset evs"
    and kinds: "list_all (declares_first fromiso parse plan since until kinds) evs"
    and whole: "\<And>pss. map_res (shard_points fromiso parse plan since until) evs = Inr pss \<Longrightarrow>
      countable_values (map snd (counter_entries kinds (concat pss)))"
  shows "\<exists>s'. aggregate fromiso parse evs' plan since until = Inr s' \<and> mset (as_counts s') = mset (as_counts s)
    \<and> mset (as_trends s') = mset (as_trends s) \<and> as_delivery s' = as_delivery s
    \<and> as_dropped s' = as_dropped s \<and> set (as_errors s') = set (as_errors s)"
proof -
  from agg kinds obtain pss where pss: "map_res (shard_points fromiso parse plan since until) evs = Inr pss"
      and sum: "summarizes kinds evs plan pss s"
    by (rule aggregate_summarizes)
  from map_res_mset [OF perm [symmetric] pss] obtain pss' where
    pss': "map_res (shard_points fromiso parse plan since until) evs' = Inr pss'" "mset pss' = mset pss" by blast
  have set: "set evs' = set evs" using perm by (rule mset_eq_setD)
  have kinds': "list_all (declares_first fromiso parse plan since until kinds) evs'" using kinds set by (simp add: list_all_iff)
  have "mset (map se_shard evs') = mset (map se_shard evs)" using perm by simp
  then have dist: "distinct (map se_shard evs')" using sum mset_eq_imp_distinct_iff by (fastforce simp only: summarizes_def)
  have ok': "evs' \<noteq> []" "[] \<notin> set pss'" "list_all (\<lambda>ev. se_sha256 ev = se_expected ev) evs'"
    using sum set mset_eq_setD [OF pss'(2)] by (auto simp: summarizes_def list_all_iff)
  from agg_shards(2) [OF kinds' ok'(3) pss'(1) ok'(2)] obtain st where
    st: "fold_res (agg_shard fromiso parse plan since until) agg_start evs' = Inr st" by blast
  from agg_shards(1) [OF kinds' st] pss'(1) have he: "holds_entries kinds st (concat pss')" by auto
  have concat: "mset (concat pss') = mset (concat pss)" using pss'(2)
    by (simp add: mset_concat flip: sum_mset_sum_list)
  then have te: "mset (trend_entries kinds (concat pss')) = mset (trend_entries kinds (concat pss))"
    and ce: "mset (counter_entries kinds (concat pss')) = mset (counter_entries kinds (concat pss))"
    by (simp_all add: trend_entries_def counter_entries_def)
  from sum have "trends_of (trend_entries kinds (concat pss)) = Inr (as_trends s)" by (simp add: summarizes_def)
  from trends_of_perm [OF te [symmetric] this] obtain us where us: "trends_of (trend_entries kinds (concat pss')) = Inr us"
      "mset us = mset (as_trends s)" by blast
  with he st ok' dist obtain s' where agg': "aggregate fromiso parse evs' plan since until = Inr s'"
    by (auto simp: aggregate_def summary_of_def Let_def holds_entries_def require_def)
  from agg' kinds' pss'(1) have sum': "summarizes kinds evs' plan pss' s'" by (rule aggregate_known)
  have "mset (as_trends s') = mset (as_trends s)" using sum' us by (simp add: summarizes_def)
  with agg' summarizes_same [OF sum sum' ce whole [OF pss]] show ?thesis by blast
qed

section \<open>Two shards\<close>

definition metric_line :: "string \<Rightarrow> json" where
  "metric_line m = JObj [(''type'', JStr ''Metric''), (''metric'', JStr m), (''data'', JObj [(''type'', JStr ''counter'')])]"

definition point_line :: "string \<Rightarrow> string \<Rightarrow> json" where
  "point_line shard m = JObj [(''type'', JStr ''Point''), (''metric'', JStr m),
     (''data'', JObj [(''time'', JStr ''2026-09-10T00:00:00Z''), (''value'', JInt 1),
        (''tags'', JObj [(''shard'', JStr shard), (''scenario'', JStr ''main'')])])]"

definition lab_lines :: "(string \<times> json) list" where
  "lab_lines = [(''S'', metric_line ''phase14_iterations_started''), (''C'', metric_line ''phase14_iterations_completed''),
     (''s0'', point_line ''0'' ''phase14_iterations_started''), (''c0'', point_line ''0'' ''phase14_iterations_completed''),
     (''s1'', point_line ''1'' ''phase14_iterations_started''), (''c1'', point_line ''1'' ''phase14_iterations_completed'')]"

definition lab_iso :: "string \<Rightarrow> rat res" where
  "lab_iso s = Inr 0"

definition lab_parse :: "string \<Rightarrow> json res" where
  "lab_parse line = dindex lab_lines line"

definition lab_shard :: "string \<Rightarrow> string list \<Rightarrow> shard_evidence" where
  "lab_shard n ls = \<lparr>se_shard = n, se_expected = ''e3'', se_sha256 = ''e3'', se_bytes = 4, se_lines = ls\<rparr>"

definition lab_shards :: "shard_evidence list" where
  "lab_shards = [lab_shard ''0'' [''S'', ''s0'', ''C'', ''c0''], lab_shard ''1'' [''S'', ''s1'', ''C'', ''c1'']]"

definition lab_plan :: "(string \<times> num option) list" where
  "lab_plan = [(''main'', Some (PInt 2))]"

definition lab_kinds :: "string \<Rightarrow> string option" where
  "lab_kinds m = Some ''counter''"

fun declares_before :: "(string \<Rightarrow> string option) \<Rightarrow> (json \<Rightarrow> point option res) \<Rightarrow> string list \<Rightarrow> json list \<Rightarrow> bool" where
  "declares_before kinds read known [] = True"
| "declares_before kinds read known (line # lines) =
     ((case declared line of None \<Rightarrow> True | Some (m, k) \<Rightarrow> kinds m = Some k)
      \<and> (case read line of Inr (Some p) \<Rightarrow> pt_metric p \<in> set known | _ \<Rightarrow> True)
      \<and> declares_before kinds read (case declared line of None \<Rightarrow> known | Some (m, _) \<Rightarrow> m # known) lines)"

lemma declares_before_sound:
  "declares_before kinds read known lines \<Longrightarrow> (\<forall>m \<in> set known. \<exists>d \<in> set pre. \<exists>k. declared d = Some (m, k)) \<Longrightarrow>
     (\<forall>line \<in> set lines. \<forall>m k. declared line = Some (m, k) \<longrightarrow> kinds m = Some k) \<and>
     (\<forall>mid line post. lines = mid @ line # post \<longrightarrow> (\<forall>p. read line = Inr (Some p) \<longrightarrow>
        (\<exists>d \<in> set (pre @ mid). \<exists>k. declared d = Some (pt_metric p, k))))"
proof (induction lines arbitrary: known pre)
  case (Cons l ls)
  let ?known = "case declared l of None \<Rightarrow> known | Some (m, _) \<Rightarrow> m # known"
  have "\<forall>m \<in> set ?known. \<exists>d \<in> set (pre @ [l]). \<exists>k. declared d = Some (m, k)"
    using Cons.prems(2) by (auto split: option.splits)
  with Cons.IH [of ?known "pre @ [l]"] Cons.prems(1) have
    IH: "\<forall>line \<in> set ls. \<forall>m k. declared line = Some (m, k) \<longrightarrow> kinds m = Some k"
      "\<forall>mid line post. ls = mid @ line # post \<longrightarrow> (\<forall>p. read line = Inr (Some p) \<longrightarrow>
        (\<exists>d \<in> set ((pre @ [l]) @ mid). \<exists>k. declared d = Some (pt_metric p, k)))" by simp_all
  show ?case
  proof (intro conjI allI impI)
    show "\<forall>line \<in> set (l # ls). \<forall>m k. declared line = Some (m, k) \<longrightarrow> kinds m = Some k"
      using IH(1) Cons.prems(1) by auto
    fix mid line post p assume eq: "l # ls = mid @ line # post" and p: "read line = Inr (Some p)"
    show "\<exists>d \<in> set (pre @ mid). \<exists>k. declared d = Some (pt_metric p, k)"
    proof (cases mid)
      case Nil
      then show ?thesis using eq p Cons.prems by auto
    next
      case (Cons x mid')
      then have "ls = mid' @ line # post" "x = l" using eq by auto
      with IH(2) p Cons show ?thesis by fastforce
    qed
  qed
qed simp

lemma lab_declares: "list_all (declares_first lab_iso lab_parse lab_plan None None lab_kinds) lab_shards"
proof -
  have wd: "well_declared kinds read lines" if "declares_before kinds read [] lines" for kinds read lines
    using declares_before_sound [OF that, of "[]"] by (simp add: well_declared_def)
  have "list_all (\<lambda>ev. case map_res lab_parse (se_lines ev) of Inl _ \<Rightarrow> True
      | Inr js \<Rightarrow> declares_before lab_kinds (line_point lab_iso (se_shard ev) lab_plan None None) [] js) lab_shards"
    by code_simp
  then show ?thesis by (auto simp: list_all_iff declares_first_def intro: wd split: sum.splits)
qed

definition lab_points :: "point list" where
  "lab_points = map (\<lambda>m. \<lparr>pt_metric = m, pt_value = 1, pt_time = ''2026-09-10T00:00:00Z'', pt_key = (''main'', [], [])\<rparr>)
     [''phase14_iterations_started'', ''phase14_iterations_completed'']"

lemma lab_shard_points:
  "map_res (shard_points lab_iso lab_parse lab_plan None None) lab_shards = Inr [lab_points, lab_points]"
  by code_simp

lemma lab_whole: "countable_values (map snd (counter_entries lab_kinds (concat [lab_points, lab_points])))"
  by (simp add: lab_points_def lab_kinds_def counter_entries_def entry_def countable_values_def)

lemma lab_aggregate:
  "case aggregate lab_iso lab_parse lab_shards lab_plan None None of Inr s \<Rightarrow> as_errors s = [] | Inl _ \<Rightarrow> False"
  by code_simp

theorem aggregate_counts_exact_witness:
  "\<exists>s. aggregate lab_iso lab_parse lab_shards lab_plan None None = Inr s
     \<and> rows_count (as_counts s) ''phase14_iterations_started'' (Some ''main'') None None = 2"
proof -
  from lab_aggregate obtain s where s: "aggregate lab_iso lab_parse lab_shards lab_plan None None = Inr s"
    by (auto split: sum.splits)
  have "sum_of_points lab_kinds (concat [lab_points, lab_points]) ''phase14_iterations_started'' (Some ''main'') None None = 2"
    by code_simp
  then have "rows_count (as_counts s) ''phase14_iterations_started'' (Some ''main'') None None = 2"
    using aggregate_counts_exact [OF s lab_declares lab_shard_points lab_whole, THEN conjunct1,
      of "''phase14_iterations_started''" "Some ''main''" None None] by (rule trans [rotated])
  with s show ?thesis by blast
qed

theorem aggregate_shard_order_witness:
  "\<exists>s s'. aggregate lab_iso lab_parse lab_shards lab_plan None None = Inr s
     \<and> aggregate lab_iso lab_parse (rev lab_shards) lab_plan None None = Inr s' \<and> as_delivery s' = as_delivery s"
proof -
  from lab_aggregate obtain s where s: "aggregate lab_iso lab_parse lab_shards lab_plan None None = Inr s"
    by (auto split: sum.splits)
  have "mset (rev lab_shards) = mset lab_shards" by simp
  from aggregate_shard_order [OF s this lab_declares] lab_shard_points lab_whole s show ?thesis by auto
qed

end
