(* ===== verification/Raw_Progress.thy ===== *)
theory Raw_Progress
  imports Raw_Points
begin

text \<open>
  \<open>RawProgress\<close> of \<open>performance/scripts/run_phase14.py\<close>: the raw files of the shards are read while
  the generators append to them, every complete line once, and the results are counted in windows
  for the error rule of the stop guard. A poll sees the files as a list of paths with their
  contents, in the order of the directory.
\<close>

section \<open>Polls\<close>

record raw_progress =
  rp_offsets :: "(string \<times> nat) list"
  rp_counts :: "(int \<times> num \<times> num) list"
  rp_dropped :: num
  rp_windows :: "bool list"
  rp_last :: "int option"
  rp_bad :: bool

definition progress_start :: raw_progress where
  "progress_start = \<lparr>rp_offsets = [], rp_counts = [], rp_dropped = PInt 0, rp_windows = [], rp_last = None, rp_bad = False\<rparr>"

text \<open>The complete lines behind an offset, with their line feeds, and the offset behind them.\<close>

definition tail_lines :: "nat \<Rightarrow> string \<Rightarrow> string list \<times> nat" where
  "tail_lines offset content = (let s = drop offset content; pieces = split_on nl s in
     (map (\<lambda>l. l @ [nl]) (butlast pieces), offset + (length s - length (last pieces))))"

definition add_dropped :: "raw_progress \<Rightarrow> json \<Rightarrow> json \<Rightarrow> raw_progress res" where
  "add_dropped st metric rec =
     (if metric \<noteq> JStr ''dropped_iterations'' then Inr st
      else rbind (num_at rec [''data'', ''value'']) (\<lambda>n. Inr (st\<lparr>rp_dropped := num_add (rp_dropped st) n\<rparr>)))"

definition floor_div :: "rat \<Rightarrow> num \<Rightarrow> int res" where
  "floor_div x w = (if num_rat w = 0 then Inl (Exn ZeroDivisionError ''float floor division by zero'') else Inr \<lfloor>x / num_rat w\<rfloor>)"

definition add_result :: "(string \<Rightarrow> rat res) \<Rightarrow> json \<Rightarrow> raw_progress \<Rightarrow> json \<Rightarrow> raw_progress res" where
  "add_result fromiso t st data =
     rbind (rbind (rbind (json_index data ''time'') json_to_str) (timestamp fromiso)) (\<lambda>time.
     rbind (num_at t [''stop'', ''windowSeconds'']) (\<lambda>w.
     rbind (floor_div time w) (\<lambda>bucket.
     let (n, e) = dget_or (rp_counts st) bucket (PInt 0, PInt 0) in
     rbind (num_at data [''value'']) (\<lambda>v.
     rbind (json_at data [''tags'', ''result'']) (\<lambda>result.
     if result \<notin> {JStr ''system_error'', JStr ''unexpected_contract''}
     then Inr (st\<lparr>rp_counts := dset (rp_counts st) bucket (num_add n v, e)\<rparr>)
     else rbind (smoke_policy t) (\<lambda>smoke.
       Inr (st\<lparr>rp_counts := dset (rp_counts st) bucket (num_add n v, num_add e v),
         rp_bad := rp_bad st \<or> (smoke \<and> num_less (PInt 0) v)\<rparr>)))))))"

definition progress_line :: "(string \<Rightarrow> rat res) \<Rightarrow> (string \<Rightarrow> json res) \<Rightarrow> json \<Rightarrow> raw_progress \<Rightarrow> string \<Rightarrow> raw_progress res" where
  "progress_line fromiso parse t st line =
     rbind (parse line) (\<lambda>rec.
     rbind (json_get rec ''type'' JNull) (\<lambda>type.
     if type \<noteq> JStr ''Point'' then Inr st
     else rbind (json_index rec ''metric'') (\<lambda>metric.
       rbind (add_dropped st metric rec) (\<lambda>st1.
       if metric \<noteq> JStr ''phase14_results'' then Inr st1
       else rbind (json_index rec ''data'') (add_result fromiso t st1)))))"

definition progress_file ::
  "(string \<Rightarrow> rat res) \<Rightarrow> (string \<Rightarrow> json res) \<Rightarrow> json \<Rightarrow> raw_progress \<Rightarrow> string \<times> string \<Rightarrow> raw_progress res" where
  "progress_file fromiso parse t st file = (case file of (path, content) \<Rightarrow>
     let (lines, offset) = tail_lines (dget_or (rp_offsets st) path 0) content in
     rbind (fold_res (progress_line fromiso parse t) st lines) (\<lambda>st1.
     Inr (st1\<lparr>rp_offsets := dset (rp_offsets st1) path offset\<rparr>)))"

definition close_window :: "json \<Rightarrow> raw_progress \<Rightarrow> int \<Rightarrow> raw_progress res" where
  "close_window t st bucket =
     (let (n, e) = dget_or (rp_counts st) bucket (PInt 0, PInt 0) in
      rbind (error_window t (rp_windows st) n e) (\<lambda>(ws, stop).
      Inr (st\<lparr>rp_counts := AList.delete bucket (rp_counts st), rp_windows := ws, rp_last := Some bucket,
        rp_bad := stop \<or> rp_bad st\<rparr>)))"

definition first_window :: "raw_progress \<Rightarrow> int \<Rightarrow> int" where
  "first_window st end = (case rp_last st of
      Some b \<Rightarrow> b + 1
    | None \<Rightarrow> if rp_counts st = [] then end + 1 else Min (set (dkeys (rp_counts st))))"

definition read_progress ::
  "(string \<Rightarrow> rat res) \<Rightarrow> (string \<Rightarrow> json res) \<Rightarrow> json \<Rightarrow> rat \<Rightarrow> raw_progress \<Rightarrow> (string \<times> string) list \<Rightarrow> raw_progress res" where
  "read_progress fromiso parse t now st files =
     rbind (fold_res (progress_file fromiso parse t) st files) (\<lambda>st1.
     rbind (num_at t [''stop'', ''windowSeconds'']) (\<lambda>w.
     rbind (floor_div now w) (\<lambda>b. let end = b - 1 in
     fold_res (close_window t) st1 [first_window st1 end..end])))"

section \<open>Every complete line once\<close>

definition complete_lines :: "string \<Rightarrow> string list" where
  "complete_lines content = map (\<lambda>l. l @ [nl]) (butlast (split_on nl content))"

definition complete_length :: "string \<Rightarrow> nat" where
  "complete_length content = length content - length (last (split_on nl content))"

lemma split_on_concat: "split_on d (a @ b) = butlast (split_on d a) @ split_on d (last (split_on d a) @ b)"
  by (induction d a rule: split_on.induct) (auto split: list.splits)

lemma split_on_last_piece: "\<exists>u. a = u @ last (split_on d a) \<and> (tl (split_on d a) = [] \<longrightarrow> u = [])"
proof (induction d a rule: split_on.induct)
  case (2 d c cs)
  then obtain u where u: "cs = u @ last (split_on d cs)" "tl (split_on d cs) = [] \<longrightarrow> u = []" by blast
  show ?case
  proof (cases "split_on d cs")
    case (Cons p ps)
    consider "c = d" | "c \<noteq> d" "ps = []" | "c \<noteq> d" "ps \<noteq> []" by blast
    then show ?thesis
    proof cases
      case 2
      then have "cs = p" using u Cons by simp
      then show ?thesis using 2 Cons by simp
    next
      case 1
      then have "c # cs = (c # u) @ last (split_on d (c # cs))" using u(1) Cons by simp
      then show ?thesis using 1 Cons by (intro exI [of _ "c # u"]) simp
    next
      case 3
      then have "c # cs = (c # u) @ last (split_on d (c # cs))" using u(1) Cons by simp
      then show ?thesis using 3 Cons by (intro exI [of _ "c # u"]) simp
    qed
  qed simp
qed simp

lemma split_on_last: "\<exists>u. a = u @ last (split_on d a)"
  using split_on_last_piece by blast

lemma drop_complete: "drop (complete_length c) (c @ e) = last (split_on nl c) @ e"
proof -
  obtain u where u: "c = u @ last (split_on nl c)" using split_on_last by blast
  then have "complete_length c = length u" unfolding complete_length_def by (metis add_diff_cancel_right' length_append)
  then show ?thesis using u by (metis append.assoc append_eq_conv_conj)
qed

lemma tail_lines_grown:
  "tail_lines (complete_length c) (c @ e) = (drop (length (complete_lines c)) (complete_lines (c @ e)), complete_length (c @ e))"
  and complete_lines_grown: "take (length (complete_lines c)) (complete_lines (c @ e)) = complete_lines c"
proof -
  let ?rest = "last (split_on nl c) @ e"
  obtain u where u: "c = u @ last (split_on nl c)" using split_on_last by blast
  then have len: "complete_length c = length u" unfolding complete_length_def by (metis add_diff_cancel_right' length_append)
  obtain v where v: "?rest = v @ last (split_on nl ?rest)" using split_on_last by blast
  have split: "split_on nl (c @ e) = butlast (split_on nl c) @ split_on nl ?rest" by (rule split_on_concat)
  then have last: "last (split_on nl (c @ e)) = last (split_on nl ?rest)" by simp
  have "length (c @ e) = length u + length ?rest" using u by (metis append.assoc length_append)
  then have "complete_length (c @ e) = complete_length c + (length ?rest - length (last (split_on nl ?rest)))"
    unfolding len complete_length_def [of "c @ e"] last using arg_cong [OF v, of length] by simp
  moreover have "complete_lines (c @ e) = complete_lines c @ map (\<lambda>l. l @ [nl]) (butlast (split_on nl ?rest))"
    by (simp add: complete_lines_def split butlast_append)
  ultimately show "tail_lines (complete_length c) (c @ e)
      = (drop (length (complete_lines c)) (complete_lines (c @ e)), complete_length (c @ e))"
    and "take (length (complete_lines c)) (complete_lines (c @ e)) = complete_lines c"
    unfolding tail_lines_def drop_complete Let_def by simp_all
qed

text \<open>What a line adds to the dropped iterations.\<close>

definition line_dropped :: "(string \<Rightarrow> json res) \<Rightarrow> string \<Rightarrow> num" where
  "line_dropped parse line = (case parse line of
      Inr (JObj d) \<Rightarrow> if dget d ''type'' = Some (JStr ''Point'') \<and> dget d ''metric'' = Some (JStr ''dropped_iterations'')
        then (case num_at (JObj d) [''data'', ''value''] of Inr n \<Rightarrow> n | Inl _ \<Rightarrow> PInt 0) else PInt 0
    | _ \<Rightarrow> PInt 0)"

definition whole_drops :: "(string \<Rightarrow> json res) \<Rightarrow> bool" where
  "whole_drops parse = (\<forall>line. is_pint (line_dropped parse line))"

definition dropped_sum :: "(string \<Rightarrow> json res) \<Rightarrow> string list \<Rightarrow> int" where
  "dropped_sum parse ls = sum_list (map (\<lambda>l. num_ceil (line_dropped parse l)) ls)"

lemma progress_line_effect:
  assumes "progress_line fromiso parse t st line = Inr st'" and "whole_drops parse" and "rp_dropped st = PInt i"
  shows "rp_dropped st' = PInt (i + num_ceil (line_dropped parse line)) \<and> rp_offsets st' = rp_offsets st"
proof -
  from assms(1) obtain rec ty where r: "parse line = Inr rec" "json_get rec ''type'' JNull = Inr ty"
    by (auto simp: progress_line_def res_simps)
  then obtain d where d: "rec = JObj d" by (cases rec) auto
  obtain k where k: "line_dropped parse line = PInt k"
    using assms(2) unfolding whole_drops_def by (metis is_pint.elims(2))
  have eff: "rp_dropped st2 = rp_dropped st1 \<and> rp_offsets st2 = rp_offsets st1"
    if "add_result fromiso t st1 data = Inr st2" for st1 st2 data
    using that by (auto simp: add_result_def res_simps split_def Let_def split: if_splits)
  show ?thesis
  proof (cases "ty = JStr ''Point''")
    case False
    then have "dget d ''type'' \<noteq> Some (JStr ''Point'')" using r d by (auto simp: dget_or_def)
    then show ?thesis using False assms r d by (auto simp: progress_line_def line_dropped_def)
  next
    case True
    then have type: "dget d ''type'' = Some (JStr ''Point'')" using r d by (auto simp: dget_or_def split: option.splits)
    from assms(1) r True d obtain metric st1 where m: "dget d ''metric'' = Some metric"
        "add_dropped st metric rec = Inr st1"
        "st' = st1 \<or> (\<exists>data. add_result fromiso t st1 data = Inr st')"
      by (auto simp: progress_line_def res_simps split: if_splits)
    have "rp_dropped st1 = PInt (i + num_ceil (line_dropped parse line)) \<and> rp_offsets st1 = rp_offsets st"
      using m(1,2) r type d assms(3) k
      by (auto simp: add_dropped_def line_dropped_def res_simps split: if_splits)
    with m(3) eff show ?thesis by auto
  qed
qed

lemma progress_lines_effect:
  assumes "fold_res (progress_line fromiso parse t) st ls = Inr st'" and "whole_drops parse" and "rp_dropped st = PInt i"
  shows "rp_dropped st' = PInt (i + dropped_sum parse ls) \<and> rp_offsets st' = rp_offsets st"
  using assms
proof (induction ls arbitrary: st i)
  case (Cons l ls)
  then obtain st1 where 1: "progress_line fromiso parse t st l = Inr st1" "fold_res (progress_line fromiso parse t) st1 ls = Inr st'"
    by (auto simp: res_simps)
  from progress_line_effect [OF 1(1) Cons.prems(2,3)] Cons.IH [OF 1(2) Cons.prems(2)] show ?case
    by (simp add: dropped_sum_def)
qed (simp add: dropped_sum_def)

text \<open>The files of a poll: those of the poll before, each with more text, and maybe new ones.\<close>

definition content_of :: "(string \<times> string) list \<Rightarrow> string \<Rightarrow> string" where
  "content_of files path = dget_or files path []"

definition grown :: "(string \<times> string) list \<Rightarrow> (string \<times> string) list \<Rightarrow> bool" where
  "grown old new = (distinct (dkeys new) \<and> set (dkeys old) \<subseteq> set (dkeys new)
     \<and> (\<forall>p \<in> set (dkeys new). prefix (content_of old p) (content_of new p)))"

definition files_dropped :: "(string \<Rightarrow> json res) \<Rightarrow> (string \<times> string) list \<Rightarrow> int" where
  "files_dropped parse files = (\<Sum>p \<in> set (dkeys files). dropped_sum parse (complete_lines (content_of files p)))"

definition caught_up :: "(string \<Rightarrow> json res) \<Rightarrow> (string \<times> string) list \<Rightarrow> raw_progress \<Rightarrow> bool" where
  "caught_up parse files st = (rp_dropped st = PInt (files_dropped parse files)
     \<and> (\<forall>p. dget_or (rp_offsets st) p 0 = complete_length (content_of files p)))"

lemma content_of_absent: "p \<notin> set (dkeys files) \<Longrightarrow> content_of files p = []"
  by (simp add: content_of_def dget_or_def map_of_eq_None_iff [THEN iffD2])

lemma complete_Nil [simp]: "complete_lines [] = []" "complete_length [] = 0"
  by (simp_all add: complete_lines_def complete_length_def)

lemma progress_file_effect:
  assumes "progress_file fromiso parse t st (p, c) = Inr st'" and "whole_drops parse" and "rp_dropped st = PInt i"
    and "dget_or (rp_offsets st) p 0 = complete_length b" and "prefix b c"
  shows "rp_dropped st' = PInt (i + dropped_sum parse (complete_lines c) - dropped_sum parse (complete_lines b))
    \<and> rp_offsets st' = dset (rp_offsets st) p (complete_length c)"
proof -
  from assms(5) obtain e where c: "c = b @ e" by (auto simp: prefix_def)
  let ?new = "drop (length (complete_lines b)) (complete_lines c)"
  from assms(1) obtain st1 where 1: "fold_res (progress_line fromiso parse t) st ?new = Inr st1"
      "st' = st1\<lparr>rp_offsets := dset (rp_offsets st1) p (complete_length c)\<rparr>"
    by (auto simp: progress_file_def assms(4) c tail_lines_grown res_simps)
  have "complete_lines c = complete_lines b @ ?new"
    using complete_lines_grown [of b e] append_take_drop_id [of "length (complete_lines b)" "complete_lines c"] by (simp add: c)
  then have "dropped_sum parse (complete_lines c) = dropped_sum parse (complete_lines b) + dropped_sum parse ?new"
    unfolding dropped_sum_def by (metis map_append sum_list.append)
  with progress_lines_effect [OF 1(1) assms(2,3)] 1(2) show ?thesis by simp
qed

lemma progress_files_effect:
  assumes "fold_res (progress_file fromiso parse t) st fs = Inr st'" and "whole_drops parse" and "distinct (dkeys fs)"
    and "rp_dropped st = PInt i" and "\<And>p c. (p, c) \<in> set fs \<Longrightarrow>
      dget_or (rp_offsets st) p 0 = complete_length (b p) \<and> prefix (b p) c"
  shows "rp_dropped st' = PInt (i + (\<Sum>p \<in> set (dkeys fs). dropped_sum parse (complete_lines (content_of fs p))
        - dropped_sum parse (complete_lines (b p))))
    \<and> (\<forall>p. dget_or (rp_offsets st') p 0 =
        (if p \<in> set (dkeys fs) then complete_length (content_of fs p) else dget_or (rp_offsets st) p 0))"
  using assms
proof (induction fs arbitrary: st i)
  case (Cons f fs)
  obtain q c where f: "f = (q, c)" by (cases f)
  from Cons.prems(1) obtain st1 where 1: "progress_file fromiso parse t st (q, c) = Inr st1"
      "fold_res (progress_file fromiso parse t) st1 fs = Inr st'" by (auto simp: f res_simps)
  have q: "q \<notin> set (dkeys fs)" using Cons.prems(3) by (simp add: f)
  let ?gain = "dropped_sum parse (complete_lines c) - dropped_sum parse (complete_lines (b q))"
  from progress_file_effect [OF 1(1) Cons.prems(2,4), of "b q"] Cons.prems(5) [of q c]
  have 2: "rp_dropped st1 = PInt (i + ?gain)" "rp_offsets st1 = dset (rp_offsets st) q (complete_length c)"
    by (simp_all add: f)
  have same: "content_of (f # fs) p = content_of fs p" if "p \<in> set (dkeys fs)" for p
    using that q by (auto simp: content_of_def dget_or_def f)
  have "dget_or (rp_offsets st1) p 0 = complete_length (b p) \<and> prefix (b p) d" if "(p, d) \<in> set fs" for p d
    using Cons.prems(5) [of p d] that q 2(2) by (force simp: dget_or_def)
  from Cons.IH [OF 1(2) Cons.prems(2) _ 2(1) this] Cons.prems(3) have 3:
    "rp_dropped st' = PInt (i + ?gain + (\<Sum>p \<in> set (dkeys fs). dropped_sum parse (complete_lines (content_of fs p))
        - dropped_sum parse (complete_lines (b p))))"
    "\<forall>p. dget_or (rp_offsets st') p 0 =
        (if p \<in> set (dkeys fs) then complete_length (content_of fs p) else dget_or (rp_offsets st1) p 0)" by (auto simp: f)
  have "content_of (f # fs) q = c" by (simp add: content_of_def dget_or_def f)
  then show ?case using 3 q 2(2) same by (auto simp: f dget_or_def intro!: sum.cong)
qed simp

lemma close_windows_effect:
  "fold_res (close_window t) st bs = Inr st' \<Longrightarrow> rp_dropped st' = rp_dropped st \<and> rp_offsets st' = rp_offsets st"
proof (induction bs arbitrary: st)
  case (Cons b bs)
  then obtain st1 where "close_window t st b = Inr st1" "fold_res (close_window t) st1 bs = Inr st'" by (auto simp: res_simps)
  moreover from this have "rp_dropped st1 = rp_dropped st \<and> rp_offsets st1 = rp_offsets st"
    by (auto simp: close_window_def res_simps split_def Let_def)
  ultimately show ?case using Cons.IH by metis
qed simp

lemma read_progress_effect:
  assumes "read_progress fromiso parse t now st new = Inr st'" and "whole_drops parse" and "grown old new" and "caught_up parse old st"
  shows "caught_up parse new st'"
proof -
  from assms(1) obtain st1 where 1: "fold_res (progress_file fromiso parse t) st new = Inr st1"
      "rp_dropped st' = rp_dropped st1 \<and> rp_offsets st' = rp_offsets st1"
    by (auto simp: read_progress_def res_simps Let_def dest: close_windows_effect)
  have content: "c = content_of new p" if "(p, c) \<in> set new" for p c
    using that assms(3) by (simp add: grown_def content_of_def dget_or_def)
  let ?sum = "\<lambda>files p. dropped_sum parse (complete_lines (content_of files p))"
  have old: "dget_or (rp_offsets st) p 0 = complete_length (content_of old p) \<and> prefix (content_of old p) c"
    if "(p, c) \<in> set new" for p c
  proof -
    from that have "p \<in> set (dkeys new)" by force
    with assms(3,4) content [OF that] show ?thesis unfolding grown_def caught_up_def by metis
  qed
  have "distinct (dkeys new)" "rp_dropped st = PInt (files_dropped parse old)"
    using assms(3,4) by (simp_all add: grown_def caught_up_def)
  note effect = progress_files_effect [OF 1(1) assms(2) this old]
  have 2: "rp_dropped st1 = PInt (files_dropped parse old + (\<Sum>p \<in> set (dkeys new). ?sum new p - ?sum old p))"
    "\<forall>p. dget_or (rp_offsets st1) p 0 =
      (if p \<in> set (dkeys new) then complete_length (content_of new p) else dget_or (rp_offsets st) p 0)"
    using effect by blast+
  have "files_dropped parse old = (\<Sum>p \<in> set (dkeys new). ?sum old p)"
    unfolding files_dropped_def using assms(3)
    by (intro sum.mono_neutral_left) (auto simp: grown_def content_of_absent dropped_sum_def)
  then have "rp_dropped st1 = PInt (files_dropped parse new)"
    using 2(1) by (simp add: files_dropped_def sum_subtractf)
  moreover have "dget_or (rp_offsets st1) p 0 = complete_length (content_of new p)" for p
  proof (cases "p \<in> set (dkeys new)")
    case False
    then have "p \<notin> set (dkeys old)" using assms(3) by (auto simp: grown_def)
    then show ?thesis using False 2(2) assms(4) by (simp add: caught_up_def content_of_absent)
  qed (use 2(2) in simp)
  ultimately show ?thesis using 1(2) by (simp add: caught_up_def)
qed

definition polls ::
  "(string \<Rightarrow> rat res) \<Rightarrow> (string \<Rightarrow> json res) \<Rightarrow> json \<Rightarrow> (rat \<times> (string \<times> string) list) list \<Rightarrow> raw_progress res" where
  "polls fromiso parse t ps = fold_res (\<lambda>st (now, files). read_progress fromiso parse t now st files) progress_start ps"

text \<open>
  \textbf{C20.} However the generators' output is cut up between polls, and in whatever order the
  directory lists the files, the dropped iterations after a poll are the sum over all complete
  lines of the files, each counted once, and every file is read up to its last line feed.
\<close>

theorem progress_reads_once:
  assumes run: "polls fromiso parse t ps = Inr st" and "whole_drops parse"
    and "successively grown ([] # map snd ps)"
  shows "rp_dropped st = PInt (files_dropped parse (last ([] # map snd ps)))
    \<and> (\<forall>p. dget_or (rp_offsets st) p 0 = complete_length (content_of (last ([] # map snd ps)) p))"
proof -
  have "caught_up parse (last ([] # map snd ps)) st"
    using run assms(3)
  proof (induction ps arbitrary: st rule: rev_induct)
    case Nil
    then show ?case
      by (auto simp: polls_def progress_start_def caught_up_def files_dropped_def content_of_absent dget_or_def)
  next
    case (snoc q ps)
    obtain now files where q: "q = (now, files)" by (cases q)
    from snoc.prems(1) obtain st1 where 1: "polls fromiso parse t ps = Inr st1"
        "read_progress fromiso parse t now st1 files = Inr st"
      by (auto simp: polls_def q fold_res_append res_simps)
    have 2: "successively grown ([] # map snd ps)" "grown (last ([] # map snd ps)) files"
      using snoc.prems(2) successively_append_iff [of grown "[] # map snd ps" "[files]"] by (simp_all add: q)
    from read_progress_effect [OF 1(2) assms(2) 2(2) snoc.IH [OF 1(1) 2(1)]] show ?case by (simp add: q)
  qed
  then show ?thesis by (simp add: caught_up_def)
qed

text \<open>A line that is cut in two by the first poll.\<close>

definition drop_parse :: "string \<Rightarrow> json res" where
  "drop_parse line = (if line = ''d'' @ [nl] then Inr (JObj [(''type'', JStr ''Point''), (''metric'', JStr ''dropped_iterations''),
     (''data'', JObj [(''value'', JInt 1)])]) else Inr (JObj []))"

definition cut_polls :: "(rat \<times> (string \<times> string) list) list" where
  "cut_polls = [(0, [(''a'', ''d'' @ [nl] @ ''d'')]), (1, [(''b'', ''d'' @ [nl]), (''a'', ''d'' @ [nl] @ ''d'' @ [nl])])]"

lemma cut_polls_run: "case polls lab_iso drop_parse stop_targets cut_polls of Inr st \<Rightarrow> rp_bad st = False | Inl _ \<Rightarrow> False"
  by code_simp

theorem progress_reads_once_witness:
  "\<exists>st. polls lab_iso drop_parse stop_targets cut_polls = Inr st \<and> rp_dropped st = PInt 3"
proof -
  from cut_polls_run obtain st where st: "polls lab_iso drop_parse stop_targets cut_polls = Inr st" by (auto split: sum.splits)
  have "whole_drops drop_parse" by (simp add: whole_drops_def line_dropped_def drop_parse_def num_at_def dindex_def)
  moreover have "successively grown ([] # map snd cut_polls)"
    by (auto simp: cut_polls_def grown_def content_of_def dget_or_def)
  moreover have "files_dropped drop_parse (last ([] # map snd cut_polls)) = 3" by code_simp
  ultimately show ?thesis using progress_reads_once [OF st] st by auto
qed

end
