(* ===== verification/Verdict.thy ===== *)
theory Verdict
  imports Raw_Points
begin

text \<open>
  The judgement of a phase-14 run: \<open>recovery\<close> and \<open>verdict\<close> of
  \<open>performance/scripts/phase14_evidence.py\<close>, \<open>check_startup\<close> and the comparison of the background
  load of \<open>run_phase14.py\<close>, and the calibration of the sampling overhead of \<open>phase14_campaign.py\<close>.
  Samples are the dictionaries of the sampler; the points of the control probes, which the script
  builds itself, are records. A status is a value of its own.
\<close>

section \<open>Recovery\<close>

definition time_of :: "json \<Rightarrow> rat res" where
  "time_of x = rbind (num_at x [''time'']) (\<lambda>n. Inr (num_rat n))"

text \<open>
  \<open>window\<close>: the samples from the stop on are scanned for a stretch that shows the predicate without
  a gap for long enough. The state is the start of the stretch and the time of the sample before.
\<close>

definition window_began :: "rat \<Rightarrow> rat option \<times> rat option \<Rightarrow> rat \<Rightarrow> rat option" where
  "window_began max_gap st now = (case st of (began, previous) \<Rightarrow>
     (case previous of None \<Rightarrow> began | Some p \<Rightarrow> if max_gap < now - p then None else began))"

fun window_scan ::
  "rat \<Rightarrow> rat \<Rightarrow> rat \<Rightarrow> rat option \<Rightarrow> (json \<Rightarrow> bool res) \<Rightarrow> rat option \<times> rat option \<Rightarrow> json list \<Rightarrow> bool res" where
  "window_scan stop max_gap duration deadline p st [] = Inr False"
| "window_scan stop max_gap duration deadline p st (x # xs) =
     rbind (time_of x) (\<lambda>now.
     if now < stop then window_scan stop max_gap duration deadline p st xs
     else rbind (p x) (\<lambda>good.
       if \<not> good then window_scan stop max_gap duration deadline p (None, Some now) xs
       else let began = (case window_began max_gap st now of None \<Rightarrow> now | Some b \<Rightarrow> b) in
         if duration \<le> now - began \<and> (case deadline of None \<Rightarrow> True | Some d \<Rightarrow> began \<le> stop + d) then Inr True
         else window_scan stop max_gap duration deadline p (Some began, Some now) xs))"

fun all_zero :: "string list \<Rightarrow> json \<Rightarrow> bool res" where
  "all_zero [] x = Inr True"
| "all_zero (k # ks) x = rbind (json_index x k) (\<lambda>v. if py_eq v (JInt 0) then all_zero ks x else Inr False)"

definition queues_idle :: "json \<Rightarrow> bool res" where
  "queues_idle = all_zero [''transactionWaiters'', ''transactionOldestSeconds'', ''hashQueue'', ''seatQueue'']"

definition postgres_idle :: "json \<Rightarrow> bool res" where
  "postgres_idle = all_zero [''pgLockWaits'', ''pgBlocking'', ''pgIdleTransaction'', ''pgIdleAborted'']"

definition idle_inflight :: "json \<Rightarrow> json \<Rightarrow> json \<Rightarrow> string \<Rightarrow> string \<Rightarrow> bool res" where
  "idle_inflight t baseline x key bound =
     rbind (num_at x [key]) (\<lambda>v. rbind (num_at baseline [bound]) (\<lambda>b.
     rbind (num_at t [''recovery'', ''inflightIdleAllowance'']) (\<lambda>a. Inr (at_least (num_add b a) v))))"

definition inflight_idle :: "json \<Rightarrow> json \<Rightarrow> json \<Rightarrow> bool res" where
  "inflight_idle t baseline x =
     res_and (idle_inflight t baseline x ''httpInflight'' ''httpIdleMax'')
       (idle_inflight t baseline x ''redisInflight'' ''redisIdleMax'')"

record control_point =
  cp_time :: rat
  cp_ms :: rat
  cp_step :: string
  cp_result :: string

definition rat_at :: "json \<Rightarrow> string list \<Rightarrow> rat res" where
  "rat_at t path = rbind (num_at t path) (\<lambda>n. Inr (num_rat n))"

definition first_limit :: "json \<Rightarrow> string list \<Rightarrow> nat \<Rightarrow> num res" where
  "first_limit t path i = rbind (rbind (list_at t path) (\<lambda>xs. item xs i)) json_to_num"

definition control_limit :: "json \<Rightarrow> json \<Rightarrow> string \<Rightarrow> num res" where
  "control_limit t baseline step =
     rbind (first_limit t [''latencyMs'', step] 0) (\<lambda>a. rbind (num_at baseline [''controlP95'', step]) (\<lambda>b.
     rbind (num_at t [''recovery'', ''controlBaselineRatio'']) (\<lambda>r. Inr (if num_less (num_mul b r) a then num_mul b r else a))))"

definition control_errors :: "json \<Rightarrow> json \<Rightarrow> rat \<Rightarrow> control_point list \<Rightarrow> string \<Rightarrow> string list res" where
  "control_errors t baseline stop controls step =
     rbind (rat_at t [''recovery'', ''controlWindowSeconds'']) (\<lambda>w.
     let xs = filter (\<lambda>x. cp_step x = step \<and> stop \<le> cp_time x \<and> cp_time x < stop + w) controls;
         values = map cp_ms (filter (\<lambda>x. cp_result x = ''business_success'') xs) in
     rbind (percentile values (fl64 (95/100))) (\<lambda>p95.
     rbind (rat_at t [''recovery'', ''controlMinSamples'']) (\<lambda>m.
     rbind (if of_int (int (length values)) < m then Inr True
       else rbind (control_limit t baseline step) (\<lambda>limit. case p95 of
           None \<Rightarrow> Inl (Exn TypeError ''None > float'')
         | Some v \<Rightarrow> Inr (num_rat limit < v))) (\<lambda>slow.
     Inr ((if list_ex (\<lambda>x. cp_result x \<noteq> ''business_success'') xs then [''control recovery errors: '' @ step] else []) @
       (if slow then [''control recovery: '' @ step] else []))))))"

definition mean :: "rat list \<Rightarrow> rat" where
  "mean xs = fl64 (foldl (\<lambda>a x. fl64 (a + x)) 0 xs / of_int (int (length xs)))"

definition memory_errors :: "json \<Rightarrow> (rat \<times> rat) list \<Rightarrow> string list res" where
  "memory_errors t rows =
     rbind (rat_at t [''recovery'', ''memoryPeakFraction'']) (\<lambda>peak.
     rbind (rat_at t [''recovery'', ''memoryWindowSeconds'']) (\<lambda>w.
     rbind (rat_at t [''recovery'', ''memoryGrowthFraction'']) (\<lambda>growth.
     let stop = fst (last rows);
         a = map snd (filter (\<lambda>(time, _). stop - 2 * w \<le> time \<and> time < stop - w) rows);
         b = map snd (filter (\<lambda>(time, _). stop - w \<le> time \<and> time \<le> stop) rows) in
     Inr ((if list_ex (\<lambda>(_, m). peak \<le> m) rows then [''memory peak''] else []) @
       (if a = [] \<or> b = [] \<or> growth < fl64 (mean b - mean a) then [''memory growth/window''] else [])))))"

record recovered =
  rc_passed :: bool
  rc_errors :: "string list"
  rc_observed :: "rat option"

definition error_unless :: "bool res \<Rightarrow> string \<Rightarrow> string list res" where
  "error_unless p reason = rbind p (\<lambda>b. Inr (if b then [] else [reason]))"

definition restarted :: "json \<Rightarrow> bool res" where
  "restarted x = res_or (flag_at x ''restarted'') (flag_at x ''oom'')"

fun any_res :: "('a \<Rightarrow> bool res) \<Rightarrow> 'a list \<Rightarrow> bool res" where
  "any_res f [] = Inr False"
| "any_res f (x # xs) = rbind (f x) (\<lambda>b. if b then Inr True else any_res f xs)"

definition recovery :: "json list \<Rightarrow> control_point list \<Rightarrow> json \<Rightarrow> json \<Rightarrow> rat \<Rightarrow> recovered res" where
  "recovery samples controls baseline t stop =
     (if samples = [] then Inr \<lparr>rc_passed = False, rc_errors = [''missing recovery samples''], rc_observed = None\<rparr>
      else
        rbind (rat_at t [''recovery'', ''continuousSeconds'']) (\<lambda>duration.
        rbind (num_at t [''generator'', ''sampleSeconds'']) (\<lambda>period.
        rbind (rat_at t [''recovery'', ''queueZeroDeadlineSeconds'']) (\<lambda>deadline.
        let scan = window_scan stop (num_rat (num_mul period (PInt 2))) duration in
        rbind (error_unless (scan (Some deadline) queues_idle (None, None) samples) ''queues not drained continuously'') (\<lambda>e1.
        rbind (error_unless (scan None (inflight_idle t baseline) (None, None) samples) ''inflight not recovered'') (\<lambda>e2.
        rbind (error_unless (scan None postgres_idle (None, None) samples) ''postgres not recovered'') (\<lambda>e3.
        rbind (map_res (control_errors t baseline stop controls) [''health'', ''auth'', ''availability'']) (\<lambda>e4.
        rbind (map_res (\<lambda>x. rbind (time_of x) (\<lambda>a. rbind (rat_at x [''memoryFraction'']) (\<lambda>m. Inr (a, m)))) samples) (\<lambda>rows.
        rbind (memory_errors t rows) (\<lambda>e5.
        rbind (any_res restarted samples) (\<lambda>r.
        let errors = e1 @ e2 @ e3 @ concat e4 @ e5 @ (if r then [''restart/OOM''] else []) in
        Inr \<lparr>rc_passed = (errors = []), rc_errors = errors, rc_observed = Some (fst (last rows) - stop)\<rparr>)))))))))))"

section \<open>Start-up, background and sampling overhead\<close>

record startup_plan =
  sp_users :: num
  sp_requests :: num
  sp_steps :: "(string \<times> num) list"

definition startup_row :: "count_row list \<Rightarrow> string \<times> num \<Rightarrow> string \<times> num \<times> rat \<times> rat" where
  "startup_row rows step = (case step of (name, planned) \<Rightarrow>
     (name, planned, rows_count rows ''phase14_started'' None (Some name) None,
       rows_count rows ''phase14_results'' None (Some name) None))"

text \<open>The rows of \<open>startupDelivery\<close> and what is appended to the errors of the summary.\<close>

definition startup_check :: "count_row list \<Rightarrow> startup_plan \<Rightarrow> (string \<times> num \<times> rat \<times> rat) list \<times> string list" where
  "startup_check rows plan =
     (let steps = foldl (\<lambda>d (k, v). dset d k v) [(''startup'', sp_users plan)] (sp_steps plan);
          observed = map (startup_row rows) steps in
      (observed, concat (map (\<lambda>(name, planned, a, b).
         if a \<noteq> num_rat planned \<or> b \<noteq> num_rat planned then [''startup delivery mismatch: '' @ name] else []) observed)))"

definition trend_row_of :: "agg_summary \<Rightarrow> string \<Rightarrow> string \<Rightarrow> trend_row option" where
  "trend_row_of s scenario step = List.find (\<lambda>r. tr_metric r = ''phase14_duration_ms''
     \<and> tr_key r = (scenario, step, ''business_success'')) (as_trends s)"

definition compare_row :: "json \<Rightarrow> agg_summary \<Rightarrow> agg_summary \<Rightarrow> string \<times> string \<Rightarrow> bool res" where
  "compare_row t base loaded row =
     (case (trend_row_of base (fst row) (snd row), trend_row_of loaded (fst row) (snd row)) of
        (Some l, Some r) \<Rightarrow>
          rbind (num_at t [''login'', ''backgroundGoodputFraction'']) (\<lambda>g.
          if of_int (int (tr_count r)) < num_rat (num_mul (PInt (int (tr_count l))) g) then Inr False
          else rbind (num_at t [''login'', ''backgroundLatencyRatio'']) (\<lambda>k.
            Inr (tr_p95 r \<le> num_rat (num_mul (PFloat (tr_p95 l)) k))))
      | _ \<Rightarrow> Inr False)"

datatype status = Pass | Fail | Not_applicable

definition background_rows :: "(string \<times> string) list" where
  "background_rows = [(''background_refresh'', ''availability''), (''background_hold'', ''journey''), (''background_order'', ''journey'')]"

text \<open>The status of \<open>compare_background\<close>, from the two summaries of the login window.\<close>

definition compare_background :: "json \<Rightarrow> agg_summary \<Rightarrow> agg_summary \<Rightarrow> status res" where
  "compare_background t base loaded =
     rbind (map_res (compare_row t base loaded) background_rows) (\<lambda>passed.
     rbind (json_index t ''mode'') (\<lambda>mode.
     Inr (if mode = JStr ''smoke'' then Not_applicable else if list_all id passed then Pass else Fail)))"

record overhead_row =
  ov_sampling :: bool
  ov_p95 :: rat
  ov_p99 :: rat

definition growth_of :: "(overhead_row \<Rightarrow> rat) \<Rightarrow> overhead_row list \<Rightarrow> rat option res" where
  "growth_of f rows =
     rbind (percentile (map f (filter (\<lambda>r. \<not> ov_sampling r) rows)) (fl64 (1/2))) (\<lambda>off.
     rbind (percentile (map f (filter ov_sampling rows)) (fl64 (1/2))) (\<lambda>on.
     case (off, on) of
       (Some a, Some b) \<Rightarrow> Inr (if 0 < a then Some (fl64 (fl64 (b / a) - 1)) else None)
     | _ \<Rightarrow> Inl (Exn TypeError ''None > int'')))"

text \<open>\<open>overhead_comparison\<close>: passed or not.\<close>

definition overhead_comparison :: "overhead_row list \<Rightarrow> rat \<Rightarrow> bool res" where
  "overhead_comparison rows limit =
     (if map ov_sampling rows \<noteq> [False, True, True, False] then Inr False
      else rbind (growth_of ov_p95 rows) (\<lambda>a. rbind (growth_of ov_p99 rows) (\<lambda>b.
        Inr (list_all (\<lambda>g. case g of None \<Rightarrow> False | Some v \<Rightarrow> v \<le> limit) [a, b]))))"

section \<open>Verdict\<close>

record validity =
  va_isolated :: bool
  va_errors :: "string list"
  va_warnings :: "string list"

record verdict =
  vd_reasons :: "string list"
  vd_capacity :: status
  vd_overload :: status
  vd_bad :: "tag_key list"
  vd_latency :: "tag_key list"
  vd_functional :: "status option"
  vd_diagnostic :: "(status \<times> status) option"

definition bad_results :: "count_row list \<Rightarrow> tag_key list" where
  "bad_results rows = map (\<lambda>(_, k, _). k) (filter (\<lambda>(m, (_, _, re), v). m = ''phase14_results''
     \<and> re \<in> {''capacity_rejection'', ''system_error'', ''unexpected_contract''} \<and> v \<noteq> 0) rows)"

definition remove_prefix :: "string \<Rightarrow> string \<Rightarrow> string" where
  "remove_prefix p s = (if startswith s p then drop (length p) s else s)"

definition over_limits :: "json \<Rightarrow> trend_row \<Rightarrow> bool res" where
  "over_limits limit r = (case limit of
      JList xs \<Rightarrow> rbind (rbind (item xs 0) json_to_num) (\<lambda>a. if num_rat a < tr_p95 r then Inr True
        else rbind (rbind (item xs 1) json_to_num) (\<lambda>b. Inr (num_rat b < tr_p99 r)))
    | _ \<Rightarrow> Inl (Exn TypeError ''not subscriptable''))"

definition slow_row :: "json \<Rightarrow> trend_row \<Rightarrow> bool res" where
  "slow_row t r = (case tr_key r of (_, step, result) \<Rightarrow>
     rbind (rbind (json_index t ''latencyMs'') (\<lambda>d. json_get d (remove_prefix ''startup_'' step) JNull)) (\<lambda>limit.
     if tr_metric r \<noteq> ''phase14_duration_ms'' \<or> result \<noteq> ''business_success'' \<or> \<not> truthy limit then Inr False
     else over_limits limit r))"

definition slow_busy :: "json \<Rightarrow> trend_row \<Rightarrow> bool res" where
  "slow_busy t r = (if tr_metric r \<noteq> ''phase14_duration_ms'' \<or> snd (tr_key r) \<noteq> (''login'', ''capacity_rejection'') then Inr False
     else rbind (json_at t [''login'', ''busyLatencyMs'']) (\<lambda>limit. over_limits limit r))"

definition verdict_reasons :: "agg_summary \<Rightarrow> validity \<Rightarrow> bool \<Rightarrow> string list" where
  "verdict_reasons s v smoke =
     as_errors s @ va_errors v @ sort (remdups (va_warnings v)) @
     (if as_counts s = [] \<or> as_trends s = [] then [''missing request evidence''] else []) @
     (if \<not> va_isolated v then [''local_characterization_only''] else []) @
     (if smoke then [''smoke input is not formal capacity''] else [])"

definition capacity_status :: "bool \<Rightarrow> bool \<Rightarrow> bool \<Rightarrow> tag_key list \<Rightarrow> tag_key list \<Rightarrow> status" where
  "capacity_status valid correct rest bad latency =
     (if valid \<and> correct \<and> rest \<and> bad = [] \<and> latency = [] then Pass else if \<not> valid then Not_applicable else Fail)"

definition overload_status :: "bool \<Rightarrow> bool \<Rightarrow> bool \<Rightarrow> bool \<Rightarrow> bool \<Rightarrow> tag_key list \<Rightarrow> tag_key list \<Rightarrow> status" where
  "overload_status overload valid correct rest busy bad latency =
     (let system_bad = list_ex (\<lambda>(_, _, re). re \<in> {''system_error'', ''unexpected_contract''}) bad;
          rejected = list_ex (\<lambda>(_, st, re). re = ''capacity_rejection'' \<and> st \<noteq> ''login'') bad in
      if \<not> overload then Not_applicable
      else if valid \<and> correct \<and> rest \<and> \<not> system_bad \<and> \<not> rejected \<and> \<not> busy \<and> latency = [] then Pass else Fail)"

definition functional_status :: "agg_summary \<Rightarrow> bool \<Rightarrow> validity \<Rightarrow> status" where
  "functional_status s correct v = (if correct \<and> as_counts s \<noteq> [] \<and> as_trends s \<noteq> [] \<and> as_errors s = [] \<and> va_errors v = []
     \<and> \<not> list_ex (\<lambda>(_, _, re). re \<in> {''system_error'', ''unexpected_contract''}) (bad_results (as_counts s)) then Pass else Fail)"

definition slow_keys :: "json \<Rightarrow> trend_row list \<Rightarrow> tag_key list res" where
  "slow_keys t rows = rbind (map_res (\<lambda>r. rbind (slow_row t r) (\<lambda>b. Inr (if b then [tr_key r] else []))) rows) (\<lambda>ks. Inr (concat ks))"

definition verdict_of :: "agg_summary \<Rightarrow> bool \<Rightarrow> recovered \<Rightarrow> validity \<Rightarrow> json \<Rightarrow> bool \<Rightarrow> bool \<Rightarrow> verdict res" where
  "verdict_of s correct rec v t overload smoke =
     rbind (slow_keys t (as_trends s)) (\<lambda>latency.
     rbind (any_res (slow_busy t) (as_trends s)) (\<lambda>busy.
     let reasons = verdict_reasons s v smoke; bad = bad_results (as_counts s); valid = (reasons = []);
         capacity = capacity_status valid correct (rc_passed rec) bad latency;
         over = overload_status overload valid correct (rc_passed rec) busy bad latency
     in Inr \<lparr>vd_reasons = reasons, vd_capacity = (if smoke then Not_applicable else capacity),
       vd_overload = (if smoke then Not_applicable else over), vd_bad = bad, vd_latency = latency,
       vd_functional = (if smoke then Some (functional_status s correct v) else None),
       vd_diagnostic = (if smoke then Some (capacity, over) else None)\<rparr>))"

section \<open>The stretch a window finds\<close>

definition clock_of :: "json \<Rightarrow> rat" where
  "clock_of x = (case time_of x of Inr n \<Rightarrow> n | Inl _ \<Rightarrow> 0)"

definition close_by :: "rat \<Rightarrow> json \<Rightarrow> json \<Rightarrow> bool" where
  "close_by max_gap x y = (clock_of y - clock_of x \<le> max_gap)"

definition window_step :: "rat \<Rightarrow> (json \<Rightarrow> bool res) \<Rightarrow> rat option \<times> rat option \<Rightarrow> json \<Rightarrow> rat option \<times> rat option" where
  "window_step max_gap p st x = (let now = clock_of x in
     (if holds_at p x then Some (case window_began max_gap st now of None \<Rightarrow> now | Some b \<Rightarrow> b) else None, Some now))"

definition window_knows :: "rat option \<times> rat option \<Rightarrow> json list \<Rightarrow> bool" where
  "window_knows st r = (fst st = (case r of [] \<Rightarrow> None | x # _ \<Rightarrow> Some (clock_of x))
     \<and> (r \<noteq> [] \<longrightarrow> snd st = Some (clock_of (last r))))"

interpretation window: run_monitor "holds_at p" "close_by max_gap" "(None, None)" "window_step max_gap p" window_knows
  for p max_gap
  by unfold_locales
    (auto simp: window_knows_def window_step_def window_began_def next_run_def close_by_def Let_def
      split: option.splits list.splits prod.splits)

definition long_run :: "rat \<Rightarrow> rat \<Rightarrow> rat option \<Rightarrow> json list \<Rightarrow> bool" where
  "long_run stop duration deadline q = (q \<noteq> [] \<and> duration \<le> clock_of (last q) - clock_of (hd q)
     \<and> (case deadline of None \<Rightarrow> True | Some d \<Rightarrow> clock_of (hd q) \<le> stop + d))"

text \<open>The scan as the first sample, from the stop on, at which the state is good enough.\<close>

definition window_fires :: "rat \<Rightarrow> rat \<Rightarrow> rat option \<Rightarrow> rat option \<times> rat option \<Rightarrow> bool" where
  "window_fires stop duration deadline st = (case st of
      (Some began, Some now) \<Rightarrow> duration \<le> now - began \<and> (case deadline of None \<Rightarrow> True | Some d \<Rightarrow> began \<le> stop + d)
    | _ \<Rightarrow> False)"

lemma split_first:
  "(\<exists>ys y zs. x # xs = ys @ y # zs \<and> P (ys @ [y])) \<longleftrightarrow> P [x] \<or> (\<exists>ys y zs. xs = ys @ y # zs \<and> P (x # ys @ [y]))"
  (is "?l \<longleftrightarrow> ?r")
proof
  assume ?l
  then obtain ys y zs where "x # xs = ys @ y # zs" "P (ys @ [y])" by blast
  then show ?r by (cases ys) auto
next
  assume ?r
  then show ?l
  proof
    assume "P [x]"
    then show ?l by (intro exI [of _ "[]"]) simp
  next
    assume "\<exists>ys y zs. xs = ys @ y # zs \<and> P (x # ys @ [y])"
    then obtain ys y zs where "xs = ys @ y # zs" "P (x # ys @ [y])" by blast
    then show ?l by (intro exI [of _ "x # ys"]) simp
  qed
qed

lemma window_scan_fires:
  assumes "window_scan stop max_gap duration deadline p st xs = Inr b"
  shows "b \<longleftrightarrow> (\<exists>ys x zs. filter (\<lambda>x. stop \<le> clock_of x) xs = ys @ x # zs
    \<and> window_fires stop duration deadline (foldl (window_step max_gap p) st (ys @ [x])))"
  using assms
proof (induction xs arbitrary: st)
  case (Cons x xs)
  from Cons.prems obtain now where now: "time_of x = Inr now" by (auto simp: res_simps)
  then have clock: "clock_of x = now" by (simp add: clock_of_def)
  show ?case
  proof (cases "now < stop")
    case True
    then show ?thesis using Cons now clock by simp
  next
    case False
    let ?st = "window_step max_gap p st x" and ?xs = "filter (\<lambda>x. stop \<le> clock_of x) xs"
    from Cons.prems now False obtain good where good: "p x = Inr good" by (auto simp: res_simps)
    have "b \<longleftrightarrow> window_fires stop duration deadline ?st \<or>
        (\<exists>ys y zs. ?xs = ys @ y # zs \<and> window_fires stop duration deadline (foldl (window_step max_gap p) ?st (ys @ [y])))"
    proof (cases "window_fires stop duration deadline ?st")
      case True
      then show ?thesis using Cons.prems now good False clock
        by (auto simp: window_step_def window_fires_def holds_at_def Let_def split: if_splits)
    next
      case no: False
      then have "window_scan stop max_gap duration deadline p ?st xs = Inr b"
        using Cons.prems now good False clock
        by (auto simp: window_step_def window_fires_def holds_at_def Let_def split: if_splits)
      then show ?thesis using Cons.IH no by blast
    qed
    then show ?thesis using False clock split_first [of x ?xs "\<lambda>q. window_fires stop duration deadline (foldl (window_step max_gap p) st q)"]
      by simp
  qed
qed simp

text \<open>What a window is to find, said of the samples alone.\<close>

definition quiet_stretch :: "rat \<Rightarrow> rat \<Rightarrow> rat \<Rightarrow> rat option \<Rightarrow> (json \<Rightarrow> bool res) \<Rightarrow> json list \<Rightarrow> bool" where
  "quiet_stretch stop max_gap duration deadline p xs =
     (\<exists>q. sublist q (filter (\<lambda>x. stop \<le> clock_of x) xs) \<and> is_run (\<lambda>x. p x = Inr True) (close_by max_gap) q
        \<and> q \<noteq> [] \<and> duration \<le> clock_of (last q) - clock_of (hd q)
        \<and> (case deadline of None \<Rightarrow> True | Some d \<Rightarrow> clock_of (hd q) \<le> stop + d))"

lemma window_scan_iff:
  assumes scan: "window_scan stop max_gap duration deadline p (None, None) xs = Inr b"
    and order: "sorted (map clock_of xs)"
  shows "b \<longleftrightarrow> quiet_stretch stop max_gap duration deadline p xs"
proof -
  let ?xs = "filter (\<lambda>x. stop \<le> clock_of x) xs"
  have sorted: "sorted (map clock_of ?xs)" using order by (rule sorted_filter)
  have fires: "window_fires stop duration deadline (foldl (window_step max_gap p) (None, None) ys) \<longleftrightarrow>
      (\<exists>q. suffix q ys \<and> is_run (holds_at p) (close_by max_gap) q \<and> long_run stop duration deadline q)"
    if "prefix ys ?xs" for ys
  proof -
    let ?run = "current_run (holds_at p) (close_by max_gap) ys"
    have "window_knows (foldl (window_step max_gap p) (None, None) ys) ?run" by (rule window.steps_know)
    then have "window_fires stop duration deadline (foldl (window_step max_gap p) (None, None) ys) \<longleftrightarrow>
        long_run stop duration deadline ?run"
      by (auto simp: window_knows_def window_fires_def long_run_def split: list.splits prod.splits option.splits)
    moreover have "long_run stop duration deadline ?run"
      if q: "suffix q ys" "is_run (holds_at p) (close_by max_gap) q" "long_run stop duration deadline q" for q
    proof -
      from current_run_longest [OF q(1,2)] obtain u where u: "?run = u @ q" by (auto simp: suffix_def)
      from current_run_suffix [of "holds_at p" "close_by max_gap" ys] obtain v where "ys = v @ ?run" by (auto simp: suffix_def)
      moreover from \<open>prefix ys ?xs\<close> obtain w where "?xs = ys @ w" by (auto simp: prefix_def)
      ultimately have "?xs = v @ ?run @ w" by simp
      then have "sorted (map clock_of (u @ q))" using sorted u by (simp add: sorted_append)
      then have "clock_of (hd (u @ q)) \<le> clock_of (hd q)" using q(3)
        by (cases u; cases q) (auto simp: long_run_def)
      then show ?thesis using q(3) u by (auto simp: long_run_def split: option.splits)
    qed
    ultimately show ?thesis using current_run_suffix is_run_current by blast
  qed
  have "b \<longleftrightarrow> (\<exists>ys x zs. ?xs = ys @ x # zs \<and> (\<exists>q. suffix q (ys @ [x]) \<and> is_run (holds_at p) (close_by max_gap) q
      \<and> long_run stop duration deadline q))"
    using window_scan_fires [OF scan] fires by (metis append.assoc append_Cons append_Nil prefix_def)
  also have "\<dots> \<longleftrightarrow> (\<exists>q. sublist q ?xs \<and> is_run (holds_at p) (close_by max_gap) q \<and> long_run stop duration deadline q)"
  proof -
    have "\<exists>ys x zs. ?xs = ys @ x # zs \<and> suffix q (ys @ [x])" if "sublist q ?xs" "q \<noteq> []" for q
    proof -
      from that obtain u w where "?xs = u @ q @ w" by (auto simp: sublist_def)
      moreover have "q = butlast q @ [last q]" using that by simp
      ultimately show ?thesis by (metis append.assoc append_Cons append_Nil suffixI)
    qed
    moreover have "sublist q ?xs" if "?xs = ys @ x # zs" "suffix q (ys @ [x])" for q ys x zs
      using that by (metis append.assoc append_Cons append_Nil sublist_def suffix_def)
    ultimately show ?thesis by (metis long_run_def)
  qed
  finally show ?thesis by (simp add: quiet_stretch_def holds_at_def [abs_def] long_run_def)
qed

text \<open>
  \textbf{C19.} With samples in the order of time, a recovery window is found exactly when the samples
  from the stop on contain a row of consecutive ones that all show the predicate, have no gap of more
  than two sampling periods, last for the continuous seconds asked for, and begin before the deadline.
\<close>

theorem window_scan_exact:
  assumes "window_scan stop max_gap duration deadline p (None, None) xs = Inr b" and "sorted (map clock_of xs)"
  shows "b \<longleftrightarrow> quiet_stretch stop max_gap duration deadline p xs"
  using assms by (rule window_scan_iff)

definition idle_sample :: "int \<Rightarrow> json" where
  "idle_sample time = JObj ((''time'', JInt time) # map (\<lambda>k. (k, JInt 0))
     [''transactionWaiters'', ''transactionOldestSeconds'', ''hashQueue'', ''seatQueue''])"

lemma idle_scan: "window_scan 10 2 2 (Some 5) queues_idle (None, None) (map idle_sample [9, 11, 14, 15, 16]) = Inr True"
  by code_simp

theorem window_scan_exact_witness: "quiet_stretch 10 2 2 (Some 5) queues_idle (map idle_sample [9, 11, 14, 15, 16])"
proof -
  have "sorted (map clock_of (map idle_sample [9, 11, 14, 15, 16]))" by code_simp
  from window_scan_exact [OF idle_scan this] show ?thesis by simp
qed

section \<open>What a passed verdict means\<close>

lemma verdict_pass:
  assumes "verdict_of s correct rec v t overload smoke = Inr vd" and "vd_capacity vd = Pass"
  shows "\<not> smoke \<and> correct \<and> rc_passed rec \<and> va_isolated v \<and> va_errors v = [] \<and> as_errors s = [] \<and> bad_results (as_counts s) = []
    \<and> as_counts s \<noteq> [] \<and> as_trends s \<noteq> [] \<and> (\<forall>r \<in> set (as_trends s). slow_row t r = Inr False)"
proof -
  from assms have 1: "slow_keys t (as_trends s) = Inr []" "verdict_reasons s v smoke = []" "correct" "rc_passed rec"
      "bad_results (as_counts s) = []"
    by (auto simp: verdict_of_def res_simps Let_def capacity_status_def split: if_splits)
  have "\<forall>r \<in> set rs. slow_row t r = Inr False" if "slow_keys t rs = Inr []" for rs
    using that
  proof (induction rs)
    case (Cons r rs)
    then show ?case by (cases "slow_row t r") (auto simp: slow_keys_def res_simps split: if_splits)
  qed simp
  with 1 show ?thesis by (auto simp: verdict_reasons_def split: if_splits)
qed

lemma error_unless_Nil: "error_unless p reason = Inr [] \<longleftrightarrow> p = Inr True"
  by (cases p) (auto simp: error_unless_def)

lemma recovery_pass:
  assumes "recovery samples controls baseline t stop = Inr rec" and "rc_passed rec"
  obtains duration gap deadline where "rat_at t [''recovery'', ''continuousSeconds''] = Inr duration"
    and "rat_at t [''recovery'', ''queueZeroDeadlineSeconds''] = Inr deadline"
    and "rbind (num_at t [''generator'', ''sampleSeconds'']) (\<lambda>n. Inr (num_rat (num_mul n (PInt 2)))) = Inr gap"
    and "window_scan stop gap duration (Some deadline) queues_idle (None, None) samples = Inr True"
    and "window_scan stop gap duration None (inflight_idle t baseline) (None, None) samples = Inr True"
    and "window_scan stop gap duration None postgres_idle (None, None) samples = Inr True"
    and "list_all (\<lambda>step. control_errors t baseline stop controls step = Inr []) [''health'', ''auth'', ''availability'']"
proof -
  have "samples \<noteq> []" using assms by (auto simp: recovery_def)
  with assms obtain duration period deadline e4 where 1: "rat_at t [''recovery'', ''continuousSeconds''] = Inr duration"
      "num_at t [''generator'', ''sampleSeconds''] = Inr period" "rat_at t [''recovery'', ''queueZeroDeadlineSeconds''] = Inr deadline"
      "error_unless (window_scan stop (num_rat (num_mul period (PInt 2))) duration (Some deadline) queues_idle (None, None) samples)
         ''queues not drained continuously'' = Inr []"
      "error_unless (window_scan stop (num_rat (num_mul period (PInt 2))) duration None (inflight_idle t baseline) (None, None) samples)
         ''inflight not recovered'' = Inr []"
      "error_unless (window_scan stop (num_rat (num_mul period (PInt 2))) duration None postgres_idle (None, None) samples)
         ''postgres not recovered'' = Inr []"
      "map_res (control_errors t baseline stop controls) [''health'', ''auth'', ''availability''] = Inr e4" "concat e4 = []"
    unfolding recovery_def Let_def by (simp only: if_False rbind_Inr_iff) (auto simp only: sum.inject recovered.simps append_is_Nil_conv)
  have "list_all (\<lambda>step. control_errors t baseline stop controls step = Inr []) ss"
    if "map_res (control_errors t baseline stop controls) ss = Inr es" "concat es = []" for ss es
    using that by (induction ss arbitrary: es) (auto simp: res_simps)
  with 1 show ?thesis by (intro that) (simp_all only: error_unless_Nil rbind.simps)
qed

text \<open>The summary as \<open>finish_case\<close> hands it on: the errors of the start-up check are appended.\<close>

definition with_startup :: "agg_summary \<Rightarrow> startup_plan \<Rightarrow> agg_summary" where
  "with_startup s plan = s\<lparr>as_errors := as_errors s @ snd (startup_check (as_counts s) plan)\<rparr>"

lemma bad_results_count:
  assumes "bad_results rows = []" and "cls \<in> {''capacity_rejection'', ''system_error'', ''unexpected_contract''}"
  shows "rows_count rows ''phase14_results'' None None (Some cls) = 0"
proof -
  have "v = 0" if "(''phase14_results'', (sc, st, cls), v) \<in> set rows" for sc st v
    using assms that by (force simp: bad_results_def filter_empty_conv)
  then have z: "list_all (\<lambda>v. v = 0) (map (\<lambda>(_, _, v). v) (filter (\<lambda>(m, (sc, st, re), v). m = ''phase14_results'' \<and> selects None sc
      \<and> selects None st \<and> selects (Some cls) re) rows))"
    by (auto simp: list_all_iff selects_def)
  have "list_all (\<lambda>v. v = 0) vs \<Longrightarrow> foldl (\<lambda>a r. fl64 (a + r)) 0 vs = 0" for vs
    by (induction vs) simp_all
  with z show ?thesis by (simp only: rows_count_def)
qed

lemma startup_delivered:
  assumes "snd (startup_check rows plan) = []" and "(step, n) \<in> set (sp_steps plan)" and "distinct (dkeys (sp_steps plan))"
  shows "rows_count rows ''phase14_started'' None (Some step) None = num_rat n
    \<and> rows_count rows ''phase14_results'' None (Some step) None = num_rat n"
proof -
  let ?steps = "foldl (\<lambda>d (k, v). dset d k v) [(''startup'', sp_users plan)] (sp_steps plan)"
  have get: "map_of (foldl (\<lambda>d (k, v). dset d k v) d xs) k = Some v"
    if "(k, v) \<in> set xs" "distinct (dkeys xs)" for d xs and k :: string and v :: num
    using that
  proof (induction xs arbitrary: d)
    case (Cons x xs)
    have keep: "map_of (foldl (\<lambda>d (k, v). dset d k v) e xs) k = map_of e k" if "k \<notin> set (dkeys xs)" for e
      using that by (induction xs arbitrary: e) auto
    from Cons show ?case by (cases "x = (k, v)") (auto simp: keep)
  qed simp
  from get [OF assms(2,3)] have "(step, n) \<in> set ?steps" by (rule map_of_SomeD)
  then show ?thesis using assms(1) by (force simp: startup_check_def startup_row_def Let_def split: if_splits prod.splits)
qed

text \<open>
  \textbf{C5.} A run that passes for its capacity was isolated and no smoke run, its database was
  correct, every planned iteration was started and completed and every start-up step taken as often
  as planned, no iteration was dropped, no request ended in a rejection, a system error or an
  unexpected answer, and afterwards the queues, the requests in flight and PostgreSQL each had a
  quiet stretch of the length asked for, the queues within their deadline.
\<close>

theorem capacity_pass_sound:
  assumes agg: "aggregate fromiso parse evs plan since until = Inr s"
    and kinds: "list_all (declares_first fromiso parse plan since until kinds) evs"
    and points: "map_res (shard_points fromiso parse plan since until) evs = Inr pss"
    and whole: "countable_values (map snd (counter_entries kinds (concat pss)))"
    and steps: "distinct (dkeys (sp_steps startup))"
    and rec: "recovery samples controls baseline t stop = Inr rec" and order: "sorted (map clock_of samples)"
    and vd: "verdict_of (with_startup s startup) correct rec v t overload smoke = Inr vd" and pass: "vd_capacity vd = Pass"
  shows "va_isolated v \<and> \<not> smoke \<and> correct
    \<and> (\<forall>(sc, planned) \<in> set plan. \<exists>n. n \<noteq> 0 \<and> (\<forall>k. planned = Some k \<longrightarrow> n = num_rat k)
        \<and> sum_of_points kinds (concat pss) ''phase14_iterations_started'' (Some sc) None None = n
        \<and> sum_of_points kinds (concat pss) ''phase14_iterations_completed'' (Some sc) None None = n)
    \<and> (\<forall>(step, n) \<in> set (sp_steps startup). sum_of_points kinds (concat pss) ''phase14_results'' None (Some step) None = num_rat n)
    \<and> sum_of_points kinds (concat pss) ''dropped_iterations'' None None None = 0
    \<and> (\<forall>cls \<in> {''capacity_rejection'', ''system_error'', ''unexpected_contract''}.
        sum_of_points kinds (concat pss) ''phase14_results'' None None (Some cls) = 0)
    \<and> (\<exists>gap duration deadline. rat_at t [''recovery'', ''continuousSeconds''] = Inr duration
        \<and> rbind (num_at t [''generator'', ''sampleSeconds'']) (\<lambda>n. Inr (num_rat (num_mul n (PInt 2)))) = Inr gap
        \<and> rat_at t [''recovery'', ''queueZeroDeadlineSeconds''] = Inr deadline
        \<and> quiet_stretch stop gap duration (Some deadline) queues_idle samples
        \<and> quiet_stretch stop gap duration None (inflight_idle t baseline) samples
        \<and> quiet_stretch stop gap duration None postgres_idle samples)"
proof -
  from verdict_pass [OF vd pass] have v: "va_isolated v" "\<not> smoke" "correct" "rc_passed rec" "as_errors s = []"
      "snd (startup_check (as_counts s) startup) = []" "bad_results (as_counts s) = []"
    by (auto simp: with_startup_def)
  have cnt: "rows_count (as_counts s) m sc st re = sum_of_points kinds (concat pss) m sc st re" for m sc st re
    by (rule aggregate_count [OF agg kinds points whole])
  from clean_summary(1,3) [OF agg v(5)] have delivered:
      "\<forall>(sc, planned) \<in> set plan. let a = sum_of_points kinds (concat pss) ''phase14_iterations_started'' (Some sc) None None in
           a \<noteq> 0 \<and> a = sum_of_points kinds (concat pss) ''phase14_iterations_completed'' (Some sc) None None
           \<and> (\<forall>n. planned = Some n \<longrightarrow> a = num_rat n)"
      "sum_of_points kinds (concat pss) ''dropped_iterations'' None None None = 0"
    by (simp_all only: cnt)
  from rec v(4) obtain duration gap deadline where w: "rat_at t [''recovery'', ''continuousSeconds''] = Inr duration"
      "rat_at t [''recovery'', ''queueZeroDeadlineSeconds''] = Inr deadline"
      "rbind (num_at t [''generator'', ''sampleSeconds'']) (\<lambda>n. Inr (num_rat (num_mul n (PInt 2)))) = Inr gap"
      "window_scan stop gap duration (Some deadline) queues_idle (None, None) samples = Inr True"
      "window_scan stop gap duration None (inflight_idle t baseline) (None, None) samples = Inr True"
      "window_scan stop gap duration None postgres_idle (None, None) samples = Inr True"
    by (rule recovery_pass)
  note stretch = w(4-6) [THEN window_scan_iff, OF order]
  have "\<forall>(step, n) \<in> set (sp_steps startup). sum_of_points kinds (concat pss) ''phase14_results'' None (Some step) None = num_rat n"
    using startup_delivered [OF v(6) _ steps] by (auto simp: cnt)
  moreover have "\<forall>cls \<in> {''capacity_rejection'', ''system_error'', ''unexpected_contract''}.
        sum_of_points kinds (concat pss) ''phase14_results'' None None (Some cls) = 0"
    using bad_results_count [OF v(7)] by (simp only: cnt) blast
  moreover have "\<forall>(sc, planned) \<in> set plan. \<exists>n. n \<noteq> 0 \<and> (\<forall>k. planned = Some k \<longrightarrow> n = num_rat k)
        \<and> sum_of_points kinds (concat pss) ''phase14_iterations_started'' (Some sc) None None = n
        \<and> sum_of_points kinds (concat pss) ''phase14_iterations_completed'' (Some sc) None None = n"
    using delivered(1) by (auto simp: Let_def)
  ultimately show ?thesis using v(1-3) delivered(2) w(1-3) stretch by blast
qed

section \<open>A small run that passes\<close>

definition run_point :: "string \<Rightarrow> string \<Rightarrow> string \<Rightarrow> json" where
  "run_point m step result = JObj [(''type'', JStr ''Point''), (''metric'', JStr m),
     (''data'', JObj [(''time'', JStr ''2026-09-10T00:00:00Z''), (''value'', JInt 1),
        (''tags'', JObj [(''shard'', JStr ''0''), (''scenario'', JStr ''main''), (''step'', JStr step), (''result'', JStr result)])])]"

definition run_lines :: "(string \<times> json) list" where
  "run_lines = [(''S'', metric_line ''phase14_iterations_started''), (''C'', metric_line ''phase14_iterations_completed''),
     (''D'', JObj [(''type'', JStr ''Metric''), (''metric'', JStr ''phase14_duration_ms''), (''data'', JObj [(''type'', JStr ''trend'')])]),
     (''s'', run_point ''phase14_iterations_started'' [] []), (''c'', run_point ''phase14_iterations_completed'' [] []),
     (''d'', run_point ''phase14_duration_ms'' ''health'' ''business_success'')]"

definition run_parse :: "string \<Rightarrow> json res" where
  "run_parse line = dindex run_lines line"

definition run_shards :: "shard_evidence list" where
  "run_shards = [lab_shard ''0'' [''S'', ''C'', ''D'', ''s'', ''d'', ''c'']]"

definition run_plan :: "(string \<times> num option) list" where
  "run_plan = [(''main'', Some (PInt 1))]"

definition run_kinds :: "string \<Rightarrow> string option" where
  "run_kinds m = Some (if m = ''phase14_duration_ms'' then ''trend'' else ''counter'')"

definition run_targets :: json where
  "run_targets = JObj
    [(''latencyMs'', JObj (map (\<lambda>k. (k, JList [JInt 500, JInt 1000])) [''health'', ''auth'', ''availability''])),
     (''login'', JObj [(''busyLatencyMs'', JList [JInt 1000, JInt 2000])]),
     (''generator'', JObj [(''sampleSeconds'', JInt 1)]),
     (''recovery'', JObj [(''continuousSeconds'', JInt 2), (''queueZeroDeadlineSeconds'', JInt 1), (''inflightIdleAllowance'', JInt 2),
        (''controlWindowSeconds'', JInt 60), (''controlMinSamples'', JInt 1), (''controlBaselineRatio'', JInt 2),
        (''memoryPeakFraction'', JFloat (fl64 (85/100))), (''memoryWindowSeconds'', JInt 1), (''memoryGrowthFraction'', JFloat (fl64 (1/100)))])]"

definition run_sample :: "int \<Rightarrow> json" where
  "run_sample time = JObj ([(''time'', JInt time), (''memoryFraction'', JFloat (1/2)), (''restarted'', JBool False), (''oom'', JBool False)] @
     map (\<lambda>k. (k, JInt 0)) [''transactionWaiters'', ''transactionOldestSeconds'', ''hashQueue'', ''seatQueue'', ''httpInflight'',
       ''redisInflight'', ''pgLockWaits'', ''pgBlocking'', ''pgIdleTransaction'', ''pgIdleAborted''])"

definition run_controls :: "control_point list" where
  "run_controls = map (\<lambda>k. \<lparr>cp_time = 100, cp_ms = 5, cp_step = k, cp_result = ''business_success''\<rparr>) [''health'', ''auth'', ''availability'']"

definition run_baseline :: json where
  "run_baseline = JObj [(''httpIdleMax'', JInt 0), (''redisIdleMax'', JInt 0),
     (''controlP95'', JObj (map (\<lambda>k. (k, JInt 5)) [''health'', ''auth'', ''availability'']))]"

definition run_startup :: startup_plan where
  "run_startup = \<lparr>sp_users = PInt 0, sp_requests = PInt 0, sp_steps = [(''startup_auth'', PInt 0)]\<rparr>"

definition run_validity :: validity where
  "run_validity = \<lparr>va_isolated = True, va_errors = [], va_warnings = []\<rparr>"

definition run_points :: "point list" where
  "run_points = map (\<lambda>(m, step, result). \<lparr>pt_metric = m, pt_value = 1, pt_time = ''2026-09-10T00:00:00Z'', pt_key = (''main'', step, result)\<rparr>)
     [(''phase14_iterations_started'', [], []), (''phase14_duration_ms'', ''health'', ''business_success''),
      (''phase14_iterations_completed'', [], [])]"

lemma run_declares: "list_all (declares_first lab_iso run_parse run_plan None None run_kinds) run_shards"
proof -
  have wd: "well_declared kinds read lines" if "declares_before kinds read [] lines" for kinds read lines
    using declares_before_sound [OF that, of "[]"] by (simp add: well_declared_def)
  have "list_all (\<lambda>ev. case map_res run_parse (se_lines ev) of Inl _ \<Rightarrow> True
      | Inr js \<Rightarrow> declares_before run_kinds (line_point lab_iso (se_shard ev) run_plan None None) [] js) run_shards"
    by code_simp
  then show ?thesis by (auto simp: list_all_iff declares_first_def intro: wd split: sum.splits)
qed

lemma run_shard_points: "map_res (shard_points lab_iso run_parse run_plan None None) run_shards = Inr [run_points]"
  by code_simp

lemma run_whole: "countable_values (map snd (counter_entries run_kinds (concat [run_points])))"
  by (simp add: run_points_def run_kinds_def counter_entries_def entry_def countable_values_def)

definition run_recovered :: recovered where
  "run_recovered = \<lparr>rc_passed = True, rc_errors = [], rc_observed = Some 2\<rparr>"

lemma run_recovery:
  "recovery (map run_sample [100, 101, 102]) run_controls run_baseline run_targets 100 = Inr run_recovered"
  by code_simp

definition run_summary :: agg_summary where
  "run_summary = \<lparr>as_inputs = [(''0'', ''e3'', 4)],
     as_counts = [(''phase14_iterations_completed'', (''main'', [], []), 1), (''phase14_iterations_started'', (''main'', [], []), 1)],
     as_trends = [\<lparr>tr_metric = ''phase14_duration_ms'', tr_key = (''main'', ''health'', ''business_success''), tr_count = 1,
       tr_p50 = 1, tr_p95 = 1, tr_p99 = 1, tr_max = 1\<rparr>],
     as_delivery = [\<lparr>dl_scenario = ''main'', dl_planned = Some (PInt 1), dl_started = 1, dl_completed = 1, dl_interrupted = 0\<rparr>],
     as_dropped = 0, as_errors = [], as_seconds = []\<rparr>"

definition run_state :: agg_state where
  "run_state = \<lparr>ag_types = [(''phase14_iterations_started'', ''counter''), (''phase14_iterations_completed'', ''counter''),
       (''phase14_duration_ms'', ''trend'')],
     ag_counters = [((''phase14_iterations_started'', ''main'', [], []), 1), ((''phase14_iterations_completed'', ''main'', [], []), 1)],
     ag_points = [((''phase14_duration_ms'', ''main'', ''health'', ''business_success''), 1)], ag_windows = [], ag_saw = True\<rparr>"

lemma run_folds: "fold_res (agg_shard lab_iso run_parse run_plan None None) agg_start run_shards = Inr run_state"
  by code_simp

lemma run_parts:
  "trends_of (ag_points run_state) = Inr (as_trends run_summary)"
  "rows_of (ag_counters run_state) = as_counts run_summary"
  "map (delivery_of (as_counts run_summary)) run_plan = as_delivery run_summary"
  "concat (map delivery_errors (as_delivery run_summary)) = []"
  "step_errors (as_counts run_summary) = []"
  "rows_count (as_counts run_summary) ''dropped_iterations'' None None None = 0"
  by code_simp+

lemma run_delivers: "\<forall>p \<in> set run_plan. delivery_errors (delivery_of (as_counts run_summary) p) = []"
  by code_simp

lemma run_aggregate: "aggregate lab_iso run_parse run_shards run_plan None None = Inr run_summary"
  by (simp add: aggregate_def require_def run_folds summary_of_def Let_def run_parts)
    (use run_delivers in \<open>simp add: run_summary_def run_shards_def lab_shard_def run_state_def\<close>)

lemma run_passes:
  "case verdict_of (with_startup run_summary run_startup) True run_recovered run_validity run_targets False False of
     Inr vd \<Rightarrow> vd_capacity vd = Pass | Inl _ \<Rightarrow> False"
  by code_simp

theorem capacity_pass_sound_witness:
  "sum_of_points run_kinds (concat [run_points]) ''phase14_iterations_completed'' (Some ''main'') None None = 1
     \<and> (\<exists>gap duration. quiet_stretch 100 gap duration None postgres_idle (map run_sample [100, 101, 102]))"
proof -
  from run_passes obtain vd where
    vd: "verdict_of (with_startup run_summary run_startup) True run_recovered run_validity run_targets False False = Inr vd"
      "vd_capacity vd = Pass" by (auto split: sum.splits)
  have steps: "distinct (dkeys (sp_steps run_startup))" by (simp add: run_startup_def)
  have order: "sorted (map clock_of (map run_sample [100, 101, 102]))" by code_simp
  note sound = capacity_pass_sound [OF run_aggregate run_declares run_shard_points run_whole steps run_recovery order vd]
  from sound have "\<exists>gap duration. quiet_stretch 100 gap duration None postgres_idle (map run_sample [100, 101, 102])" by blast
  moreover from sound have "sum_of_points run_kinds (concat [run_points]) ''phase14_iterations_completed'' (Some ''main'') None None = 1"
    by (auto simp: run_plan_def)
  ultimately show ?thesis by blast
qed

end
