(* ===== verification/Run_Spec.thy ===== *)
theory Run_Spec
  imports Verdict
begin

text \<open>
  The specification of one run of the phase-14 campaign: \<open>build_spec\<close>, \<open>guard_delivery\<close> and
  \<open>startup_plan\<close> of \<open>performance/scripts/run_phase14.py\<close>, and \<open>probe_budget\<close>, \<open>core_spec\<close>,
  \<open>units\<close> and \<open>arm\<close> of \<open>phase14_core.py\<close>. A scenario of k6 is a value of a
  datatype, one constructor per executor; a duration is the number of seconds in its text, and a
  float where the script formats an integer raises TypeError, as in \<open>Phase14_Model\<close>.
\<close>

section \<open>Fractions and the format \<open>:g\<close>\<close>

definition parse_fraction :: "string \<Rightarrow> rat res" where
  "parse_fraction s = (case split_on CHR ''/'' s of
      [p] \<Rightarrow> rbind (py_int p) (\<lambda>a. Inr (of_int a))
    | [p, q] \<Rightarrow> rbind (py_int p) (\<lambda>a. rbind (py_int q) (\<lambda>b.
        if b = 0 then Inl (Exn ZeroDivisionError ''Fraction'') else Inr (of_int a / of_int b)))
    | _ \<Rightarrow> Inl (Exn ValueError ''Invalid literal for Fraction''))"

lemma nat_str_no_slash: "CHR ''/'' \<notin> set (nat_str n)"
  by (auto dest!: nat_str_digits simp: is_digit_def char_between_def)

lemma int_str_no_slash: "CHR ''/'' \<notin> set (int_str i)"
  by (simp add: int_str_def nat_str_no_slash)

lemma parse_frac_str: "parse_fraction (frac_str x) = Inr x"
proof -
  obtain p q where pq: "quotient_of x = (p, q)" by force
  then have "x = of_int p / of_int q" "0 < q" by (rule quotient_of_div, rule quotient_of_denom_pos)
  moreover have "split_on CHR ''/'' (int_str p @ CHR ''/'' # int_str q) = [int_str p, int_str q]"
    by (simp only: split_on_append [OF int_str_no_slash] split_on_no_sep [OF int_str_no_slash])
  moreover have "py_int (nat_str (nat q)) = Inr q" using \<open>0 < q\<close> py_int_int_str [of q] by simp
  ultimately show ?thesis using pq
    by (simp add: frac_str_def parse_fraction_def split_on_no_sep int_str_no_slash)
qed

text \<open>
  The number that \<open>f'{x:g}'\<close> shows: six significant digits, half to even. The position of the
  first digit is the number of digits of the integer part, for a positive \<open>x\<close> below one that of
  \<open>x * 10 ^ 330\<close>, which is above \<open>10 ^ 6\<close> for every float.
\<close>

definition digits_before :: "rat \<Rightarrow> int" where
  "digits_before x = (if 1 \<le> x then int (length (nat_str (nat \<lfloor>x\<rfloor>)))
     else int (length (nat_str (nat \<lfloor>x * 10 ^ 330\<rfloor>))) - 330)"

definition scale10 :: "int \<Rightarrow> rat \<Rightarrow> rat" where
  "scale10 n x = (if 0 \<le> n then x * 10 ^ nat n else x / 10 ^ nat (- n))"

definition sig6 :: "rat \<Rightarrow> rat" where
  "sig6 x = (if x \<le> 0 then x else let k = 6 - digits_before x in scale10 (- k) (of_int (round_even (scale10 k x))))"

section \<open>Scenarios\<close>

record arrival_rate =
  ar_fn :: string
  ar_rate :: int
  ar_unit :: int
  ar_seconds :: rat
  ar_start :: int
  ar_vus :: int
  ar_max :: "int option"
  ar_grace :: int

record ramping_rate =
  rr_fn :: string
  rr_first :: int
  rr_unit :: int
  rr_stages :: "(int \<times> rat) list"
  rr_start :: int
  rr_vus :: int
  rr_max :: "int option"
  rr_grace :: int

datatype scenario =
    Constant_arrival arrival_rate
  | Ramping_arrival ramping_rate
  | Ramping_vus string "(int \<times> rat) list" int
  | Constant_vus string int rat int
  | Per_vu string int int

record build =
  bu_scenarios :: "(string \<times> scenario) list"
  bu_mapping :: "(string \<times> dict) list"
  bu_plan :: "(string \<times> num option) list"

definition build_start :: build where
  "build_start = \<lparr>bu_scenarios = [], bu_mapping = [], bu_plan = []\<rparr>"

definition add_scenario :: "string \<Rightarrow> scenario \<Rightarrow> dict \<Rightarrow> int option \<Rightarrow> build \<Rightarrow> build" where
  "add_scenario name sc meta planned b = b\<lparr>bu_scenarios := dset (bu_scenarios b) name sc,
     bu_mapping := dset (bu_mapping b) name meta, bu_plan := dset (bu_plan b) name (map_option PInt planned)\<rparr>"

definition arrival_of :: "string \<Rightarrow> rat \<Rightarrow> int \<Rightarrow> int \<Rightarrow> int \<Rightarrow> int \<Rightarrow> arrival_rate" where
  "arrival_of fn amount seconds start vus grace = (let (p, q) = quotient_of (amount / of_int seconds) in
     \<lparr>ar_fn = fn, ar_rate = p, ar_unit = q, ar_seconds = of_int seconds, ar_start = start, ar_vus = vus,
       ar_max = None, ar_grace = grace\<rparr>)"

definition arrival :: "json \<Rightarrow> int \<Rightarrow> string \<Rightarrow> string \<Rightarrow> rat \<Rightarrow> int \<Rightarrow> int \<Rightarrow> dict \<Rightarrow> build \<Rightarrow> build res" where
  "arrival t grace name fn amount seconds start meta b =
     rbind (require (0 < amount \<and> 0 < seconds) ValueError ''invalid arrival schedule'') (\<lambda>_.
     rbind (int_at t [''burst'', ''users'']) (\<lambda>users.
     rbind (int_at t [''generator'', ''maxShards'']) (\<lambda>shards.
     Inr (add_scenario name
       (Constant_arrival (arrival_of fn amount seconds start (min \<lceil>amount\<rceil> users + shards) grace))
       ((''count'', JInt \<lceil>amount\<rceil>) # meta) (Some \<lceil>amount\<rceil>) b))))"

section \<open>The cases\<close>

record spec_args =
  sa_round :: int
  sa_window :: int
  sa_path :: string
  sa_sessions :: int
  sa_control_only :: bool
  sa_u1 :: "int list"
  sa_u2 :: "int list"

definition case_names :: "string list" where
  "case_names = [''G0'', ''U1'', ''U2'', ''J1'', ''O1'', ''H1'', ''H2'', ''H3'', ''L1'', ''L2'', ''S1'']"

definition check_args :: "json \<Rightarrow> string \<Rightarrow> spec_args \<Rightarrow> unit res" where
  "check_args t kase a =
     rbind (require (kase \<in> set case_names) ValueError ''unknown case'') (\<lambda>_.
     rbind (list_at t [''online'', ''rounds'']) (\<lambda>rounds.
     rbind (list_at t [''burst'', ''windowsSeconds'']) (\<lambda>windows.
     rbind (require (0 \<le> sa_round a \<and> sa_round a < int (length rounds) \<and> 0 \<le> sa_window a
         \<and> sa_window a < int (length windows)) ValueError ''invalid round/window'') (\<lambda>_.
     rbind (list_at t [''hotspot'', ''h2SessionCounts'']) (\<lambda>counts.
     require (sa_path a \<in> {''formal'', ''temporary''} \<and> list_ex (py_eq (JInt (sa_sessions a))) (JInt 1 # counts))
       ValueError ''invalid hotspot path/scope'')))))"

definition grace_of :: "json \<Rightarrow> int res" where
  "grace_of t =
     rbind (int_at t [''probes'', ''paymentDeadlineSeconds'']) (\<lambda>deadline.
     rbind (list_at t [''behavior'', ''refreshSeconds'']) (\<lambda>xs. rbind (map_res json_to_int xs) (\<lambda>ns.
     if ns = [] then Inl (Exn ValueError ''max() arg is an empty sequence'') else Inr (deadline + Max (set ns)))))"

text \<open>A case adds its main scenarios and gives the seconds of its load.\<close>

type_synonym case_build = "(build \<times> int) res"

definition spec_noop :: "json \<Rightarrow> int \<Rightarrow> case_build" where
  "spec_noop t grace =
     rbind (list_at t [''burst'', ''windowsSeconds'']) (\<lambda>ws. rbind (rbind (last_item ws) json_to_int) (\<lambda>load.
     rbind (int_at t [''burst'', ''users'']) (\<lambda>users.
     rbind (arrival t grace ''main'' ''control'' (of_int users) load 0 [(''step'', JStr ''health'')] build_start) (\<lambda>b.
     Inr (b, load)))))"

definition plan_end :: "plan_step list \<Rightarrow> plan_step res" where
  "plan_end p = (if p = [] then Inl (Exn IndexError ''list index out of range'') else Inr (last p))"

definition spec_closed :: "plan_step list \<Rightarrow> int \<Rightarrow> case_build" where
  "spec_closed p grace =
     rbind (plan_end p) (\<lambda>x.
     Inr (add_scenario ''main'' (Ramping_vus ''online'' (map (\<lambda>x. (ps_users x, of_int (ps_duration x))) p) grace)
       [(''users'', JInt (ps_users x))] None build_start, ps_start x + ps_duration x))"

definition enter_row :: "json \<Rightarrow> int \<Rightarrow> nat \<times> plan_step \<Rightarrow> build \<Rightarrow> build res" where
  "enter_row t grace row b = (case row of (i, x) \<Rightarrow>
     if ps_enter x = 0 then Inr b
     else arrival t grace (''enter_'' @ nat_str i) ''enter'' (of_int (ps_enter x)) (ps_duration x) (ps_start x)
       [(''offset'', JInt (ps_previous x))] b)"

definition refresh_row :: "json \<Rightarrow> int \<Rightarrow> nat \<times> plan_step \<Rightarrow> build \<Rightarrow> build res" where
  "refresh_row t grace row b = (case row of (i, x) \<Rightarrow>
     rbind (parse_fraction (ps_integral x)) (\<lambda>integral.
     rbind (int_at t [''burst'', ''users'']) (\<lambda>users.
     Inr (add_scenario (''refresh_'' @ nat_str i)
       (Ramping_arrival \<lparr>rr_fn = ''refresh'', rr_first = ps_previous x, rr_unit = ps_time_unit x,
          rr_stages = [(ps_users x, of_int (ps_duration x))], rr_start = ps_start x,
          rr_vus = min users (max 20 (ps_users x div 5)), rr_max = None, rr_grace = grace\<rparr>)
       [(''users'', JInt (ps_users x)), (''count'', JInt \<lceil>integral\<rceil>)] (Some \<lceil>integral\<rceil>) b))))"

definition open_row :: "json \<Rightarrow> int \<Rightarrow> build \<Rightarrow> nat \<times> plan_step \<Rightarrow> build res" where
  "open_row t grace b row = rbind (enter_row t grace row b) (refresh_row t grace row)"

definition spec_open :: "json \<Rightarrow> plan_step list \<Rightarrow> int \<Rightarrow> case_build" where
  "spec_open t p grace =
     rbind (plan_end p) (\<lambda>x.
     rbind (fold_res (open_row t grace) build_start (enumerate 0 p)) (\<lambda>b. Inr (b, ps_start x + ps_duration x)))"

definition spec_burst :: "json \<Rightarrow> spec_args \<Rightarrow> int \<Rightarrow> case_build" where
  "spec_burst t a grace =
     rbind (list_at t [''burst'', ''windowsSeconds'']) (\<lambda>ws. rbind (rbind (item ws (nat (sa_window a))) json_to_int) (\<lambda>load.
     rbind (int_at t [''burst'', ''users'']) (\<lambda>users.
     rbind (arrival t grace ''main'' ''burst'' (of_int users) load 0 [] build_start) (\<lambda>b. Inr (b, load)))))"

definition spec_hotspot :: "json \<Rightarrow> string \<Rightarrow> spec_args \<Rightarrow> int \<Rightarrow> case_build" where
  "spec_hotspot t kase a grace =
     rbind (int_at t [''hotspot'', ''windowSeconds'']) (\<lambda>load. rbind (int_at t [''hotspot'', ''users'']) (\<lambda>n.
     if kase = ''H3'' then Inr (add_scenario ''main'' (Per_vu ''hotspot'' n grace)
       [(''count'', JInt n), (''path'', JStr (sa_path a)), (''sessionCount'', JInt 1)] (Some n) build_start, load)
     else rbind (arrival t grace ''main'' ''hotspot'' (of_int n) load 0
         [(''path'', JStr (sa_path a)), (''sessionCount'', JInt (sa_sessions a))] build_start) (\<lambda>b. Inr (b, load))))"

definition background_row :: "json \<Rightarrow> int \<Rightarrow> int \<Rightarrow> int \<Rightarrow> build \<Rightarrow> string \<times> string \<times> string \<times> string \<Rightarrow> build res" where
  "background_row t grace load users b row = (case row of (name, fn, slice, rate) \<Rightarrow>
     rbind (parse_fraction rate) (\<lambda>r.
     arrival t grace (''background_'' @ name) fn (r * of_int load) load 0
       [(''users'', JInt users), (''slice'', JStr slice)] b))"

definition spec_login :: "json \<Rightarrow> string \<Rightarrow> spec_args \<Rightarrow> int \<Rightarrow> case_build" where
  "spec_login t kase a grace =
     rbind (background t (sa_u1 a) (sa_u2 a)) (\<lambda>bg.
     rbind (list_at t [''login'', ''windowsSeconds'']) (\<lambda>ws.
     rbind (rbind (item ws (if kase = ''L1'' then 0 else 1)) json_to_int) (\<lambda>window.
     rbind (int_at t [''login'', ''backgroundWarmSeconds'']) (\<lambda>warm.
     rbind (int_at t [''login'', ''backgroundRecoverySeconds'']) (\<lambda>rest. let load = warm + window + rest in
     rbind (fold_res (background_row t grace load (bp_users bg)) build_start
       [(''refresh'', ''refresh'', ''background'', bp_refresh bg), (''hold'', ''backgroundHold'', ''backgroundHold'', bp_hold bg),
        (''order'', ''backgroundOrder'', ''backgroundOrder'', bp_order bg)]) (\<lambda>b.
     rbind (if sa_control_only a then Inr b
       else rbind (int_at t [''login'', ''users'']) (\<lambda>n. arrival t grace ''login'' ''login'' (of_int n) window warm [] b)) (\<lambda>b1.
     Inr (b1, load))))))))"

definition spec_soak :: "json \<Rightarrow> spec_args \<Rightarrow> int \<Rightarrow> case_build" where
  "spec_soak t a grace =
     rbind (background t (sa_u1 a) (sa_u2 a)) (\<lambda>bg. rbind (int_at t [''soak'', ''seconds'']) (\<lambda>load.
     Inr (add_scenario ''main'' (Constant_vus ''online'' (bp_users bg) (of_int load) grace)
       [(''users'', JInt (bp_users bg))] None build_start, load)))"

definition main_scenarios :: "json \<Rightarrow> string \<Rightarrow> spec_args \<Rightarrow> int \<Rightarrow> case_build" where
  "main_scenarios t kase a grace =
     (if kase = ''G0'' then spec_noop t grace
      else if kase \<in> {''U1'', ''U2''} then rbind (online_plan t (nat (sa_round a))) (\<lambda>p.
        if kase = ''U1'' then spec_closed p grace else spec_open t p grace)
      else if kase \<in> {''J1'', ''O1''} then spec_burst t a grace
      else if kase \<in> {''H1'', ''H2'', ''H3''} then spec_hotspot t kase a grace
      else if kase \<in> {''L1'', ''L2''} then spec_login t kase a grace
      else spec_soak t a grace)"

definition workload_of :: "string \<Rightarrow> string" where
  "workload_of kase =
     (if kase \<in> {''G0'', ''U1'', ''U2'', ''S1''} then ''phase14-online''
      else if kase \<in> {''J1'', ''O1''} then ''phase14-burst''
      else if kase \<in> {''H1'', ''H2'', ''H3''} then ''phase14-hotspot'' else ''phase14-login-isolation'')"

definition control_row :: "json \<Rightarrow> int \<Rightarrow> int \<Rightarrow> build \<Rightarrow> string \<Rightarrow> build res" where
  "control_row t grace load b step =
     rbind (int_at t [''probes'', ''controlRate'']) (\<lambda>rate. rbind (int_at t [''recovery'', ''observeSeconds'']) (\<lambda>observe.
     arrival t grace (''control_'' @ step) ''control'' (of_int (rate * (load + observe))) (load + observe) 0
       [(''step'', JStr step)] b))"

definition add_probes :: "json \<Rightarrow> string \<Rightarrow> int \<Rightarrow> int \<Rightarrow> build \<Rightarrow> build res" where
  "add_probes t kase grace load b =
     rbind (fold_res (control_row t grace load) b (if kase = ''G0'' then [] else [''health'', ''auth'', ''availability''])) (\<lambda>b1.
     rbind (list_at t [''probes'', ''paymentScenarios'']) (\<lambda>cases.
     if JStr kase \<in> set cases
     then rbind (int_at t [''probes'', ''paymentRate'']) (\<lambda>rate.
       arrival t grace ''payment'' ''payment'' (of_int (rate * load)) load 0 [] b1)
     else Inr b1))"

definition check_payment :: "json \<Rightarrow> (string \<times> dict) list \<Rightarrow> unit res" where
  "check_payment t mapping = (case dget mapping ''payment'' of
      None \<Rightarrow> Inr ()
    | Some m \<Rightarrow>
        rbind (rbind (dindex m ''count'') json_to_int) (\<lambda>count.
        rbind (list_at t [''slices'', ''payment'']) (\<lambda>s.
        rbind (rbind (item s 1) json_to_int) (\<lambda>stop. rbind (rbind (item s 0) json_to_int) (\<lambda>start.
        require (count \<le> stop - start) ValueError ''payment pool exhausted before run'')))))"

section \<open>The guard of the schedulers\<close>

record delivery_window =
  dw_original :: scenario
  dw_seconds :: rat
  dw_guard :: num
  dw_executor :: rat

text \<open>The business curve is kept; the executor stays alive beyond its end.\<close>

definition window_of :: "scenario \<Rightarrow> rat \<Rightarrow> num \<Rightarrow> delivery_window" where
  "window_of sc seconds guard = \<lparr>dw_original = sc, dw_seconds = seconds, dw_guard = guard,
     dw_executor = fl64 (seconds + num_float guard)\<rparr>"

definition guard_scenario :: "num \<Rightarrow> scenario \<Rightarrow> (scenario \<times> delivery_window option) res" where
  "guard_scenario guard sc = (case sc of
      Constant_arrival a \<Rightarrow> let seconds = fl64 (ar_seconds a) in
        Inr (Constant_arrival (a\<lparr>ar_seconds := sig6 (fl64 (seconds + num_float guard))\<rparr>), Some (window_of sc seconds guard))
    | Ramping_arrival r \<Rightarrow> let seconds = foldl (\<lambda>a (_, d). fl64 (a + fl64 d)) 0 (rr_stages r) in
        if rr_stages r = [] then Inl (Exn IndexError ''list index out of range'')
        else Inr (Ramping_arrival (r\<lparr>rr_stages := rr_stages r @ [(fst (last (rr_stages r)), sig6 (num_float guard))]\<rparr>),
          Some (window_of sc seconds guard))
    | _ \<Rightarrow> Inr (sc, None))"

definition guard_delivery ::
  "json \<Rightarrow> (string \<times> scenario) list \<Rightarrow> ((string \<times> scenario) list \<times> (string \<times> delivery_window) list) res" where
  "guard_delivery t scenarios =
     rbind (num_at t [''generator'', ''scheduler_delivery_guard_seconds'']) (\<lambda>guard.
     rbind (map_res (\<lambda>(name, sc). rbind (guard_scenario guard sc) (\<lambda>g. Inr (name, g))) scenarios) (\<lambda>rows.
     Inr (map (\<lambda>(name, sc, w). (name, sc)) rows,
       concat (map (\<lambda>(name, sc, w). case w of None \<Rightarrow> [] | Some d \<Rightarrow> [(name, d)]) rows))))"

section \<open>The page starts a run expects\<close>

definition startup_users :: "string \<Rightarrow> (string \<times> dict) list \<Rightarrow> int res" where
  "startup_users kase mapping =
     (if kase \<in> {''U1'', ''S1''} then rbind (dindex mapping ''main'') (\<lambda>m. rbind (dindex m ''users'') json_to_int)
      else if kase = ''U2'' then rbind (map_res (\<lambda>(_, m). rbind (dindex m ''count'') json_to_int)
        (filter (\<lambda>(k, _). startswith k ''enter_'') mapping)) (\<lambda>ns. Inr (sum_list ns))
      else if kase = ''J1'' then rbind (dindex mapping ''main'') (\<lambda>m. rbind (dindex m ''count'') json_to_int)
      else Inr 0)"

definition startup_plan_of :: "json \<Rightarrow> string \<Rightarrow> (string \<times> dict) list \<Rightarrow> startup_plan res" where
  "startup_plan_of t kase mapping =
     rbind (startup_users kase mapping) (\<lambda>users.
     rbind (num_at t [''pageStartup'', ''requestsPerUser'']) (\<lambda>requests.
     rbind (dict_at t [''pageStartup'', ''stepCounts'']) (\<lambda>counts.
     rbind (map_res (\<lambda>(k, v). rbind (json_to_num v) (\<lambda>n. Inr (k, num_mul n (PInt users)))) counts) (\<lambda>steps.
     Inr \<lparr>sp_users = PInt users, sp_requests = num_mul (PInt users) requests, sp_steps = steps\<rparr>))))"

record run_spec =
  rs_case :: string
  rs_mode :: json
  rs_run_id :: string
  rs_args :: spec_args
  rs_scenarios :: "(string \<times> scenario) list"
  rs_mapping :: "(string \<times> dict) list"
  rs_plan :: "(string \<times> num option) list"
  rs_startup :: startup_plan
  rs_schedule :: "(string \<times> delivery_window) list"
  rs_seconds :: int
  rs_workload :: string

definition build_of :: "json \<Rightarrow> string \<Rightarrow> spec_args \<Rightarrow> (build \<times> int) res" where
  "build_of t kase a =
     rbind (check_args t kase a) (\<lambda>_.
     rbind (grace_of t) (\<lambda>grace.
     rbind (main_scenarios t kase a grace) (\<lambda>(b, load).
     rbind (add_probes t kase grace load b) (\<lambda>b1. Inr (b1, load)))))"

definition build_spec :: "json \<Rightarrow> string \<Rightarrow> string \<Rightarrow> spec_args \<Rightarrow> run_spec res" where
  "build_spec t kase run_id a =
     rbind (build_of t kase a) (\<lambda>(b, load).
     rbind (check_payment t (bu_mapping b)) (\<lambda>_.
     rbind (guard_delivery t (bu_scenarios b)) (\<lambda>(scenarios, schedule).
     rbind (startup_plan_of t kase (bu_mapping b)) (\<lambda>startup.
     rbind (json_index t ''mode'') (\<lambda>mode.
     Inr \<lparr>rs_case = kase, rs_mode = mode, rs_run_id = run_id, rs_args = a, rs_scenarios = scenarios,
       rs_mapping = bu_mapping b, rs_plan = bu_plan b, rs_startup = startup, rs_schedule = schedule,
       rs_seconds = load, rs_workload = workload_of kase\<rparr>)))))"

section \<open>The core campaign\<close>

definition probe_names :: "string list" where
  "probe_names = [''control_health'', ''control_auth'', ''control_availability'', ''payment'']"

record probe =
  pr_rate :: num
  pr_deadline :: num
  pr_vus :: int

definition probe_for :: "json \<Rightarrow> string \<Rightarrow> probe res" where
  "probe_for t name =
     rbind (num_at t [''probes'', ''paymentDeadlineSeconds'']) (\<lambda>deadline.
     rbind (num_at t [''probes'', if name = ''payment'' then ''paymentRate'' else ''controlRate'']) (\<lambda>rate.
     rbind (num_div (num_mul (num_mul rate deadline) (PFloat (3/2))) (PInt 32)) (\<lambda>q.
     Inr \<lparr>pr_rate = rate, pr_deadline = deadline, pr_vus = num_ceil q * 32\<rparr>)))"

definition probe_budget :: "json \<Rightarrow> (string \<times> probe) list res" where
  "probe_budget t = map_res (\<lambda>name. rbind (probe_for t name) (\<lambda>p. Inr (name, p))) probe_names"

definition set_vus :: "int \<Rightarrow> scenario \<Rightarrow> scenario res" where
  "set_vus n sc = (case sc of
      Constant_arrival a \<Rightarrow> Inr (Constant_arrival (a\<lparr>ar_vus := n, ar_max := Some n\<rparr>))
    | Ramping_arrival r \<Rightarrow> Inr (Ramping_arrival (r\<lparr>rr_vus := n, rr_max := Some n\<rparr>))
    | _ \<Rightarrow> Inl (Exn KeyError ''deliverySchedule''))"

definition bound_probe ::
  "(string \<times> probe) list \<Rightarrow> string \<times> scenario \<Rightarrow> (string \<times> scenario) res" where
  "bound_probe budget row = (case row of (name, sc) \<Rightarrow> case dget budget name of
      None \<Rightarrow> Inr (name, sc)
    | Some p \<Rightarrow> rbind (set_vus (pr_vus p) sc) (\<lambda>sc'. Inr (name, sc')))"

definition bound_window :: "(string \<times> probe) list \<Rightarrow> string \<times> delivery_window \<Rightarrow> (string \<times> delivery_window) res" where
  "bound_window budget row = (case row of (name, w) \<Rightarrow>
     rbind (bound_probe budget (name, dw_original w)) (\<lambda>(_, sc). Inr (name, w\<lparr>dw_original := sc\<rparr>)))"

record core_policy =
  co_budget :: "(string \<times> probe) list"
  co_readiness :: num
  co_abort :: int

definition abort_guard_seconds :: int where "abort_guard_seconds = 30"

definition core_spec :: "json \<Rightarrow> string \<Rightarrow> string \<Rightarrow> spec_args \<Rightarrow> (run_spec \<times> core_policy) res" where
  "core_spec t kase run_id a =
     rbind (build_spec t kase run_id a) (\<lambda>spec.
     rbind (probe_budget t) (\<lambda>budget.
     rbind (map_res (bound_probe budget) (rs_scenarios spec)) (\<lambda>scenarios.
     rbind (map_res (bound_window budget) (rs_schedule spec)) (\<lambda>schedule.
     rbind (num_at t [''generator'', ''releaseLeadSeconds'']) (\<lambda>lead.
     Inr (spec\<lparr>rs_scenarios := scenarios, rs_schedule := schedule\<rparr>,
       \<lparr>co_budget = budget, co_readiness = lead, co_abort = abort_guard_seconds\<rparr>))))))"

text \<open>One unit per shard, and one for all probes that has the shard number after the last.\<close>

record load_unit =
  lu_unit :: shard_unit
  lu_probe :: bool

definition units :: "int \<Rightarrow> json \<Rightarrow> string \<Rightarrow> load_unit list res" where
  "units n t kase =
     rbind (num_at t [''generator'', ''maxShards'']) (\<lambda>most.
     rbind (require (\<not> num_less most (PInt (n + 1))) ValueError ''unit label budget exceeded'') (\<lambda>_.
     rbind (segments n t) (\<lambda>rows.
     Inr (map (\<lambda>s. \<lparr>lu_unit = s, lu_probe = False\<rparr>) rows @
       (if kase = ''G0'' then [] else
         [\<lparr>lu_unit = \<lparr>su_shard = int_str n, su_segment = ''0:1'', su_sequence = ''0,1''\<rparr>, lu_probe = True\<rparr>])))))"

text \<open>The deadline of the initialization and the release, in milliseconds.\<close>

definition arm :: "json \<Rightarrow> rat \<Rightarrow> (int \<times> int) res" where
  "arm t now =
     rbind (num_at t [''generator'', ''releaseLeadSeconds'']) (\<lambda>lead.
     let deadline = num_trunc (PFloat (fl64 (fl64 (now + num_float lead) * 1000)))
     in Inr (deadline, deadline + abort_guard_seconds * 1000))"

section \<open>What a specification delivers\<close>

lemma scale10_int: "0 \<le> k \<Longrightarrow> scale10 (- k) (of_int (round_even (scale10 k (of_int m)))) = of_int m"
proof -
  assume k: "0 \<le> k"
  then have "scale10 k (of_int m) = of_int (m * 10 ^ nat k)" by (simp add: scale10_def)
  then have "round_even (scale10 k (of_int m)) = m * 10 ^ nat k" by (simp only: round_even_of_int)
  then show ?thesis using k by (cases "k = 0") (simp_all add: scale10_def)
qed

lemma sig6_small: "0 < m \<Longrightarrow> m < 10 ^ 6 \<Longrightarrow> sig6 (of_int m) = of_int m"
proof -
  assume m: "0 < m" "m < 10 ^ 6"
  then have "nat m < 10 ^ Suc 5" by (simp add: nat_less_iff)
  from length_nat_str_le [OF this] m have "digits_before (of_int m) \<le> 6" by (simp add: digits_before_def)
  then show ?thesis using m scale10_int [of "6 - digits_before (of_int m)" m] by (simp add: sig6_def Let_def)
qed

text \<open>A build delivers: an arrival over its seconds is the planned number, rounded up.\<close>

definition delivers_row :: "build \<Rightarrow> string \<Rightarrow> arrival_rate \<Rightarrow> bool" where
  "delivers_row b name r = (\<exists>n k. 0 < n \<and> 0 < k \<and> ar_seconds r = of_int k
     \<and> dget (bu_plan b) name = Some (Some (PInt n)) \<and> n = \<lceil>of_int (ar_rate r) / of_int (ar_unit r) * of_int k :: rat\<rceil>
     \<and> (\<exists>m. dget (bu_mapping b) name = Some m \<and> dget m ''count'' = Some (JInt n)))"

definition delivers :: "build \<Rightarrow> bool" where
  "delivers b = (distinct (dkeys (bu_scenarios b)) \<and>
     (\<forall>name r. dget (bu_scenarios b) name = Some (Constant_arrival r) \<longrightarrow> delivers_row b name r))"

lemma delivers_start: "delivers build_start"
  by (simp add: delivers_def build_start_def)

lemma delivers_add:
  assumes "delivers b" and "\<And>r. sc = Constant_arrival r \<Longrightarrow> delivers_row (add_scenario name sc meta planned b) name r"
  shows "delivers (add_scenario name sc meta planned b)"
  using assms by (auto simp: delivers_def delivers_row_def add_scenario_def distinct_update)

lemma arrival_delivers:
  assumes "arrival t grace name fn amount seconds start meta b = Inr b'" and "delivers b"
  shows "delivers b'"
proof -
  from assms(1) obtain users shards where pos: "0 < amount" "0 < seconds"
    and b': "b' = add_scenario name (Constant_arrival (arrival_of fn amount seconds start (min \<lceil>amount\<rceil> users + shards) grace))
       ((''count'', JInt \<lceil>amount\<rceil>) # meta) (Some \<lceil>amount\<rceil>) b"
    by (auto simp: arrival_def res_simps)
  obtain p q where pq: "quotient_of (amount / of_int seconds) = (p, q)" by force
  have "amount = amount / of_int seconds * of_int seconds" using pos by simp
  also have "\<dots> = of_int p / of_int q * of_int seconds" by (simp only: quotient_of_div [OF pq])
  finally have "of_int p / of_int q * (of_int seconds :: rat) = amount" by simp
  then show ?thesis unfolding b' using pos
    by (intro delivers_add [OF assms(2)]) (auto simp: arrival_of_def pq delivers_row_def add_scenario_def)
qed

lemma enter_delivers: "enter_row t grace row b = Inr b' \<Longrightarrow> delivers b \<Longrightarrow> delivers b'"
  by (auto simp: enter_row_def split: prod.splits if_splits dest: arrival_delivers)

lemma refresh_delivers: "refresh_row t grace row b = Inr b' \<Longrightarrow> delivers b \<Longrightarrow> delivers b'"
  by (auto simp: refresh_row_def res_simps split: prod.splits intro: delivers_add)

lemma open_delivers: "open_row t grace b row = Inr b' \<Longrightarrow> delivers b \<Longrightarrow> delivers b'"
  by (auto simp: open_row_def res_simps intro: enter_delivers refresh_delivers)

lemma folded_delivers:
  assumes "\<And>b x b'. f b x = Inr b' \<Longrightarrow> delivers b \<Longrightarrow> delivers b'" and "fold_res f b xs = Inr b'" and "delivers b"
  shows "delivers b'"
  using assms(2,3) by (induction xs arbitrary: b) (auto simp: res_simps dest: assms(1))

lemma main_delivers:
  assumes "main_scenarios t kase a grace = Inr (b, secs)"
  shows "delivers b"
proof -
  note start = delivers_start
  have "delivers b" if "spec_noop t grace = Inr (b, secs)"
    using that by (auto simp: spec_noop_def res_simps intro: arrival_delivers start)
  moreover have "delivers b" if "spec_closed p grace = Inr (b, secs)" for p
    using that by (auto simp: spec_closed_def res_simps intro!: delivers_add start)
  moreover have "delivers b" if "spec_open t p grace = Inr (b, secs)" for p
    using that folded_delivers [OF open_delivers _ start] by (auto simp: spec_open_def res_simps simp del: fold_res.simps)
  moreover have "delivers b" if "spec_burst t a grace = Inr (b, secs)"
    using that by (auto simp: spec_burst_def res_simps intro: arrival_delivers start)
  moreover have "delivers b" if "spec_hotspot t kase a grace = Inr (b, secs)"
    using that by (auto simp: spec_hotspot_def res_simps split: if_splits intro: arrival_delivers start intro!: delivers_add)
  moreover have "delivers b" if "spec_login t kase a grace = Inr (b, secs)"
  proof -
    have row: "background_row t grace load users b x = Inr b' \<Longrightarrow> delivers b \<Longrightarrow> delivers b'" for load users b x b'
      by (auto simp: background_row_def res_simps split: prod.splits dest: arrival_delivers)
    from that obtain load users rows b0 where "fold_res (background_row t grace load users) build_start rows = Inr b0"
      and last: "(if sa_control_only a then Inr b0 else rbind (int_at t [''login'', ''users'']) (\<lambda>n. arrival t grace ''login'' ''login''
         (of_int n) (projr (rbind (rbind (list_at t [''login'', ''windowsSeconds'']) (\<lambda>ws. item ws (if kase = ''L1'' then 0 else 1))) json_to_int))
         (projr (int_at t [''login'', ''backgroundWarmSeconds''])) [] b0)) = Inr b"
      by (auto simp: spec_login_def res_simps Let_def simp del: fold_res.simps split: if_splits)
    then have "delivers b0" using folded_delivers row start by blast
    with last show ?thesis by (auto simp: res_simps split: if_splits dest: arrival_delivers)
  qed
  moreover have "delivers b" if "spec_soak t a grace = Inr (b, secs)"
    using that by (auto simp: spec_soak_def res_simps intro!: delivers_add start)
  ultimately show ?thesis using assms by (auto simp: main_scenarios_def res_simps split: if_splits)
qed

lemma build_delivers: "build_of t kase a = Inr (b, load) \<Longrightarrow> delivers b"
proof -
  assume "build_of t kase a = Inr (b, load)"
  then obtain grace b0 where "main_scenarios t kase a grace = Inr (b0, load)" and probes: "add_probes t kase grace load b0 = Inr b"
    by (auto simp: build_of_def res_simps)
  then have "delivers b0" by (blast intro: main_delivers)
  moreover have "delivers b'" if "control_row t grace load b step = Inr b'" "delivers b" for b step b'
    using that by (auto simp: control_row_def res_simps dest: arrival_delivers)
  ultimately show "delivers b" using probes folded_delivers [of "control_row t grace load"]
    by (auto simp: add_probes_def res_simps simp del: fold_res.simps split: if_splits dest: arrival_delivers)
qed

abbreviation guarded_rows :: "(string \<times> scenario \<times> delivery_window option) list \<Rightarrow> (string \<times> delivery_window) list" where
  "guarded_rows rows \<equiv> concat (map (\<lambda>(name, sc, w). case w of None \<Rightarrow> [] | Some d \<Rightarrow> [(name, d)]) rows)"

lemma guarded_row:
  assumes "map_res (\<lambda>(name, sc). rbind (guard_scenario guard sc) (\<lambda>g. Inr (name, g))) scenarios = Inr rows"
    and "distinct (dkeys scenarios)" and "map_of (map (\<lambda>(name, sc, w). (name, sc)) rows) name = Some sc'"
  shows "\<exists>sc w. map_of scenarios name = Some sc \<and> guard_scenario guard sc = Inr (sc', w)
    \<and> map_of (guarded_rows rows) name = w"
  using assms
proof (induction scenarios arbitrary: rows)
  case (Cons x xs)
  obtain k sc where x: "x = (k, sc)" by force
  from Cons.prems(1) x obtain sc1 w rows1 where g: "guard_scenario guard sc = Inr (sc1, w)" and rows: "rows = (k, sc1, w) # rows1"
    and rest: "map_res (\<lambda>(name, sc). rbind (guard_scenario guard sc) (\<lambda>g. Inr (name, g))) xs = Inr rows1"
    by (auto simp: res_simps)
  have "dkeys rows1 = dkeys xs" using rest
    by (induction xs arbitrary: rows1) (auto simp: res_simps split: prod.splits)
  then have "k \<notin> fst ` set rows1" using Cons.prems(2) x by (metis distinct.simps(2) list.simps(9) fst_conv set_map)
  then have new: "map_of (guarded_rows rows1) k = None"
    by (force simp: map_of_eq_None_iff split: option.splits prod.splits)
  show ?case
  proof (cases "name = k")
    case True
    with Cons.prems(3) g new show ?thesis by (auto simp: x rows split: option.splits)
  next
    case False
    with Cons.IH [OF rest] Cons.prems(2,3) show ?thesis by (auto simp: x rows split: option.splits)
  qed
qed simp

lemma fl64_small: "0 \<le> m \<Longrightarrow> m < 10 ^ 6 \<Longrightarrow> fl64 (of_int m) = of_int m"
  using fl64_nat [of "nat m"] by simp

text \<open>
  \textbf{C9.} Every scenario of a specification that has a constant rate of arrivals starts, over the
  whole seconds of its business window, exactly the number of iterations that the plan expects
  (rounded up), and its executor, the guard apart, is the one of the plan: with windows below a
  million seconds it lives exactly the guard longer than the business window.
\<close>

theorem spec_delivers_plan:
  assumes spec: "build_spec t kase run_id a = Inr spec" and sc: "dget (rs_scenarios spec) name = Some (Constant_arrival r)"
    and guard: "num_at t [''generator'', ''scheduler_delivery_guard_seconds''] = Inr (PInt g)" and "0 < g"
  shows "\<exists>n k w b. 0 < n \<and> 0 < k \<and> dget (rs_plan spec) name = Some (Some (PInt n))
    \<and> n = \<lceil>of_int (ar_rate r) / of_int (ar_unit r) * of_int k :: rat\<rceil>
    \<and> dget (rs_schedule spec) name = Some w \<and> dw_original w = Constant_arrival b \<and> r = b\<lparr>ar_seconds := ar_seconds r\<rparr>
    \<and> ar_seconds b = of_int k
    \<and> (k + g < 10 ^ 6 \<longrightarrow> dw_seconds w = of_int k \<and> dw_executor w = of_int (k + g) \<and> ar_seconds r = of_int (k + g))"
proof -
  from spec obtain b load scenarios schedule startup where b: "build_of t kase a = Inr (b, load)"
    and g: "guard_delivery t (bu_scenarios b) = Inr (scenarios, schedule)"
    and spec_eq: "rs_scenarios spec = scenarios" "rs_schedule spec = schedule" "rs_plan spec = bu_plan b"
    by (auto simp: build_spec_def res_simps)
  from build_delivers [OF b] have d: "distinct (dkeys (bu_scenarios b))"
    "\<And>name r. dget (bu_scenarios b) name = Some (Constant_arrival r) \<Longrightarrow> delivers_row b name r"
    by (auto simp: delivers_def)
  from g guard obtain rows where rows: "map_res (\<lambda>(name, sc). rbind (guard_scenario (PInt g) sc) (\<lambda>g. Inr (name, g)))
      (bu_scenarios b) = Inr rows" and out: "scenarios = map (\<lambda>(name, sc, w). (name, sc)) rows" "schedule = guarded_rows rows"
    by (auto simp: guard_delivery_def res_simps)
  from sc have "dget (map (\<lambda>(name, sc, w). (name, sc)) rows) name = Some (Constant_arrival r)" by (simp add: spec_eq out)
  from guarded_row [OF rows d(1) this] obtain sc0 w where sc0: "dget (bu_scenarios b) name = Some sc0"
    "guard_scenario (PInt g) sc0 = Inr (Constant_arrival r, w)" "dget schedule name = w"
    unfolding out(2) by blast
  then obtain r0 where r0: "sc0 = Constant_arrival r0"
    "r = r0\<lparr>ar_seconds := sig6 (fl64 (fl64 (ar_seconds r0) + num_float (PInt g)))\<rparr>"
    "w = Some (window_of (Constant_arrival r0) (fl64 (ar_seconds r0)) (PInt g))"
    by (auto simp: guard_scenario_def Let_def split: scenario.splits if_splits)
  from d(2) [OF sc0(1) [unfolded r0(1)]] obtain n k where nk: "0 < n" "0 < k" "ar_seconds r0 = of_int k"
    "dget (bu_plan b) name = Some (Some (PInt n))" "n = \<lceil>of_int (ar_rate r0) / of_int (ar_unit r0) * of_int k :: rat\<rceil>"
    unfolding delivers_row_def by blast
  have "fl64 (of_int k) = of_int k \<and> fl64 (of_int g) = of_int g \<and> fl64 (of_int k + of_int g) = (of_int (k + g) :: rat)
      \<and> sig6 (of_int (k + g)) = of_int (k + g)" if "k + g < 10 ^ 6"
    using that nk(2) \<open>0 < g\<close> fl64_small [of k] fl64_small [of g] fl64_small [of "k + g"] sig6_small [of "k + g"] by simp
  then show ?thesis using nk r0(2,3) sc0(3) unfolding spec_eq
    by (intro exI [of _ n] exI [of _ k] exI [of _ "window_of (Constant_arrival r0) (fl64 (ar_seconds r0)) (PInt g)"] exI [of _ r0])
      (simp add: window_of_def)
qed

section \<open>The closed and the open form of the online load\<close>

definition enter_rows :: "build \<Rightarrow> (string \<times> dict) list" where
  "enter_rows b = filter (\<lambda>(k, _). startswith k ''enter_'') (bu_mapping b)"

definition enter_counts :: "build \<Rightarrow> int list res" where
  "enter_counts b = map_res (\<lambda>(_, m). rbind (dindex m ''count'') json_to_int) (enter_rows b)"

lemma filter_update_other: "\<not> P k \<Longrightarrow> filter (\<lambda>(k, _). P k) (AList.update k v d) = filter (\<lambda>(k, _). P k) d"
  by (induction d) auto

lemma keys_dset: "set (dkeys (dset d k v)) = insert k (set (dkeys d))"
  by (induction d) auto

lemma update_new_key: "k \<notin> set (dkeys d) \<Longrightarrow> AList.update k v d = d @ [(k, v)]"
  by (induction d) auto

lemma map_res_snoc: "map_res f (xs @ [x]) = rbind (map_res f xs) (\<lambda>ys. rbind (f x) (\<lambda>y. Inr (ys @ [y])))"
  by (induction xs) (simp_all add: rbind_assoc)

lemma arrival_mapping:
  "arrival t grace name fn amount seconds start meta b = Inr b' \<Longrightarrow>
     bu_mapping b' = dset (bu_mapping b) name ((''count'', JInt \<lceil>amount\<rceil>) # meta)"
  by (auto simp: arrival_def res_simps add_scenario_def)

text \<open>The probes leave the rows of the online load alone.\<close>

definition same_online :: "build \<Rightarrow> build \<Rightarrow> bool" where
  "same_online b c = (enter_rows c = enter_rows b \<and> dget (bu_mapping c) ''main'' = dget (bu_mapping b) ''main'')"

lemma arrival_same_online:
  "arrival t grace name fn amount seconds start meta b = Inr b' \<Longrightarrow> \<not> startswith name ''enter_'' \<Longrightarrow> name \<noteq> ''main'' \<Longrightarrow>
     same_online b b'"
  by (auto simp: same_online_def enter_rows_def arrival_mapping filter_update_other)

lemma control_same_online: "control_row t grace load b step = Inr b' \<Longrightarrow> same_online b b'"
  by (auto simp: control_row_def res_simps startswith_def dest!: arrival_same_online)

lemma probes_same_online:
  assumes "add_probes t kase grace load b = Inr b'"
  shows "same_online b b'"
proof -
  have fold: "same_online b c" if "fold_res (control_row t grace load) b xs = Inr c" for c xs
    using that by (induction xs arbitrary: b) (auto simp: res_simps same_online_def dest!: control_same_online)
  have pay: "same_online c d" if "arrival t grace ''payment'' fn amount seconds start meta c = Inr d" for fn amount seconds start meta c d
    using that by (rule arrival_same_online) (simp_all add: startswith_def)
  from assms obtain c where c: "same_online b c" "c = b' \<or> same_online c b'"
    by (auto simp: add_probes_def res_simps simp del: fold_res.simps split: if_splits dest: fold pay)
  then show ?thesis by (auto simp: same_online_def)
qed

definition fresh_from :: "nat \<Rightarrow> build \<Rightarrow> bool" where
  "fresh_from i b = (\<forall>j \<ge> i. ''enter_'' @ nat_str j \<notin> set (dkeys (bu_mapping b)))"

lemma refresh_enter:
  assumes "refresh_row t grace (i, x) b = Inr b'"
  shows "enter_rows b' = enter_rows b" and "fresh_from j b \<Longrightarrow> fresh_from j b'"
  using assms by (auto simp: refresh_row_def res_simps add_scenario_def enter_rows_def fresh_from_def
      filter_update_other startswith_def keys_dset simp del: set_map)

lemma enter_enter:
  assumes "enter_row t grace (i, x) b = Inr b'" and "fresh_from i b" and "enter_counts b = Inr ns"
  shows "enter_counts b' = Inr (ns @ (if ps_enter x = 0 then [] else [ps_enter x]))" and "fresh_from (Suc i) b'"
proof -
  have "''enter_'' @ nat_str i \<notin> set (dkeys (bu_mapping b))" using assms(2) by (simp add: fresh_from_def)
  then have "bu_mapping b' = bu_mapping b @ (if ps_enter x = 0 then [] else
      [(''enter_'' @ nat_str i, [(''count'', JInt (ps_enter x)), (''offset'', JInt (ps_previous x))])])"
    using assms(1) by (auto simp: enter_row_def update_new_key dest!: arrival_mapping split: if_splits)
  then show "enter_counts b' = Inr (ns @ (if ps_enter x = 0 then [] else [ps_enter x]))" and "fresh_from (Suc i) b'"
    using assms(2,3) by (auto simp: enter_counts_def enter_rows_def map_res_snoc dindex_def startswith_def fresh_from_def)
qed

lemma open_enter:
  assumes "fold_res (open_row t grace) b (enumerate i p) = Inr b'" and "fresh_from i b" and "enter_counts b = Inr ns"
  shows "\<exists>ms. enter_counts b' = Inr ms \<and> sum_list ms = sum_list ns + sum_list (map ps_enter p)"
  using assms
proof (induction p arbitrary: i b ns)
  case (Cons x p)
  then obtain d where d: "open_row t grace b (i, x) = Inr d" and rest: "fold_res (open_row t grace) d (enumerate (Suc i) p) = Inr b'"
    by (auto simp: res_simps)
  from d obtain c where cd: "enter_row t grace (i, x) b = Inr c" "refresh_row t grace (i, x) c = Inr d"
    by (auto simp: open_row_def res_simps)
  note e = enter_enter [OF cd(1) Cons.prems(2,3)]
  have "enter_counts d = enter_counts c" using refresh_enter(1) [OF cd(2)] by (simp add: enter_counts_def)
  with Cons.IH [OF rest refresh_enter(2) [OF cd(2) e(2)]] e(1) show ?case by (auto simp: add.assoc)
qed simp

text \<open>The users who enter add up to the population of the last row.\<close>

definition enters_sum :: "int \<times> int \<times> plan_step list \<Rightarrow> bool" where
  "enters_sum st = (case st of (elapsed, previous, plan) \<Rightarrow>
     sum_list (map ps_enter plan) = previous \<and> (plan \<noteq> [] \<longrightarrow> ps_users (last plan) = previous))"

lemma plan_enters:
  assumes "online_plan t r = Inr p" and "p \<noteq> []"
  shows "sum_list (map ps_enter p) = ps_users (last p)"
proof -
  from assms(1) obtain mean stages e n where f: "fold_res (stage_step mean) (0, 0, []) stages = Inr (e, n, p)"
    by (auto simp: online_plan_def res_simps)
  have "enters_sum (e, n, p)"
    by (rule fold_res_invariant [OF f]) (auto simp: enters_sum_def stage_step_def plan_row_def res_simps)
  then show ?thesis using assms(2) by (simp add: enters_sum_def)
qed

lemma closed_users:
  assumes "build_of t ''U1'' a = Inr (b, load)" and "online_plan t (nat (sa_round a)) = Inr p"
  shows "p \<noteq> [] \<and> load = ps_start (last p) + ps_duration (last p) \<and> startup_users ''U1'' (bu_mapping b) = Inr (ps_users (last p))"
proof -
  from assms obtain grace b0 where "spec_closed p grace = Inr (b0, load)" and "add_probes t ''U1'' grace load b0 = Inr b"
    by (auto simp: build_of_def main_scenarios_def res_simps)
  then show ?thesis using probes_same_online
    by (fastforce simp: spec_closed_def plan_end_def res_simps same_online_def add_scenario_def startup_users_def dindex_def
        split: if_splits)
qed

lemma open_users:
  assumes "build_of t ''U2'' a = Inr (b, load)" and "online_plan t (nat (sa_round a)) = Inr p"
  shows "p \<noteq> [] \<and> load = ps_start (last p) + ps_duration (last p) \<and> startup_users ''U2'' (bu_mapping b) = Inr (ps_users (last p))"
proof -
  from assms obtain grace b0 where spec: "spec_open t p grace = Inr (b0, load)" and probes: "add_probes t ''U2'' grace load b0 = Inr b"
    by (auto simp: build_of_def main_scenarios_def res_simps)
  then have p: "p \<noteq> []" "load = ps_start (last p) + ps_duration (last p)"
    and fold: "fold_res (open_row t grace) build_start (enumerate 0 p) = Inr b0"
    by (auto simp: spec_open_def plan_end_def res_simps simp del: fold_res.simps split: if_splits)
  have "fresh_from 0 build_start" "enter_counts build_start = Inr []"
    by (simp_all add: fresh_from_def enter_counts_def enter_rows_def build_start_def)
  from open_enter [OF fold this] obtain ms where "enter_counts b0 = Inr ms" "sum_list ms = ps_users (last p)"
    using plan_enters [OF assms(2) p(1)] by auto
  moreover have "enter_counts b = enter_counts b0"
    using probes_same_online [OF probes] by (simp add: same_online_def enter_counts_def)
  ultimately have "startup_users ''U2'' (bu_mapping b) = Inr (ps_users (last p))"
    by (simp add: startup_users_def enter_counts_def enter_rows_def)
  with p show ?thesis by simp
qed

lemma startup_plan_users: "startup_plan_of t kase m = Inr s \<Longrightarrow> startup_users kase m = Inr u \<Longrightarrow> sp_users s = PInt u"
  by (auto simp: startup_plan_of_def res_simps)

text \<open>
  \textbf{C31.} The closed and the open form of one online round expect the same page starts, those of the
  population that the plan ends with, and last the same number of seconds: the arrivals of the open
  form add up to the population of the closed one.
\<close>

theorem online_forms_agree:
  assumes "build_spec t ''U1'' id1 a = Inr s1" and "build_spec t ''U2'' id2 a = Inr s2"
  shows "rs_startup s1 = rs_startup s2 \<and> rs_seconds s1 = rs_seconds s2
    \<and> (\<exists>p. online_plan t (nat (sa_round a)) = Inr p \<and> p \<noteq> [] \<and> sp_users (rs_startup s2) = PInt (ps_users (last p)))"
proof -
  from assms obtain b1 b2 where b: "build_of t ''U1'' a = Inr (b1, rs_seconds s1)" "build_of t ''U2'' a = Inr (b2, rs_seconds s2)"
    and st: "startup_plan_of t ''U1'' (bu_mapping b1) = Inr (rs_startup s1)" "startup_plan_of t ''U2'' (bu_mapping b2) = Inr (rs_startup s2)"
    by (auto simp: build_spec_def res_simps)
  from b(1) obtain p where p: "online_plan t (nat (sa_round a)) = Inr p"
    by (auto simp: build_of_def main_scenarios_def res_simps)
  note u = closed_users [OF b(1) p] open_users [OF b(2) p]
  have "startup_plan_of t ''U1'' (bu_mapping b1) = startup_plan_of t ''U2'' (bu_mapping b2)"
    using u by (simp add: startup_plan_of_def)
  moreover have "sp_users (rs_startup s2) = PInt (ps_users (last p))"
    using startup_plan_users [OF st(2)] u by blast
  ultimately show ?thesis using u p st by simp
qed

section \<open>Bounded generators, unchanged input\<close>

fun without_vus :: "scenario \<Rightarrow> scenario" where
  "without_vus (Constant_arrival a) = Constant_arrival (a\<lparr>ar_vus := 0, ar_max := None\<rparr>)"
| "without_vus (Ramping_arrival r) = Ramping_arrival (r\<lparr>rr_vus := 0, rr_max := None\<rparr>)"
| "without_vus sc = sc"

fun vu_bounds :: "scenario \<Rightarrow> (int \<times> int option) option" where
  "vu_bounds (Constant_arrival a) = Some (ar_vus a, ar_max a)"
| "vu_bounds (Ramping_arrival r) = Some (rr_vus r, rr_max r)"
| "vu_bounds _ = None"

definition bounded_row :: "(string \<times> probe) list \<Rightarrow> string \<times> scenario \<Rightarrow> string \<times> scenario \<Rightarrow> bool" where
  "bounded_row budget old new = (fst new = fst old \<and> without_vus (snd new) = without_vus (snd old)
     \<and> (case dget budget (fst old) of None \<Rightarrow> snd new = snd old
        | Some p \<Rightarrow> vu_bounds (snd new) = Some (pr_vus p, Some (pr_vus p))))"

lemma bound_probe_row: "bound_probe budget old = Inr new \<Longrightarrow> bounded_row budget old new"
  by (auto simp: bound_probe_def bounded_row_def set_vus_def res_simps split: prod.splits option.splits scenario.splits)

lemma map_res_rel: "map_res f xs = Inr ys \<Longrightarrow> (\<And>x y. f x = Inr y \<Longrightarrow> R x y) \<Longrightarrow> list_all2 R xs ys"
  by (induction xs arbitrary: ys) (auto simp: res_simps)

lemma budget_rows:
  assumes "probe_budget t = Inr budget"
  shows "dkeys budget = probe_names \<and> (\<forall>p \<in> set (map snd budget). 32 dvd pr_vus p)"
  using assms unfolding probe_budget_def probe_names_def by (auto simp: probe_for_def res_simps)


section \<open>A small set of targets\<close>

definition full_targets :: json where
  "full_targets = JObj [(''mode'', JStr ''formal''),
     (''behavior'', JObj [(''browse'', JInt 60), (''hold'', JInt 25), (''order'', JInt 15), (''refreshSeconds'', JList [JInt 30, JInt 90])]),
     (''online'', JObj [(''rounds'', JList [JList [JObj [(''users'', JInt 40), (''rampSeconds'', JInt 60), (''holdSeconds'', JInt 30)]]])]),
     (''burst'', JObj [(''users'', JInt 40), (''windowsSeconds'', JList [JInt 60, JInt 30, JInt 10])]),
     (''hotspot'', JObj [(''users'', JInt 40), (''windowSeconds'', JInt 10), (''h1Repeats'', JInt 1), (''h2SessionCounts'', JList [])]),
     (''login'', JObj [(''users'', JInt 40), (''windowsSeconds'', JList [JInt 60, JInt 10]), (''backgroundWarmSeconds'', JInt 10),
        (''backgroundRecoverySeconds'', JInt 10)]),
     (''expiry'', JObj [(''futureSeconds'', JInt 60), (''maxObserveSeconds'', JInt 120)]),
     (''soak'', JObj [(''seconds'', JInt 60)]),
     (''probes'', JObj [(''controlRate'', JInt 2), (''paymentRate'', JInt 2), (''paymentDeadlineSeconds'', JInt 30),
        (''paymentScenarios'', JList [])]),
     (''recovery'', JObj [(''observeSeconds'', JInt 90)]),
     (''generator'', JObj [(''scheduler_delivery_guard_seconds'', JInt 2), (''maxShards'', JInt 16), (''releaseLeadSeconds'', JInt 60)]),
     (''pageStartup'', JObj [(''stepCounts'', JObj [(''startup_auth'', JInt 2)]), (''requestsPerUser'', JInt 2)])]"

lemma full_lookups:
  "int_at full_targets [''burst'', ''users''] = Inr 40"
  "int_at full_targets [''generator'', ''maxShards''] = Inr 16"
  "num_at full_targets [''generator'', ''scheduler_delivery_guard_seconds''] = Inr (PInt 2)"
  "list_at full_targets [''online'', ''rounds''] = Inr [JList [JObj [(''users'', JInt 40), (''rampSeconds'', JInt 60), (''holdSeconds'', JInt 30)]]]"
  "list_at full_targets [''burst'', ''windowsSeconds''] = Inr [JInt 60, JInt 30, JInt 10]"
  "list_at full_targets [''hotspot'', ''h2SessionCounts''] = Inr []"
  "int_at full_targets [''hotspot'', ''h1Repeats''] = Inr 1"
  "int_at full_targets [''hotspot'', ''windowSeconds''] = Inr 10"
  "int_at full_targets [''hotspot'', ''users''] = Inr 40"
  "list_at full_targets [''login'', ''windowsSeconds''] = Inr [JInt 60, JInt 10]"
  "int_at full_targets [''login'', ''users''] = Inr 40"
  "int_at full_targets [''login'', ''backgroundWarmSeconds''] = Inr 10"
  "int_at full_targets [''login'', ''backgroundRecoverySeconds''] = Inr 10"
  "int_at full_targets [''expiry'', ''futureSeconds''] = Inr 60"
  "int_at full_targets [''expiry'', ''maxObserveSeconds''] = Inr 120"
  "int_at full_targets [''soak'', ''seconds''] = Inr 60"
  "int_at full_targets [''probes'', ''controlRate''] = Inr 2"
  "int_at full_targets [''probes'', ''paymentDeadlineSeconds''] = Inr 30"
  "list_at full_targets [''probes'', ''paymentScenarios''] = Inr []"
  "int_at full_targets [''recovery'', ''observeSeconds''] = Inr 90"
  "num_at full_targets [''pageStartup'', ''requestsPerUser''] = Inr (PInt 2)"
  "dict_at full_targets [''pageStartup'', ''stepCounts''] = Inr [(''startup_auth'', JInt 2)]"
  "list_at full_targets [''behavior'', ''refreshSeconds''] = Inr [JInt 30, JInt 90]"
  "int_at full_targets [''behavior'', ''hold''] = Inr 25"
  "int_at full_targets [''behavior'', ''order''] = Inr 15"
  "json_index full_targets ''mode'' = Inr (JStr ''formal'')"
  "int_at full_targets [''generator'', ''scheduler_delivery_guard_seconds''] = Inr 2"
  "int_at full_targets [''generator'', ''releaseLeadSeconds''] = Inr 60"
  "num_at full_targets [''generator'', ''releaseLeadSeconds''] = Inr (PInt 60)"
  "num_at full_targets [''probes'', ''paymentDeadlineSeconds''] = Inr (PInt 30)"
  "num_at full_targets [''probes'', ''controlRate''] = Inr (PInt 2)"
  "num_at full_targets [''probes'', ''paymentRate''] = Inr (PInt 2)"
  by code_simp+

lemma stage_lookups:
  "int_at (JObj [(''users'', JInt n), (''rampSeconds'', JInt r), (''holdSeconds'', JInt h)]) [''users''] = Inr n"
  "int_at (JObj [(''users'', JInt n), (''rampSeconds'', JInt r), (''holdSeconds'', JInt h)]) [''rampSeconds''] = Inr r"
  "int_at (JObj [(''users'', JInt n), (''rampSeconds'', JInt r), (''holdSeconds'', JInt h)]) [''holdSeconds''] = Inr h"
  by (simp_all add: int_at_def dindex_def)

lemmas spec_defs = build_spec_def build_of_def check_args_def grace_of_def main_scenarios_def add_probes_def control_row_def
  arrival_def add_scenario_def arrival_of_def guard_delivery_def guard_scenario_def startup_plan_of_def startup_users_def
  check_payment_def case_names_def build_start_def window_of_def item_def last_item_def dindex_def stage_lookups

lemmas online_defs = online_plan_def refresh_sum_def stage_step_def plan_row_def plan_end_def spec_closed_def spec_open_def
  open_row_def enter_row_def refresh_row_def parse_frac_str startswith_def

lemmas background_defs = spec_login_def spec_soak_def background_row_def parse_frac_str background_def background_users_def
  final_stage_def first_rate_def zero_div_def refresh_sum_def

lemmas probe_defs = core_spec_def probe_budget_def probe_names_def probe_for_def bound_probe_def bound_window_def set_vus_def

definition first_round :: spec_args where
  "first_round = \<lparr>sa_round = 0, sa_window = 0, sa_path = ''formal'', sa_sessions = 1, sa_control_only = False, sa_u1 = [], sa_u2 = []\<rparr>"

lemma closed_spec: "\<exists>s. build_spec full_targets ''U1'' ''a'' first_round = Inr s"
  by (simp add: first_round_def spec_defs online_defs full_lookups require_def Let_def prod.case_eq_if)

lemma two_per_second: "quotient_of 2 = (2, 1)"
  by code_simp

lemma open_spec:
  "\<exists>s r. build_spec full_targets ''U2'' ''b'' first_round = Inr s
     \<and> dget (rs_scenarios s) ''control_health'' = Some (Constant_arrival r) \<and> ar_rate r = 2 \<and> ar_unit r = 1"
  by (simp add: first_round_def spec_defs online_defs full_lookups require_def Let_def prod.case_eq_if two_per_second)

theorem spec_delivers_plan_witness:
  "\<exists>s n k. build_spec full_targets ''U2'' ''b'' first_round = Inr s \<and> dget (rs_plan s) ''control_health'' = Some (Some (PInt n))
     \<and> 0 < k \<and> n = 2 * k"
proof -
  from open_spec obtain s r where s: "build_spec full_targets ''U2'' ''b'' first_round = Inr s"
    "dget (rs_scenarios s) ''control_health'' = Some (Constant_arrival r)" and r: "ar_rate r = 2" "ar_unit r = 1" by blast
  have "\<lceil>of_int 2 / of_int 1 * of_int k :: rat\<rceil> = 2 * k" for k :: int
    using ceiling_of_int [of "2 * k", where 'a = rat] by simp
  with spec_delivers_plan [OF s full_lookups(3)] s(1) r show ?thesis by auto
qed

theorem online_forms_agree_witness:
  "\<exists>s1 s2. build_spec full_targets ''U1'' ''a'' first_round = Inr s1 \<and> build_spec full_targets ''U2'' ''b'' first_round = Inr s2
     \<and> rs_startup s1 = rs_startup s2"
  using closed_spec open_spec online_forms_agree by blast


end
