(* ===== verification/Campaign.thy ===== *)
theory Campaign
  imports Run_Spec
begin

text \<open>
  The order in which the runs of phase 14 are made: \<open>jobs\<close>, \<open>plan\<close>, \<open>campaign\<close> and \<open>run_g0\<close> of
  \<open>performance/scripts/phase14_campaign.py\<close>, and \<open>core_jobs\<close>, \<open>core_plan\<close>, \<open>campaign\<close> and
  \<open>init_pair\<close> of \<open>phase14_core.py\<close>. What one executed case leaves behind (its exit code, verdict,
  reconciliation and login window) is asked of a function of its position, its job and the passed
  user counts, the state of the hosts being outside; so are the clock, the hashes of evidence and
  the qualification of a child. Names and hashes of result directories are left out of a ledger.
\<close>

section \<open>Jobs\<close>

type_synonym job = "string \<times> dict"

definition indexed_jobs :: "string list \<Rightarrow> string \<Rightarrow> nat \<Rightarrow> job list" where
  "indexed_jobs cases key n = concat (map (\<lambda>c. map (\<lambda>i. (c, [(key, JInt (int i))])) [0..<n]) cases)"

definition jobs :: "json \<Rightarrow> bool \<Rightarrow> job list res" where
  "jobs t smoke =
     rbind (list_at t [''online'', ''rounds'']) (\<lambda>rounds.
     rbind (list_at t [''burst'', ''windowsSeconds'']) (\<lambda>windows.
     rbind (int_at t [''hotspot'', ''h1Repeats'']) (\<lambda>repeats.
     rbind (list_at t [''hotspot'', ''h2SessionCounts'']) (\<lambda>counts.
     Inr ((if smoke then [(''G0'', [])] else []) @
       indexed_jobs [''U1'', ''U2''] ''round'' (length rounds) @
       indexed_jobs [''J1'', ''O1''] ''window'' (length windows) @
       [(''E1'', [])] @
       concat (map (\<lambda>p. map (\<lambda>r. (''H1'', [(''path'', JStr p), (''repeat'', JInt r)])) [0..repeats - 1])
         [''temporary'', ''formal'']) @
       map (\<lambda>n. (''H2'', [(''session_count'', n)])) counts @
       map (\<lambda>p. (''H3'', [(''path'', JStr p)])) [''temporary'', ''formal''] @
       concat (map (\<lambda>c. map (\<lambda>k. (c, [(''control_only'', JBool k)])) [True, False]) [''L1'', ''L2'']) @
       [(''S1'', [])])))))"

definition args_of :: "int \<Rightarrow> dict \<Rightarrow> spec_args res" where
  "args_of n d =
     rbind (json_to_int (dget_or d ''round'' (JInt 0))) (\<lambda>r.
     rbind (json_to_int (dget_or d ''window'' (JInt 0))) (\<lambda>w.
     rbind (json_to_str (dget_or d ''path'' (JStr ''formal''))) (\<lambda>p.
     rbind (json_to_int (dget_or d ''session_count'' (JInt 1))) (\<lambda>k.
     Inr \<lparr>sa_round = r, sa_window = w, sa_path = p, sa_sessions = k,
       sa_control_only = truthy (dget_or d ''control_only'' (JBool False)), sa_u1 = [n], sa_u2 = [n]\<rparr>))))"

text \<open>The upper bound of the seconds of a job's own load.\<close>

definition job_seconds :: "json \<Rightarrow> job \<Rightarrow> int res" where
  "job_seconds t job = (case job of (kase, d) \<Rightarrow>
     if kase = ''E1''
     then rbind (int_at t [''expiry'', ''futureSeconds'']) (\<lambda>a. rbind (int_at t [''expiry'', ''maxObserveSeconds'']) (\<lambda>b. Inr (a + b)))
     else rbind (int_at t [''burst'', ''users'']) (\<lambda>n. rbind (args_of n d) (\<lambda>a.
       rbind (build_spec t kase ''planned'' a) (\<lambda>s. Inr (rs_seconds s)))))"

record campaign_plan =
  pl_jobs :: "(job \<times> int) list"
  pl_business :: int
  pl_scheduled :: int

definition max_refresh :: "json \<Rightarrow> int res" where
  "max_refresh t = rbind (list_at t [''behavior'', ''refreshSeconds'']) (\<lambda>xs. rbind (map_res json_to_int xs) (\<lambda>ns.
     if ns = [] then Inl (Exn ValueError ''max() arg is an empty sequence'') else Inr (Max (set ns))))"

definition job_overhead :: "json \<Rightarrow> int res" where
  "job_overhead t =
     rbind (map_res (int_at t) [[''generator'', ''releaseLeadSeconds''], [''recovery'', ''observeSeconds''],
       [''probes'', ''paymentDeadlineSeconds''], [''generator'', ''scheduler_delivery_guard_seconds'']]) (\<lambda>ns.
     rbind (max_refresh t) (\<lambda>m. Inr (sum_list ns + m)))"

definition plan_of :: "json \<Rightarrow> bool \<Rightarrow> campaign_plan res" where
  "plan_of t smoke =
     rbind (jobs t smoke) (\<lambda>js.
     rbind (map_res (\<lambda>j. rbind (job_seconds t j) (\<lambda>s. Inr (j, s))) js) (\<lambda>rows.
     rbind (job_overhead t) (\<lambda>overhead. let business = sum_list (map snd rows) in
     Inr \<lparr>pl_jobs = rows, pl_business = business,
       pl_scheduled = business + int (length (filter (\<lambda>((k, _), _). k \<noteq> ''E1'') rows)) * overhead\<rparr>)))"

definition core_jobs :: "job list" where
  "core_jobs = [(''U1'', [(''round'', JInt 0)]), (''U2'', [(''round'', JInt 0)])] @ indexed_jobs [''O1''] ''window'' 3 @
     [(''H1'', [(''path'', JStr ''temporary''), (''repeat'', JInt 0)]), (''H1'', [(''path'', JStr ''formal''), (''repeat'', JInt 0)]),
      (''H3'', [(''path'', JStr ''formal'')]), (''L2'', [(''control_only'', JBool True)]), (''L2'', [(''control_only'', JBool False)])]"

definition same_job :: "job \<Rightarrow> job \<Rightarrow> bool" where
  "same_job a b = (fst a = fst b \<and> py_eq (JObj (snd a)) (JObj (snd b)))"

definition core_row :: "json \<Rightarrow> campaign_plan \<Rightarrow> job \<Rightarrow> (job \<times> int) res" where
  "core_row t old job = (case List.find (\<lambda>(j, _). same_job j job) (pl_jobs old) of
      None \<Rightarrow> Inl (Exn StopIteration [])
    | Some row \<Rightarrow> rbind (int_at t [''burst'', ''users'']) (\<lambda>n. rbind (args_of n (snd job)) (\<lambda>a.
        rbind (core_spec t (fst job) ''planned'' a) (\<lambda>_. Inr row))))"

definition core_plan :: "json \<Rightarrow> campaign_plan res" where
  "core_plan t =
     rbind (plan_of t False) (\<lambda>old.
     rbind (map_res (core_row t old) core_jobs) (\<lambda>rows.
     rbind (job_overhead t) (\<lambda>overhead. let business = sum_list (map snd rows) in
     Inr \<lparr>pl_jobs = rows, pl_business = business,
       pl_scheduled = business + int (length rows) * (overhead + abort_guard_seconds)\<rparr>)))"

section \<open>What a case leaves\<close>

record trial =
  tr_code :: int
  tr_verdict :: verdict
  tr_correct :: bool
  tr_window :: "agg_summary res"

definition trial_valid :: "trial \<Rightarrow> bool" where
  "trial_valid tr = (vd_reasons (tr_verdict tr) = [])"

definition trial_status :: "string \<Rightarrow> trial \<Rightarrow> status" where
  "trial_status kase tr = (if kase \<in> {''L1'', ''L2''} then vd_overload (tr_verdict tr) else vd_capacity (tr_verdict tr))"

definition control_only :: "dict \<Rightarrow> bool" where
  "control_only d = truthy (dget_or d ''control_only'' (JBool False))"

section \<open>The campaign and its ledger\<close>

record ledger_entry =
  en_job :: job
  en_passed :: bool

record campaign_state =
  cs_ledger :: "ledger_entry list"
  cs_controls :: "(string \<times> agg_summary res) list"
  cs_u1 :: "int list"
  cs_u2 :: "int list"

definition campaign_start :: campaign_state where
  "campaign_start = \<lparr>cs_ledger = [], cs_controls = [], cs_u1 = [], cs_u2 = []\<rparr>"

text \<open>The window of a login run is compared with that of its control run.\<close>

definition compare_login ::
  "json \<Rightarrow> (string \<times> agg_summary res) list \<Rightarrow> string \<Rightarrow> agg_summary res \<Rightarrow> status res" where
  "compare_login t controls kase window =
     rbind (dindex controls kase) (\<lambda>control. rbind control (\<lambda>base. rbind window (compare_background t base)))"

definition judge_job ::
  "json \<Rightarrow> bool \<Rightarrow> (string \<times> agg_summary res) list \<Rightarrow> job \<Rightarrow> trial \<Rightarrow> ((string \<times> agg_summary res) list \<times> bool) res" where
  "judge_job t smoke controls job tr = (case job of (kase, d) \<Rightarrow>
     let ok = (tr_code tr = 0) in
     rbind (if kase \<notin> {''L1'', ''L2''} then Inr (controls, ok)
       else if control_only d then Inr (dset controls kase (tr_window tr), ok)
       else if \<not> ok then Inr (controls, ok)
       else rbind (compare_login t controls kase (tr_window tr)) (\<lambda>status.
         Inr (controls, smoke \<or> status = Pass))) (\<lambda>(controls1, ok1).
     Inr (controls1, if smoke \<or> kase = ''E1'' then ok1 else ok1 \<and> trial_valid tr \<and> trial_status kase tr = Pass)))"

definition note_passed :: "json \<Rightarrow> job \<Rightarrow> campaign_state \<Rightarrow> campaign_state res" where
  "note_passed t job st =
     (if fst job \<notin> {''U1'', ''U2''} then Inr st
      else rbind (int_at t [''burst'', ''users'']) (\<lambda>n.
        Inr (if fst job = ''U1'' then st\<lparr>cs_u1 := cs_u1 st @ [n]\<rparr> else st\<lparr>cs_u2 := cs_u2 st @ [n]\<rparr>)))"

definition campaign_job ::
  "json \<Rightarrow> bool \<Rightarrow> (nat \<Rightarrow> unit res) \<Rightarrow> (nat \<Rightarrow> job \<Rightarrow> int list \<Rightarrow> int list \<Rightarrow> trial res) \<Rightarrow>
    campaign_state \<Rightarrow> nat \<times> job \<Rightarrow> (campaign_state \<times> bool) res" where
  "campaign_job t smoke qualified run st row = (case row of (i, job) \<Rightarrow>
     rbind (if smoke then Inr () else qualified i) (\<lambda>_.
     rbind (run i job (cs_u1 st) (cs_u2 st)) (\<lambda>tr.
     rbind (judge_job t smoke (cs_controls st) job tr) (\<lambda>(controls, ok).
     let st1 = st\<lparr>cs_ledger := cs_ledger st @ [\<lparr>en_job = job, en_passed = ok\<rparr>], cs_controls := controls\<rparr> in
     if \<not> ok then Inr (st1, False)
     else rbind (note_passed t job st1) (\<lambda>st2. Inr (st2, True))))))"

fun campaign_run ::
  "json \<Rightarrow> bool \<Rightarrow> (nat \<Rightarrow> unit res) \<Rightarrow> (nat \<Rightarrow> job \<Rightarrow> int list \<Rightarrow> int list \<Rightarrow> trial res) \<Rightarrow>
    campaign_state \<Rightarrow> (nat \<times> job) list \<Rightarrow> (campaign_state \<times> int) res" where
  "campaign_run t smoke qualified run st [] = Inr (st, 0)"
| "campaign_run t smoke qualified run st (row # rows) =
     rbind (campaign_job t smoke qualified run st row) (\<lambda>(st1, ok).
     if ok then campaign_run t smoke qualified run st1 rows else Inr (st1, 1))"

text \<open>A checkpoint is taken up to its first run that did not pass.\<close>

record checkpoint =
  cp_entry :: ledger_entry
  cp_evidence :: "unit res"
  cp_window :: "agg_summary res"

fun resume_from :: "json \<Rightarrow> job list \<Rightarrow> campaign_state \<Rightarrow> checkpoint list \<Rightarrow> campaign_state res" where
  "resume_from t js st [] = Inr st"
| "resume_from t js st (c # cs) =
     (let e = cp_entry c; job = en_job e; i = length (cs_ledger st) in
      if \<not> en_passed e then Inr st
      else if length js \<le> i then Inl (Exn IndexError ''list index out of range'')
      else rbind (require (same_job job (js ! i)) ValueError ''checkpoint job mismatch'') (\<lambda>_.
        rbind (cp_evidence c) (\<lambda>_.
        rbind (note_passed t job (st\<lparr>cs_ledger := cs_ledger st @ [e],
          cs_controls := (if fst job \<in> {''L1'', ''L2''} \<and> control_only (snd job)
            then dset (cs_controls st) (fst job) (cp_window c) else cs_controls st)\<rparr>)) (\<lambda>st1.
        resume_from t js st1 cs))))"

definition campaign ::
  "json \<Rightarrow> bool \<Rightarrow> unit res \<Rightarrow> (nat \<Rightarrow> unit res) \<Rightarrow> (nat \<Rightarrow> job \<Rightarrow> int list \<Rightarrow> int list \<Rightarrow> trial res) \<Rightarrow>
    (bool \<times> checkpoint list) option \<Rightarrow> (campaign_state \<times> int) res" where
  "campaign t smoke qualification qualified run old =
     rbind (if smoke then Inr () else qualification) (\<lambda>_.
     rbind (jobs t smoke) (\<lambda>js.
     rbind (case old of None \<Rightarrow> Inr campaign_start
       | Some (same, cs) \<Rightarrow> rbind (require same ValueError ''checkpoint identity mismatch'') (\<lambda>_.
           resume_from t js campaign_start cs)) (\<lambda>st.
     rbind (plan_of t smoke) (\<lambda>_.
     campaign_run t smoke qualified run st (drop (length (cs_ledger st)) (enumerate 0 js))))))"

section \<open>The core campaign\<close>

datatype run_status = Passed | Valid_failure | Invalid_measurement | Not_run

record core_entry =
  ce_index :: nat
  ce_job :: job
  ce_status :: run_status
  ce_reason :: "string option"

record core_state =
  cc_ledger :: "core_entry list"
  cc_families :: "string list"
  cc_controls :: "(string \<times> agg_summary res) list"
  cc_u1 :: "int list"
  cc_u2 :: "int list"
  cc_stop :: "string option"

definition core_start :: core_state where
  "core_start = \<lparr>cc_ledger = [], cc_families = [], cc_controls = [], cc_u1 = [], cc_u2 = [], cc_stop = None\<rparr>"

text \<open>
  What the campaign asks of the outside: the clock before each job, the deadline of the work, the
  run of a case (with its qualification), and the stop of the generators after an exception.
\<close>

record core_world =
  cw_now :: "nat \<Rightarrow> rat"
  cw_deadline :: rat
  cw_run :: "nat \<Rightarrow> job \<Rightarrow> int list \<Rightarrow> int list \<Rightarrow> trial res"
  cw_halt :: "nat \<Rightarrow> unit res"

definition job_estimate :: "job \<Rightarrow> int \<Rightarrow> int" where
  "job_estimate job seconds = (if fst job = ''L2'' \<and> control_only (snd job) then (seconds + 1080) * 2 else seconds + 1080)"

definition out_of_time :: "core_world \<Rightarrow> nat \<Rightarrow> job \<Rightarrow> int \<Rightarrow> bool" where
  "out_of_time w i job seconds = (cw_deadline w \<le> cw_now w i + of_int (job_estimate job seconds))"

definition first_some :: "'a option \<Rightarrow> 'a option \<Rightarrow> 'a option" where
  "first_some a b = (case a of None \<Rightarrow> b | Some _ \<Rightarrow> a)"

definition skip_reason :: "core_state \<Rightarrow> string \<Rightarrow> string option" where
  "skip_reason st kase = first_some (cc_stop st)
     (first_some (if kase \<in> set (cc_families st) then Some ''family stopped after valid failure'' else None)
       (if kase = ''L2'' \<and> (cc_u1 st = [] \<or> cc_u2 st = [])
        then Some ''frozen 10000-user background prerequisite not established'' else None))"

definition add_core :: "nat \<Rightarrow> job \<Rightarrow> run_status \<Rightarrow> string option \<Rightarrow> core_state \<Rightarrow> core_state" where
  "add_core i job status reason st =
     st\<lparr>cc_ledger := cc_ledger st @ [\<lparr>ce_index = i, ce_job = job, ce_status = status, ce_reason = reason\<rparr>]\<rparr>"

text \<open>The judgement of a run that returned: the controls after it, and whether it is good.\<close>

definition judge_core :: "json \<Rightarrow> (string \<times> agg_summary res) list \<Rightarrow> job \<Rightarrow> trial \<Rightarrow>
    ((string \<times> agg_summary res) list \<times> bool) res" where
  "judge_core t controls job tr = (case job of (kase, d) \<Rightarrow>
     let good = (tr_code tr = 0 \<and> trial_valid tr \<and> trial_status kase tr = Pass) in
     if kase \<noteq> ''L2'' then Inr (controls, good)
     else if control_only d then Inr (dset controls kase (tr_window tr), good)
     else if \<not> trial_valid tr then Inr (controls, good)
     else rbind (compare_login t controls kase (tr_window tr)) (\<lambda>status. Inr (controls, good \<and> status = Pass)))"

definition note_core :: "json \<Rightarrow> job \<Rightarrow> trial \<Rightarrow> bool \<Rightarrow> core_state \<Rightarrow> core_state res" where
  "note_core t job tr good st =
     (let st1 = (if \<not> tr_correct tr then st\<lparr>cc_stop := Some ''data reconciliation failed; stop all tests''\<rparr>
         else if \<not> trial_valid tr then st\<lparr>cc_stop := Some ''invalid measurement; preserve evidence before any new method''\<rparr>
         else if \<not> good then st\<lparr>cc_families := List.insert (fst job) (cc_families st)\<rparr> else st) in
      if good \<and> fst job \<in> {''U1'', ''U2''}
      then rbind (int_at t [''burst'', ''users'']) (\<lambda>n.
        Inr (if fst job = ''U1'' then st1\<lparr>cc_u1 := [n]\<rparr> else st1\<lparr>cc_u2 := [n]\<rparr>))
      else Inr st1)"

definition attempt :: "json \<Rightarrow> core_world \<Rightarrow> core_state \<Rightarrow> nat \<Rightarrow> job \<Rightarrow> (core_state \<times> run_status) res" where
  "attempt t w st i job =
     rbind (cw_run w i job (cc_u1 st) (cc_u2 st)) (\<lambda>tr.
     rbind (judge_core t (cc_controls st) job tr) (\<lambda>(controls, good).
     rbind (note_core t job tr good (st\<lparr>cc_controls := controls\<rparr>)) (\<lambda>st1.
     Inr (st1, if good then Passed else if trial_valid tr then Valid_failure else Invalid_measurement))))"

definition core_job :: "json \<Rightarrow> core_world \<Rightarrow> core_state \<Rightarrow> nat \<times> job \<times> int \<Rightarrow> core_state res" where
  "core_job t w st row = (case row of (i, job, seconds) \<Rightarrow>
     let st0 = (if out_of_time w i job seconds
       then st\<lparr>cc_stop := first_some (cc_stop st) (Some ''four-hour work budget; reserve cleanup time'')\<rparr> else st) in
     case skip_reason st0 (fst job) of
       Some reason \<Rightarrow> Inr (add_core i job Not_run (Some reason) st0)
     | None \<Rightarrow> (case attempt t w st0 i job of
           Inr (st1, status) \<Rightarrow> Inr (add_core i job status None st1)
         | Inl e \<Rightarrow> if \<not> is_exception e then Inl e
             else rbind (cw_halt w i) (\<lambda>_.
               Inr (add_core i job Invalid_measurement None (st0\<lparr>cc_stop := Some (exn_msg e)\<rparr>)))))"

definition core_campaign :: "json \<Rightarrow> unit res \<Rightarrow> core_world \<Rightarrow> (core_state \<times> int) res" where
  "core_campaign t qualification w =
     rbind (require (cw_deadline w \<noteq> 0) ValueError ''core campaign requires wall-clock deadline'') (\<lambda>_.
     rbind qualification (\<lambda>_.
     rbind (core_plan t) (\<lambda>p.
     rbind (fold_res (core_job t w) core_start (enumerate 0 (zip core_jobs (map snd (pl_jobs p))))) (\<lambda>st.
     Inr (st, if list_all (\<lambda>e. ce_status e = Passed) (cc_ledger st) then 0 else 1)))))"

section \<open>Calibration and cold initialization\<close>

text \<open>The legs of a paired calibration: off, on, on, off; the first that fails ends it.\<close>

record leg =
  lg_code :: int
  lg_errors :: "string list"
  lg_disk :: rat
  lg_row :: "(rat \<times> rat) option"

record g0_result =
  g0_rows :: "overhead_row list"
  g0_legs :: nat
  g0_errors :: "string list"
  g0_disk :: rat

fun run_legs :: "(nat \<Rightarrow> bool \<Rightarrow> leg res) \<Rightarrow> g0_result \<Rightarrow> bool list \<Rightarrow> g0_result res" where
  "run_legs leg r [] = Inr r"
| "run_legs leg r (detailed # rest) =
     rbind (leg (g0_legs r) detailed) (\<lambda>l.
     let r1 = r\<lparr>g0_legs := Suc (g0_legs r), g0_disk := (if g0_disk r < lg_disk l then lg_disk l else g0_disk r)\<rparr> in
     if lg_code l \<noteq> 0 then Inr (r1\<lparr>g0_errors := g0_errors r1 @ lg_errors l\<rparr>)
     else case lg_row l of
         None \<Rightarrow> Inl (Exn StopIteration [])
       | Some (p95, p99) \<Rightarrow> run_legs leg
           (r1\<lparr>g0_rows := g0_rows r1 @ [\<lparr>ov_sampling = detailed, ov_p95 = p95, ov_p99 = p99\<rparr>]\<rparr>) rest)"

definition run_g0 :: "json \<Rightarrow> (nat \<Rightarrow> bool \<Rightarrow> leg res) \<Rightarrow> (g0_result \<times> int) res" where
  "run_g0 t leg =
     rbind (json_index t ''mode'') (\<lambda>mode.
     let r0 = \<lparr>g0_rows = [], g0_legs = 0, g0_errors = [], g0_disk = 0\<rparr> in
     if mode = JStr ''smoke'' then rbind (leg 0 True) (\<lambda>l. Inr (r0, lg_code l))
     else
       rbind (run_legs leg r0 [False, True, True, False]) (\<lambda>r.
       rbind (rat_at t [''generator'', ''maxSamplingOverheadFraction'']) (\<lambda>limit.
       rbind (overhead_comparison (g0_rows r) limit) (\<lambda>passed.
       let errors = g0_errors r @ (if passed then [] else [''sampling overhead qualification failed or incomplete'']) in
       Inr (r\<lparr>g0_errors := sort (remdups errors)\<rparr>, if errors = [] then 0 else 1)))))"

text \<open>Two consecutive cold initializations, or one with an injected fault.\<close>

fun init_runs :: "(nat \<Rightarrow> bool res) \<Rightarrow> nat \<Rightarrow> nat \<Rightarrow> bool list res" where
  "init_runs once i 0 = Inr []"
| "init_runs once i (Suc n) = rbind (once i) (\<lambda>passed.
     if \<not> passed then Inr [False] else rbind (init_runs once (Suc i) n) (\<lambda>rest. Inr (True # rest)))"

definition init_pair :: "bool \<Rightarrow> (nat \<Rightarrow> bool res) \<Rightarrow> (bool list \<times> int) res" where
  "init_pair fault once = (let n = (if fault then 1 else 2) in
     rbind (init_runs once 0 n) (\<lambda>rows. Inr (rows, if length rows = n \<and> list_all id rows then 0 else 1)))"

section \<open>The core ledger\<close>

text \<open>
  What allows a run after the earlier entries of the ledger: there is time for it, no measurement
  was invalid, its family has no valid failure, and the login case has its background users.
\<close>

definition allowed :: "core_world \<Rightarrow> int list \<Rightarrow> core_entry list \<Rightarrow> core_entry \<Rightarrow> bool" where
  "allowed w secs pre e = (ce_status e \<noteq> Not_run \<longrightarrow>
     \<not> out_of_time w (ce_index e) (ce_job e) (secs ! ce_index e)
     \<and> (\<forall>p \<in> set pre. ce_status p \<noteq> Invalid_measurement
          \<and> (fst (ce_job p) = fst (ce_job e) \<longrightarrow> ce_status p \<noteq> Valid_failure))
     \<and> (fst (ce_job e) = ''L2'' \<longrightarrow> (\<forall>k \<in> {''U1'', ''U2''}. \<exists>p \<in> set pre. fst (ce_job p) = k \<and> ce_status p = Passed)))"

definition ledger_sound :: "core_world \<Rightarrow> int list \<Rightarrow> core_entry list \<Rightarrow> bool" where
  "ledger_sound w secs l = (\<forall>i < length l. allowed w secs (take i l) (l ! i))"

definition has_passed :: "core_entry list \<Rightarrow> string \<Rightarrow> bool" where
  "has_passed l k = (\<exists>p \<in> set l. fst (ce_job p) = k \<and> ce_status p = Passed)"

definition knows_ledger :: "core_state \<Rightarrow> bool" where
  "knows_ledger st =
     ((cc_stop st = None \<longrightarrow> (\<forall>e \<in> set (cc_ledger st). ce_status e \<noteq> Invalid_measurement
         \<and> (ce_status e = Valid_failure \<longrightarrow> fst (ce_job e) \<in> set (cc_families st))))
      \<and> (cc_u1 st \<noteq> [] \<longrightarrow> has_passed (cc_ledger st) ''U1'') \<and> (cc_u2 st \<noteq> [] \<longrightarrow> has_passed (cc_ledger st) ''U2''))"

lemma ledger_sound_snoc: "ledger_sound w secs (l @ [e]) \<longleftrightarrow> ledger_sound w secs l \<and> allowed w secs l e"
  by (auto simp: ledger_sound_def nth_append less_Suc_eq)

lemma skip_reason_None:
  "skip_reason st k = None \<longleftrightarrow> cc_stop st = None \<and> k \<notin> set (cc_families st) \<and> (k = ''L2'' \<longrightarrow> cc_u1 st \<noteq> [] \<and> cc_u2 st \<noteq> [])"
  by (auto simp: skip_reason_def first_some_def split: option.splits)

lemma note_core_cases:
  assumes "note_core t job tr good st = Inr st1"
  shows "cc_ledger st1 = cc_ledger st \<and> set (cc_families st) \<subseteq> set (cc_families st1)
    \<and> (cc_stop st1 = None \<longrightarrow> tr_correct tr \<and> trial_valid tr \<and> (\<not> good \<longrightarrow> fst job \<in> set (cc_families st1)))
    \<and> (cc_u1 st1 \<noteq> [] \<longrightarrow> cc_u1 st \<noteq> [] \<or> fst job = ''U1'' \<and> good)
    \<and> (cc_u2 st1 \<noteq> [] \<longrightarrow> cc_u2 st \<noteq> [] \<or> fst job = ''U2'' \<and> good)"
  using assms by (auto simp: note_core_def Let_def res_simps split: if_splits)

lemma attempt_cases:
  assumes "attempt t w st i job = Inr (st1, status)"
  shows "cc_ledger st1 = cc_ledger st \<and> status \<noteq> Not_run \<and> set (cc_families st) \<subseteq> set (cc_families st1)
    \<and> (cc_stop st1 = None \<longrightarrow> status \<noteq> Invalid_measurement \<and> (status = Valid_failure \<longrightarrow> fst job \<in> set (cc_families st1)))
    \<and> (cc_u1 st1 \<noteq> [] \<longrightarrow> cc_u1 st \<noteq> [] \<or> fst job = ''U1'' \<and> status = Passed)
    \<and> (cc_u2 st1 \<noteq> [] \<longrightarrow> cc_u2 st \<noteq> [] \<or> fst job = ''U2'' \<and> status = Passed)"
proof -
  from assms obtain tr good st' where n: "note_core t job tr good st' = Inr st1"
    and st': "cc_ledger st' = cc_ledger st" "cc_families st' = cc_families st" "cc_u1 st' = cc_u1 st" "cc_u2 st' = cc_u2 st"
    and status: "status = (if good then Passed else if trial_valid tr then Valid_failure else Invalid_measurement)"
    by (auto simp: attempt_def res_simps)
  from note_core_cases [OF n] show ?thesis unfolding st' status by auto
qed

text \<open>A job is skipped, runs to its end, or is broken by an exception.\<close>

lemma core_job_cases:
  assumes "core_job t w st (i, job, n) = Inr st'"
  obtains (skipped) st0 reason where "cc_stop st \<noteq> None \<longrightarrow> cc_stop st0 \<noteq> None" "skip_reason st0 (fst job) = Some reason"
      "st0 = st\<lparr>cc_stop := cc_stop st0\<rparr>" "st' = add_core i job Not_run (Some reason) st0"
  | (ran) st1 status where "skip_reason st (fst job) = None" "\<not> out_of_time w i job n"
      "attempt t w st i job = Inr (st1, status)" "st' = add_core i job status None st1"
  | (broken) e where "skip_reason st (fst job) = None" "\<not> out_of_time w i job n"
      "st' = add_core i job Invalid_measurement None (st\<lparr>cc_stop := Some e\<rparr>)"
proof (cases "skip_reason (if out_of_time w i job n
    then st\<lparr>cc_stop := first_some (cc_stop st) (Some ''four-hour work budget; reserve cleanup time'')\<rparr> else st) (fst job)")
  case None
  then have "\<not> out_of_time w i job n" by (auto simp: skip_reason_None first_some_def split: if_splits option.splits)
  with None assms show thesis
    by (auto simp: core_job_def Let_def res_simps split: sum.splits if_splits intro: ran broken)
next
  case (Some reason)
  with assms show thesis
    by (intro skipped [of "if out_of_time w i job n
        then st\<lparr>cc_stop := first_some (cc_stop st) (Some ''four-hour work budget; reserve cleanup time'')\<rparr> else st" reason])
      (auto simp: core_job_def Let_def first_some_def split: option.splits)
qed

lemma core_job_sound:
  assumes "core_job t w st (i, job, secs ! i) = Inr st'" and "knows_ledger st" and "ledger_sound w secs (cc_ledger st)"
  shows "knows_ledger st' \<and> ledger_sound w secs (cc_ledger st')
    \<and> (\<exists>e. cc_ledger st' = cc_ledger st @ [e] \<and> ce_index e = i \<and> ce_job e = job)"
  using assms(1)
proof (cases rule: core_job_cases)
  case (skipped st0 reason)
  then have "cc_ledger st0 = cc_ledger st" "cc_families st0 = cc_families st" "cc_u1 st0 = cc_u1 st" "cc_u2 st0 = cc_u2 st"
    "cc_stop st0 = None \<longrightarrow> cc_stop st = None" by (metis core_state.select_convs core_state.surjective core_state.update_convs(6))+
  then show ?thesis using assms(2,3) skipped(4)
    by (auto simp: add_core_def knows_ledger_def has_passed_def ledger_sound_snoc allowed_def)
next
  case (ran st1 status)
  from ran(1) have none: "cc_stop st = None" "fst job \<notin> set (cc_families st)"
    "fst job = ''L2'' \<longrightarrow> cc_u1 st \<noteq> [] \<and> cc_u2 st \<noteq> []" by (auto simp: skip_reason_None)
  note a = attempt_cases [OF ran(3)]
  have "allowed w secs (cc_ledger st) \<lparr>ce_index = i, ce_job = job, ce_status = status, ce_reason = None\<rparr>"
    using none ran(2) assms(2) by (auto simp: allowed_def knows_ledger_def has_passed_def)
  moreover have "knows_ledger st'"
    using a assms(2) none(1) unfolding ran(4) by (auto simp: add_core_def knows_ledger_def has_passed_def)
  ultimately show ?thesis using assms(3) a by (simp add: ran(4) add_core_def ledger_sound_snoc)
next
  case (broken e)
  from broken(1) have none: "cc_stop st = None" "fst job \<notin> set (cc_families st)"
    "fst job = ''L2'' \<longrightarrow> cc_u1 st \<noteq> [] \<and> cc_u2 st \<noteq> []" by (auto simp: skip_reason_None)
  have "allowed w secs (cc_ledger st) \<lparr>ce_index = i, ce_job = job, ce_status = Invalid_measurement, ce_reason = None\<rparr>"
    using none broken(2) assms(2) by (auto simp: allowed_def knows_ledger_def has_passed_def)
  moreover have "knows_ledger st'"
    using assms(2) unfolding broken(3) by (auto simp: add_core_def knows_ledger_def has_passed_def)
  ultimately show ?thesis using assms(3) by (simp add: broken(3) add_core_def ledger_sound_snoc)
qed

lemma core_run_sound:
  assumes "fold_res (core_job t w) st rows = Inr st'" and "knows_ledger st" and "ledger_sound w secs (cc_ledger st)"
    and "\<And>i job n. (i, job, n) \<in> set rows \<Longrightarrow> n = secs ! i"
  shows "knows_ledger st' \<and> ledger_sound w secs (cc_ledger st')
    \<and> map (\<lambda>e. (ce_index e, ce_job e)) (cc_ledger st') = map (\<lambda>e. (ce_index e, ce_job e)) (cc_ledger st) @ map (\<lambda>(i, job, n). (i, job)) rows"
  using assms
proof (induction rows arbitrary: st)
  case (Cons row rows)
  obtain i job n where row: "row = (i, job, n)" by (cases row)
  with Cons.prems(4) [of i job n] have "n = secs ! i" by simp
  with Cons.prems(1) row obtain st1 where st1: "core_job t w st (i, job, secs ! i) = Inr st1" "fold_res (core_job t w) st1 rows = Inr st'"
    by (auto simp: res_simps)
  note s = core_job_sound [OF st1(1) Cons.prems(2,3)]
  have "\<And>i job n. (i, job, n) \<in> set rows \<Longrightarrow> n = secs ! i" using Cons.prems(4) by (metis list.set_intros(2))
  with Cons.IH [OF st1(2)] s show ?case by (auto simp: row)
qed simp

lemma skipped_stays:
  assumes "core_job t w st (i, job, n) = Inr st'" and "skip_reason st (fst job) \<noteq> None"
  shows "ce_status (last (cc_ledger st')) = Not_run"
  using assms(1) by (cases rule: core_job_cases) (use assms(2) in \<open>auto simp: add_core_def\<close>)

lemma skipped_blocks:
  assumes "core_job t w st (i, job, n) = Inr st'" and "ce_status (last (cc_ledger st')) = Not_run"
  shows "skip_reason st' (fst job) \<noteq> None"
  using assms(1)
proof (cases rule: core_job_cases)
  case (skipped st0 reason)
  then show ?thesis by (auto simp: add_core_def skip_reason_def)
next
  case (ran st1 status)
  then show ?thesis using assms(2) attempt_cases [OF ran(3)] by (simp add: add_core_def)
qed (use assms(2) in \<open>simp add: add_core_def\<close>)

lemma core_plan_jobs: "core_plan t = Inr p \<Longrightarrow> length (pl_jobs p) = length core_jobs"
  by (auto simp: core_plan_def res_simps Let_def dest: map_res_Inr_length)

lemma last_two: "length xs = 10 \<Longrightarrow> xs = take 8 xs @ [xs ! 8, xs ! 9]"
  using take_Suc_conv_app_nth [of 8 xs] take_Suc_conv_app_nth [of 9 xs] by simp

lemma length_core_jobs: "length core_jobs = 10"
  by code_simp

text \<open>
  \textbf{C7.} Whatever the runs of a core campaign return or raise, its ledger has the ten jobs in
  their order; a job was run only in time, when no earlier measurement was invalid and its own family
  had no valid failure, and the login case only with both online forms passed; the login run under
  load only after its control run passed; and the exit code is zero exactly when all ten passed.
\<close>

theorem core_ledger_sound:
  assumes "core_campaign t qualification w = Inr (st, code)"
  shows "(\<exists>p. core_plan t = Inr p \<and> ledger_sound w (map snd (pl_jobs p)) (cc_ledger st))
    \<and> map ce_job (cc_ledger st) = core_jobs \<and> map ce_index (cc_ledger st) = [0..<10]
    \<and> (ce_status (cc_ledger st ! 9) \<noteq> Not_run \<longrightarrow> ce_status (cc_ledger st ! 8) = Passed)
    \<and> code = (if \<forall>e \<in> set (cc_ledger st). ce_status e = Passed then 0 else 1)"
proof -
  from assms obtain p where p: "core_plan t = Inr p"
    and run: "fold_res (core_job t w) core_start (enumerate 0 (zip core_jobs (map snd (pl_jobs p)))) = Inr st"
    and code: "code = (if list_all (\<lambda>e. ce_status e = Passed) (cc_ledger st) then 0 else 1)"
    by (auto simp: core_campaign_def res_simps)
  let ?secs = "map snd (pl_jobs p)"
  have len: "length ?secs = 10" using core_plan_jobs [OF p] length_core_jobs by simp
  define rows where "rows = enumerate 0 (zip core_jobs ?secs)"
  have secs: "n = ?secs ! i" if "(i, job, n) \<in> set rows" for i job n
    using that len by (auto simp: rows_def in_set_enumerate_eq)
  have start: "knows_ledger core_start" "ledger_sound w ?secs (cc_ledger core_start)"
    by (simp_all add: core_start_def knows_ledger_def ledger_sound_def)
  note sound = core_run_sound [OF run [folded rows_def] start secs]
  have pairs: "map (\<lambda>(i, job, n). (i, job)) rows = enumerate 0 core_jobs"
    using len length_core_jobs by (intro nth_equalityI) (auto simp: rows_def nth_enumerate_eq)
  then have ledger: "map (\<lambda>e. (ce_index e, ce_job e)) (cc_ledger st) = enumerate 0 core_jobs"
    using sound by (simp add: core_start_def)
  from arg_cong [OF this, of "map snd"] arg_cong [OF this, of "map fst"]
  have lists: "map ce_job (cc_ledger st) = core_jobs" "map ce_index (cc_ledger st) = [0..<10]"
    by (simp_all add: comp_def length_core_jobs)
  have last: "ce_status (cc_ledger st ! 8) = Passed" if "ce_status (cc_ledger st ! 9) \<noteq> Not_run"
  proof -
    have split: "rows = take 8 rows @ [rows ! 8, rows ! 9]"
      using len length_core_jobs by (intro last_two) (simp add: rows_def)
    have rows89: "rows ! 8 = (8, core_jobs ! 8, ?secs ! 8)" "rows ! 9 = (9, core_jobs ! 9, ?secs ! 9)"
      using len length_core_jobs by (simp_all add: rows_def nth_enumerate_eq)
    define a b where "a = core_jobs ! 8" and "b = core_jobs ! 9"
    have ab: "fst a = ''L2''" "fst b = ''L2''" unfolding a_def b_def by code_simp+
    have "fold_res (core_job t w) core_start (take 8 rows @ [(8, a, ?secs ! 8), (9, b, ?secs ! 9)]) = Inr st"
      using run [folded rows_def] split rows89 unfolding a_def b_def by metis
    then obtain s8 s9 where fold: "fold_res (core_job t w) core_start (take 8 rows) = Inr s8"
      and s9: "core_job t w s8 (8, a, ?secs ! 8) = Inr s9" and s10: "core_job t w s9 (9, b, ?secs ! 9) = Inr st"
      by (auto simp: fold_res_append rbind_Inr_iff)
    have s8: "knows_ledger s8 \<and> ledger_sound w ?secs (cc_ledger s8) \<and> length (cc_ledger s8) = 8"
    proof -
      have "n = ?secs ! i" if "(i, job, n) \<in> set (take 8 rows)" for i and job :: job and n
        using secs in_set_takeD [OF that] by blast
      note r = core_run_sound [OF fold start this]
      from r have "map (\<lambda>e. (ce_index e, ce_job e)) (cc_ledger s8) = map (\<lambda>(i, job, n). (i, job)) (take 8 rows)"
        by (simp add: core_start_def)
      then have "length (cc_ledger s8) = length (take 8 rows)" by (rule map_eq_imp_length_eq)
      also have "\<dots> = 8" using len length_core_jobs by (simp add: rows_def)
      finally show ?thesis using r by simp
    qed
    from core_job_sound [OF s9] s8 obtain e8 where e8: "cc_ledger s9 = cc_ledger s8 @ [e8]" "ce_job e8 = a"
      and k9: "knows_ledger s9" "ledger_sound w ?secs (cc_ledger s9)" by blast
    from core_job_sound [OF s10 k9] obtain e9 where e9: "cc_ledger st = cc_ledger s9 @ [e9]" "ce_job e9 = b"
      "ledger_sound w ?secs (cc_ledger st)" by blast
    have at: "cc_ledger st ! 8 = e8" "cc_ledger st ! 9 = e9" using s8 e8 e9 by (simp_all add: nth_append)
    have "ce_status e8 \<noteq> Not_run"
      using skipped_blocks [OF s9] skipped_stays [OF s10] that ab e8 e9 at by auto
    moreover have "allowed w ?secs (cc_ledger s9) e9" using e9 by (simp add: ledger_sound_snoc)
    ultimately show ?thesis using that ab e8 e9(2) by (cases "ce_status e8") (auto simp: allowed_def at)
  qed
  from p sound lists last code show ?thesis by (auto simp: list_all_iff)
qed

section \<open>The ledger of the campaign\<close>

definition job_matches :: "job \<Rightarrow> job \<Rightarrow> bool" where
  "job_matches a b = (a = b \<or> same_job a b)"

text \<open>New entries after a run over the remaining jobs.\<close>

definition ran_entries :: "job list \<Rightarrow> int \<Rightarrow> ledger_entry list \<Rightarrow> bool" where
  "ran_entries js code es = (length es \<le> length js \<and> map en_job es = take (length es) js
     \<and> (code = 0 \<and> length es = length js \<and> list_all en_passed es
        \<or> code = 1 \<and> es \<noteq> [] \<and> list_all en_passed (butlast es) \<and> \<not> en_passed (last es)))"

lemma note_passed_ledger: "note_passed t job st = Inr st1 \<Longrightarrow> cs_ledger st1 = cs_ledger st"
  by (auto simp: note_passed_def res_simps split: if_splits)

lemma campaign_job_ledger:
  "campaign_job t smoke qualified run st (i, job) = Inr (st1, ok) \<Longrightarrow>
     cs_ledger st1 = cs_ledger st @ [\<lparr>en_job = job, en_passed = ok\<rparr>]"
  by (auto simp: campaign_job_def res_simps Let_def dest!: note_passed_ledger split: if_splits)

lemma campaign_run_entries:
  assumes "campaign_run t smoke qualified run st rows = Inr (st', code)"
  shows "\<exists>es. cs_ledger st' = cs_ledger st @ es \<and> ran_entries (map snd rows) code es"
  using assms
proof (induction rows arbitrary: st)
  case (Cons row rows)
  obtain i job where row: "row = (i, job)" by (cases row)
  with Cons.prems obtain st1 ok where job: "campaign_job t smoke qualified run st (i, job) = Inr (st1, ok)"
    and rest: "(if ok then campaign_run t smoke qualified run st1 rows else Inr (st1, 1)) = Inr (st', code)"
    by (auto simp: res_simps)
  let ?e = "\<lparr>en_job = job, en_passed = ok\<rparr>"
  note l = campaign_job_ledger [OF job]
  show ?case
  proof (cases ok)
    case True
    with rest Cons.IH obtain es where es: "cs_ledger st' = cs_ledger st1 @ es" "ran_entries (map snd rows) code es" by auto
    then have "ran_entries (map snd (row # rows)) code (?e # es)" using True by (auto simp: ran_entries_def row)
    with es(1) l show ?thesis by (intro exI [of _ "?e # es"]) simp
  next
    case False
    with rest l show ?thesis by (intro exI [of _ "[?e]"]) (simp add: ran_entries_def row)
  qed
qed (simp add: ran_entries_def)

lemma resume_entries:
  assumes "resume_from t js st cs = Inr st'" and "list_all en_passed (cs_ledger st)"
    and "list_all2 job_matches (map en_job (cs_ledger st)) (take (length (cs_ledger st)) js)" and "length (cs_ledger st) \<le> length js"
  shows "list_all en_passed (cs_ledger st') \<and> length (cs_ledger st') \<le> length js
    \<and> list_all2 job_matches (map en_job (cs_ledger st')) (take (length (cs_ledger st')) js)"
  using assms
proof (induction cs arbitrary: st)
  case (Cons c cs)
  show ?case
  proof (cases "en_passed (cp_entry c)")
    case True
    let ?i = "length (cs_ledger st)"
    from True Cons.prems(1) obtain st1 where i: "?i < length js" and same: "same_job (en_job (cp_entry c)) (js ! ?i)"
      and l: "cs_ledger st1 = cs_ledger st @ [cp_entry c]" and rest: "resume_from t js st1 cs = Inr st'"
      by (auto simp: Let_def res_simps not_le dest!: note_passed_ledger split: if_splits)
    from i have "take (Suc ?i) js = take ?i js @ [js ! ?i]" by (rule take_Suc_conv_app_nth)
    with Cons.prems(2,3) i same True show ?thesis
      by (intro Cons.IH [OF rest]) (simp_all add: l list_all2_appendI job_matches_def)
  qed (use Cons.prems in \<open>auto simp: Let_def\<close>)
qed simp

text \<open>
  \textbf{C8.} A campaign that ends has made the jobs of its targets in their order, those taken from a
  checkpoint included: with exit code zero all of them, and every one passed; with exit code one up
  to and with the first that did not pass. No other exit code occurs, so a login or soak case is only
  ever made after every round of the online cases passed.
\<close>

theorem campaign_in_order:
  assumes "campaign t smoke qualification qualified run old = Inr (st, code)"
  shows "\<exists>js. jobs t smoke = Inr js \<and> length (cs_ledger st) \<le> length js
    \<and> list_all2 job_matches (map en_job (cs_ledger st)) (take (length (cs_ledger st)) js)
    \<and> (code = 0 \<and> length (cs_ledger st) = length js \<and> list_all en_passed (cs_ledger st)
       \<or> code = 1 \<and> cs_ledger st \<noteq> [] \<and> list_all en_passed (butlast (cs_ledger st)) \<and> \<not> en_passed (last (cs_ledger st)))"
proof -
  from assms obtain js st0 where js: "jobs t smoke = Inr js"
    and run: "campaign_run t smoke qualified run st0 (drop (length (cs_ledger st0)) (enumerate 0 js)) = Inr (st, code)"
    and old: "(case old of None \<Rightarrow> Inr campaign_start
       | Some (same, cs) \<Rightarrow> rbind (require same ValueError ''checkpoint identity mismatch'') (\<lambda>_.
           resume_from t js campaign_start cs)) = Inr st0"
    unfolding campaign_def by (simp only: rbind_Inr_iff) blast
  let ?n = "length (cs_ledger st0)"
  have "st0 = campaign_start \<or> (\<exists>cs. resume_from t js campaign_start cs = Inr st0)"
    using old by (auto simp: rbind_Inr_iff split: option.splits)
  then have st0: "list_all en_passed (cs_ledger st0)" "?n \<le> length js"
    "list_all2 job_matches (map en_job (cs_ledger st0)) (take ?n js)"
    by (auto simp: campaign_start_def dest!: resume_entries)
  have "map snd (drop ?n (enumerate 0 js)) = drop ?n js" by (simp add: drop_map [symmetric])
  with campaign_run_entries [OF run] obtain es where es: "cs_ledger st = cs_ledger st0 @ es" "ran_entries (drop ?n js) code es" by auto
  have "list_all2 job_matches (take (length es) (drop ?n js)) (take (length es) (drop ?n js))"
    by (rule list_all2_refl) (simp add: job_matches_def)
  with es st0(3) have "list_all2 job_matches (map en_job (cs_ledger st)) (take (length (cs_ledger st)) js)"
    by (auto simp: ran_entries_def take_add intro: list_all2_appendI)
  then show ?thesis using js st0(1,2) es
    by (auto simp: ran_entries_def butlast_append)
qed

section \<open>A small campaign\<close>

lemma full_jobs: "jobs full_targets False = Inr ([(''U1'', [(''round'', JInt 0)]), (''U2'', [(''round'', JInt 0)])]
    @ map (\<lambda>i. (''J1'', [(''window'', JInt i)])) [0, 1, 2] @ map (\<lambda>i. (''O1'', [(''window'', JInt i)])) [0, 1, 2] @ [(''E1'', [])]
    @ map (\<lambda>p. (''H1'', [(''path'', JStr p), (''repeat'', JInt 0)])) [''temporary'', ''formal'']
    @ map (\<lambda>p. (''H3'', [(''path'', JStr p)])) [''temporary'', ''formal'']
    @ concat (map (\<lambda>c. map (\<lambda>k. (c, [(''control_only'', JBool k)])) [True, False]) [''L1'', ''L2'']) @ [(''S1'', [])])"
  by code_simp

lemma full_seconds:
  "job_seconds full_targets (''U1'', [(''round'', JInt 0)]) = Inr 90"
  "job_seconds full_targets (''U2'', [(''round'', JInt 0)]) = Inr 90"
  by (simp_all add: job_seconds_def args_of_def dget_or_def spec_defs online_defs full_lookups require_def Let_def prod.case_eq_if)

lemma burst_seconds: "kase \<in> {''J1'', ''O1''} \<Longrightarrow> i \<in> {0, 1, 2} \<Longrightarrow>
    job_seconds full_targets (kase, [(''window'', JInt i)]) = Inr ([60, 30, 10] ! nat i)"
  by (auto simp: job_seconds_def args_of_def dget_or_def spec_defs spec_burst_def full_lookups require_def Let_def prod.case_eq_if)

lemma hot_seconds:
  "p \<in> {''temporary'', ''formal''} \<Longrightarrow> job_seconds full_targets (''H1'', [(''path'', JStr p), (''repeat'', JInt 0)]) = Inr 10"
  "p \<in> {''temporary'', ''formal''} \<Longrightarrow> job_seconds full_targets (''H3'', [(''path'', JStr p)]) = Inr 10"
  by (auto simp: job_seconds_def args_of_def dget_or_def spec_defs spec_hotspot_def full_lookups require_def Let_def prod.case_eq_if)

lemma login_seconds:
  "job_seconds full_targets (''L1'', [(''control_only'', JBool k)]) = Inr 80"
  "job_seconds full_targets (''L2'', [(''control_only'', JBool k)]) = Inr 30"
  "job_seconds full_targets (''S1'', []) = Inr 60"
  "job_seconds full_targets (''E1'', []) = Inr 180"
  by (simp_all add: job_seconds_def args_of_def dget_or_def spec_defs background_defs full_lookups require_def Let_def prod.case_eq_if)


definition full_plan :: "(job \<times> int) list" where
  "full_plan = [((''U1'', [(''round'', JInt 0)]), 90), ((''U2'', [(''round'', JInt 0)]), 90)]
    @ map (\<lambda>(i, n). ((''J1'', [(''window'', JInt i)]), n)) [(0, 60), (1, 30), (2, 10)]
    @ map (\<lambda>(i, n). ((''O1'', [(''window'', JInt i)]), n)) [(0, 60), (1, 30), (2, 10)] @ [((''E1'', []), 180)]
    @ map (\<lambda>p. ((''H1'', [(''path'', JStr p), (''repeat'', JInt 0)]), 10)) [''temporary'', ''formal'']
    @ map (\<lambda>p. ((''H3'', [(''path'', JStr p)]), 10)) [''temporary'', ''formal'']
    @ concat (map (\<lambda>(c, n). map (\<lambda>k. ((c, [(''control_only'', JBool k)]), n)) [True, False]) [(''L1'', 80), (''L2'', 30)])
    @ [((''S1'', []), 60)]"

lemma full_overhead: "job_overhead full_targets = Inr 272"
  by (simp add: job_overhead_def max_refresh_def full_lookups)

lemma full_plan_of: "\<exists>p. plan_of full_targets False = Inr p \<and> pl_jobs p = full_plan"
  by (simp add: plan_of_def full_jobs full_seconds burst_seconds hot_seconds login_seconds full_overhead full_plan_def Let_def)

definition core_seconds :: "int list" where
  "core_seconds = [90, 90, 60, 30, 10, 10, 10, 10, 30, 30]"

lemma core_found: "map_res (\<lambda>job. case List.find (\<lambda>(j, _). same_job j job) full_plan of None \<Rightarrow> Inl (Exn StopIteration []) | Some row \<Rightarrow> Inr row) core_jobs
    = Inr (zip core_jobs core_seconds)"
  by code_simp

lemma core_specs:
  "list_all (\<lambda>(k, d). isl (rbind (args_of 40 d) (\<lambda>a. core_spec full_targets k ''planned'' a)) = False) core_jobs"
  by (simp add: core_jobs_def indexed_jobs_def upt_rec args_of_def dget_or_def probe_defs spec_defs online_defs background_defs
     spec_burst_def spec_hotspot_def full_lookups require_def Let_def prod.case_eq_if)



lemma map_res_mono: "map_res f xs = Inr ys \<Longrightarrow> (\<And>x y. x \<in> set xs \<Longrightarrow> f x = Inr y \<Longrightarrow> g x = Inr y) \<Longrightarrow> map_res g xs = Inr ys"
  by (induction xs arbitrary: ys) (auto simp: res_simps)

lemma full_core_plan: "\<exists>p. core_plan full_targets = Inr p \<and> pl_jobs p = zip core_jobs core_seconds"
proof -
  from full_plan_of obtain old where old: "plan_of full_targets False = Inr old" "pl_jobs old = full_plan" by blast
  have "core_row full_targets old job = Inr row"
    if "job \<in> set core_jobs" and "(case List.find (\<lambda>(j, _). same_job j job) full_plan of None \<Rightarrow> Inl (Exn StopIteration []) | Some row \<Rightarrow> Inr row) = Inr row"
    for job row
  proof -
    obtain k d where job: "job = (k, d)" by force
    with core_specs that(1) have "isl (rbind (args_of 40 d) (\<lambda>a. core_spec full_targets k ''planned'' a)) = False"
      by (auto simp: list_all_iff)
    then obtain a s where "args_of 40 d = Inr a" "core_spec full_targets k ''planned'' a = Inr s"
      by (cases "args_of 40 d"; cases "core_spec full_targets k ''planned'' (projr (args_of 40 d))") auto
    with that(2) show ?thesis by (auto simp: core_row_def job old(2) full_lookups split: option.splits)
  qed
  then have "map_res (core_row full_targets old) core_jobs = Inr (zip core_jobs core_seconds)"
    by (rule map_res_mono [OF core_found])
  then show ?thesis by (simp add: core_plan_def old(1) full_overhead Let_def)
qed

definition plain_trial :: "int \<Rightarrow> trial" where
  "plain_trial code = \<lparr>tr_code = code, tr_verdict = \<lparr>vd_reasons = [], vd_capacity = Pass, vd_overload = Pass, vd_bad = [], vd_latency = [],
     vd_functional = None, vd_diagnostic = None\<rparr>, tr_correct = True, tr_window = Inl (Exn OSError [])\<rparr>"

text \<open>The first hotspot case fails, and the login case under load has no evidence of its window.\<close>

definition lab_world :: core_world where
  "lab_world = \<lparr>cw_now = (\<lambda>i. of_nat i), cw_deadline = 14400,
     cw_run = (\<lambda>i job u1 u2. Inr (plain_trial (if fst job = ''H1'' then 1 else 0))), cw_halt = (\<lambda>i. Inr ())\<rparr>"

lemma lab_fold:
  "case fold_res (core_job full_targets lab_world) core_start (enumerate 0 (zip core_jobs core_seconds)) of
     Inr st \<Rightarrow> map ce_status (cc_ledger st) =
       [Passed, Passed, Passed, Passed, Passed, Valid_failure, Not_run, Passed, Passed, Invalid_measurement]
   | Inl _ \<Rightarrow> False"
  by code_simp

theorem core_ledger_sound_witness:
  "\<exists>st. core_campaign full_targets (Inr ()) lab_world = Inr (st, 1) \<and> map ce_job (cc_ledger st) = core_jobs
     \<and> ce_status (cc_ledger st ! 8) = Passed"
proof -
  from full_core_plan obtain p where p: "core_plan full_targets = Inr p" "pl_jobs p = zip core_jobs core_seconds" by blast
  have secs: "map snd (zip core_jobs core_seconds) = core_seconds"
    by (rule map_snd_zip) (simp add: length_core_jobs core_seconds_def)
  from lab_fold obtain st where st: "fold_res (core_job full_targets lab_world) core_start (enumerate 0 (zip core_jobs core_seconds)) = Inr st"
    and status: "map ce_status (cc_ledger st) =
       [Passed, Passed, Passed, Passed, Passed, Valid_failure, Not_run, Passed, Passed, Invalid_measurement]"
    by (auto split: sum.splits)
  have "\<not> list_all (\<lambda>s. s = Passed) (map ce_status (cc_ledger st))" by (simp add: status)
  then have "\<not> list_all (\<lambda>e. ce_status e = Passed) (cc_ledger st)" by (simp add: list.pred_map comp_def)
  with st p secs have run: "core_campaign full_targets (Inr ()) lab_world = Inr (st, 1)"
    by (simp add: core_campaign_def lab_world_def require_def)
  have "length (cc_ledger st) = 10" using arg_cong [OF status, of length] by simp
  then have "ce_status (cc_ledger st ! 9) = Invalid_measurement"
    using arg_cong [OF status, of "\<lambda>l. l ! 9"] by simp
  with core_ledger_sound [OF run] run show ?thesis by auto
qed

definition lab_run :: "nat \<Rightarrow> job \<Rightarrow> int list \<Rightarrow> int list \<Rightarrow> trial res" where
  "lab_run i job u1 u2 = Inr (plain_trial (if i = 2 then 1 else 0))"

lemma lab_ledger:
  "case campaign_run full_targets False (\<lambda>i. Inr ()) lab_run campaign_start (enumerate 0 (map fst full_plan)) of
     Inr (st, code) \<Rightarrow> code = 1 \<and> length (cs_ledger st) = 3
   | Inl _ \<Rightarrow> False"
  by code_simp

theorem campaign_in_order_witness:
  "\<exists>st. campaign full_targets False (Inr ()) (\<lambda>i. Inr ()) lab_run None = Inr (st, 1) \<and> length (cs_ledger st) = 3
     \<and> list_all en_passed (butlast (cs_ledger st)) \<and> \<not> en_passed (last (cs_ledger st))"
proof -
  from lab_ledger obtain st where st: "campaign_run full_targets False (\<lambda>i. Inr ()) lab_run campaign_start
      (enumerate 0 (map fst full_plan)) = Inr (st, 1)" "length (cs_ledger st) = 3"
    by (auto split: sum.splits)
  have "jobs full_targets False = Inr (map fst full_plan)" by (simp add: full_jobs full_plan_def)
  with st(1) full_plan_of have run: "campaign full_targets False (Inr ()) (\<lambda>i. Inr ()) lab_run None = Inr (st, 1)"
    by (auto simp: campaign_def campaign_start_def)
  from campaign_in_order [OF run] run st(2) show ?thesis by auto
qed

end
