(* ===== verification/Spec2Isabelle.thy ===== *)
theory Spec2Isabelle
  imports Dataset_Main Observability Verify_Database Reset_Env Login_Experiment Phase14_Model Stats_Sampler Seat_Diagnosis
    Topology Load_Init Raw_Progress Campaign
begin

text \<open>
  The Python tooling of a ticketing system, verified: the programs below \<open>performance/\<close> that
  generate the data of a load test, run it, guard it and judge it. The C++ backend, the front end,
  the Lua and SQL scripts and the k6 workloads are other languages and appear here only as the
  commands, requests and files these programs exchange with them.

  \<^bold>\<open>The program and its parts.\<close> \<open>data/generate_dataset.py\<close> turns a profile into a PostgreSQL
  dataset and the manifests of users, sessions and seats. \<open>scripts/run_k6.py\<close> reads these
  manifests, plans and starts one k6 run, and verifies it with \<open>verification/verify_database.py\<close>.
  \<open>scripts/run_baseline.py\<close> runs a plan of such runs between resets by
  \<open>scripts/reset_environment.py\<close>, with the collectors of \<open>scripts/performance_evidence.py\<close>;
  \<open>scripts/run_login_experiment.py\<close> and \<open>scripts/diagnose_seat_map.py\<close> reuse both modules.
  \<open>scripts/verify_observability.py\<close> and \<open>scripts/docker_stats_sampler.py\<close> watch the running
  stack. The \<open>phase14_*\<close> scripts are the later, two-host campaign: its frozen inputs, its hosts
  and commands, the staged start of its load generators, and the release of host resources.

  \<^bold>\<open>Theories and sources.\<close>
  \<^item> \<open>Py_Prelude\<close>, \<open>Py_Json\<close>: what the programs use of Python itself. Exceptions are values
    (\<open>exn + 'a\<close>) with the class hierarchy of the \<open>except\<close> clauses; strings are lists of
    characters below 256; JSON values with Python's equality and truth; integers unbounded, floats
    finite rationals rounded by \<open>fl64\<close> after each operation.
  \<^item> \<open>Py_IO\<close>: effects. A computation takes the outside world, local state and the history of
    events, and returns, raises, or runs out of fuel. The world is a record of functions of the
    history, a parameter of every effectful definition: the theorems hold for every behaviour of
    docker, the network, the files and the clock. Its two interfaces are the locale \<open>polling\<close> (a
    loop that asks until a deadline ends) and the locale \<open>effect_relation\<close> (a preorder that single
    events respect holds across a whole computation); they are interpreted on the loops and
    relations of \<open>K6_Run\<close> and \<open>Observability\<close>.
  \<^item> \<open>Dataset_Profile\<close>, \<open>Dataset_Sql\<close>, \<open>Dataset_Main\<close>: \<open>generate_dataset.py\<close>. The profile
    and its validation; the SQL transaction as a function on tables, one clause after the other;
    its text, the commands, the validation queries, the manifests and the seat pool.
  \<^item> \<open>K6_Plan\<close>, \<open>K6_Run\<close>: \<open>run_k6.py\<close>. Arguments, durations, plans and their validation; the
    process, the verification and \<open>main\<close> with its \<open>finally\<close> block.
  \<^item> \<open>Evidence\<close>, \<open>Baseline\<close>, \<open>Login_Experiment\<close>: \<open>performance_evidence.py\<close>,
    \<open>run_baseline.py\<close>, \<open>run_login_experiment.py\<close>.
  \<^item> \<open>Observability\<close>, \<open>Verify_Database\<close>, \<open>Reset_Env\<close>: \<open>verify_observability.py\<close>,
    \<open>verify_database.py\<close>, \<open>reset_environment.py\<close>.
  \<^item> \<open>Seat_Diagnosis\<close>, \<open>Stats_Sampler\<close>: \<open>diagnose_seat_map.py\<close>, \<open>docker_stats_sampler.py\<close>.
  \<^item> \<open>Phase14_Model\<close>: \<open>phase14_model.py\<close>, the targets, user groups, seats, slices and arrivals.
  \<^item> \<open>Topology\<close>: \<open>phase14_topology.py\<close>, the configuration of the hosts, \<open>Executor\<close> and the
    ownership of containers.
  \<^item> \<open>Load_Init\<close>: \<open>phase14_initialization.py\<close>, the two threads of \<open>Initialization\<close> as
    interleaving steps on their shared state.
  \<^item> \<open>Stop_Projects\<close>: \<open>phase14_stop_approved_projects.py\<close>. What may be claimed of every event
    but a stop is the locale \<open>audited\<close>, interpreted for the ids stopped and for the commands allowed.
  \<^item> \<open>Monitors\<close>: runs of consecutive samples that show a condition, and the locale \<open>run_monitor\<close>: an
    accumulator that knows the run it is in. It is interpreted on the clocks of the stop guard
    (\<open>since\<close>), the counter of the guard of open files (\<open>fd\<close>) and the windows of the recovery (\<open>window\<close>).
  \<^item> \<open>Stop_Rules\<close>: when a running test is stopped, \<open>StopGuard\<close> and \<open>swap_policy\<close> of
    \<open>phase14_evidence.py\<close>, the process limits and \<open>FdGuard\<close> of \<open>phase14_fd.py\<close>, \<open>resource_preflight\<close>
    of \<open>run_phase14.py\<close> and \<open>sample_errors\<close> of \<open>phase14_campaign.py\<close>.
  \<^item> \<open>Raw_Points\<close>, \<open>Raw_Progress\<close>: what the generators wrote, \<open>aggregate\<close> of \<open>phase14_evidence.py\<close>
    (the SQLite table is the list of its rows) and the incremental \<open>RawProgress\<close> of \<open>run_phase14.py\<close>.
  \<^item> \<open>Verdict\<close>: \<open>recovery\<close> and \<open>verdict\<close> of \<open>phase14_evidence.py\<close>, \<open>check_startup\<close> and the rows of
    \<open>compare_background\<close> of \<open>run_phase14.py\<close>, \<open>overhead_comparison\<close> of \<open>phase14_campaign.py\<close>.
  \<^item> \<open>Run_Spec\<close>: what one run is given, \<open>build_spec\<close>, \<open>guard_delivery\<close> and \<open>startup_plan\<close> of
    \<open>run_phase14.py\<close>, \<open>core_spec\<close> and its budgets of \<open>phase14_core.py\<close>.
  \<^item> \<open>Campaign\<close>: which runs are made, \<open>jobs\<close>, \<open>plan\<close>, \<open>campaign\<close> and \<open>run_g0\<close> of
    \<open>phase14_campaign.py\<close>, the core campaign and \<open>init_pair\<close> of \<open>phase14_core.py\<close>. What
    \<open>execute_case\<close> leaves behind is a function of the position and the job.

  A definition has the name of the function it models, with a prefix where two scripts share a
  name (\<open>ba_\<close>, \<open>ev_\<close>, \<open>login_\<close>, \<open>reset_\<close>, \<open>diag_\<close>); a step of a long \<open>main\<close> has a name of its
  own. A script's typed arguments are a record; the argument parsers are this typing.

  \<^bold>\<open>What the lemmas show.\<close> Of the dataset: the validation accepts exactly the well-formed
  profiles; generation commits, leaves foreign rows alone, can be repeated, and satisfies the
  queries that check it; credentials and seat pools are distinct and complete. Of the runners: a
  success exit code means what it should (verdict, k6, verifier, checks), forced settings are
  undone however a run ends, plans fit the pools. Of the guards: nothing outside the Performance
  project is reset, no container but an approved one is stopped, an accepted topology names a
  private host and the shell on it reads exactly the words sent. Of the phase-14 inputs: plans,
  slices, groups and seats are as the comments promise, and a start that passes is complete under
  every interleaving. Of the phase-14 evidence: a rule of the stop guard fires exactly after a run
  of samples as long as it asks for; polls read every complete line once; counts are exact sums
  over the points of all shards, in whatever order; recovery is a quiet stretch of samples; and a
  passed verdict means delivery, correctness and recovery at once. Of the campaign: arrivals over
  their window are the planned number, the closed and the open load expect the same users, the core
  campaign changes nothing but bounds, and the ledgers keep the order of the jobs and the reasons to
  stop. Of the loops: each ends when the clock is fair. Readers and printers (psql
  rows, INFO sections, JSON differences, shell words) are inverse to each other or equal to a
  reference definition.

  \<^bold>\<open>Bounds and fuel.\<close> A \<open>while\<close> loop takes its fuel from the world (\<open>w_fuel\<close>); no handler and
  no \<open>finally\<close> sees fuel run out. The termination theorems say how much is enough when a sleep of
  \<open>d\<close> seconds moves the clock on by \<open>d\<close> (\<open>clock_fair\<close>): one more than the deadline over the
  pause, so 61 for the observability checks, \<open>n + 1\<close> for a settlement of \<open>n\<close> seconds, 25 for the
  settling of the host (120 seconds in steps of five, a window of 60 seconds needs fewer), and the
  number of samples plus one for the sampler. The readers of texts take the length of the text.

  \<^bold>\<open>Deviations.\<close> The text that a \<open>with\<close> statement writes piece by piece is written in one event
  unless it is flushed in between; paths are resolved; sums and differences of clock readings are
  exact; infinite and NaN floats are texts; exception messages leave out the representation of
  interpolated objects; where docker prints something other than the JSON it documents, the
  exception class may differ. Foreign keys, triggers and constraints of the database beyond unique
  keys and widths of columns are not modelled. A keyboard interrupt reaches a program only through
  the primitive that was interrupted.

  \<^bold>\<open>Not modelled.\<close> The C++ services, Lua and SQL files, TypeScript and k6 scripts: other languages.
  \<open>Topology.read\<close>, \<open>HostClock\<close> and \<open>popen\<close> of \<open>phase14_topology.py\<close> (a pipe to a remote process
  and file modes). Of the campaign drivers \<open>run_phase14.py\<close>, \<open>phase14_campaign.py\<close> and
  \<open>phase14_core.py\<close> the bodies of \<open>execute_case\<close>, \<open>execute_expiry\<close>, \<open>g0_leg\<close> and \<open>init_once\<close>, which
  start containers and read files, the environments, and the qualification by hashes of files; the
  samplers of phase 14; and the comparison, archiving and report scripts of phases 15 to 19: they orchestrate the parts above or
  render their results; some are frozen copies of each other below \<open>experiments/\<close>. The unit tests
  of \<open>performance/tests\<close> and of the backend.
\<close>

end
